(* ===== verification/Prelude.thy ===== *)
theory Prelude
  imports Main
begin

text \<open>
  Shared vocabulary of the development: the error values of fallible functions
  (@anyhow::Error@ and @std::io::Error@), the result type and its sequencing, the
  saturating arithmetic of @usize@/@u64@, the shape of the process environment and of
  monotonic clocks, and generic lemmas on lists and maps used by several components.
  Byte strings (@String@, @[u8]@) are HOL character lists, one character per byte.
\<close>

subsection \<open>Errors as values\<close>

datatype io_kind =
    NotFound | AlreadyExists | PermissionDenied | NotADirectory | IsADirectory
  | DirectoryNotEmpty | InvalidInput | InvalidData | TooManyLinks | OtherIo

datatype error =
    Bail string
  | Io io_kind
  | Ctx string error
  | Ext string

type_synonym 'a res = "error + 'a"

abbreviation Ok :: "'a \<Rightarrow> 'a res" where "Ok \<equiv> Inr"
abbreviation Err :: "error \<Rightarrow> 'a res" where "Err \<equiv> Inl"

fun res_bind :: "'a res \<Rightarrow> ('a \<Rightarrow> 'b res) \<Rightarrow> 'b res" where
  "res_bind (Inl e) f = Inl e"
| "res_bind (Inr x) f = f x"

fun is_ok :: "'a res \<Rightarrow> bool" where
  "is_ok (Inl e) = False"
| "is_ok (Inr x) = True"

fun res_context :: "string \<Rightarrow> 'a res \<Rightarrow> 'a res" where
  "res_context m (Inl e) = Inl (Ctx m e)"
| "res_context m (Inr x) = Inr x"

text \<open>
  @to_string@ of an error shows its outermost message; the text of an I/O error is the system's.
\<close>

fun error_display :: "(io_kind \<Rightarrow> string) \<Rightarrow> error \<Rightarrow> string" where
  "error_display io_text (Bail s) = s"
| "error_display io_text (Io k) = io_text k"
| "error_display io_text (Ctx m e) = m"
| "error_display io_text (Ext s) = s"

named_theorems res_simps \<open>facts that open a successful or failed result\<close>

lemma res_bind_Inr_iff [res_simps]:
  "res_bind r f = Inr y \<longleftrightarrow> (\<exists>x. r = Inr x \<and> f x = Inr y)"
  by (cases r) auto

lemma res_bind_Inl_iff [res_simps]:
  "res_bind r f = Inl e \<longleftrightarrow> r = Inl e \<or> (\<exists>x. r = Inr x \<and> f x = Inl e)"
  by (cases r) auto

lemma is_ok_iff [res_simps]: "is_ok r \<longleftrightarrow> (\<exists>x. r = Inr x)"
  by (cases r) auto

lemma res_context_Inr_iff [res_simps]: "res_context m r = Inr y \<longleftrightarrow> r = Inr y"
  by (cases r) auto

subsection \<open>Machine integers\<close>

text \<open>@usize@ and @u64@ are 64 bits wide on the targets of the agent.\<close>

definition usize_max :: nat where "usize_max = 18446744073709551615"

text \<open>Signed and unsigned 64-bit arithmetic of the release build.\<close>

definition i64_wrap :: "int \<Rightarrow> int" where
  "i64_wrap x = (x + 9223372036854775808) mod 18446744073709551616 - 9223372036854775808"

definition u64_wrap :: "int \<Rightarrow> nat" where "u64_wrap x = nat (x mod 18446744073709551616)"

definition saturating_add :: "nat \<Rightarrow> nat \<Rightarrow> nat" where
  "saturating_add a b = min (a + b) usize_max"

text \<open>@saturating_sub@ on naturals is HOL's truncated subtraction.\<close>

lemma saturating_add_le [simp]: "saturating_add a b \<le> usize_max"
  by (simp add: saturating_add_def)

lemma saturating_add_exact: "a + b \<le> usize_max \<Longrightarrow> saturating_add a b = a + b"
  by (simp add: saturating_add_def)

lemma saturating_add_upper: "saturating_add a b \<le> a + b"
  by (simp add: saturating_add_def)

definition clamp :: "nat \<Rightarrow> nat \<Rightarrow> nat \<Rightarrow> nat" where
  "clamp v lo hi = (if v < lo then lo else if v > hi then hi else v)"

lemma clamp_bounds: "lo \<le> hi \<Longrightarrow> lo \<le> clamp v lo hi \<and> clamp v lo hi \<le> hi"
  by (simp add: clamp_def)

subsection \<open>Environment and clocks\<close>

type_synonym environment = "string \<rightharpoonup> string"

text \<open>
  Inside one call the readings of a monotonic clock are numbered: @clk i@ is the i-th
  reading (or the reading at program point i), in nanoseconds.
\<close>

type_synonym clock = "nat \<Rightarrow> nat"

definition mono_clock :: "clock \<Rightarrow> bool" where
  "mono_clock clk \<longleftrightarrow> (\<forall>i. clk i \<le> clk (Suc i))"

lemma mono_clockD: "mono_clock clk \<Longrightarrow> i \<le> j \<Longrightarrow> clk i \<le> clk j"
  by (rule lift_Suc_mono_le [of clk]) (auto simp: mono_clock_def)

subsection \<open>Lists and maps\<close>

lemma sum_list_filter_le: "sum_list (map f (filter P xs)) \<le> (sum_list (map f xs) :: nat)"
  by (induction xs) auto

lemma sum_list_drop_le: "sum_list (map f (drop n xs)) \<le> (sum_list (map f xs) :: nat)"
proof -
  have "sum_list (map f xs) = sum_list (map f (take n xs)) + sum_list (map f (drop n xs))"
    by (metis append_take_drop_id map_append sum_list_append)
  then show ?thesis by simp
qed

lemma member_le_sum_list_map: "x \<in> set xs \<Longrightarrow> f x \<le> (sum_list (map f xs) :: nat)"
  by (induction xs) auto

lemma finite_dom_upd [simp]: "finite (dom m) \<Longrightarrow> finite (dom (m(k := v)))"
  by (cases v) (auto simp: dom_def intro: finite_subset [of _ "insert k (dom m)"])


subsection \<open>Runs of a component\<close>

text \<open>A component that answers each input and moves to a new state, run on a list of inputs.\<close>

fun run_trace :: "('i \<Rightarrow> 's \<Rightarrow> 's \<times> 'o) \<Rightarrow> 'i list \<Rightarrow> 's \<Rightarrow> 's \<times> 'o list" where
  "run_trace step [] s = (s, [])"
| "run_trace step (i # is) s =
     (case step i s of (s', x) \<Rightarrow>
      case run_trace step is s' of (t, xs) \<Rightarrow> (t, x # xs))"

lemma run_trace_append:
  "run_trace step (is @ js) s =
     (fst (run_trace step js (fst (run_trace step is s))),
      snd (run_trace step is s) @ snd (run_trace step js (fst (run_trace step is s))))"
  by (induction "is" arbitrary: s) (auto split: prod.splits)

lemma length_run_trace [simp]: "length (snd (run_trace step is s)) = length is"
proof (induction "is" arbitrary: s)
  case (Cons i "is")
  then show ?case
    by (auto split: prod.splits) (metis snd_conv)
qed simp

text \<open>Durations are nanoseconds.\<close>

definition secs :: "nat \<Rightarrow> nat" where "secs n = n * 1000000000"

lemma secs_pos [simp]: "0 < n \<Longrightarrow> 0 < secs n"
  by (simp add: secs_def)

text \<open>@Instant::elapsed@ saturates at zero.\<close>

abbreviation (input) elapsed_since :: "nat \<Rightarrow> nat \<Rightarrow> nat" where
  "elapsed_since started now \<equiv> now - started"

lemma in_window_elapsed: "now < started + d \<Longrightarrow> 0 < d \<Longrightarrow> \<not> d \<le> elapsed_since started now"
  by linarith

end
