(* ===== verification/Paths.thy ===== *)
theory Paths
  imports Rust_Str
begin

text \<open>
  @core/paths.rs@ and the shell quoting of @core/process.rs@: validation of server
  identifiers, the data directories derived from them, confinement of requested paths to
  a root, and the choice of the data path inside a container.  A @PathBuf@ is the list of
  its components, as @Path::components@ yields them on Unix.
\<close>

subsection \<open>Paths as component lists\<close>

datatype component = RootDir | CurDir | ParentDir | Normal string

type_synonym path = "component list"

definition seg_components :: "string list \<Rightarrow> path" where
  "seg_components segs =
     concat (map (\<lambda>s. if s = [] \<or> s = ''.'' then []
                      else if s = ''..'' then [ParentDir] else [Normal s]) segs)"

text \<open>
  @Path::new(s).components()@: a leading slash is @RootDir@, a leading @.@ of a relative
  path is @CurDir@, every other empty or @.@ segment disappears.
\<close>

definition components :: "string \<Rightarrow> path" where
  "components s =
     (let segs = split_on (CHR ''/'') s in
      if s = [] then []
      else if hd segs = [] then RootDir # seg_components (tl segs)
      else if hd segs = ''.'' then CurDir # seg_components (tl segs)
      else seg_components segs)"

definition is_absolute :: "path \<Rightarrow> bool" where
  "is_absolute p = (case p of RootDir # _ \<Rightarrow> True | _ \<Rightarrow> False)"

text \<open>@PathBuf::join@: an absolute argument replaces the receiver.\<close>

definition path_join :: "path \<Rightarrow> path \<Rightarrow> path" where
  "path_join p q =
     (if is_absolute q then q
      else if p = [] then q
      else p @ filter (\<lambda>c. c \<noteq> CurDir) q)"

fun component_string :: "component \<Rightarrow> string" where
  "component_string RootDir = []"
| "component_string CurDir = ''.''"
| "component_string ParentDir = ''..''"
| "component_string (Normal s) = s"

definition path_string :: "path \<Rightarrow> string" where
  "path_string p = (if p = [RootDir] then ''/'' else join_with ''/'' (map component_string p))"

subsection \<open>Server directories\<close>

definition HOME_CONTAINER_PATH :: string where "HOME_CONTAINER_PATH = ''/home/container''"
definition DATA_CONTAINER_PATH :: string where "DATA_CONTAINER_PATH = ''/data''"
definition SERVER_RUNTIME_USER :: string where "SERVER_RUNTIME_USER = ''999:999''"

definition base_servers_dir :: "environment \<Rightarrow> path" where
  "base_servers_dir env =
     (case env ''AGAPORNIS_SERVERS_DIR'' of
        Some v \<Rightarrow> components v
      | None \<Rightarrow> components ''/var/lib/agapornis/servers'')"

definition validate_id :: "string \<Rightarrow> unit res" where
  "validate_id sid =
     (if sid = [] \<or> sid = ''.'' \<or> sid = ''..'' \<or> CHR ''/'' \<in> set sid
         \<or> CHR 0x5C \<in> set sid \<or> CHR 0x00 \<in> set sid
      then Err (Bail ''invalid server id'')
      else Ok ())"

definition server_dir :: "environment \<Rightarrow> string \<Rightarrow> path res" where
  "server_dir env sid =
     res_bind (validate_id sid) (\<lambda>_. Ok (path_join (base_servers_dir env) (components sid)))"

definition disk_limit_path :: "environment \<Rightarrow> string \<Rightarrow> path res" where
  "disk_limit_path env sid =
     res_bind (validate_id sid) (\<lambda>_.
       Ok (path_join (path_join (base_servers_dir env) (components ''.metadata''))
             (components (sid @ ''.disk-limit''))))"

definition config_files_path :: "environment \<Rightarrow> string \<Rightarrow> path res" where
  "config_files_path env sid =
     res_bind (validate_id sid) (\<lambda>_.
       Ok (path_join (path_join (base_servers_dir env) (components ''.metadata''))
             (components (sid @ ''.config-files.json''))))"

definition backup_dir :: "environment \<Rightarrow> string \<Rightarrow> path res" where
  "backup_dir env sid =
     res_bind (server_dir env sid) (\<lambda>d. Ok (path_join d (components ''.agapornis-backups'')))"

subsection \<open>Requested paths\<close>

text \<open>The loop of @relative@: the index of the component and the output so far.\<close>

fun relative_loop :: "nat \<Rightarrow> path \<Rightarrow> path \<Rightarrow> path res" where
  "relative_loop i out [] = Ok out"
| "relative_loop i out (c # cs) =
     (case c of
        Normal v \<Rightarrow> relative_loop (Suc i) (out @ [Normal v]) cs
      | CurDir \<Rightarrow> relative_loop (Suc i) out cs
      | RootDir \<Rightarrow> if i = 0 then relative_loop (Suc i) out cs
                   else Err (Bail ''invalid file path'')
      | ParentDir \<Rightarrow> Err (Bail ''invalid file path''))"

definition relative :: "string \<Rightarrow> path res" where
  "relative requested =
     relative_loop 0 [] (components (replace_char (CHR 0x5C) ''/'' requested))"

definition safe_host_path :: "path \<Rightarrow> string \<Rightarrow> path res" where
  "safe_host_path root requested =
     res_bind (relative requested) (\<lambda>rel. Ok (path_join root rel))"

definition container_path :: "string \<Rightarrow> string \<Rightarrow> string res" where
  "container_path root requested =
     res_bind (relative requested) (\<lambda>r.
       let rel = replace_char (CHR 0x5C) ''/'' (path_string r) in
       Ok (if rel = [] then root
           else trim_end_matches (CHR ''/'') root @ ''/'' @ rel))"

definition data_dir_keys :: "string list" where
  "data_dir_keys =
     [''AGAPORNIS_DATA_DIR'', ''SERVER_WORKDIR'', ''SERVER_DATA_DIR'', ''DATA_DIR'']"

fun data_path_env :: "string list \<Rightarrow> string option" where
  "data_path_env [] = None"
| "data_path_env (entry # rest) =
     (case split_once (CHR ''='') entry of
        Some (key, value) \<Rightarrow>
          if key \<in> set data_dir_keys \<and> starts_with ''/'' value \<and> \<not> str_contains ''..'' value
          then Some value else data_path_env rest
      | None \<Rightarrow> data_path_env rest)"

definition data_path :: "string \<Rightarrow> string list \<Rightarrow> string" where
  "data_path img env =
     (case data_path_env env of
        Some v \<Rightarrow> v
      | None \<Rightarrow>
          if str_contains ''itzg/'' (to_ascii_lowercase img)
             \<or> str_contains ''minecraft-server'' (to_ascii_lowercase img)
          then DATA_CONTAINER_PATH else HOME_CONTAINER_PATH)"

definition shell_quote :: "string \<Rightarrow> string" where
  "shell_quote value = [CHR 0x27] @ replace_char (CHR 0x27) [CHR 0x27, CHR 0x5C, CHR 0x27, CHR 0x27] value @ [CHR 0x27]"


subsection \<open>Server directories are direct children of the base\<close>

lemma components_plain:
  "s \<noteq> [] \<Longrightarrow> CHR ''/'' \<notin> set s \<Longrightarrow> s \<noteq> ''.'' \<Longrightarrow> s \<noteq> ''..'' \<Longrightarrow> components s = [Normal s]"
  by (simp add: components_def split_on_no_sep seg_components_def)

definition valid_id :: "string \<Rightarrow> bool" where
  "valid_id sid \<longleftrightarrow> sid \<noteq> [] \<and> sid \<noteq> ''.'' \<and> sid \<noteq> ''..'' \<and>
     CHR ''/'' \<notin> set sid \<and> CHR 0x5C \<notin> set sid \<and> CHR 0x00 \<notin> set sid"

lemma validate_id_iff: "validate_id sid = Ok () \<longleftrightarrow> valid_id sid"
  by (auto simp: validate_id_def valid_id_def)

lemma validate_id_Err: "\<not> valid_id sid \<Longrightarrow> validate_id sid = Err (Bail ''invalid server id'')"
  by (auto simp: validate_id_def valid_id_def)

lemma components_valid_id: "valid_id sid \<Longrightarrow> components sid = [Normal sid]"
  by (simp add: valid_id_def components_plain)

lemma path_join_single: "path_join p [Normal s] = p @ [Normal s]"
  by (simp add: path_join_def is_absolute_def)

lemma server_dir_eq:
  "server_dir env sid =
     (if valid_id sid then Ok (base_servers_dir env @ [Normal sid])
      else Err (Bail ''invalid server id''))"
proof (cases "valid_id sid")
  case True
  then have "validate_id sid = Ok ()" by (simp add: validate_id_iff)
  with True show ?thesis
    by (simp add: server_dir_def components_valid_id path_join_single)
qed (simp add: server_dir_def validate_id_Err)

lemma metadata_name:
  "valid_id sid \<Longrightarrow> suffix \<in> {''.disk-limit'', ''.config-files.json''} \<Longrightarrow>
   components (sid @ suffix) = [Normal (sid @ suffix)]"
  by (rule components_plain) (auto simp: valid_id_def append_eq_Cons_conv)

lemma components_metadata: "components ''.metadata'' = [Normal ''.metadata'']"
  by (rule components_plain) auto

lemma disk_limit_path_eq:
  "valid_id sid \<Longrightarrow> disk_limit_path env sid =
     Ok (base_servers_dir env @ [Normal ''.metadata'', Normal (sid @ ''.disk-limit'')])"
  using validate_id_iff [of sid]
  by (simp add: disk_limit_path_def metadata_name components_metadata path_join_single)

lemma config_files_path_eq:
  "valid_id sid \<Longrightarrow> config_files_path env sid =
     Ok (base_servers_dir env @ [Normal ''.metadata'', Normal (sid @ ''.config-files.json'')])"
  using validate_id_iff [of sid]
  by (simp add: config_files_path_def metadata_name components_metadata path_join_single)

lemma backup_dir_eq:
  "valid_id sid \<Longrightarrow> backup_dir env sid =
     Ok (base_servers_dir env @ [Normal sid, Normal ''.agapornis-backups''])"
  by (simp add: backup_dir_def server_dir_eq components_plain path_join_single)

subsection \<open>Requested paths are confined to their root\<close>

definition dir_sep_normal :: "string \<Rightarrow> string" where
  "dir_sep_normal s = replace_char (CHR 0x5C) ''/'' s"

definition plain_segments :: "string \<Rightarrow> string list" where
  "plain_segments s = filter (\<lambda>x. x \<noteq> [] \<and> x \<noteq> ''.'') (split_on (CHR ''/'') (dir_sep_normal s))"

lemma relative_loop_segs:
  "relative_loop (Suc i) out (seg_components segs) =
     (if ''..'' \<in> set segs then Err (Bail ''invalid file path'')
      else Ok (out @ map Normal (filter (\<lambda>x. x \<noteq> [] \<and> x \<noteq> ''.'') segs)))"
  by (induction segs arbitrary: i out) (auto simp: seg_components_def)

lemma relative_loop_segs0:
  "relative_loop 0 out (seg_components segs) =
     (if ''..'' \<in> set segs then Err (Bail ''invalid file path'')
      else Ok (out @ map Normal (filter (\<lambda>x. x \<noteq> [] \<and> x \<noteq> ''.'') segs)))"
proof (induction segs arbitrary: out)
  case (Cons s segs)
  then show ?case
    using relative_loop_segs [of 0 "out @ [Normal s]" segs]
    by (cases "s = [] \<or> s = ''.''") (auto simp: seg_components_def)
qed (simp add: seg_components_def)

lemma relative_eq:
  "relative r =
     (if ''..'' \<in> set (split_on (CHR ''/'') (dir_sep_normal r))
      then Err (Bail ''invalid file path'')
      else Ok (map Normal (plain_segments r)))"
proof -
  let ?n = "dir_sep_normal r"
  obtain p ps where sp: "split_on (CHR ''/'') ?n = p # ps"
    by (cases "split_on (CHR ''/'') ?n") auto
  consider "?n = []" | "?n \<noteq> []" "p = []" | "?n \<noteq> []" "p = ''.''" | "?n \<noteq> []" "p \<noteq> []" "p \<noteq> ''.''"
    by blast
  then show ?thesis
  proof cases
    case 1
    then show ?thesis
      by (simp add: relative_def components_def plain_segments_def flip: dir_sep_normal_def)
  next
    case 4
    then have "components ?n = seg_components (p # ps)" by (simp add: components_def sp)
    then show ?thesis
      using relative_loop_segs0 [of "[]" "p # ps"]
      by (simp add: relative_def plain_segments_def sp del: relative_loop.simps flip: dir_sep_normal_def)
  qed (auto simp: relative_def components_def plain_segments_def sp relative_loop_segs
        simp flip: dir_sep_normal_def)
qed

lemma plain_segments_clean:
  "x \<in> set (plain_segments r) \<Longrightarrow> x \<noteq> [] \<and> x \<noteq> ''.'' \<and> CHR ''/'' \<notin> set x \<and> CHR 0x5C \<notin> set x"
proof -
  assume x: "x \<in> set (plain_segments r)"
  then have "x \<in> set (split_on (CHR ''/'') (dir_sep_normal r))" by (simp add: plain_segments_def)
  moreover have "CHR 0x5C \<notin> set (dir_sep_normal r)"
    by (simp add: dir_sep_normal_def set_replace_char)
  ultimately show ?thesis
    using x set_split_on [of x "CHR ''/''" "dir_sep_normal r"] by (auto simp: plain_segments_def)
qed

text \<open>The names a confined path may append to its root.\<close>

definition plain_name :: "string \<Rightarrow> bool" where
  "plain_name x \<longleftrightarrow> x \<noteq> [] \<and> x \<noteq> ''.'' \<and> x \<noteq> ''..'' \<and> CHR ''/'' \<notin> set x \<and> CHR 0x5C \<notin> set x"

lemma relative_names:
  assumes "relative r = Ok p"
  obtains names where "p = map Normal names" "list_all plain_name names"
proof
  show "p = map Normal (plain_segments r)"
    using assms by (simp add: relative_eq split: if_splits)
  show "list_all plain_name (plain_segments r)"
    using assms plain_segments_clean [of _ r]
    by (auto simp: relative_eq list_all_iff plain_name_def plain_segments_def split: if_splits)
qed

lemma path_join_normals: "path_join root (map Normal names) = root @ map Normal names"
  by (cases names) (auto simp: path_join_def is_absolute_def filter_map o_def)

lemma safe_host_path_names:
  "safe_host_path root r = Ok p \<Longrightarrow> \<exists>names. p = root @ map Normal names \<and> list_all plain_name names"
  by (auto simp: safe_host_path_def res_simps path_join_normals elim!: relative_names)

lemma relative_path_string:
  assumes "list_all plain_name names"
  shows "relative (path_string (map Normal names)) = Ok (map Normal names)"
proof (cases "names = []")
  case True
  then show ?thesis by (simp add: relative_eq plain_segments_def path_string_def dir_sep_normal_def)
next
  case False
  let ?s = "join_with ''/'' names"
  have ps: "path_string (map Normal names) = ?s"
    by (cases names) (auto simp: path_string_def o_def)
  have "CHR 0x5C \<notin> set ?s"
    using join_with_set [of "''/''" names] assms by (fastforce simp: list_all_iff plain_name_def)
  then have n: "dir_sep_normal ?s = ?s" by (simp add: dir_sep_normal_def replace_char_id)
  have sp: "split_on (CHR ''/'') ?s = names"
    using assms False by (intro split_on_join) (auto simp: list_all_iff plain_name_def)
  have "filter (\<lambda>x. x \<noteq> [] \<and> x \<noteq> ''.'') names = names" "''..'' \<notin> set names"
    using assms by (auto simp: filter_id_conv list_all_iff plain_name_def)
  then show ?thesis by (simp add: relative_eq plain_segments_def ps n sp)
qed

lemma path_string_normals: "path_string (map Normal names) = join_with ''/'' names"
  by (cases names) (auto simp: path_string_def o_def)

lemma container_path_eq:
  assumes "relative r = Ok (map Normal names)" "list_all plain_name names"
  shows "container_path root r =
     Ok (if names = [] then root
         else trim_end_matches (CHR ''/'') root @ ''/'' @ join_with ''/'' names)"
proof -
  have "CHR 0x5C \<notin> set (join_with ''/'' names)"
    using join_with_set [of "''/''" names] assms(2) by (fastforce simp: list_all_iff plain_name_def)
  moreover have "join_with ''/'' names = [] \<longleftrightarrow> names = []"
    using assms(2) by (cases "(''/'', names)" rule: join_with.cases) (auto simp: plain_name_def)
  ultimately show ?thesis
    using assms(1) by (simp add: container_path_def path_string_normals replace_char_id Let_def)
qed

subsection \<open>The data path of a container\<close>

lemma data_path_env_Some:
  "data_path_env env = Some v \<Longrightarrow> starts_with ''/'' v \<and> \<not> str_contains ''..'' v"
  by (induction env) (auto split: option.splits prod.splits if_splits)

lemma data_path_cases:
  "data_path img env \<in> {DATA_CONTAINER_PATH, HOME_CONTAINER_PATH} \<or>
   data_path_env env = Some (data_path img env)"
  by (auto simp: data_path_def split: option.splits)

subsection \<open>Shell quoting\<close>

text \<open>
  The words of a POSIX shell command line made of plain, single-quoted and
  backslash-escaped text; any other unquoted special character is outside the
  specification and reads as no command line.
\<close>

datatype sh_state = Gap | Word string | Quote string | Esc string

definition sh_special :: "char \<Rightarrow> bool" where
  "sh_special c \<longleftrightarrow> c \<in> set (''|&;<>()$`*?[]#~=%!{}'' @ [CHR 0x22, CHR 0x09, CHR 0x0A])"

fun sh_words :: "sh_state \<Rightarrow> string \<Rightarrow> string list option" where
  "sh_words Gap [] = Some []"
| "sh_words (Word w) [] = Some [w]"
| "sh_words (Quote w) [] = None"
| "sh_words (Esc w) [] = None"
| "sh_words (Quote w) (c # cs) =
     (if c = CHR 0x27 then sh_words (Word w) cs else sh_words (Quote (w @ [c])) cs)"
| "sh_words (Esc w) (c # cs) = sh_words (Word (w @ [c])) cs"
| "sh_words Gap (c # cs) =
     (if c = CHR '' '' then sh_words Gap cs
      else if c = CHR 0x27 then sh_words (Quote []) cs
      else if c = CHR 0x5C then sh_words (Esc []) cs
      else if sh_special c then None else sh_words (Word [c]) cs)"
| "sh_words (Word w) (c # cs) =
     (if c = CHR '' '' then map_option (\<lambda>ws. w # ws) (sh_words Gap cs)
      else if c = CHR 0x27 then sh_words (Quote w) cs
      else if c = CHR 0x5C then sh_words (Esc w) cs
      else if sh_special c then None else sh_words (Word (w @ [c])) cs)"

lemma sh_words_quoted:
  "sh_words (Quote w)
     (replace_char (CHR 0x27) [CHR 0x27, CHR 0x5C, CHR 0x27, CHR 0x27] v @ CHR 0x27 # rest) =
   sh_words (Word (w @ v)) rest"
  by (induction v arbitrary: w) auto

lemma sh_words_shell_quote:
  "sh_words Gap (shell_quote v @ rest) = sh_words (Word v) rest"
  by (simp add: shell_quote_def sh_words_quoted)

text \<open>C2: quoting each argument with @shell_quote@ and joining them with blanks gives a
  command line whose words, as a POSIX shell reads them, are exactly the arguments.\<close>

theorem shell_quote_roundtrip:
  "sh_words Gap (join_with '' '' (map shell_quote args)) = Some args"
proof (induction args)
  case (Cons a args)
  then show ?case
    using sh_words_shell_quote [of a "[]"] sh_words_shell_quote [of a]
    by (cases args) (auto simp: join_with_Cons)
qed simp

text \<open>C1: a requested path that @safe_host_path@ accepts is the root followed by plain
  names only (never @..@, a root or a separator), and a path is rejected exactly when one of
  its segments, after turning backslashes into slashes, is @..@.\<close>

theorem safe_host_path_confined:
  "(if ''..'' \<in> set (split_on (CHR ''/'') (replace_char (CHR 0x5C) ''/'' r))
    then safe_host_path root r = Err (Bail ''invalid file path'')
    else (\<exists>names. safe_host_path root r = Ok (root @ map Normal names) \<and> list_all plain_name names \<and>
           relative (path_string (map Normal names)) = Ok (map Normal names)))"
proof (cases "''..'' \<in> set (split_on (CHR ''/'') (dir_sep_normal r))")
  case True
  then show ?thesis by (simp add: safe_host_path_def relative_eq flip: dir_sep_normal_def)
next
  case False
  then have rel: "relative r = Ok (map Normal (plain_segments r))" by (simp add: relative_eq)
  then have "list_all plain_name (plain_segments r)"
    by (metis relative_names inj_map_eq_map injI component.inject Inr_inject)
  with rel False show ?thesis
    by (auto simp: safe_host_path_def path_join_normals relative_path_string simp flip: dir_sep_normal_def)
qed

text \<open>Lemma: every accepted server id owns one direct child of the base directory, different
  ids own different children, and the metadata paths of a server are never inside any
  server's data directory.\<close>

theorem server_dirs_separate:
  assumes "server_dir env a = Ok da" "server_dir env b = Ok db" "a \<noteq> b"
  shows "da = base_servers_dir env @ [Normal a] \<and> da \<noteq> db \<and>
         (a \<noteq> ''.metadata'' \<longrightarrow>
           (\<exists>m. config_files_path env b = Ok m \<and> take (length da) m \<noteq> da) \<and>
           (\<exists>m. disk_limit_path env b = Ok m \<and> take (length da) m \<noteq> da))"
  using assms
  by (auto simp: server_dir_eq config_files_path_eq disk_limit_path_eq split: if_splits)

theorem server_dirs_separate_witness:
  "server_dir (\<lambda>_. None) ''a'' =
     Ok [RootDir, Normal ''var'', Normal ''lib'', Normal ''agapornis'', Normal ''servers'', Normal ''a''] \<and>
   (\<exists>m. config_files_path (\<lambda>_. None) ''b'' = Ok m \<and> take 6 m \<noteq>
     [RootDir, Normal ''var'', Normal ''lib'', Normal ''agapornis'', Normal ''servers'', Normal ''a''])"
proof -
  have base: "base_servers_dir (\<lambda>_. None) =
    [RootDir, Normal ''var'', Normal ''lib'', Normal ''agapornis'', Normal ''servers'']"
    by (simp add: base_servers_dir_def components_def seg_components_def)
  have a: "server_dir (\<lambda>_. None) ''a'' = Ok (base_servers_dir (\<lambda>_. None) @ [Normal ''a''])"
    and b: "server_dir (\<lambda>_. None) ''b'' = Ok (base_servers_dir (\<lambda>_. None) @ [Normal ''b''])"
    by (simp_all add: server_dir_eq valid_id_def)
  show ?thesis
    using server_dirs_separate [OF a b] a by (simp add: base eval_nat_numeral)
qed

end
