(* ===== verification/Protection.thy ===== *)
theory Protection
  imports Rust_Str
begin

text \<open>
  @security/protection.rs@: the console line limiter with its strikes, the command limiter,
  the server status marks and the manual recovery window.  Each @HashMap@ behind a mutex is
  a finite map; a call reads the clock at numbered program points.
\<close>

record rate =
  r_started :: nat
  r_count :: nat

record console_rate =
  c_started :: nat
  c_count :: nat
  c_strikes :: nat
  c_last_strike :: "nat option"
  c_exceeded :: bool

datatype line_decision = Allow | Suppress | Notify | Trip

record protection_state =
  ps_commands :: "string \<rightharpoonup> rate"
  ps_console :: "string \<rightharpoonup> console_rate"
  ps_statuses :: "string \<rightharpoonup> string"
  ps_recovery :: "string \<rightharpoonup> nat"
  console_lines_per_second :: nat
  console_strike_limit :: nat
  console_max_line_length :: nat
  console_commands_per_5_seconds :: nat

definition env_usize :: "environment \<Rightarrow> string \<Rightarrow> nat \<Rightarrow> nat" where
  "env_usize env name fallback =
     (case Option.bind (env name) (parse_unsigned usize_max) of
        Some v \<Rightarrow> if v > 0 then v else fallback
      | None \<Rightarrow> fallback)"

definition protection_default :: "environment \<Rightarrow> protection_state" where
  "protection_default env =
     \<lparr> ps_commands = Map.empty, ps_console = Map.empty, ps_statuses = Map.empty,
       ps_recovery = Map.empty,
       console_lines_per_second = env_usize env ''AGAPORNIS_CONSOLE_LINES_PER_SECOND'' 2000,
       console_strike_limit = env_usize env ''AGAPORNIS_CONSOLE_STRIKE_LIMIT'' 3,
       console_max_line_length = env_usize env ''AGAPORNIS_CONSOLE_MAX_LINE_LENGTH'' 16384,
       console_commands_per_5_seconds =
         env_usize env ''AGAPORNIS_CONSOLE_COMMANDS_PER_5_SECONDS'' 20 \<rparr>"

subsection \<open>Console lines\<close>

text \<open>
  The body of @observe_line@ on the entry of one server.  Program points: 0 the entry's
  creation, 1 the strike cool-down, 2 the window test, 3 the window restart, 4 the strike.
\<close>

definition fresh_console_rate :: "clock \<Rightarrow> console_rate" where
  "fresh_console_rate clk =
     \<lparr> c_started = clk 0, c_count = 0, c_strikes = 0, c_last_strike = None, c_exceeded = False \<rparr>"

definition strike_cooldown :: "clock \<Rightarrow> console_rate \<Rightarrow> console_rate" where
  "strike_cooldown clk r =
     (case c_last_strike r of
        Some ls \<Rightarrow> if elapsed_since ls (clk 1) \<ge> secs 10
                   then r\<lparr> c_strikes := 0, c_last_strike := None \<rparr> else r
      | None \<Rightarrow> r)"

definition window_restart :: "clock \<Rightarrow> console_rate \<Rightarrow> console_rate" where
  "window_restart clk r =
     (if elapsed_since (c_started r) (clk 2) \<ge> secs 1
      then r\<lparr> c_started := clk 3, c_count := 0, c_exceeded := False \<rparr> else r)"

definition count_line :: "nat \<Rightarrow> nat \<Rightarrow> clock \<Rightarrow> console_rate \<Rightarrow> console_rate \<times> line_decision" where
  "count_line lines_limit strike_limit clk r0 =
     (let r = r0\<lparr> c_count := c_count r0 + 1 \<rparr> in
      if c_count r \<le> lines_limit then (r, Allow)
      else if c_exceeded r then (r, Suppress)
      else
        let r = r\<lparr> c_exceeded := True, c_strikes := c_strikes r + 1,
                   c_last_strike := Some (clk 4) \<rparr> in
        (r, if c_strikes r \<ge> strike_limit then Trip
            else if c_strikes r = 1 then Notify else Suppress))"

definition observe_rate :: "nat \<Rightarrow> nat \<Rightarrow> clock \<Rightarrow> console_rate \<Rightarrow> console_rate \<times> line_decision" where
  "observe_rate lines_limit strike_limit clk r =
     count_line lines_limit strike_limit clk (window_restart clk (strike_cooldown clk r))"

definition observe_line :: "string \<Rightarrow> clock \<Rightarrow> protection_state \<Rightarrow> protection_state \<times> line_decision" where
  "observe_line sid clk st =
     (let r = (case ps_console st sid of Some r \<Rightarrow> r | None \<Rightarrow> fresh_console_rate clk);
          (r', d) = observe_rate (console_lines_per_second st) (console_strike_limit st) clk r
      in (st\<lparr> ps_console := (ps_console st)(sid \<mapsto> r') \<rparr>, d))"

subsection \<open>Commands, statuses and recovery\<close>

text \<open>Program points of @accept_command@: 0 creation, 1 window test, 2 window restart.\<close>

definition accept_rate :: "nat \<Rightarrow> clock \<Rightarrow> rate \<Rightarrow> rate \<times> bool" where
  "accept_rate limit clk r0 =
     (let r1 = (if elapsed_since (r_started r0) (clk 1) \<ge> secs 5
                then r0\<lparr> r_started := clk 2, r_count := 0 \<rparr> else r0);
          r2 = r1\<lparr> r_count := r_count r1 + 1 \<rparr>
      in (r2, r_count r2 \<le> limit))"

definition accept_command :: "string \<Rightarrow> clock \<Rightarrow> protection_state \<Rightarrow> protection_state \<times> bool" where
  "accept_command sid clk st =
     (let r = (case ps_commands st sid of Some r \<Rightarrow> r
               | None \<Rightarrow> \<lparr> r_started = clk 0, r_count = 0 \<rparr>);
          (r', ok) = accept_rate (console_commands_per_5_seconds st) clk r
      in (st\<lparr> ps_commands := (ps_commands st)(sid \<mapsto> r') \<rparr>, ok))"

definition status :: "string \<Rightarrow> protection_state \<Rightarrow> string option" where
  "status sid st = ps_statuses st sid"

definition mark :: "string \<Rightarrow> string \<Rightarrow> protection_state \<Rightarrow> protection_state" where
  "mark sid s st = st\<lparr> ps_statuses := (ps_statuses st)(sid \<mapsto> s) \<rparr>"

definition clear_disk :: "string \<Rightarrow> protection_state \<Rightarrow> protection_state" where
  "clear_disk sid st =
     (if ps_statuses st sid = Some ''disk-limit-exceeded''
      then st\<lparr> ps_statuses := (ps_statuses st)(sid := None) \<rparr> else st)"

definition manual_recovery :: "string \<Rightarrow> clock \<Rightarrow> protection_state \<Rightarrow> protection_state" where
  "manual_recovery sid clk st =
     st\<lparr> ps_statuses := (ps_statuses st)(sid := None),
         ps_recovery := (ps_recovery st)(sid \<mapsto> clk 0 + secs 120) \<rparr>"

definition in_manual_recovery :: "string \<Rightarrow> clock \<Rightarrow> protection_state \<Rightarrow> protection_state \<times> bool" where
  "in_manual_recovery sid clk st =
     (case ps_recovery st sid of
        Some until \<Rightarrow>
          if until > clk 0 then (st, True)
          else (st\<lparr> ps_recovery := (ps_recovery st)(sid := None) \<rparr>, False)
      | None \<Rightarrow> (st, False))"

definition protection_remove :: "string \<Rightarrow> protection_state \<Rightarrow> protection_state" where
  "protection_remove sid st =
     st\<lparr> ps_commands := (ps_commands st)(sid := None),
         ps_console := (ps_console st)(sid := None),
         ps_statuses := (ps_statuses st)(sid := None),
         ps_recovery := (ps_recovery st)(sid := None) \<rparr>"

subsection \<open>A windowed limiter\<close>

text \<open>
  What both limiters promise while their window lasts: the window stays, every call is
  counted, and a call passes exactly while the count is below the limit.
\<close>

locale window_limiter =
  fixes step :: "clock \<Rightarrow> 'r \<Rightarrow> 'r \<times> bool"
    and in_window :: "clock \<Rightarrow> 'r \<Rightarrow> bool"
    and window :: "'r \<Rightarrow> nat" and count :: "'r \<Rightarrow> nat" and limit :: nat
  assumes count_step: "in_window clk r \<Longrightarrow> count (fst (step clk r)) = Suc (count r)"
    and window_step: "in_window clk r \<Longrightarrow> window (fst (step clk r)) = window r"
    and passes: "in_window clk r \<Longrightarrow> snd (step clk r) = (count r < limit)"
    and in_window_cong: "window r = window r' \<Longrightarrow> in_window clk r = in_window clk r'"
begin

lemma window_run:
  assumes "\<forall>clk \<in> set clks. in_window clk r"
  shows "snd (run_trace step clks r) =
      replicate (min (length clks) (limit - count r)) True @
      replicate (length clks - (limit - count r)) False \<and>
    count (fst (run_trace step clks r)) = count r + length clks \<and>
    window (fst (run_trace step clks r)) = window r"
  using assms
proof (induction clks arbitrary: r)
  case (Cons clk clks)
  obtain r' b where s: "step clk r = (r', b)" by (cases "step clk r")
  have w: "in_window clk r" using Cons.prems by simp
  have c: "count r' = Suc (count r)" "window r' = window r" "b = (count r < limit)"
    using count_step [OF w] window_step [OF w] passes [OF w] s by auto
  have in': "\<forall>clk \<in> set clks. in_window clk r'"
    using Cons.prems in_window_cong [OF c(2)] by auto
  obtain t bs where t: "run_trace step clks r' = (t, bs)" by (cases "run_trace step clks r'")
  have IH: "bs = replicate (min (length clks) (limit - count r')) True @
      replicate (length clks - (limit - count r')) False"
    "count t = count r' + length clks" "window t = window r'"
    using Cons.IH [OF in'] t by auto
  show ?case
  proof (cases "count r < limit")
    case True
    then have "limit - count r = Suc (limit - count r')" using c by simp
    with IH s t c True show ?thesis by simp
  next
    case False
    then have "limit - count r = 0" "limit - count r' = 0" using c by auto
    with IH s t c False show ?thesis by simp
  qed
qed simp

lemma passed_in_window:
  assumes "\<forall>clk \<in> set clks. in_window clk r"
  shows "length (filter (\<lambda>b. b) (snd (run_trace step clks r))) = min (length clks) (limit - count r)"
  using window_run [OF assms] by simp

end

definition command_in_window :: "clock \<Rightarrow> rate \<Rightarrow> bool" where
  "command_in_window clk r \<longleftrightarrow> clk 1 < r_started r + secs 5"

definition line_in_window :: "clock \<Rightarrow> console_rate \<Rightarrow> bool" where
  "line_in_window clk r \<longleftrightarrow> clk 2 < c_started r + secs 1"

interpretation command_limiter:
  window_limiter "accept_rate limit" command_in_window r_started r_count limit for limit
  by unfold_locales
    (auto simp: accept_rate_def command_in_window_def Let_def dest: in_window_elapsed)

lemma strike_cooldown_sel [simp]:
  "c_started (strike_cooldown clk r) = c_started r"
  "c_count (strike_cooldown clk r) = c_count r"
  "c_exceeded (strike_cooldown clk r) = c_exceeded r"
  by (auto simp: strike_cooldown_def split: option.splits)

lemma window_restart_in_window:
  "line_in_window clk r \<Longrightarrow> window_restart clk (strike_cooldown clk r) = strike_cooldown clk r"
  by (auto simp: window_restart_def line_in_window_def dest: in_window_elapsed)

definition allow_step :: "nat \<Rightarrow> nat \<Rightarrow> clock \<Rightarrow> console_rate \<Rightarrow> console_rate \<times> bool" where
  "allow_step lines_limit strike_limit clk r =
     (case observe_rate lines_limit strike_limit clk r of (r', d) \<Rightarrow> (r', d = Allow))"

interpretation line_limiter:
  window_limiter "allow_step lines strikes" line_in_window c_started c_count lines for lines strikes
  by unfold_locales
    (auto simp: allow_step_def observe_rate_def window_restart_in_window count_line_def Let_def,
     auto simp: line_in_window_def)


subsection \<open>Traces over all servers\<close>

definition observe_event :: "string \<times> clock \<Rightarrow> protection_state \<Rightarrow> protection_state \<times> line_decision" where
  "observe_event e st = observe_line (fst e) (snd e) st"

definition command_event :: "string \<times> clock \<Rightarrow> protection_state \<Rightarrow> protection_state \<times> bool" where
  "command_event e st = accept_command (fst e) (snd e) st"

text \<open>The clocks of one server's events, and the answers they got.\<close>

definition clocks_of :: "string \<Rightarrow> (string \<times> clock) list \<Rightarrow> clock list" where
  "clocks_of sid es = map snd (filter (\<lambda>e. fst e = sid) es)"

definition answers_of :: "string \<Rightarrow> (string \<times> clock) list \<Rightarrow> 'o list \<Rightarrow> 'o list" where
  "answers_of sid es ds = map snd (filter (\<lambda>(e, d). fst e = sid) (zip es ds))"

lemma answers_of_Cons:
  "answers_of sid (e # es) (d # ds) =
     (if fst e = sid then d # answers_of sid es ds else answers_of sid es ds)"
  by (simp add: answers_of_def)

lemma clocks_of_Cons:
  "clocks_of sid (e # es) = (if fst e = sid then snd e # clocks_of sid es else clocks_of sid es)"
  by (simp add: clocks_of_def)

lemma answers_of_Nil [simp]: "answers_of sid [] ds = []" "clocks_of sid [] = []"
  by (simp_all add: answers_of_def clocks_of_def)

lemma observe_line_limits [simp]:
  "console_lines_per_second (fst (observe_line sid clk st)) = console_lines_per_second st"
  "console_strike_limit (fst (observe_line sid clk st)) = console_strike_limit st"
  by (auto simp: observe_line_def Let_def split: prod.splits)

lemma observe_line_own:
  "ps_console st sid = Some r \<Longrightarrow>
   observe_rate (console_lines_per_second st) (console_strike_limit st) clk r = (r', d) \<Longrightarrow>
   ps_console (fst (observe_line sid clk st)) sid = Some r' \<and> snd (observe_line sid clk st) = d"
  by (auto simp: observe_line_def Let_def)

lemma observe_line_other:
  "sid \<noteq> other \<Longrightarrow> ps_console (fst (observe_line other clk st)) sid = ps_console st sid"
  by (auto simp: observe_line_def Let_def split: prod.splits)

lemma observe_projection:
  assumes "ps_console st sid = Some r"
  shows "answers_of sid es (snd (run_trace observe_event es st)) =
         snd (run_trace (observe_rate (console_lines_per_second st) (console_strike_limit st))
                (clocks_of sid es) r)"
  using assms
proof (induction es arbitrary: st r)
  case (Cons e es)
  obtain r' d where o: "observe_rate (console_lines_per_second st) (console_strike_limit st) (snd e) r = (r', d)"
    by (metis surj_pair)
  obtain st' x where s: "observe_event e st = (st', x)" by (metis surj_pair)
  then have lim: "console_lines_per_second st' = console_lines_per_second st"
    "console_strike_limit st' = console_strike_limit st"
    by (metis fst_conv observe_event_def observe_line_limits)+
  obtain u xs where t: "run_trace observe_event es st' = (u, xs)" by (metis surj_pair)
  show ?case
  proof (cases "fst e = sid")
    case True
    with observe_line_own [OF Cons.prems o] s have "ps_console st' sid = Some r'" "x = d"
      by (metis fst_conv observe_event_def, metis snd_conv True observe_event_def)
    with Cons.IH [of st' r'] s t lim o True show ?thesis
      by (simp add: answers_of_Cons clocks_of_Cons split: prod.splits)
  next
    case False
    then have "ps_console st' sid = Some r"
      using observe_line_other Cons.prems s by (metis fst_conv observe_event_def)
    with Cons.IH [of st' r] s t lim False show ?thesis
      by (simp add: answers_of_Cons clocks_of_Cons)
  qed
qed simp

lemma observe_rate_in_window:
  assumes "line_in_window clk r" "observe_rate l k clk r = (r', d)"
  shows "c_started r' = c_started r \<and> c_count r' = Suc (c_count r) \<and>
         (d = Allow \<longleftrightarrow> c_count r < l) \<and>
         (c_count r < l \<longrightarrow> c_exceeded r' = c_exceeded r) \<and>
         (\<not> c_count r < l \<longrightarrow> c_exceeded r') \<and>
         (\<not> c_count r < l \<and> c_exceeded r \<longrightarrow> d = Suppress)"
  using assms(2) window_restart_in_window [OF assms(1)]
  by (auto simp: observe_rate_def count_line_def Let_def split: if_splits)

lemma observe_run_exceeded:
  assumes "\<forall>clk \<in> set clks. line_in_window clk r" "c_exceeded r" "l \<le> c_count r"
  shows "snd (run_trace (observe_rate l k) clks r) = replicate (length clks) Suppress"
  using assms
proof (induction clks arbitrary: r)
  case (Cons clk clks)
  obtain r' d where s: "observe_rate l k clk r = (r', d)" by (metis surj_pair)
  from observe_rate_in_window [OF _ s] Cons.prems
  have r': "c_started r' = c_started r" "c_exceeded r'" "l \<le> c_count r'" "d = Suppress" by auto
  then have "\<forall>clk \<in> set clks. line_in_window clk r'"
    using Cons.prems by (simp add: line_in_window_def)
  from Cons.IH [OF this r'(2,3)] s r'(4) show ?case by (auto split: prod.splits)
qed simp

lemma observe_run_window:
  assumes "\<forall>clk \<in> set clks. line_in_window clk r" "\<not> c_exceeded r"
  shows "\<exists>d. d \<noteq> Allow \<and> snd (run_trace (observe_rate l k) clks r) =
     (if length clks \<le> l - c_count r then replicate (length clks) Allow
      else replicate (l - c_count r) Allow @ d # replicate (length clks - (l - c_count r) - 1) Suppress)"
  using assms
proof (induction clks arbitrary: r)
  case Nil
  then show ?case by (auto intro: exI [of _ Trip])
next
  case (Cons clk clks)
  obtain r' d where s: "observe_rate l k clk r = (r', d)" by (metis surj_pair)
  have w: "line_in_window clk r" using Cons.prems by simp
  note r' = observe_rate_in_window [OF w s]
  then have in': "\<forall>clk \<in> set clks. line_in_window clk r'"
    using Cons.prems by (simp add: line_in_window_def)
  show ?case
  proof (cases "c_count r < l")
    case True
    then have "\<not> c_exceeded r'" "d = Allow" "l - c_count r = Suc (l - c_count r')"
      using r' Cons.prems(2) by auto
    with Cons.IH [OF in'] s show ?thesis by (auto split: prod.splits if_splits)
  next
    case False
    then have "snd (run_trace (observe_rate l k) clks r') = replicate (length clks) Suppress"
      using observe_run_exceeded [OF in'] r' by auto
    with s False r' show ?thesis by (auto split: prod.splits)
  qed
qed

lemma command_projection:
  assumes "ps_commands st sid = Some r"
  shows "answers_of sid es (snd (run_trace command_event es st)) =
         snd (run_trace (accept_rate (console_commands_per_5_seconds st)) (clocks_of sid es) r)"
  using assms
proof (induction es arbitrary: st r)
  case (Cons e es)
  obtain r' d where o: "accept_rate (console_commands_per_5_seconds st) (snd e) r = (r', d)"
    by (metis surj_pair)
  obtain st' x where s: "command_event e st = (st', x)" by (metis surj_pair)
  then have lim: "console_commands_per_5_seconds st' = console_commands_per_5_seconds st"
    by (auto simp: command_event_def accept_command_def Let_def split: prod.splits)
  obtain u xs where t: "run_trace command_event es st' = (u, xs)" by (metis surj_pair)
  have own: "fst e = sid \<Longrightarrow> ps_commands st' sid = Some r' \<and> x = d"
    and other: "fst e \<noteq> sid \<Longrightarrow> ps_commands st' sid = Some r"
    using s o Cons.prems
    by (auto simp: command_event_def accept_command_def Let_def split: prod.splits)
  show ?case
    using Cons.IH [of st' r'] Cons.IH [of st' r] own other s t lim o
    by (cases "fst e = sid") (simp_all add: answers_of_Cons clocks_of_Cons split: prod.splits)
qed simp

subsection \<open>Properties\<close>

text \<open>Lemma: within one second of a server's console window, whatever lines other servers print
  in between, the server's first lines up to the limit are allowed, the first line above
  it gets the only other answer (a notice, a trip or silence), and all later ones are
  suppressed.\<close>

theorem console_window_decisions:
  assumes "ps_console st sid = Some r" "\<not> c_exceeded r"
    and "\<forall>clk \<in> set (clocks_of sid es). line_in_window clk r"
  shows "\<exists>d \<in> {Notify, Suppress, Trip}.
     let n = length (clocks_of sid es); a = console_lines_per_second st - c_count r in
     answers_of sid es (snd (run_trace observe_event es st)) =
       (if n \<le> a then replicate n Allow
        else replicate a Allow @ d # replicate (n - a - 1) Suppress)"
proof -
  obtain d where "d \<noteq> Allow" and d: "snd (run_trace (observe_rate (console_lines_per_second st)
      (console_strike_limit st)) (clocks_of sid es) r) =
     (if length (clocks_of sid es) \<le> console_lines_per_second st - c_count r
      then replicate (length (clocks_of sid es)) Allow
      else replicate (console_lines_per_second st - c_count r) Allow @
        d # replicate (length (clocks_of sid es) - (console_lines_per_second st - c_count r) - 1) Suppress)"
    using observe_run_window [OF assms(3,2)] by blast
  then have "d \<in> {Notify, Suppress, Trip}" by (cases d) auto
  then show ?thesis using d unfolding observe_projection [OF assms(1)] Let_def by (rule bexI [rotated])
qed

theorem console_window_decisions_witness:
  "answers_of ''a'' [(''a'', \<lambda>_. 5), (''b'', \<lambda>_. 6), (''a'', \<lambda>_. 7), (''a'', \<lambda>_. 8)]
     (snd (run_trace observe_event [(''a'', \<lambda>_. 5), (''b'', \<lambda>_. 6), (''a'', \<lambda>_. 7), (''a'', \<lambda>_. 8)]
       (protection_default Map.empty
          \<lparr> ps_console := [''a'' \<mapsto> fresh_console_rate (\<lambda>_. 1)], console_lines_per_second := 3 \<rparr>))) =
   [Allow, Allow, Allow]"
  using console_window_decisions [of "protection_default Map.empty
      \<lparr> ps_console := [''a'' \<mapsto> fresh_console_rate (\<lambda>_. 1)], console_lines_per_second := 3 \<rparr>"
      "''a''" "fresh_console_rate (\<lambda>_. 1)"
      "[(''a'', \<lambda>_. 5), (''b'', \<lambda>_. 6), (''a'', \<lambda>_. 7), (''a'', \<lambda>_. 8)]"]
  by (simp add: clocks_of_def line_in_window_def fresh_console_rate_def secs_def)

text \<open>Lemma: within five seconds of a server's command window, whatever the other servers send,
  exactly the first commands up to the configured limit are accepted.\<close>

theorem command_window_accepts:
  assumes "ps_commands st sid = Some r"
    and "\<forall>clk \<in> set (clocks_of sid es). command_in_window clk r"
  shows "let n = length (clocks_of sid es); a = console_commands_per_5_seconds st - r_count r in
     answers_of sid es (snd (run_trace command_event es st)) =
       replicate (min n a) True @ replicate (n - a) False"
  using command_limiter.window_run [OF assms(2)]
  unfolding command_projection [OF assms(1)] Let_def by blast

theorem command_window_accepts_witness:
  "answers_of ''a'' [(''a'', \<lambda>_. 5), (''b'', \<lambda>_. 6), (''a'', \<lambda>_. 7)]
     (snd (run_trace command_event [(''a'', \<lambda>_. 5), (''b'', \<lambda>_. 6), (''a'', \<lambda>_. 7)]
       (protection_default Map.empty
          \<lparr> ps_commands := [''a'' \<mapsto> \<lparr> r_started = 1, r_count = 1 \<rparr>], console_commands_per_5_seconds := 2 \<rparr>))) = [True, False]"
  using command_window_accepts [of "protection_default Map.empty
          \<lparr> ps_commands := [''a'' \<mapsto> \<lparr> r_started = 1, r_count = 1 \<rparr>], console_commands_per_5_seconds := 2 \<rparr>"
      "''a''" "\<lparr> r_started = 1, r_count = 1 \<rparr>"
      "[(''a'', \<lambda>_. 5), (''b'', \<lambda>_. 6), (''a'', \<lambda>_. 7)]"]
  by (simp add: clocks_of_def command_in_window_def secs_def)

text \<open>Lemma: a manual recovery clears the server's status mark and is reported for exactly the
  next 120 seconds, no other server's recovery or status changes, and removing the server
  forgets it.\<close>

theorem manual_recovery_window:
  "status sid (manual_recovery sid clk st) = None \<and>
   snd (in_manual_recovery sid clk' (manual_recovery sid clk st)) = (clk' 0 < clk 0 + secs 120) \<and>
   snd (in_manual_recovery sid clk' (protection_remove sid (manual_recovery sid clk st))) = False \<and>
   (sid' = sid \<or>
     status sid' (manual_recovery sid clk st) = status sid' st \<and>
     snd (in_manual_recovery sid' clk' (manual_recovery sid clk st)) =
       snd (in_manual_recovery sid' clk' st))"
  by (simp add: status_def manual_recovery_def in_manual_recovery_def protection_remove_def
      split: option.splits)

end
