(* ===== verification/Console_History.thy ===== *)
theory Console_History
  imports Rust_Str "HOL-Library.AList" "HOL-Library.Sublist"
begin

text \<open>
  @grpc/services/console/history.rs@: the bounded console history of every server under one
  byte budget.  The hash map of histories is an association list, whose order is the
  (unspecified) iteration order of the map; its keys are distinct by the invariant.
\<close>

record console_entry =
  sequence :: nat
  line :: string

record console_history =
  h_lines :: "console_entry list"
  content_bytes :: nat
  h_charged :: nat
  next_sequence :: nat
  last_access :: nat

record history_cache =
  hc_entries :: "(string \<times> console_history) list"
  hc_charged :: nat
  maximum_bytes :: nat
  hc_clock :: nat

definition CONSOLE_HISTORY_LINES :: nat where "CONSOLE_HISTORY_LINES = 200"
definition CONSOLE_HISTORY_BYTES :: nat where "CONSOLE_HISTORY_BYTES = 65536"
definition DEFAULT_TOTAL_HISTORY_BYTES :: nat where "DEFAULT_TOTAL_HISTORY_BYTES = 67108864"
definition MAX_TOTAL_HISTORY_BYTES :: nat where "MAX_TOTAL_HISTORY_BYTES = 1073741824"

definition empty_history :: console_history where
  "empty_history =
     \<lparr> h_lines = [], content_bytes = 0, h_charged = 0, next_sequence = 0, last_access = 0 \<rparr>"

definition with_maximum :: "nat \<Rightarrow> history_cache" where
  "with_maximum m = \<lparr> hc_entries = [], hc_charged = 0, maximum_bytes = max m 1, hc_clock = 0 \<rparr>"

definition history_configured :: "environment \<Rightarrow> history_cache" where
  "history_configured env =
     with_maximum
       (clamp
         (case Option.bind (env ''AGAPORNIS_CONSOLE_HISTORY_TOTAL_BYTES'') (parse_unsigned usize_max) of
            Some v \<Rightarrow> if v > 0 then v else DEFAULT_TOTAL_HISTORY_BYTES
          | None \<Rightarrow> DEFAULT_TOTAL_HISTORY_BYTES)
         CONSOLE_HISTORY_BYTES MAX_TOTAL_HISTORY_BYTES)"

text \<open>@size_of::<ConsoleEntry>()@: an eight-byte sequence and the two words of an @Arc<str>@.\<close>

definition entry_charge :: "console_entry \<Rightarrow> nat" where
  "entry_charge e = saturating_add 24 (length (line e))"

text \<open>
  The two loops that pop lines from the front: while a guard on the remaining lines, the
  content bytes and the total charge holds.  They return the lines, the content bytes, the
  history's charge and the total charge.
\<close>

fun pop_while ::
  "(console_entry list \<Rightarrow> nat \<Rightarrow> nat \<Rightarrow> bool) \<Rightarrow> console_entry list \<Rightarrow> nat \<Rightarrow> nat \<Rightarrow> nat \<Rightarrow>
   console_entry list \<times> nat \<times> nat \<times> nat" where
  "pop_while guard [] cb hb tb = ([], cb, hb, tb)"
| "pop_while guard (e # es) cb hb tb =
     (if guard (e # es) cb tb
      then pop_while guard es (cb - length (line e)) (hb - entry_charge e) (tb - entry_charge e)
      else (e # es, cb, hb, tb))"

definition window_guard :: "console_entry list \<Rightarrow> nat \<Rightarrow> nat \<Rightarrow> bool" where
  "window_guard ls cb tb \<longleftrightarrow> length ls > CONSOLE_HISTORY_LINES \<or> cb > CONSOLE_HISTORY_BYTES"

definition budget_guard :: "nat \<Rightarrow> console_entry list \<Rightarrow> nat \<Rightarrow> nat \<Rightarrow> bool" where
  "budget_guard m ls cb tb \<longleftrightarrow> tb > m"

definition history_remove :: "string \<Rightarrow> history_cache \<Rightarrow> history_cache" where
  "history_remove sid c =
     (case map_of (hc_entries c) sid of
        Some h \<Rightarrow> c\<lparr> hc_entries := AList.delete sid (hc_entries c),
                     hc_charged := hc_charged c - h_charged h \<rparr>
      | None \<Rightarrow> c)"

text \<open>@Iterator::min_by_key@ keeps the first of several minima.\<close>

fun min_by_key :: "('a \<Rightarrow> nat) \<Rightarrow> 'a list \<Rightarrow> 'a option" where
  "min_by_key f [] = None"
| "min_by_key f (x # xs) =
     (case min_by_key f xs of
        None \<Rightarrow> Some x
      | Some y \<Rightarrow> if f x \<le> f y then Some x else Some y)"

definition oldest_other :: "string \<Rightarrow> history_cache \<Rightarrow> string option" where
  "oldest_other protected c =
     map_option fst
       (min_by_key (\<lambda>(_, h). last_access h) (filter (\<lambda>(k, _). k \<noteq> protected) (hc_entries c)))"

lemma min_by_key_in: "min_by_key f xs = Some x \<Longrightarrow> x \<in> set xs"
  by (induction xs arbitrary: x) (auto split: option.splits if_splits)

lemma min_by_key_None: "min_by_key f xs = None \<longleftrightarrow> xs = []"
  by (cases xs) (auto split: option.splits)

lemma min_by_key_le: "min_by_key f xs = Some x \<Longrightarrow> y \<in> set xs \<Longrightarrow> f x \<le> f y"
proof (induction xs arbitrary: x)
  case (Cons a xs)
  then show ?case
    by (cases "min_by_key f xs") (force simp: min_by_key_None split: if_splits)+
qed simp

lemma oldest_other_in:
  "oldest_other p c = Some k \<Longrightarrow> k \<noteq> p \<and> k \<in> fst ` set (hc_entries c)"
  by (force simp: oldest_other_def dest: min_by_key_in)

lemma delete_shorter: "k \<in> fst ` set xs \<Longrightarrow> length (AList.delete k xs) < length xs"
  by (induction xs) (auto intro: le_imp_less_Suc length_delete_le)

lemma history_remove_shorter:
  "k \<in> fst ` set (hc_entries c) \<Longrightarrow>
   length (hc_entries (history_remove k c)) < length (hc_entries c)"
  by (auto simp: history_remove_def delete_shorter map_of_eq_None_iff split: option.splits)

function evict_others :: "string \<Rightarrow> history_cache \<Rightarrow> history_cache" where
  "evict_others protected c =
     (if hc_charged c > maximum_bytes c \<and> length (hc_entries c) > 1 then
        (case oldest_other protected c of
           Some oldest \<Rightarrow> evict_others protected (history_remove oldest c)
         | None \<Rightarrow> c)
      else c)"
  by pat_completeness auto
termination
  by (relation "measure (\<lambda>(_, c). length (hc_entries c))")
    (auto dest: oldest_other_in intro: history_remove_shorter)

declare evict_others.simps [simp del]

definition evict_to_budget :: "string \<Rightarrow> history_cache \<Rightarrow> history_cache" where
  "evict_to_budget protected c0 =
     (let c = evict_others protected c0 in
      case map_of (hc_entries c) protected of
        None \<Rightarrow> c
      | Some h \<Rightarrow>
          (case pop_while (budget_guard (maximum_bytes c)) (h_lines h) (content_bytes h)
                  (h_charged h) (hc_charged c) of
             (ls, cb, hb, tb) \<Rightarrow>
               c\<lparr> hc_entries := AList.update protected
                     (h\<lparr> h_lines := ls, content_bytes := cb, h_charged := hb \<rparr>) (hc_entries c),
                   hc_charged := tb \<rparr>))"

definition append_line :: "string \<Rightarrow> string \<Rightarrow> history_cache \<Rightarrow> history_cache \<times> console_entry" where
  "append_line sid ln c0 =
     (let clock = saturating_add (hc_clock c0) 1;
          h = (case map_of (hc_entries c0) sid of Some h \<Rightarrow> h | None \<Rightarrow> empty_history);
          seq = saturating_add (next_sequence h) 1;
          entry = \<lparr> sequence = seq, line = ln \<rparr>;
          charge = entry_charge entry
      in case pop_while window_guard (h_lines h @ [entry])
                (saturating_add (content_bytes h) (length ln))
                (saturating_add (h_charged h) charge)
                (saturating_add (hc_charged c0) charge) of
           (ls, cb, hb, tb) \<Rightarrow>
             (c0\<lparr> hc_clock := clock,
                  hc_entries := AList.update sid
                    \<lparr> h_lines = ls, content_bytes = cb, h_charged = hb,
                      next_sequence = seq, last_access = clock \<rparr> (hc_entries c0),
                  hc_charged := tb \<rparr>, entry))"

definition history_push :: "string \<Rightarrow> string \<Rightarrow> history_cache \<Rightarrow> history_cache \<times> console_entry" where
  "history_push sid ln c0 =
     (case append_line sid ln c0 of (c, entry) \<Rightarrow> (evict_to_budget sid c, entry))"

definition history_snapshot :: "string \<Rightarrow> history_cache \<Rightarrow> history_cache \<times> string list \<times> nat" where
  "history_snapshot sid c0 =
     (let c = c0\<lparr> hc_clock := saturating_add (hc_clock c0) 1 \<rparr> in
      case map_of (hc_entries c) sid of
        None \<Rightarrow> (c, [], 0)
      | Some h \<Rightarrow>
          (c\<lparr> hc_entries := AList.update sid (h\<lparr> last_access := hc_clock c \<rparr>) (hc_entries c) \<rparr>,
           map line (h_lines h),
           if h_lines h = [] then 0 else sequence (last (h_lines h))))"


subsection \<open>Popping from the front drops a prefix\<close>

definition bytes_of :: "console_entry list \<Rightarrow> nat" where
  "bytes_of ls = sum_list (map (\<lambda>e. length (line e)) ls)"

definition charge_of :: "console_entry list \<Rightarrow> nat" where
  "charge_of ls = sum_list (map entry_charge ls)"

lemma bytes_charge_simps [simp]:
  "bytes_of [] = 0" "bytes_of (e # es) = length (line e) + bytes_of es"
  "bytes_of (xs @ ys) = bytes_of xs + bytes_of ys"
  "charge_of [] = 0" "charge_of (e # es) = entry_charge e + charge_of es"
  "charge_of (xs @ ys) = charge_of xs + charge_of ys"
  by (simp_all add: bytes_of_def charge_of_def)

lemma pop_while_drop:
  "\<exists>k \<le> length ls.
     pop_while g ls cb hb tb =
       (drop k ls, cb - bytes_of (take k ls), hb - charge_of (take k ls), tb - charge_of (take k ls)) \<and>
     (\<forall>j < k. g (drop j ls) (cb - bytes_of (take j ls)) (tb - charge_of (take j ls))) \<and>
     (k = length ls \<or> \<not> g (drop k ls) (cb - bytes_of (take k ls)) (tb - charge_of (take k ls)))"
proof (induction ls arbitrary: cb hb tb)
  case (Cons e es)
  show ?case
  proof (cases "g (e # es) cb tb")
    case True
    obtain k where k: "k \<le> length es"
      "pop_while g es (cb - length (line e)) (hb - entry_charge e) (tb - entry_charge e) =
       (drop k es, cb - length (line e) - bytes_of (take k es),
        hb - entry_charge e - charge_of (take k es), tb - entry_charge e - charge_of (take k es))"
      "\<forall>j<k. g (drop j es) (cb - length (line e) - bytes_of (take j es))
                (tb - entry_charge e - charge_of (take j es))"
      "k = length es \<or> \<not> g (drop k es) (cb - length (line e) - bytes_of (take k es))
                (tb - entry_charge e - charge_of (take k es))"
      using Cons.IH by meson
    show ?thesis
      by (rule exI [of _ "Suc k"]) (use k True in \<open>auto simp: less_Suc_eq_0_disj\<close>)
  qed (auto intro: exI [of _ 0])
qed simp

lemma bytes_of_take_drop: "bytes_of (take k ls) + bytes_of (drop k ls) = bytes_of ls"
  by (metis append_take_drop_id bytes_charge_simps(3))

lemma charge_of_take_drop: "charge_of (take k ls) + charge_of (drop k ls) = charge_of ls"
  by (metis append_take_drop_id bytes_charge_simps(6))

subsection \<open>Sums over the association list\<close>

definition total_charge :: "(string \<times> console_history) list \<Rightarrow> nat" where
  "total_charge xs = sum_list (map (\<lambda>(_, h). h_charged h) xs)"

lemma total_charge_delete:
  "distinct (map fst xs) \<Longrightarrow> map_of xs k = Some h \<Longrightarrow>
   total_charge xs = total_charge (AList.delete k xs) + h_charged h"
proof (induction xs)
  case (Cons x xs)
  then show ?case
    by (cases x) (auto simp: total_charge_def map_of_eq_None_iff delete_id
        dest: map_of_SomeD split: if_splits)
qed simp

lemma total_charge_update_new:
  "map_of xs k = None \<Longrightarrow> total_charge (AList.update k h xs) = total_charge xs + h_charged h"
  by (induction xs) (auto simp: total_charge_def split: if_splits)

lemma total_charge_update_old:
  "map_of xs k = Some h0 \<Longrightarrow>
   total_charge (AList.update k h xs) + h_charged h0 = total_charge xs + h_charged h"
  by (induction xs) (auto simp: total_charge_def split: if_splits)

lemma total_charge_member: "map_of xs k = Some h \<Longrightarrow> h_charged h \<le> total_charge xs"
  by (induction xs) (auto simp: total_charge_def split: if_splits)

lemma length_update_known:
  "k \<in> fst ` set xs \<Longrightarrow> length (AList.update k h xs) = length xs"
  by (induction xs) auto

subsection \<open>The invariant\<close>

text \<open>A line is an allocated string: at most @isize::MAX@ bytes.\<close>

definition line_fits :: "string \<Rightarrow> bool" where
  "line_fits ln \<longleftrightarrow> length ln \<le> 9223372036854775807"

definition history_ok :: "console_history \<Rightarrow> bool" where
  "history_ok h \<longleftrightarrow>
     content_bytes h = bytes_of (h_lines h) \<and> h_charged h = charge_of (h_lines h) \<and>
     length (h_lines h) \<le> CONSOLE_HISTORY_LINES \<and> content_bytes h \<le> CONSOLE_HISTORY_BYTES"

definition cache_ok :: "history_cache \<Rightarrow> bool" where
  "cache_ok c \<longleftrightarrow>
     distinct (map fst (hc_entries c)) \<and>
     (\<forall>k h. map_of (hc_entries c) k = Some h \<longrightarrow> history_ok h) \<and>
     hc_charged c = total_charge (hc_entries c) \<and>
     maximum_bytes c \<le> MAX_TOTAL_HISTORY_BYTES"

definition within_budget :: "history_cache \<Rightarrow> bool" where
  "within_budget c \<longleftrightarrow> hc_charged c \<le> maximum_bytes c"

lemma cache_okD:
  assumes "cache_ok c"
  shows "distinct (map fst (hc_entries c))" "hc_charged c = total_charge (hc_entries c)"
    "maximum_bytes c \<le> MAX_TOTAL_HISTORY_BYTES"
    "map_of (hc_entries c) k = Some h \<Longrightarrow> history_ok h"
  using assms by (auto simp: cache_ok_def)

lemma with_maximum_ok:
  "m \<le> MAX_TOTAL_HISTORY_BYTES \<Longrightarrow> cache_ok (with_maximum m) \<and> within_budget (with_maximum m)"
  by (simp add: cache_ok_def within_budget_def with_maximum_def total_charge_def
      MAX_TOTAL_HISTORY_BYTES_def)

lemma history_configured_ok: "cache_ok (history_configured env) \<and> within_budget (history_configured env)"
  unfolding history_configured_def
  by (rule with_maximum_ok, rule conjunct2, rule clamp_bounds)
    (simp add: CONSOLE_HISTORY_BYTES_def MAX_TOTAL_HISTORY_BYTES_def)

lemma in_set_delete: "x \<in> set (AList.delete k xs) \<Longrightarrow> x \<in> set xs"
  by (induction xs) (auto split: if_splits)

lemma history_remove_ok:
  "cache_ok c \<Longrightarrow> cache_ok (history_remove k c)"
  "within_budget c \<Longrightarrow> within_budget (history_remove k c)"
  using total_charge_delete [of "hc_entries c" k]
  by (auto simp: cache_ok_def history_remove_def within_budget_def distinct_delete
      dest: in_set_delete split: option.splits if_splits)

lemma history_remove_map:
  "map_of (hc_entries (history_remove k c)) = (map_of (hc_entries c))(k := None)"
  by (auto simp: history_remove_def delete_conv' split: option.splits)

lemma history_remove_sel [simp]:
  "maximum_bytes (history_remove k c) = maximum_bytes c"
  "hc_clock (history_remove k c) = hc_clock c"
  by (auto simp: history_remove_def split: option.splits)

text \<open>What the visible lines of a server are.\<close>

definition lines_of :: "history_cache \<Rightarrow> string \<Rightarrow> string list" where
  "lines_of c sid =
     (case map_of (hc_entries c) sid of None \<Rightarrow> [] | Some h \<Rightarrow> map line (h_lines h))"

subsection \<open>Eviction\<close>

lemma oldest_other_exists:
  "distinct (map fst (hc_entries c)) \<Longrightarrow> length (hc_entries c) > 1 \<Longrightarrow> \<exists>k. oldest_other p c = Some k"
proof (rule ccontr)
  assume d: "distinct (map fst (hc_entries c))" and l: "length (hc_entries c) > 1"
    and "\<not> (\<exists>k. oldest_other p c = Some k)"
  then have "oldest_other p c = None" by auto
  then have "filter (\<lambda>(k, _). k \<noteq> p) (hc_entries c) = []"
    by (simp add: oldest_other_def min_by_key_None)
  then have "\<forall>x \<in> set (map fst (hc_entries c)). x = p" by (auto simp: filter_empty_conv)
  with d have "length (map fst (hc_entries c)) \<le> 1"
    by (metis card_mono distinct_card finite.emptyI finite.insertI is_singletonI
        is_singleton_altdef singleton_iff subsetI)
  with l show False by simp
qed

definition evicts_lru :: "history_cache \<Rightarrow> history_cache \<Rightarrow> string \<Rightarrow> bool" where
  "evicts_lru c c' p \<longleftrightarrow>
     (\<forall>k k' h h'. map_of (hc_entries c) k = Some h \<longrightarrow> map_of (hc_entries c') k = None \<longrightarrow>
        map_of (hc_entries c') k' = Some h' \<longrightarrow> k' \<noteq> p \<longrightarrow> last_access h \<le> last_access h')"

lemma oldest_other_lru:
  assumes "oldest_other p c = Some k" "distinct (map fst (hc_entries c))"
    "map_of (hc_entries c) k = Some h" "map_of (hc_entries c) k' = Some h'" "k' \<noteq> p"
  shows "last_access h \<le> last_access h'"
proof -
  obtain h1 where m: "min_by_key (\<lambda>(_, h). last_access h)
      (filter (\<lambda>(k, _). k \<noteq> p) (hc_entries c)) = Some (k, h1)"
    using assms(1) by (auto simp: oldest_other_def)
  have "(k, h1) \<in> set (hc_entries c)" using min_by_key_in [OF m] by simp
  then have "h1 = h" using assms(2,3) by simp
  then show ?thesis
    using min_by_key_le [OF m, of "(k', h')"] assms(4,5) by (auto dest: map_of_SomeD)
qed

lemma evict_others_spec:
  assumes "cache_ok c" "map_of (hc_entries c) p = Some hp"
  shows "cache_ok (evict_others p c) \<and>
    map_of (hc_entries (evict_others p c)) p = Some hp \<and>
    (\<forall>k. map_of (hc_entries (evict_others p c)) k \<in> {map_of (hc_entries c) k, None}) \<and>
    maximum_bytes (evict_others p c) = maximum_bytes c \<and>
    (within_budget (evict_others p c) \<or> length (hc_entries (evict_others p c)) \<le> 1) \<and>
    evicts_lru c (evict_others p c) p"
  using assms
proof (induction p c rule: evict_others.induct)
  case (1 p c)
  show ?case
  proof (cases "hc_charged c > maximum_bytes c \<and> length (hc_entries c) > 1")
    case False
    then show ?thesis
      using "1.prems" by (subst (1 2 3 4 5 6 7) evict_others.simps)
        (auto simp: within_budget_def evicts_lru_def)
  next
    case True
    obtain k where k: "oldest_other p c = Some k"
      using oldest_other_exists cache_okD(1) [OF "1.prems"(1)] True by blast
    let ?c1 = "history_remove k c"
    have step: "evict_others p c = evict_others p ?c1"
      using True k by (subst evict_others.simps) simp
    have kp: "k \<noteq> p" and "k \<in> fst ` set (hc_entries c)" using oldest_other_in [OF k] by auto
    then obtain hk where hk: "map_of (hc_entries c) k = Some hk"
      by (metis map_of_eq_None_iff not_Some_eq)
    have c1: "cache_ok ?c1" "map_of (hc_entries ?c1) p = Some hp"
      using "1.prems" kp by (auto simp: history_remove_ok history_remove_map)
    note IH = "1.IH" [OF True k c1]
    have lru: "evicts_lru c (evict_others p ?c1) p"
      unfolding evicts_lru_def
    proof (intro allI impI)
      fix k1 k' h h'
      assume a: "map_of (hc_entries c) k1 = Some h" "map_of (hc_entries (evict_others p ?c1)) k1 = None"
        "map_of (hc_entries (evict_others p ?c1)) k' = Some h'" "k' \<noteq> p"
      have "map_of (hc_entries ?c1) k' = Some h'" using IH a(3) by (metis insertE option.distinct(1) singletonD)
      then have k': "map_of (hc_entries c) k' = Some h'" by (auto simp: history_remove_map split: if_splits)
      show "last_access h \<le> last_access h'"
      proof (cases "k1 = k")
        case True
        then show ?thesis
          using oldest_other_lru [OF k cache_okD(1) [OF "1.prems"(1)] _ k' a(4)] a(1) by simp
      next
        case False
        then have "map_of (hc_entries ?c1) k1 = Some h" using a(1) by (simp add: history_remove_map)
        then show ?thesis using IH a unfolding evicts_lru_def by blast
      qed
    qed
    have "map_of (hc_entries (evict_others p ?c1)) q \<in> {map_of (hc_entries c) q, None}" for q
    proof -
      have "map_of (hc_entries (evict_others p ?c1)) q \<in> {map_of (hc_entries ?c1) q, None}"
        using IH by blast
      moreover have "map_of (hc_entries ?c1) q \<in> {map_of (hc_entries c) q, None}"
        by (simp add: history_remove_map)
      ultimately show ?thesis by auto
    qed
    then show ?thesis
      using IH lru unfolding step by simp
  qed
qed


subsection \<open>Pushing a line\<close>

abbreviation old_history :: "history_cache \<Rightarrow> string \<Rightarrow> console_history" where
  "old_history c sid \<equiv> (case map_of (hc_entries c) sid of Some h \<Rightarrow> h | None \<Rightarrow> empty_history)"

text \<open>@ls@ is the longest suffix of @all@ within the line and byte limits.\<close>

definition longest_window :: "console_entry list \<Rightarrow> console_entry list \<Rightarrow> bool" where
  "longest_window all ls \<longleftrightarrow>
     (\<exists>k \<le> length all. ls = drop k all \<and>
        (\<forall>j<k. length (drop j all) > CONSOLE_HISTORY_LINES \<or>
               bytes_of (drop j all) > CONSOLE_HISTORY_BYTES)) \<and>
     length ls \<le> CONSOLE_HISTORY_LINES \<and> bytes_of ls \<le> CONSOLE_HISTORY_BYTES"

lemma empty_history_ok [simp]: "history_ok empty_history"
  by (simp add: history_ok_def empty_history_def)

lemma old_history_ok: "cache_ok c \<Longrightarrow> history_ok (old_history c sid)"
  by (auto simp: cache_ok_def split: option.splits)

lemma entry_charge_fits: "line_fits (line e) \<Longrightarrow> entry_charge e = 24 + length (line e)"
  by (simp add: entry_charge_def line_fits_def saturating_add_def usize_max_def)

lemma old_charge_le:
  "cache_ok c \<Longrightarrow> h_charged (old_history c sid) \<le> hc_charged c"
  using total_charge_member [of "hc_entries c" sid] cache_okD(2) [of c]
  by (auto simp: empty_history_def split: option.splits)

lemma window_pop:
  "\<exists>k. k \<le> length all \<and> pop_while window_guard all (bytes_of all) (charge_of all) tb =
      (drop k all, bytes_of (drop k all), charge_of (drop k all), tb - charge_of (take k all)) \<and>
      longest_window all (drop k all)"
proof -
  obtain k where k: "k \<le> length all" "pop_while window_guard all (bytes_of all) (charge_of all) tb =
      (drop k all, bytes_of all - bytes_of (take k all), charge_of all - charge_of (take k all),
       tb - charge_of (take k all))"
    "\<forall>j<k. window_guard (drop j all) (bytes_of all - bytes_of (take j all)) (tb - charge_of (take j all))"
    "k = length all \<or>
     \<not> window_guard (drop k all) (bytes_of all - bytes_of (take k all)) (tb - charge_of (take k all))"
    using pop_while_drop [where ls = all and g = window_guard and cb = "bytes_of all"
        and hb = "charge_of all" and tb = tb] by blast
  have b: "bytes_of all - bytes_of (take j all) = bytes_of (drop j all)" for j
    using bytes_of_take_drop [of j all] by simp
  have c: "charge_of all - charge_of (take k all) = charge_of (drop k all)"
    using charge_of_take_drop [of k all] by simp
  have "length (drop k all) \<le> CONSOLE_HISTORY_LINES \<and> bytes_of (drop k all) \<le> CONSOLE_HISTORY_BYTES"
    using k(4) by (cases "k = length all") (simp_all add: window_guard_def b)
  moreover have "\<forall>j<k. length (drop j all) > CONSOLE_HISTORY_LINES \<or>
      bytes_of (drop j all) > CONSOLE_HISTORY_BYTES"
    using k(3) by (simp add: window_guard_def b)
  ultimately have "longest_window all (drop k all)"
    unfolding longest_window_def using k(1) by blast
  with k(1,2) show ?thesis unfolding b c by (intro exI [of _ k] conjI)
qed

lemma append_line_spec:
  assumes ok: "cache_ok c0" and bud: "within_budget c0" and fits: "line_fits ln"
  fixes sid
  defines "h0 \<equiv> old_history c0 sid"
  defines "e \<equiv> \<lparr> sequence = saturating_add (next_sequence h0) 1, line = ln \<rparr>"
  assumes app: "append_line sid ln c0 = (c1, entry)"
  shows "entry = e \<and> cache_ok c1 \<and> maximum_bytes c1 = maximum_bytes c0 \<and>
    hc_clock c1 = saturating_add (hc_clock c0) 1 \<and>
    hc_charged c1 \<le> hc_charged c0 + entry_charge e \<and>
    (\<forall>k. k \<noteq> sid \<longrightarrow> map_of (hc_entries c1) k = map_of (hc_entries c0) k) \<and>
    (\<exists>h1. map_of (hc_entries c1) sid = Some h1 \<and> longest_window (h_lines h0 @ [e]) (h_lines h1) \<and>
       next_sequence h1 = sequence e \<and> last_access h1 = hc_clock c1)"
proof -
  let ?all = "h_lines h0 @ [e]"
  let ?tb = "saturating_add (hc_charged c0) (entry_charge e)"
  have h0: "history_ok h0" using old_history_ok [OF ok] by (simp add: h0_def)
  have ce: "entry_charge e = 24 + length (line e)"
    using fits by (intro entry_charge_fits) (simp add: e_def)
  have le: "hc_charged c0 \<le> MAX_TOTAL_HISTORY_BYTES"
    using bud cache_okD(3) [OF ok] by (simp add: within_budget_def)
  have hle: "h_charged h0 \<le> hc_charged c0" using old_charge_le [OF ok] by (simp add: h0_def)
  have ll: "length (line e) = length ln" by (simp add: e_def)
  have small: "x \<le> MAX_TOTAL_HISTORY_BYTES \<Longrightarrow> saturating_add x (entry_charge e) = x + entry_charge e" for x
    using fits unfolding ce ll
    by (simp add: saturating_add_def usize_max_def MAX_TOTAL_HISTORY_BYTES_def line_fits_def)
  have be: "bytes_of ?all = content_bytes h0 + length ln"
    using h0 ll by (simp add: history_ok_def)
  have cb: "saturating_add (content_bytes h0) (length ln) = bytes_of ?all"
    using h0 fits unfolding be
    by (simp add: history_ok_def saturating_add_def usize_max_def CONSOLE_HISTORY_BYTES_def line_fits_def)
  have hb: "saturating_add (h_charged h0) (entry_charge e) = charge_of ?all"
    using h0 small [of "h_charged h0"] hle le by (simp add: history_ok_def)
  define all where "all = ?all"
  obtain k where k: "pop_while window_guard all (bytes_of all) (charge_of all) ?tb =
     (drop k all, bytes_of (drop k all), charge_of (drop k all), ?tb - charge_of (take k all))"
    "longest_window all (drop k all)"
    using window_pop [of all ?tb] by blast
  define h1 where "h1 = \<lparr> h_lines = drop k all, content_bytes = bytes_of (drop k all),
      h_charged = charge_of (drop k all), next_sequence = sequence e,
      last_access = saturating_add (hc_clock c0) 1 \<rparr>"
  have c1: "c1 = c0\<lparr> hc_clock := saturating_add (hc_clock c0) 1,
      hc_entries := AList.update sid h1 (hc_entries c0), hc_charged := ?tb - charge_of (take k all) \<rparr>"
    and en: "entry = e"
    using app k(1) cb hb unfolding append_line_def Let_def h0_def [symmetric] e_def [symmetric] all_def [symmetric]
    by (auto simp: h1_def e_def)
  have h1ok: "history_ok h1"
    using k(2) by (auto simp: history_ok_def h1_def longest_window_def)
  have "total_charge (AList.update sid h1 (hc_entries c0)) + h_charged h0 =
      hc_charged c0 + h_charged h1"
    using total_charge_update_new [of "hc_entries c0" sid h1]
      total_charge_update_old [of "hc_entries c0" sid _ h1] cache_okD(2) [OF ok]
    by (auto simp: h0_def empty_history_def split: option.splits)
  moreover have "h_charged h0 + entry_charge e = charge_of (take k all) + h_charged h1"
    using charge_of_take_drop [of k all] h0 by (simp add: history_ok_def h1_def all_def)
  ultimately have tot: "?tb - charge_of (take k all) = total_charge (AList.update sid h1 (hc_entries c0))"
    using small [OF le] hle by simp
  have upd: "map_of (AList.update sid h1 (hc_entries c0)) = (map_of (hc_entries c0))(sid \<mapsto> h1)"
    by (rule update_conv')
  have "cache_ok c1"
    unfolding cache_ok_def c1
    using ok h1ok tot by (auto simp: upd cache_ok_def distinct_update simp del: map_of_eq_Some_iff)
  moreover have "h_lines h1 = drop k all" "next_sequence h1 = sequence e"
    "last_access h1 = saturating_add (hc_clock c0) 1"
    by (simp_all add: h1_def)
  ultimately show ?thesis
    using k(2) en small [OF le] unfolding all_def [symmetric] by (auto simp: c1 upd)
qed

lemma evict_to_budget_spec:
  assumes ok: "cache_ok c" and h: "map_of (hc_entries c) sid = Some h"
  defines "c' \<equiv> evict_to_budget sid c"
  shows "cache_ok c' \<and> within_budget c' \<and> maximum_bytes c' = maximum_bytes c \<and>
    (\<forall>k. k \<noteq> sid \<longrightarrow> map_of (hc_entries c') k \<in> {map_of (hc_entries c) k, None}) \<and>
    evicts_lru c c' sid \<and>
    (\<exists>h' j. map_of (hc_entries c') sid = Some h' \<and> j \<le> length (h_lines h) \<and>
       h_lines h' = drop j (h_lines h) \<and>
       next_sequence h' = next_sequence h \<and> last_access h' = last_access h)"
proof -
  let ?c2 = "evict_others sid c"
  note ev = evict_others_spec [OF ok h]
  have ok2: "cache_ok ?c2" and h2: "map_of (hc_entries ?c2) sid = Some h" using ev by auto
  let ?m = "maximum_bytes ?c2"
  obtain k where k: "k \<le> length (h_lines h)"
    "pop_while (budget_guard ?m) (h_lines h) (content_bytes h) (h_charged h) (hc_charged ?c2) =
     (drop k (h_lines h), content_bytes h - bytes_of (take k (h_lines h)),
      h_charged h - charge_of (take k (h_lines h)), hc_charged ?c2 - charge_of (take k (h_lines h)))"
    "\<forall>j<k. budget_guard ?m (drop j (h_lines h)) (content_bytes h - bytes_of (take j (h_lines h)))
        (hc_charged ?c2 - charge_of (take j (h_lines h)))"
    "k = length (h_lines h) \<or> \<not> budget_guard ?m (drop k (h_lines h))
        (content_bytes h - bytes_of (take k (h_lines h))) (hc_charged ?c2 - charge_of (take k (h_lines h)))"
    using pop_while_drop [where ls = "h_lines h" and g = "budget_guard ?m" and cb = "content_bytes h"
        and hb = "h_charged h" and tb = "hc_charged ?c2"] by blast
  define h' where "h' = h\<lparr> h_lines := drop k (h_lines h),
      content_bytes := content_bytes h - bytes_of (take k (h_lines h)),
      h_charged := h_charged h - charge_of (take k (h_lines h)) \<rparr>"
  have c': "c' = ?c2\<lparr> hc_entries := AList.update sid h' (hc_entries ?c2),
      hc_charged := hc_charged ?c2 - charge_of (take k (h_lines h)) \<rparr>"
    by (simp add: c'_def evict_to_budget_def Let_def h2 k(2) h'_def)
  have hok: "history_ok h" using cache_okD(4) [OF ok2 h2] .
  have h'ok: "history_ok h'"
    using hok bytes_of_take_drop [of k "h_lines h"] charge_of_take_drop [of k "h_lines h"]
    by (auto simp: history_ok_def h'_def)
  have split: "h_charged h = charge_of (take k (h_lines h)) + h_charged h'"
    using hok charge_of_take_drop [of k "h_lines h"] by (simp add: history_ok_def h'_def)
  have upd: "map_of (AList.update sid h' (hc_entries ?c2)) = (map_of (hc_entries ?c2))(sid \<mapsto> h')"
    by (rule update_conv')
  have tot: "hc_charged ?c2 - charge_of (take k (h_lines h)) =
      total_charge (AList.update sid h' (hc_entries ?c2))"
    using total_charge_update_old [OF h2, of h'] cache_okD(2) [OF ok2] split by simp
  have ok': "cache_ok c'"
    using ok2 h'ok tot unfolding cache_ok_def c'
    by (auto simp: upd distinct_update simp del: map_of_eq_Some_iff)
  have bud: "within_budget c'"
  proof (cases "within_budget ?c2")
    case True
    then show ?thesis by (auto simp: within_budget_def c')
  next
    case False
    then have "length (hc_entries ?c2) \<le> 1" using ev by simp
    then have "hc_entries ?c2 = [(sid, h)]"
      using h2 by (cases "hc_entries ?c2") (auto split: if_splits)
    then have "hc_charged ?c2 = h_charged h"
      using cache_okD(2) [OF ok2] by (simp add: total_charge_def)
    then show ?thesis
      using k(4) hok by (auto simp: within_budget_def c' budget_guard_def history_ok_def)
  qed
  have others: "map_of (hc_entries c') q \<in> {map_of (hc_entries c) q, None}" if "q \<noteq> sid" for q
    using ev that by (simp add: c' upd)
  have "evicts_lru c c' sid"
    using ev unfolding evicts_lru_def c' by (auto simp: upd simp del: map_of_eq_Some_iff)
  moreover have "h_lines h' = drop k (h_lines h)" "next_sequence h' = next_sequence h"
    "last_access h' = last_access h"
    by (simp_all add: h'_def)
  moreover have "map_of (hc_entries c') sid = Some h'" "maximum_bytes c' = maximum_bytes c"
    using ev by (simp_all add: c' upd)
  ultimately show ?thesis
    using ok' bud others k(1) by blast
qed

lemma evict_to_budget_idle:
  assumes "within_budget c" "map_of (hc_entries c) sid = Some h"
  shows "map_of (hc_entries (evict_to_budget sid c)) = map_of (hc_entries c)"
proof -
  have ev: "evict_others sid c = c"
    using assms(1) by (subst evict_others.simps) (simp add: within_budget_def)
  have "pop_while (budget_guard (maximum_bytes c)) (h_lines h) (content_bytes h) (h_charged h) (hc_charged c) =
      (h_lines h, content_bytes h, h_charged h, hc_charged c)"
    using assms(1) by (cases "h_lines h") (simp_all add: budget_guard_def within_budget_def)
  then show ?thesis
    using assms(2) by (simp add: evict_to_budget_def ev update_conv' fun_upd_idem)
qed

lemma history_push_spec:
  assumes ok: "cache_ok c" and bud: "within_budget c" and fits: "line_fits ln"
    and push: "history_push sid ln c = (c', entry)"
  shows "entry = \<lparr> sequence = saturating_add (next_sequence (old_history c sid)) 1, line = ln \<rparr> \<and>
    cache_ok c' \<and> within_budget c' \<and> maximum_bytes c' = maximum_bytes c \<and>
    (\<forall>k. k \<noteq> sid \<longrightarrow> map_of (hc_entries c') k \<in> {map_of (hc_entries c) k, None}) \<and>
    (\<exists>w h' j. longest_window (h_lines (old_history c sid) @ [entry]) w \<and>
       map_of (hc_entries c') sid = Some h' \<and> h_lines h' = drop j w \<and>
       next_sequence h' = sequence entry \<and>
       (hc_charged c + entry_charge entry \<le> maximum_bytes c \<longrightarrow> h_lines h' = w \<and>
          (\<forall>k. k \<noteq> sid \<longrightarrow> map_of (hc_entries c') k = map_of (hc_entries c) k))) \<and>
    evicts_lru c c' sid"
proof -
  obtain c1 e where app: "append_line sid ln c = (c1, e)" by (metis surj_pair)
  then have p: "c' = evict_to_budget sid c1" "entry = e"
    using push by (auto simp: history_push_def)
  note a = append_line_spec [OF ok bud fits app]
  then obtain h1 where h1: "map_of (hc_entries c1) sid = Some h1"
    "longest_window (h_lines (old_history c sid) @ [e]) (h_lines h1)"
    "next_sequence h1 = sequence e" by blast
  have c1: "cache_ok c1" using a by blast
  note b = evict_to_budget_spec [OF c1 h1(1)]
  obtain h' j where h': "map_of (hc_entries c') sid = Some h'" "h_lines h' = drop j (h_lines h1)"
    "next_sequence h' = next_sequence h1"
    using b p by blast
  have others: "\<forall>k. k \<noteq> sid \<longrightarrow> map_of (hc_entries c') k \<in> {map_of (hc_entries c) k, None}"
    using a b p by metis
  have "evicts_lru c1 c' sid" using b p by blast
  then have lru: "evicts_lru c c' sid"
    using a h'(1) unfolding evicts_lru_def by (metis option.distinct(1))
  have room: "h_lines h' = h_lines h1 \<and> (\<forall>k. k \<noteq> sid \<longrightarrow> map_of (hc_entries c') k = map_of (hc_entries c) k)"
    if r: "hc_charged c + entry_charge entry \<le> maximum_bytes c"
  proof -
    have "hc_charged c1 \<le> hc_charged c + entry_charge e" "maximum_bytes c1 = maximum_bytes c"
      using a by auto
    then have "within_budget c1" using r p(2) by (simp add: within_budget_def)
    from evict_to_budget_idle [OF this h1(1)] have m: "map_of (hc_entries c') = map_of (hc_entries c1)"
      using p(1) by simp
    then show ?thesis using a h1(1) h'(1) by simp
  qed
  have en: "entry = \<lparr> sequence = saturating_add (next_sequence (old_history c sid)) 1, line = ln \<rparr>"
    and mx: "maximum_bytes c' = maximum_bytes c" and sq: "next_sequence h' = sequence entry"
    using a b p h1(3) h'(3) by simp_all
  have bb: "cache_ok c'" "within_budget c'" using b p by blast+
  have w: "longest_window (h_lines (old_history c sid) @ [entry]) (h_lines h1)" using h1(2) p by simp
  show ?thesis
    using others lru room en mx sq bb w h'(1,2) by blast
qed

subsection \<open>The interface the console hub relies on\<close>

text \<open>
  A store of lines per server: pushing keeps a suffix of the old lines with the new one
  and may forget other servers, viewing changes nothing, removing forgets the server.
\<close>

datatype store_event = Pushed string string | Viewed string | Removed string

fun published_since :: "string \<Rightarrow> string list \<Rightarrow> store_event list \<Rightarrow> string list" where
  "published_since k log [] = log"
| "published_since k log (Pushed k' l # es) =
     published_since k (if k' = k then log @ [l] else log) es"
| "published_since k log (Viewed k' # es) = published_since k log es"
| "published_since k log (Removed k' # es) = published_since k (if k' = k then [] else log) es"

fun pushed_lines :: "store_event list \<Rightarrow> string list" where
  "pushed_lines [] = []"
| "pushed_lines (Pushed k l # es) = l # pushed_lines es"
| "pushed_lines (Viewed k # es) = pushed_lines es"
| "pushed_lines (Removed k # es) = pushed_lines es"

locale line_store =
  fixes stored :: "'s \<Rightarrow> string \<Rightarrow> string list"
    and push :: "string \<Rightarrow> string \<Rightarrow> 's \<Rightarrow> 's"
    and view remove :: "string \<Rightarrow> 's \<Rightarrow> 's"
    and ok :: "'s \<Rightarrow> bool" and fits :: "string \<Rightarrow> bool"
  assumes push_ok: "ok s \<Longrightarrow> fits l \<Longrightarrow> ok (push k l s)"
    and view_ok: "ok s \<Longrightarrow> ok (view k s)"
    and remove_ok: "ok s \<Longrightarrow> ok (remove k s)"
    and push_own: "ok s \<Longrightarrow> fits l \<Longrightarrow> suffix (stored (push k l s) k) (stored s k @ [l])"
    and push_other: "ok s \<Longrightarrow> fits l \<Longrightarrow> k' \<noteq> k \<Longrightarrow> stored (push k l s) k' \<in> {stored s k', []}"
    and view_stored: "stored (view k s) k' = stored s k'"
    and remove_stored: "stored (remove k s) k' = (if k' = k then [] else stored s k')"
begin

fun apply_event :: "store_event \<Rightarrow> 's \<Rightarrow> 's" where
  "apply_event (Pushed k l) s = push k l s"
| "apply_event (Viewed k) s = view k s"
| "apply_event (Removed k) s = remove k s"

lemma suffix_log:
  "suffix a b \<Longrightarrow> suffix (published_since k a es) (published_since k b es)"
  by (induction es arbitrary: a b rule: pushed_lines.induct)
    (auto simp: suffix_def)

lemma stored_suffix:
  assumes "ok s" "list_all fits (pushed_lines es)" "suffix (stored s k) log"
  shows "ok (fold apply_event es s) \<and>
         suffix (stored (fold apply_event es s) k) (published_since k log es)"
  using assms
proof (induction es arbitrary: s log rule: pushed_lines.induct)
  case (2 k' l es)
  have f: "fits l" using 2 by simp
  have "suffix (stored (push k' l s) k) (if k' = k then log @ [l] else log)"
    using push_own [OF \<open>ok s\<close> f, of k] push_other [OF \<open>ok s\<close> f, of k k'] 2(4)
    by (auto intro: suffix_order.trans)
  with 2 show ?case by (simp add: push_ok)
next
  case (4 k' es)
  have "suffix (stored (remove k' s) k) (if k' = k then [] else log)"
    using 4(4) by (simp add: remove_stored)
  with 4 show ?case by (simp add: remove_ok)
qed (auto simp: view_ok view_stored)

end

definition history_good :: "history_cache \<Rightarrow> bool" where
  "history_good c \<longleftrightarrow> cache_ok c \<and> within_budget c"

definition push_state :: "string \<Rightarrow> string \<Rightarrow> history_cache \<Rightarrow> history_cache" where
  "push_state sid ln c = fst (history_push sid ln c)"

definition view_state :: "string \<Rightarrow> history_cache \<Rightarrow> history_cache" where
  "view_state sid c = fst (history_snapshot sid c)"

lemma longest_window_suffix: "longest_window all w \<Longrightarrow> suffix (drop j w) all"
  by (auto simp: longest_window_def intro: suffix_drop suffix_order.trans)

lemma lines_of_old: "lines_of c sid = map line (h_lines (old_history c sid))"
  by (auto simp: lines_of_def empty_history_def split: option.splits)

lemma push_own_suffix:
  assumes "history_good c" "line_fits ln"
  shows "suffix (lines_of (push_state sid ln c) sid) (lines_of c sid @ [ln])"
proof -
  obtain c' e where p: "history_push sid ln c = (c', e)" by (metis surj_pair)
  note s = history_push_spec [OF _ _ assms(2) p]
  then obtain w h' j where w: "longest_window (h_lines (old_history c sid) @ [e]) w"
    "map_of (hc_entries c') sid = Some h'" "h_lines h' = drop j w"
    using assms(1) unfolding history_good_def by blast
  have "line e = ln" using s assms(1) by (auto simp: history_good_def)
  then show ?thesis
    using map_mono_suffix [OF longest_window_suffix [OF w(1)], of line j] w(2,3)
    by (simp add: push_state_def p lines_of_old)
qed

lemma push_other_same:
  assumes "history_good c" "line_fits ln" "k \<noteq> sid"
  shows "lines_of (push_state sid ln c) k \<in> {lines_of c k, []}"
proof -
  obtain c' e where p: "history_push sid ln c = (c', e)" by (metis surj_pair)
  then have "map_of (hc_entries c') k \<in> {map_of (hc_entries c) k, None}"
    using history_push_spec [OF _ _ assms(2) p] assms(1,3) by (simp add: history_good_def)
  then show ?thesis by (auto simp: push_state_def p lines_of_def)
qed

lemma view_good: "history_good c \<Longrightarrow> history_good (view_state sid c)"
proof -
  assume g: "history_good c"
  show ?thesis
  proof (cases "map_of (hc_entries c) sid")
    case None
    then show ?thesis
      using g by (simp add: view_state_def history_snapshot_def history_good_def cache_ok_def within_budget_def)
  next
    case (Some h)
    let ?h = "h\<lparr> last_access := saturating_add (hc_clock c) 1 \<rparr>"
    have "history_ok h" using g Some cache_okD(4) by (auto simp: history_good_def)
    then have "history_ok ?h" by (simp add: history_ok_def)
    moreover have "total_charge (AList.update sid ?h (hc_entries c)) = hc_charged c"
      using total_charge_update_old [OF Some, of ?h] g by (auto simp: history_good_def cache_ok_def)
    moreover have upd: "map_of (AList.update sid ?h (hc_entries c)) = (map_of (hc_entries c))(sid \<mapsto> ?h)"
      by (rule update_conv')
    ultimately show ?thesis
      using g Some by (auto simp: view_state_def history_snapshot_def history_good_def cache_ok_def
          within_budget_def Let_def distinct_update upd simp del: map_of_eq_Some_iff)
  qed
qed

lemma view_lines: "lines_of (view_state sid c) k = lines_of c k"
proof (cases "map_of (hc_entries c) sid")
  case (Some h)
  have upd: "map_of (AList.update sid x (hc_entries c)) = (map_of (hc_entries c))(sid \<mapsto> x)" for x
    by (rule update_conv')
  from Some show ?thesis
    by (simp add: view_state_def history_snapshot_def lines_of_def Let_def upd)
qed (simp add: view_state_def history_snapshot_def lines_of_def)

interpretation history:
  line_store lines_of push_state view_state history_remove history_good line_fits
proof
  fix c k k' l
  assume c: "history_good c"
  show "history_good (view_state k c)" using c by (rule view_good)
  show "history_good (history_remove k c)"
    using c by (simp add: history_good_def history_remove_ok)
  assume l: "line_fits l"
  show "history_good (push_state k l c)"
    using history_push_spec [of c l k] c l
    by (cases "history_push k l c") (auto simp: push_state_def history_good_def)
  show "suffix (lines_of (push_state k l c) k) (lines_of c k @ [l])"
    using c l by (rule push_own_suffix)
  show "k' \<noteq> k \<Longrightarrow> lines_of (push_state k l c) k' \<in> {lines_of c k', []}"
    using c l by (rule push_other_same)
next
  fix c k k'
  show "lines_of (view_state k c) k' = lines_of c k'" by (rule view_lines)
  show "lines_of (history_remove k c) k' = (if k' = k then [] else lines_of c k')"
    by (simp add: lines_of_def history_remove_map)
qed


subsection \<open>Sequence numbers\<close>

definition history_seq_ok :: "console_history \<Rightarrow> bool" where
  "history_seq_ok h \<longleftrightarrow>
     length (h_lines h) \<le> next_sequence h \<and>
     map sequence (h_lines h) = [Suc (next_sequence h - length (h_lines h))..<Suc (next_sequence h)]"

definition cache_seq_ok :: "history_cache \<Rightarrow> bool" where
  "cache_seq_ok c \<longleftrightarrow> (\<forall>h \<in> ran (map_of (hc_entries c)). history_seq_ok h)"

lemma seq_ok_append:
  assumes "history_seq_ok h" "next_sequence h < usize_max"
    "w = drop k (h_lines h @ [\<lparr> sequence = saturating_add (next_sequence h) 1, line = ln \<rparr>])"
    "h_lines h' = w" "next_sequence h' = saturating_add (next_sequence h) 1"
  shows "history_seq_ok h'"
proof -
  have s: "saturating_add (next_sequence h) 1 = Suc (next_sequence h)"
    using assms(2) by (simp add: saturating_add_def)
  let ?n = "next_sequence h" and ?l = "length (h_lines h)"
  have "map sequence (h_lines h @ [\<lparr> sequence = Suc ?n, line = ln \<rparr>]) = [Suc (?n - ?l)..<Suc (Suc ?n)]"
    using assms(1) by (simp add: history_seq_ok_def)
  then have m: "map sequence w = [Suc (?n - ?l) + k..<Suc (Suc ?n)]"
    using assms(3) s by (simp only: drop_map [symmetric] drop_upt)
  have l: "length w = Suc ?l - k" using assms(3) by simp
  have ln: "?l \<le> ?n" using assms(1) by (simp add: history_seq_ok_def)
  have "map sequence w = [Suc (Suc ?n - length w)..<Suc (Suc ?n)]"
  proof (cases "k \<le> ?l")
    case True
    then have "Suc (?n - ?l) + k = Suc (Suc ?n - length w)" using l ln by simp
    then show ?thesis using m by simp
  qed (use l in simp)
  moreover have "length w \<le> Suc ?n" using l ln by linarith
  ultimately show ?thesis unfolding history_seq_ok_def assms(4,5) s by blast
qed

subsection \<open>Properties\<close>

definition history_event :: "store_event \<Rightarrow> history_cache \<Rightarrow> history_cache" where
  "history_event ev c =
     (case ev of Pushed k l \<Rightarrow> fst (history_push k l c)
      | Viewed k \<Rightarrow> fst (history_snapshot k c)
      | Removed k \<Rightarrow> history_remove k c)"

lemma history_event_apply:
  "history_event = line_store.apply_event push_state view_state history_remove"
proof (intro ext)
  fix ev c
  show "history_event ev c = line_store.apply_event push_state view_state history_remove ev c"
    by (cases ev) (simp_all add: history_event_def push_state_def view_state_def
        line_store.apply_event.simps [OF history.line_store_axioms])
qed

text \<open>Lemma: pushing a line keeps the cache's accounting exact and within its byte budget; the
  server keeps the end of its old lines with the new one, other servers keep their history
  or lose it whole, and the ones that lose it were used less recently than the others that
  stay; with room left, the server keeps exactly the longest window of 200 lines and 64 KiB
  and nobody loses anything.\<close>

theorem history_push_good:
  assumes "cache_ok c" "within_budget c" "line_fits ln" "history_push sid ln c = (c', entry)"
  shows "line entry = ln \<and> cache_ok c' \<and> within_budget c' \<and> maximum_bytes c' = maximum_bytes c \<and>
    (\<forall>k. k \<noteq> sid \<longrightarrow> map_of (hc_entries c') k \<in> {map_of (hc_entries c) k, None}) \<and>
    evicts_lru c c' sid \<and>
    (\<exists>w h' j. longest_window (h_lines (old_history c sid) @ [entry]) w \<and>
       map_of (hc_entries c') sid = Some h' \<and> h_lines h' = drop j w \<and>
       (hc_charged c + 24 + length ln \<le> maximum_bytes c \<longrightarrow> h_lines h' = w \<and>
          (\<forall>k. k \<noteq> sid \<longrightarrow> map_of (hc_entries c') k = map_of (hc_entries c) k)))"
proof -
  note s = history_push_spec [OF assms]
  then have le: "line entry = ln" by simp
  then have ec: "entry_charge entry = 24 + length ln"
    using entry_charge_fits [of entry] assms(3) by simp
  obtain w h' j where x: "longest_window (h_lines (old_history c sid) @ [entry]) w"
    "map_of (hc_entries c') sid = Some h'" "h_lines h' = drop j w"
    "hc_charged c + entry_charge entry \<le> maximum_bytes c \<longrightarrow> h_lines h' = w \<and>
       (\<forall>k. k \<noteq> sid \<longrightarrow> map_of (hc_entries c') k = map_of (hc_entries c) k)"
    using s by blast
  have "hc_charged c + 24 + length ln = hc_charged c + entry_charge entry" by (simp add: ec)
  with x have y: "hc_charged c + 24 + length ln \<le> maximum_bytes c \<longrightarrow> h_lines h' = w \<and>
       (\<forall>k. k \<noteq> sid \<longrightarrow> map_of (hc_entries c') k = map_of (hc_entries c) k)" by simp
  show ?thesis using s le x(1-3) y by blast
qed

theorem history_push_good_witness:
  "(let c1 = fst (history_push ''a'' ''x'' (with_maximum 60));
        c2 = fst (history_push ''b'' ''yyyyyyyyyyyyyyyyyyyy'' c1)
    in within_budget c1 \<and> within_budget c2 \<and> lines_of c1 ''a'' = [''x''] \<and> lines_of c2 ''a'' = [])"
proof -
  have g: "cache_ok (with_maximum 60)" "within_budget (with_maximum 60)"
    using with_maximum_ok [of 60] by (simp_all add: MAX_TOTAL_HISTORY_BYTES_def)
  obtain c1 e1 where p1: "history_push ''a'' ''x'' (with_maximum 60) = (c1, e1)" by (metis surj_pair)
  have f: "line_fits ''x''" "line_fits ''yyyyyyyyyyyyyyyyyyyy''" by (simp_all add: line_fits_def)
  note t1 = history_push_good [OF g f(1) p1]
  obtain c2 e2 where p2: "history_push ''b'' ''yyyyyyyyyyyyyyyyyyyy'' c1 = (c2, e2)" by (metis surj_pair)
  have "within_budget c2" using history_push_good [OF _ _ f(2) p2] t1 by blast
  moreover have "lines_of (fst (history_push ''a'' ''x'' (with_maximum 60))) ''a'' = [''x''] \<and>
    lines_of (fst (history_push ''b'' ''yyyyyyyyyyyyyyyyyyyy''
      (fst (history_push ''a'' ''x'' (with_maximum 60))))) ''a'' = []"
    by (simp add: history_push_def append_line_def with_maximum_def empty_history_def
        saturating_add_def usize_max_def entry_charge_def window_guard_def CONSOLE_HISTORY_LINES_def
        CONSOLE_HISTORY_BYTES_def evict_to_budget_def evict_others.simps Let_def oldest_other_def
        history_remove_def budget_guard_def lines_of_def)
  ultimately show ?thesis using t1 by (simp add: p1 p2 Let_def)
qed

text \<open>C3: after any sequence of pushes, snapshots and removals on an empty cache, the lines
  kept for a server are a suffix of the lines published for it since its last removal: a
  replay never reorders, repeats, invents or skips lines in the middle.\<close>

theorem history_replays_recent_suffix:
  assumes "m \<le> MAX_TOTAL_HISTORY_BYTES" "list_all line_fits (pushed_lines es)"
  shows "suffix (lines_of (fold history_event es (with_maximum m)) sid) (published_since sid [] es) \<and>
         fst (snd (history_snapshot sid (fold history_event es (with_maximum m)))) =
           lines_of (fold history_event es (with_maximum m)) sid"
proof
  have "history_good (with_maximum m)" using with_maximum_ok [OF assms(1)] by (simp add: history_good_def)
  moreover have "suffix (lines_of (with_maximum m) sid) []"
    by (simp add: lines_of_def with_maximum_def)
  ultimately show "suffix (lines_of (fold history_event es (with_maximum m)) sid) (published_since sid [] es)"
    using history.stored_suffix assms(2) unfolding history_event_apply by blast
  show "fst (snd (history_snapshot sid (fold history_event es (with_maximum m)))) =
           lines_of (fold history_event es (with_maximum m)) sid"
    by (simp add: history_snapshot_def lines_of_def Let_def split: option.splits)
qed

theorem history_replays_recent_suffix_witness:
  "suffix (lines_of (fold history_event [Pushed ''a'' ''x'', Removed ''a'', Pushed ''a'' ''y'']
     (with_maximum 100)) ''a'') [''y'']"
  using history_replays_recent_suffix [of 100 "[Pushed ''a'' ''x'', Removed ''a'', Pushed ''a'' ''y'']" "''a''"]
  by (simp add: MAX_TOTAL_HISTORY_BYTES_def line_fits_def)

text \<open>Lemma: sequence numbers of the kept lines of each server stay consecutive and end at the
  newest line's, so the sequence a snapshot reports is the one of the line pushed last.\<close>

theorem history_sequences_consecutive:
  assumes "cache_ok c" "within_budget c" "line_fits ln" "cache_seq_ok c"
    and "next_sequence (old_history c sid) < usize_max"
    and "history_push sid ln c = (c', entry)"
  shows "cache_seq_ok c' \<and> sequence entry = next_sequence (old_history c sid) + 1 \<and>
    (\<exists>h'. map_of (hc_entries c') sid = Some h' \<and> next_sequence h' = sequence entry \<and>
      (h_lines h' = [] \<or> snd (snd (history_snapshot sid c')) = sequence entry))"
proof -
  note s = history_push_spec [OF assms(1-3,6)]
  let ?h = "old_history c sid"
  obtain w h' j where w: "longest_window (h_lines ?h @ [entry]) w"
    "map_of (hc_entries c') sid = Some h'" "h_lines h' = drop j w" "next_sequence h' = sequence entry"
    using s by blast
  have e: "entry = \<lparr> sequence = saturating_add (next_sequence ?h) 1, line = ln \<rparr>" using s by blast
  have sq: "sequence entry = next_sequence ?h + 1"
    using e assms(5) by (simp add: saturating_add_def)
  have hs: "history_seq_ok ?h"
    using assms(4) by (auto simp: cache_seq_ok_def ran_def history_seq_ok_def empty_history_def
        split: option.splits)
  obtain k where "w = drop k (h_lines ?h @ [entry])" using w(1) by (auto simp: longest_window_def)
  then have "h_lines h' = drop (j + k) (h_lines ?h @ [entry])"
    using w(3) by (simp only: drop_drop)
  then have "h_lines h' = drop (j + k) (h_lines ?h @ [\<lparr> sequence = saturating_add (next_sequence ?h) 1, line = ln \<rparr>])"
    using e by (simp only:)
  then have h's: "history_seq_ok h'"
    using seq_ok_append [OF hs assms(5) _ refl] w(4) e by simp
  have "cache_seq_ok c'"
    unfolding cache_seq_ok_def
  proof
    fix x assume "x \<in> ran (map_of (hc_entries c'))"
    then obtain k where k: "map_of (hc_entries c') k = Some x" by (auto simp: ran_def)
    show "history_seq_ok x"
    proof (cases "k = sid")
      case False
      then have "map_of (hc_entries c) k = Some x" using s k by (metis insertE option.distinct(1) singletonD)
      then show ?thesis using assms(4) by (auto simp: cache_seq_ok_def ran_def)
    qed (use h's w(2) k in simp)
  qed
  moreover have "sequence (last (h_lines h')) = next_sequence h'" if ne: "h_lines h' \<noteq> []"
    using h's ne by (metis history_seq_ok_def last_map last_upt list.map_disc_iff lessI
        le_imp_less_Suc upt_eq_Nil_conv diff_Suc_1 not_less_eq_eq)
  ultimately show ?thesis
    using w(2,4) sq by (auto simp: history_snapshot_def Let_def)
qed

theorem history_sequences_consecutive_witness:
  "sequence (snd (history_push ''a'' ''x'' (with_maximum 100))) = 1"
proof -
  have g: "cache_ok (with_maximum 100)" "within_budget (with_maximum 100)"
    using with_maximum_ok [of 100] by (simp_all add: MAX_TOTAL_HISTORY_BYTES_def)
  have f: "line_fits ''x''" "cache_seq_ok (with_maximum 100)"
    "next_sequence (old_history (with_maximum 100) ''a'') < usize_max"
    by (simp_all add: line_fits_def cache_seq_ok_def with_maximum_def empty_history_def usize_max_def)
  obtain c' e where p: "history_push ''a'' ''x'' (with_maximum 100) = (c', e)" by (metis surj_pair)
  show ?thesis
    using history_sequences_consecutive [OF g f p] p by (simp add: with_maximum_def empty_history_def)
qed

end
