(* ===== verification/Rust_Utf8.thy ===== *)
theory Rust_Utf8
  imports Rust_Str
begin

text \<open>
  UTF-8 as the standard library sees it: the lossy decoder with its maximal-subpart
  replacement, character boundaries, and Unicode white space with the trimming and
  splitting functions that depend on it.
\<close>

subsection \<open>The lossy decoder\<close>

definition in_range :: "nat \<Rightarrow> nat \<Rightarrow> char \<Rightarrow> bool" where
  "in_range lo hi c \<longleftrightarrow> lo \<le> byte c \<and> byte c \<le> hi"

definition cont_byte :: "char \<Rightarrow> bool" where "cont_byte c \<longleftrightarrow> in_range 0x80 0xBF c"

text \<open>
  The number of bytes of the sequence at the head, and whether it is well formed: an
  ill-formed head is the longest prefix that could begin a character, at least one byte.
\<close>

definition second_byte_ok :: "char \<Rightarrow> char \<Rightarrow> bool" where
  "second_byte_ok b0 b1 =
     (if b0 = CHR 0xE0 then in_range 0xA0 0xBF b1
      else if b0 = CHR 0xED then in_range 0x80 0x9F b1
      else if b0 = CHR 0xF0 then in_range 0x90 0xBF b1
      else if b0 = CHR 0xF4 then in_range 0x80 0x8F b1
      else cont_byte b1)"

fun utf8_head :: "string \<Rightarrow> nat \<times> bool" where
  "utf8_head [] = (0, True)"
| "utf8_head (b0 # bs) =
     (if byte b0 < 0x80 then (1, True)
      else if in_range 0xC2 0xDF b0 then
        (case bs of b1 # _ \<Rightarrow> if cont_byte b1 then (2, True) else (1, False) | [] \<Rightarrow> (1, False))
      else if in_range 0xE0 0xEF b0 then
        (case bs of
           b1 # r1 \<Rightarrow>
             if second_byte_ok b0 b1 then
               (case r1 of b2 # _ \<Rightarrow> if cont_byte b2 then (3, True) else (2, False) | [] \<Rightarrow> (2, False))
             else (1, False)
         | [] \<Rightarrow> (1, False))
      else if in_range 0xF0 0xF4 b0 then
        (case bs of
           b1 # r1 \<Rightarrow>
             if second_byte_ok b0 b1 then
               (case r1 of
                  b2 # r2 \<Rightarrow>
                    if cont_byte b2 then
                      (case r2 of b3 # _ \<Rightarrow> if cont_byte b3 then (4, True) else (3, False)
                       | [] \<Rightarrow> (3, False))
                    else (2, False)
                | [] \<Rightarrow> (2, False))
             else (1, False)
         | [] \<Rightarrow> (1, False))
      else (1, False))"

definition replacement :: string where "replacement = [CHR 0xEF, CHR 0xBF, CHR 0xBD]"

lemma utf8_head_pos: "s \<noteq> [] \<Longrightarrow> 0 < fst (utf8_head s)"
  by (cases s) (auto split: list.splits)

lemma utf8_head_shorter: "s \<noteq> [] \<Longrightarrow> (n, b) = utf8_head s \<Longrightarrow> length s - n < length s"
  using utf8_head_pos [of s] by (metis diff_less fst_conv length_greater_0_conv)

function from_utf8_lossy :: "string \<Rightarrow> string" where
  "from_utf8_lossy s =
     (if s = [] then []
      else case utf8_head s of
        (n, ok) \<Rightarrow> (if ok then take n s else replacement) @ from_utf8_lossy (drop n s))"
  by pat_completeness auto
termination
  by (relation "measure length") (auto intro: utf8_head_shorter)

declare from_utf8_lossy.simps [simp del]

function valid_utf8 :: "string \<Rightarrow> bool" where
  "valid_utf8 s =
     (if s = [] then True
      else case utf8_head s of (n, ok) \<Rightarrow> ok \<and> valid_utf8 (drop n s))"
  by pat_completeness auto
termination
  by (relation "measure length") (auto intro: utf8_head_shorter)

declare valid_utf8.simps [simp del]

lemma utf8_Nil [simp]: "from_utf8_lossy [] = []" "valid_utf8 []"
  by (simp_all add: from_utf8_lossy.simps valid_utf8.simps)

lemma lossy_valid: "valid_utf8 s \<Longrightarrow> from_utf8_lossy s = s"
proof (induction s rule: from_utf8_lossy.induct)
  case (1 s)
  show ?case
  proof (cases "s = []")
    case False
    obtain n b where h: "utf8_head s = (n, b)" by (metis surj_pair)
    have "b" "valid_utf8 (drop n s)"
      using 1(2) False h by (subst (asm) valid_utf8.simps, simp)+
    then show ?thesis
      using 1(1) [OF False h [symmetric]] False h
      by (subst from_utf8_lossy.simps) (simp add: append_take_drop_id)
  qed simp
qed

text \<open>A well-formed head is found again in front of any continuation.\<close>

lemma utf8_head_take:
  "utf8_head s = (n, True) \<Longrightarrow> s \<noteq> [] \<Longrightarrow> utf8_head (take n s @ t) = (n, True) \<and> length (take n s) = n"
  by (cases s) (auto split: list.splits if_splits)

lemma utf8_head_replacement: "utf8_head (replacement @ t) = (3, True)"
  by (simp add: replacement_def in_range_def second_byte_ok_def cont_byte_def)

lemma valid_utf8_lossy: "valid_utf8 (from_utf8_lossy s)"
proof (induction s rule: from_utf8_lossy.induct)
  case (1 s)
  show ?case
  proof (cases "s = []")
    case False
    obtain n b where h: "utf8_head s = (n, b)" by (metis surj_pair)
    note IH = 1(1) [OF False h [symmetric]]
    show ?thesis
    proof (cases b)
      case True
      have "utf8_head (take n s @ from_utf8_lossy (drop n s)) = (n, True)" "length (take n s) = n"
        using utf8_head_take [of s n] h True False by auto
      then show ?thesis
        using IH False h True
        by (subst from_utf8_lossy.simps) (auto simp: valid_utf8.simps [of "take n s @ _"])
    next
      case F: False
      have "utf8_head (replacement @ from_utf8_lossy (drop n s)) = (3, True)"
        by (rule utf8_head_replacement)
      moreover have "length replacement = 3" by (simp add: replacement_def)
      ultimately show ?thesis
        using IH False h F
        by (subst from_utf8_lossy.simps) (auto simp: valid_utf8.simps [of "replacement @ _"])
    qed
  qed simp
qed

lemma length_lossy: "length (from_utf8_lossy s) \<le> 3 * length s"
proof (induction s rule: from_utf8_lossy.induct)
  case (1 s)
  show ?case
  proof (cases "s = []")
    case False
    obtain n b where h: "utf8_head s = (n, b)" by (metis surj_pair)
    have n: "0 < n" using utf8_head_pos [OF False] h by simp
    have l: "length s > 0" using False by simp
    note IH = 1(1) [OF False h [symmetric]]
    have "1 \<le> min n (length s)" using n l by linarith
    then have "length (if b then take n s else replacement) \<le> 3 * min n (length s)"
      by (auto simp: replacement_def)
    then show ?thesis
      using IH False h by (subst from_utf8_lossy.simps) auto
  qed simp
qed

lemma lossy_ascii: "list_all (\<lambda>c. byte c < 0x80) s \<Longrightarrow> from_utf8_lossy s = s"
proof (induction s)
  case (Cons a s)
  then show ?case by (subst from_utf8_lossy.simps) simp
qed simp

subsection \<open>Character boundaries\<close>

text \<open>@str::floor_char_boundary@: the last boundary at or below the index.\<close>

fun floor_boundary_at :: "string \<Rightarrow> nat \<Rightarrow> nat" where
  "floor_boundary_at s 0 = 0"
| "floor_boundary_at s (Suc i) =
     (if cont_byte (s ! Suc i) then floor_boundary_at s i else Suc i)"

definition floor_char_boundary :: "string \<Rightarrow> nat \<Rightarrow> nat" where
  "floor_char_boundary s i = (if i \<ge> length s then length s else floor_boundary_at s i)"

lemma floor_boundary_at_le: "floor_boundary_at s i \<le> i"
  by (induction i) auto

lemma floor_char_boundary_le: "floor_char_boundary s i \<le> i"
  using floor_boundary_at_le by (auto simp: floor_char_boundary_def)

subsection \<open>White space\<close>

text \<open>The byte length of the white space character at the head of a string, 0 if none.\<close>

fun ws_head :: "string \<Rightarrow> nat" where
  "ws_head [] = 0"
| "ws_head (a # r) =
     (if in_range 0x09 0x0D a \<or> a = CHR 0x20 then 1
      else case r of
        b # r' \<Rightarrow>
          if a = CHR 0xC2 \<and> (b = CHR 0x85 \<or> b = CHR 0xA0) then 2
          else (case r' of
            c # _ \<Rightarrow>
              if a = CHR 0xE1 \<and> b = CHR 0x9A \<and> c = CHR 0x80
                 \<or> a = CHR 0xE2 \<and> b = CHR 0x80 \<and>
                   (in_range 0x80 0x8A c \<or> c = CHR 0xA8 \<or> c = CHR 0xA9 \<or> c = CHR 0xAF)
                 \<or> a = CHR 0xE2 \<and> b = CHR 0x81 \<and> c = CHR 0x9F
                 \<or> a = CHR 0xE3 \<and> b = CHR 0x80 \<and> c = CHR 0x80
              then 3 else 0
          | [] \<Rightarrow> 0)
      | [] \<Rightarrow> 0)"

text \<open>The same at the end of a string, given reversed.\<close>

fun ws_last :: "string \<Rightarrow> nat" where
  "ws_last [] = 0"
| "ws_last (c # r) =
     (if ws_head [c] = 1 then 1
      else case r of
        b # r' \<Rightarrow>
          if ws_head [b, c] = 2 then 2
          else (case r' of a # _ \<Rightarrow> if ws_head [a, b, c] = 3 then 3 else 0 | [] \<Rightarrow> 0)
      | [] \<Rightarrow> 0)"

lemma ws_head_le: "ws_head s \<le> length s"
  by (cases s) (auto split: list.splits)

lemma ws_head_shorter: "ws_head s \<noteq> 0 \<Longrightarrow> length s - ws_head s < length s"
  by (cases s) (simp_all del: ws_head.simps(2))

lemma ws_last_shorter: "ws_last s \<noteq> 0 \<Longrightarrow> length s - ws_last s < length s"
  by (cases s) (simp_all del: ws_last.simps(2))

function trim_start :: "string \<Rightarrow> string" where
  "trim_start s = (if ws_head s = 0 then s else trim_start (drop (ws_head s) s))"
  by pat_completeness auto
termination
  by (relation "measure length") (auto intro: ws_head_shorter)

declare trim_start.simps [simp del]

function trim_end_rev :: "string \<Rightarrow> string" where
  "trim_end_rev s = (if ws_last s = 0 then s else trim_end_rev (drop (ws_last s) s))"
  by pat_completeness auto
termination
  by (relation "measure length") (auto intro: ws_last_shorter)

declare trim_end_rev.simps [simp del]

definition trim_end :: "string \<Rightarrow> string" where "trim_end s = rev (trim_end_rev (rev s))"

definition trim :: "string \<Rightarrow> string" where "trim s = trim_end (trim_start s)"

lemma ws_head_prefix: "ws_head (p @ q) = 0 \<Longrightarrow> ws_head p = 0"
proof -
  assume z: "ws_head (p @ q) = 0"
  consider "p = []" | a where "p = [a]" | a b where "p = [a, b]" | a b c r where "p = a # b # c # r"
    by (metis list.exhaust)
  then show ?thesis
    using z by cases (auto split: if_splits list.splits)
qed

lemma ws_head_trim_start: "ws_head (trim_start s) = 0"
proof (induction s rule: trim_start.induct)
  case (1 s)
  then show ?case by (cases "ws_head s = 0") (subst trim_start.simps; simp)+
qed

lemma trim_end_rev_suffix: "\<exists>a. s = a @ trim_end_rev s"
proof (induction s rule: trim_end_rev.induct)
  case (1 s)
  show ?case
  proof (cases "ws_last s = 0")
    case True
    then show ?thesis by (subst trim_end_rev.simps) simp
  next
    case False
    then obtain a where "drop (ws_last s) s = a @ trim_end_rev (drop (ws_last s) s)" using 1 by auto
    moreover have "trim_end_rev s = trim_end_rev (drop (ws_last s) s)"
      using False by (subst trim_end_rev.simps) simp
    ultimately have "s = (take (ws_last s) s @ a) @ trim_end_rev s"
      by (metis append.assoc append_take_drop_id)
    then show ?thesis by blast
  qed
qed

lemma ws_last_trim_end_rev: "ws_last (trim_end_rev s) = 0"
proof (induction s rule: trim_end_rev.induct)
  case (1 s)
  then show ?case by (cases "ws_last s = 0") (subst trim_end_rev.simps; simp)+
qed

lemma trim_ends: "ws_head (trim s) = 0 \<and> ws_last (rev (trim s)) = 0"
proof -
  obtain a where "rev (trim_start s) = a @ trim_end_rev (rev (trim_start s))"
    using trim_end_rev_suffix by blast
  then have "trim_start s = trim s @ rev a"
    unfolding trim_def trim_end_def by (metis rev_append rev_rev_ident)
  then have "ws_head (trim s) = 0" using ws_head_trim_start [of s] ws_head_prefix by metis
  then show ?thesis by (simp add: trim_def trim_end_def ws_last_trim_end_rev)
qed

lemma trim_fixed: "ws_head s = 0 \<Longrightarrow> ws_last (rev s) = 0 \<Longrightarrow> trim s = s"
  by (simp add: trim_def trim_end_def trim_start.simps trim_end_rev.simps)

lemma trim_trim [simp]: "trim (trim s) = trim s"
  using trim_ends [of s] by (intro trim_fixed) auto

function split_ws_go :: "string \<Rightarrow> string \<Rightarrow> string list" where
  "split_ws_go acc s =
     (case s of
        [] \<Rightarrow> if acc = [] then [] else [acc]
      | c # r \<Rightarrow>
          if ws_head s > 0
          then (if acc = [] then [] else [acc]) @ split_ws_go [] (drop (ws_head s) s)
          else split_ws_go (acc @ [c]) r)"
  by pat_completeness auto
termination
  by (relation "measure (\<lambda>(acc, s). length s)") auto

declare split_ws_go.simps [simp del]

definition split_whitespace :: "string \<Rightarrow> string list" where
  "split_whitespace s = split_ws_go [] s"

subsection \<open>Lines\<close>

text \<open>@str::lines@: each line feed ends a line, a carriage return before it is dropped.\<close>

definition strip_cr :: "string \<Rightarrow> string" where
  "strip_cr l = (if l \<noteq> [] \<and> last l = CHR 0x0D then butlast l else l)"

definition str_lines :: "string \<Rightarrow> string list" where
  "str_lines s =
     (let ps = split_on (CHR 0x0A) s in
      map strip_cr (butlast ps) @ (if last ps = [] then [] else [last ps]))"

end
