(* ===== verification/Console_Decoder.thy ===== *)
theory Console_Decoder
  imports Rust_Utf8
begin

text \<open>
  @grpc/services/console/decoder.rs@: the line buffers that turn Docker's log chunks into
  bounded lines, one per stream, and their specification by an independent line splitter.
\<close>

text \<open>The bytes of @TRUNCATION_SUFFIX@: a blank, an ellipsis, a blank and @[truncated]@.\<close>

definition TRUNCATION_SUFFIX :: string where
  "TRUNCATION_SUFFIX = [CHR '' '', CHR 0xE2, CHR 0x80, CHR 0xA6] @ '' [truncated]''"

record line_buffer =
  lb_bytes :: string
  lb_truncated :: bool
  lb_swallow :: bool

definition empty_buffer :: line_buffer where
  "empty_buffer = \<lparr> lb_bytes = [], lb_truncated = False, lb_swallow = False \<rparr>"

definition take_line :: "line_buffer \<Rightarrow> line_buffer \<times> string" where
  "take_line b =
     (b\<lparr> lb_bytes := [], lb_truncated := False \<rparr>,
      from_utf8_lossy (lb_bytes b) @ (if lb_truncated b then TRUNCATION_SUFFIX else []))"

text \<open>One iteration of the loop over the chunk: the buffer and the lines completed so far.\<close>

definition push_byte :: "nat \<Rightarrow> char \<Rightarrow> line_buffer \<times> string list \<Rightarrow> line_buffer \<times> string list" where
  "push_byte maximum c st =
     (case st of (b0, ls) \<Rightarrow>
        if lb_swallow b0 \<and> c = CHR 0x0A then (b0\<lparr> lb_swallow := False \<rparr>, ls)
        else
          let b = b0\<lparr> lb_swallow := False \<rparr> in
          if c = CHR 0x0D then
            (case take_line b of (b', l) \<Rightarrow> (b'\<lparr> lb_swallow := True \<rparr>, ls @ [l]))
          else if c = CHR 0x0A then
            (case take_line b of (b', l) \<Rightarrow> (b', ls @ [l]))
          else if length (lb_bytes b) < maximum then (b\<lparr> lb_bytes := lb_bytes b @ [c] \<rparr>, ls)
          else (b\<lparr> lb_truncated := True \<rparr>, ls))"

definition buffer_push :: "nat \<Rightarrow> string \<Rightarrow> line_buffer \<Rightarrow> line_buffer \<times> string list" where
  "buffer_push maximum chunk b = fold (push_byte maximum) chunk (b, [])"

definition buffer_finish :: "line_buffer \<Rightarrow> string list" where
  "buffer_finish b =
     (if lb_bytes b = [] \<and> \<not> lb_truncated b then [] else [snd (take_line b)])"

datatype log_output = StdOut string | StdErr string | Console string | StdIn string

record console_output_decoder =
  d_stdout :: line_buffer
  d_stderr :: line_buffer
  d_console :: line_buffer

definition empty_decoder :: console_output_decoder where
  "empty_decoder = \<lparr> d_stdout = empty_buffer, d_stderr = empty_buffer, d_console = empty_buffer \<rparr>"

fun decoder_push :: "nat \<Rightarrow> log_output \<Rightarrow> console_output_decoder \<Rightarrow> console_output_decoder \<times> string list" where
  "decoder_push m (StdOut msg) d = (case buffer_push m msg (d_stdout d) of (b, ls) \<Rightarrow> (d\<lparr> d_stdout := b \<rparr>, ls))"
| "decoder_push m (StdErr msg) d = (case buffer_push m msg (d_stderr d) of (b, ls) \<Rightarrow> (d\<lparr> d_stderr := b \<rparr>, ls))"
| "decoder_push m (Console msg) d = (case buffer_push m msg (d_console d) of (b, ls) \<Rightarrow> (d\<lparr> d_console := b \<rparr>, ls))"
| "decoder_push m (StdIn msg) d = (d, [])"

definition decoder_finish :: "console_output_decoder \<Rightarrow> string list" where
  "decoder_finish d =
     buffer_finish (d_stdout d) @ buffer_finish (d_stderr d) @ buffer_finish (d_console d)"

subsection \<open>Specification: splitting a whole stream at once\<close>

text \<open>
  @CR LF@, @CR@ and @LF@ each end a line.  The complete lines of a stream with the text
  before it, the text after the last terminator, and whether a carriage return came last.
\<close>

definition skip_lf :: "string \<Rightarrow> string" where
  "skip_lf s = (case s of c # s' \<Rightarrow> if c = CHR 0x0A then s' else s | [] \<Rightarrow> [])"

lemma skip_lf_length: "length (skip_lf s) \<le> length s"
  by (auto simp: skip_lf_def split: list.splits)

function stream_lines :: "string \<Rightarrow> string \<Rightarrow> string list" where
  "stream_lines acc [] = []"
| "stream_lines acc (c # s) =
     (if c = CHR 0x0D then acc # stream_lines [] (skip_lf s)
      else if c = CHR 0x0A then acc # stream_lines [] s
      else stream_lines (acc @ [c]) s)"
  by pat_completeness auto
termination
  by (relation "measure (\<lambda>(acc, s). length s)") (auto intro: le_imp_less_Suc skip_lf_length)

fun stream_rest :: "string \<Rightarrow> string \<Rightarrow> string" where
  "stream_rest acc [] = acc"
| "stream_rest acc (c # s) =
     (if c = CHR 0x0D \<or> c = CHR 0x0A then stream_rest [] s else stream_rest (acc @ [c]) s)"

text \<open>How a line is shown: at most @m@ bytes of it, decoded, and marked when cut.\<close>

definition shown :: "nat \<Rightarrow> string \<Rightarrow> string" where
  "shown m l = from_utf8_lossy (take m l) @ (if length l > m then TRUNCATION_SUFFIX else [])"

text \<open>The buffer that holds the unfinished text @acc@.\<close>

definition holds :: "nat \<Rightarrow> string \<Rightarrow> bool \<Rightarrow> line_buffer" where
  "holds m acc sw = \<lparr> lb_bytes = take m acc, lb_truncated = (length acc > m), lb_swallow = sw \<rparr>"

lemma empty_buffer_holds: "empty_buffer = holds m [] False"
  by (simp add: empty_buffer_def holds_def)

lemma take_line_holds: "take_line (holds m acc sw) = (holds m [] sw, shown m acc)"
  by (simp add: take_line_def holds_def shown_def)

lemma holds_swallow [simp]:
  "lb_swallow (holds m acc sw) = sw" "(holds m acc sw)\<lparr> lb_swallow := sw' \<rparr> = holds m acc sw'"
  by (simp_all add: holds_def)

lemma holds_append:
  "(if length (lb_bytes (holds m acc sw)) < m
    then (holds m acc sw)\<lparr> lb_bytes := lb_bytes (holds m acc sw) @ [c] \<rparr>
    else (holds m acc sw)\<lparr> lb_truncated := True \<rparr>) = holds m (acc @ [c]) sw"
  by (auto simp: holds_def)

lemma push_byte_holds:
  "push_byte m c (holds m acc sw, ls) =
     (if sw \<and> c = CHR 0x0A then (holds m acc False, ls)
      else if c = CHR 0x0D then (holds m [] True, ls @ [shown m acc])
      else if c = CHR 0x0A then (holds m [] False, ls @ [shown m acc])
      else (holds m (acc @ [c]) False, ls))"
  using holds_append [of m acc False c]
  by (auto simp: push_byte_def take_line_holds Let_def split: if_splits)

text \<open>The stream that remains to be read when a line feed is to be swallowed.\<close>

definition unswallow :: "bool \<Rightarrow> string \<Rightarrow> string" where
  "unswallow sw s = (if sw then skip_lf s else s)"

fun ends_cr :: "bool \<Rightarrow> string \<Rightarrow> bool" where
  "ends_cr sw [] = sw"
| "ends_cr sw (c # s) = ends_cr (c = CHR 0x0D) s"

lemma unswallow_simps [simp]:
  "unswallow False s = s" "unswallow True (c # s) = (if c = CHR 0x0A then s else c # s)"
  "unswallow sw [] = []"
  by (simp_all add: unswallow_def skip_lf_def)

lemma fold_push_byte:
  assumes "sw \<longrightarrow> acc = []"
  shows "fold (push_byte m) s (holds m acc sw, ls) =
    (holds m (stream_rest acc s) (ends_cr sw s),
     ls @ map (shown m) (stream_lines acc (unswallow sw s)))"
  using assms
proof (induction s arbitrary: acc sw ls)
  case (Cons c s)
  have u: "unswallow True s = skip_lf s" by (simp add: unswallow_def)
  show ?case
    using Cons.IH [of False acc ls] Cons.IH [of True "[]" "ls @ [shown m acc]"]
      Cons.IH [of False "[]" "ls @ [shown m acc]"] Cons.IH [of False "acc @ [c]" ls] Cons.prems
    by (cases sw) (simp_all add: push_byte_holds u)
qed simp

lemma buffer_push_append:
  "buffer_push m (a @ b) buf =
     (fst (buffer_push m b (fst (buffer_push m a buf))),
      snd (buffer_push m a buf) @ snd (buffer_push m b (fst (buffer_push m a buf))))"
proof -
  have pre: "fold (push_byte m) s (x, ls) =
      (fst (fold (push_byte m) s (x, [])), ls @ snd (fold (push_byte m) s (x, [])))" for s x ls
  proof (induction s arbitrary: x ls)
    case (Cons c s)
    obtain y k where p: "push_byte m c (x, []) = (y, k)" by (metis surj_pair)
    then have q: "push_byte m c (x, zs) = (y, zs @ k)" for zs
      by (auto simp: push_byte_def take_line_def Let_def split: if_splits)
    show ?case using Cons [of y "ls @ k"] Cons [of y k] by (simp add: p q)
  qed simp
  obtain x ls where a: "fold (push_byte m) a (buf, []) = (x, ls)" by (metis surj_pair)
  show ?thesis using pre [of b x ls] by (simp add: buffer_push_def a)
qed

text \<open>The lines of a list of chunks pushed one after the other.\<close>

fun push_chunks :: "nat \<Rightarrow> string list \<Rightarrow> line_buffer \<Rightarrow> line_buffer \<times> string list" where
  "push_chunks m [] b = (b, [])"
| "push_chunks m (c # cs) b =
     (case buffer_push m c b of (b', ls) \<Rightarrow>
      case push_chunks m cs b' of (b'', ls') \<Rightarrow> (b'', ls @ ls'))"

lemma push_chunks_concat: "push_chunks m cs b = buffer_push m (concat cs) b"
proof (induction cs arbitrary: b)
  case (Cons c cs)
  show ?case
    using Cons buffer_push_append [of m c "concat cs" b] by (auto split: prod.splits)
qed (simp add: buffer_push_def)

lemma line_buffer_spec:
  "snd (push_chunks m chunks empty_buffer) = map (shown m) (stream_lines [] (concat chunks)) \<and>
   buffer_finish (fst (push_chunks m chunks empty_buffer)) =
     (if stream_rest [] (concat chunks) = [] then []
      else [shown m (stream_rest [] (concat chunks))])"
proof -
  let ?s = "concat chunks"
  have p: "push_chunks m chunks empty_buffer =
      (holds m (stream_rest [] ?s) (ends_cr False ?s), map (shown m) (stream_lines [] ?s))"
    using fold_push_byte [of False "[]" m ?s "[]"]
    by (simp add: push_chunks_concat buffer_push_def empty_buffer_holds [of m])
  have "buffer_finish (holds m acc sw) = (if acc = [] then [] else [shown m acc])" for acc sw
  proof -
    have "(lb_bytes (holds m acc sw) = [] \<and> \<not> lb_truncated (holds m acc sw)) \<longleftrightarrow> acc = []"
      by (cases m; cases acc) (auto simp: holds_def)
    then show ?thesis by (simp add: buffer_finish_def take_line_holds)
  qed
  with p show ?thesis by simp
qed

text \<open>C4: however Docker cuts a stream into chunks, even between a carriage return and its
  line feed or inside a character, the lines produced are those of the whole stream, each
  cut at the maximum and marked when cut, and finishing yields exactly the unfinished rest.\<close>

theorem line_buffer_decodes_stream:
  "snd (push_chunks m chunks empty_buffer) = map (shown m) (stream_lines [] (concat chunks)) \<and>
   buffer_finish (fst (push_chunks m chunks empty_buffer)) =
     (if stream_rest [] (concat chunks) = [] then []
      else [shown m (stream_rest [] (concat chunks))])"
  by (rule line_buffer_spec)

lemma shown_length: "length (shown m l) \<le> 3 * m + length TRUNCATION_SUFFIX"
proof -
  have "length (from_utf8_lossy (take m l)) \<le> 3 * m"
    using length_lossy [of "take m l"] by (rule order_trans) simp
  then show ?thesis unfolding shown_def length_append by (intro add_mono) auto
qed

definition stdout_of :: "log_output list \<Rightarrow> string" where
  "stdout_of os = concat (map (\<lambda>x. case x of StdOut m \<Rightarrow> m | _ \<Rightarrow> []) os)"

definition stderr_of :: "log_output list \<Rightarrow> string" where
  "stderr_of os = concat (map (\<lambda>x. case x of StdErr m \<Rightarrow> m | _ \<Rightarrow> []) os)"

definition console_of :: "log_output list \<Rightarrow> string" where
  "console_of os = concat (map (\<lambda>x. case x of Console m \<Rightarrow> m | _ \<Rightarrow> []) os)"

definition decoder_run :: "nat \<Rightarrow> log_output list \<Rightarrow> console_output_decoder \<times> string list list" where
  "decoder_run m os = run_trace (decoder_push m) os empty_decoder"

definition own_lines :: "(log_output \<Rightarrow> bool) \<Rightarrow> log_output list \<Rightarrow> string list list \<Rightarrow> string list" where
  "own_lines P os lss = concat (map snd (filter (\<lambda>(x, _). P x) (zip os lss)))"

lemma run_buffer:
  assumes "\<And>x d. P x \<Longrightarrow> \<exists>msg. txt x = msg \<and>
      sel (fst (decoder_push m x d)) = fst (buffer_push m msg (sel d)) \<and>
      snd (decoder_push m x d) = snd (buffer_push m msg (sel d))"
    and "\<And>x d. \<not> P x \<Longrightarrow> sel (fst (decoder_push m x d)) = sel d \<and> txt x = []"
  shows "sel (fst (run_trace (decoder_push m) os d)) =
      fst (buffer_push m (concat (map txt os)) (sel d)) \<and>
    own_lines P os (snd (run_trace (decoder_push m) os d)) =
      snd (buffer_push m (concat (map txt os)) (sel d))"
proof (induction os arbitrary: d)
  case (Cons x os)
  obtain d' ls where s: "decoder_push m x d = (d', ls)" by (metis surj_pair)
  obtain t lss where t: "run_trace (decoder_push m) os d' = (t, lss)" by (metis surj_pair)
  show ?case
  proof (cases "P x")
    case True
    then have "sel d' = fst (buffer_push m (txt x) (sel d))" "ls = snd (buffer_push m (txt x) (sel d))"
      using assms(1) [of x d] s by auto
    then show ?thesis
      using Cons [of d'] True buffer_push_append [of m "txt x" "concat (map txt os)" "sel d"]
      by (simp add: s t own_lines_def)
  next
    case False
    then have "sel d' = sel d" "txt x = []" using assms(2) [of x d] s by auto
    then show ?thesis using Cons [of d'] False by (simp add: s t own_lines_def)
  qed
qed (simp add: own_lines_def buffer_push_def)

lemma buffer_push_stream:
  "snd (buffer_push m s empty_buffer) = map (shown m) (stream_lines [] s)"
  "buffer_finish (fst (buffer_push m s empty_buffer)) =
     (if stream_rest [] s = [] then [] else [shown m (stream_rest [] s)])"
  using line_buffer_spec [of m "[s]"] by (auto split: prod.splits)

definition finish_spec :: "nat \<Rightarrow> string \<Rightarrow> string list" where
  "finish_spec m s = (if stream_rest [] s = [] then [] else [shown m (stream_rest [] s)])"

text \<open>Lemma: the three output streams are decoded independently and standard input is ignored:
  the decoder's state and its final lines are those of each stream's own messages.\<close>

theorem decoder_streams_independent:
  "own_lines (\<lambda>x. case x of StdOut _ \<Rightarrow> True | _ \<Rightarrow> False) os (snd (decoder_run m os)) =
     map (shown m) (stream_lines [] (stdout_of os)) \<and>
   own_lines (\<lambda>x. case x of StdErr _ \<Rightarrow> True | _ \<Rightarrow> False) os (snd (decoder_run m os)) =
     map (shown m) (stream_lines [] (stderr_of os)) \<and>
   own_lines (\<lambda>x. case x of Console _ \<Rightarrow> True | _ \<Rightarrow> False) os (snd (decoder_run m os)) =
     map (shown m) (stream_lines [] (console_of os)) \<and>
   own_lines (\<lambda>x. case x of StdIn _ \<Rightarrow> True | _ \<Rightarrow> False) os (snd (decoder_run m os)) = [] \<and>
   decoder_finish (fst (decoder_run m os)) =
     finish_spec m (stdout_of os) @ finish_spec m (stderr_of os) @ finish_spec m (console_of os)"
proof -
  let ?d = empty_decoder
  have o: "d_stdout (fst (decoder_run m os)) = fst (buffer_push m (stdout_of os) (d_stdout ?d)) \<and>
      own_lines (\<lambda>x. case x of StdOut _ \<Rightarrow> True | _ \<Rightarrow> False) os (snd (decoder_run m os)) =
        snd (buffer_push m (stdout_of os) (d_stdout ?d))"
    unfolding decoder_run_def stdout_of_def
    by (rule run_buffer) (auto split: log_output.splits prod.splits)
  have e: "d_stderr (fst (decoder_run m os)) = fst (buffer_push m (stderr_of os) (d_stderr ?d)) \<and>
      own_lines (\<lambda>x. case x of StdErr _ \<Rightarrow> True | _ \<Rightarrow> False) os (snd (decoder_run m os)) =
        snd (buffer_push m (stderr_of os) (d_stderr ?d))"
    unfolding decoder_run_def stderr_of_def
    by (rule run_buffer) (auto split: log_output.splits prod.splits)
  have c: "d_console (fst (decoder_run m os)) = fst (buffer_push m (console_of os) (d_console ?d)) \<and>
      own_lines (\<lambda>x. case x of Console _ \<Rightarrow> True | _ \<Rightarrow> False) os (snd (decoder_run m os)) =
        snd (buffer_push m (console_of os) (d_console ?d))"
    unfolding decoder_run_def console_of_def
    by (rule run_buffer) (auto split: log_output.splits prod.splits)
  have i: "own_lines (\<lambda>x. case x of StdIn _ \<Rightarrow> True | _ \<Rightarrow> False) os (snd (run_trace (decoder_push m) os d)) = []" for d
  proof (induction os arbitrary: d)
    case (Cons x os)
    then show ?case by (cases x) (auto simp: own_lines_def split: prod.splits, (metis (no_types, lifting) snd_conv)+)
  qed (simp add: own_lines_def)
  show ?thesis
    using o e c i by (simp add: decoder_finish_def finish_spec_def buffer_push_stream empty_decoder_def decoder_run_def)
qed

end
