(* ===== verification/Console_Hub.thy ===== *)
theory Console_Hub
  imports Paths Protection Console_History Console_Decoder
begin

text \<open>
  @grpc/services/console/mod.rs@, @lifecycle.rs@ and the publishing half of @reader.rs@: the
  console hub with its inventory, viewer-owned reader tasks, broadcast channels and history.
  A method that runs under the lifecycle lock is a function on the hub that also returns
  the critical sections (on the senders, the history and the protection state) it still
  performs before it releases the lock; reader tasks run between those sections.
\<close>

subsection \<open>State\<close>

text \<open>
  A @ReaderTask@ and the atomics it shares with its task.  The token stands for the
  identity of the shared @active@ flag; channels are numbered and carry the number of
  live receivers and the entries sent so far.
\<close>

record task =
  t_server :: string
  t_channel :: nat
  t_active :: bool
  t_parked :: bool
  t_suspended :: bool
  t_wake :: bool
  t_viewer_wake :: bool
  t_finished :: bool
  t_aborted :: bool

record hub =
  hub_docker :: bool
  senders :: "string \<rightharpoonup> nat"
  hub_history :: history_cache
  desired :: "string list"
  readers :: "(string \<times> nat) list"
  pending_additions :: "string list"
  pending_removals :: "string list"
  inventory_initialized :: bool
  hub_protection :: protection_state
  max_active_readers :: nat
  reader_idle :: nat
  tasks :: "nat \<rightharpoonup> task"
  receiver_count :: "nat \<Rightarrow> nat"
  sent :: "nat \<Rightarrow> console_entry list"
  next_token :: nat

record console_sync_result =
  active_reader_count :: nat
  accepted_count :: nat
  removed_count :: nat

definition configured_reader_idle :: "environment \<Rightarrow> nat" where
  "configured_reader_idle env =
     secs (min (case Option.bind (env ''AGAPORNIS_CONSOLE_READER_IDLE_SECONDS'')
                       (parse_unsigned usize_max) of
                  Some v \<Rightarrow> if v > 0 then v else 120 | None \<Rightarrow> 120) 3600)"

definition configured_max_active_readers :: "environment \<Rightarrow> nat" where
  "configured_max_active_readers env =
     min (case Option.bind (env ''AGAPORNIS_CONSOLE_MAX_ACTIVE_READERS'')
                 (parse_unsigned usize_max) of
            Some v \<Rightarrow> if v > 0 then v else 256 | None \<Rightarrow> 256) 4096"

definition with_optional_docker :: "environment \<Rightarrow> bool \<Rightarrow> protection_state \<Rightarrow> hub" where
  "with_optional_docker env docker prot =
     \<lparr> hub_docker = docker, senders = Map.empty, hub_history = history_configured env,
       desired = [], readers = [], pending_additions = [], pending_removals = [],
       inventory_initialized = False, hub_protection = prot,
       max_active_readers = configured_max_active_readers env,
       reader_idle = configured_reader_idle env,
       tasks = Map.empty, receiver_count = (\<lambda>_. 0), sent = (\<lambda>_. []), next_token = 0 \<rparr>"

definition unfinished :: "hub \<Rightarrow> nat \<Rightarrow> bool" where
  "unfinished h tok = (case tasks h tok of Some t \<Rightarrow> \<not> t_finished t | None \<Rightarrow> False)"

definition active_readers :: "hub \<Rightarrow> nat" where
  "active_readers h = length (filter (\<lambda>(_, tok). unfinished h tok) (readers h))"

definition upd_task :: "nat \<Rightarrow> (task \<Rightarrow> task) \<Rightarrow> hub \<Rightarrow> hub" where
  "upd_task tok f h =
     (case tasks h tok of None \<Rightarrow> h | Some t \<Rightarrow> h\<lparr> tasks := (tasks h)(tok \<mapsto> f t) \<rparr>)"

subsection \<open>Inventory and readers\<close>

fun validate_inventory_loop :: "string list \<Rightarrow> string list \<Rightarrow> string list res" where
  "validate_inventory_loop acc [] = Ok acc"
| "validate_inventory_loop acc (i # is) =
     res_bind (validate_id i) (\<lambda>_. validate_inventory_loop (List.insert i acc) is)"

definition validate_inventory :: "string list \<Rightarrow> string list res" where
  "validate_inventory ids = validate_inventory_loop [] ids"

definition stop_reader :: "string \<Rightarrow> hub \<Rightarrow> hub" where
  "stop_reader sid h =
     (case map_of (readers h) sid of
        None \<Rightarrow> h
      | Some tok \<Rightarrow>
          upd_task tok (\<lambda>t. t\<lparr> t_active := False, t_aborted := True \<rparr>)
            (h\<lparr> readers := AList.delete sid (readers h) \<rparr>))"

definition sync_result :: "hub \<Rightarrow> nat \<Rightarrow> console_sync_result" where
  "sync_result h removed =
     \<lparr> active_reader_count = active_readers h, accepted_count = length (desired h),
       removed_count = removed \<rparr>"

definition record_addition :: "string \<Rightarrow> hub \<Rightarrow> hub" where
  "record_addition sid h =
     (if inventory_initialized h then h
      else h\<lparr> pending_removals := removeAll sid (pending_removals h),
              pending_additions := List.insert sid (pending_additions h) \<rparr>)"

definition validate_subscription :: "string \<Rightarrow> hub \<Rightarrow> hub \<times> unit res" where
  "validate_subscription sid h =
     (if inventory_initialized h \<and> sid \<notin> set (desired h)
      then (h, Err (Bail ''server is not assigned to this agent console inventory''))
      else if \<not> inventory_initialized h then
        (if sid \<in> set (pending_removals h)
         then (h, Err (Bail ''server was removed before console inventory bootstrap''))
         else (h\<lparr> desired := List.insert sid (desired h) \<rparr>, Ok ()))
      else (h, Ok ()))"

definition validate_reader_capacity :: "string \<Rightarrow> hub \<Rightarrow> unit res" where
  "validate_reader_capacity sid h =
     (if \<not> hub_docker h \<or> (\<exists>tok \<in> set_option (map_of (readers h) sid). unfinished h tok)
      then Ok ()
      else if active_readers h \<ge> max_active_readers h
      then Err (Bail (''console reader capacity reached (maximum '' @
                      nat_digits (max_active_readers h) @ '')''))
      else Ok ())"

definition start_reader_locked :: "string \<Rightarrow> nat \<Rightarrow> hub \<Rightarrow> hub" where
  "start_reader_locked sid ch h =
     (if \<not> hub_docker h then h
      else
        let tok = next_token h in
        h\<lparr> next_token := tok + 1,
           tasks := (tasks h)(tok \<mapsto>
             \<lparr> t_server = sid, t_channel = ch, t_active = True, t_parked = False,
               t_suspended = False, t_wake = False, t_viewer_wake = False,
               t_finished = False, t_aborted = False \<rparr>),
           readers := AList.update sid tok (readers h) \<rparr>)"

definition ensure_reader_locked :: "string \<Rightarrow> nat \<Rightarrow> hub \<Rightarrow> hub" where
  "ensure_reader_locked sid ch h =
     (case map_of (readers h) sid of
        Some tok \<Rightarrow>
          if unfinished h tok then upd_task tok (\<lambda>t. t\<lparr> t_viewer_wake := True \<rparr>) h
          else start_reader_locked sid ch (stop_reader sid h)
      | None \<Rightarrow> start_reader_locked sid ch (stop_reader sid h))"

subsection \<open>Lines\<close>

definition prepare_line :: "string \<Rightarrow> string \<Rightarrow> clock \<Rightarrow> hub \<Rightarrow> hub \<times> string option" where
  "prepare_line sid ln0 clk h =
     (let prot = hub_protection h;
          m = console_max_line_length prot;
          ln = (if length ln0 > m then take (floor_char_boundary ln0 m) ln0 @ TRUNCATION_SUFFIX
                else ln0)
      in case observe_line sid clk prot of
           (prot', d) \<Rightarrow>
             (h\<lparr> hub_protection := prot' \<rparr>,
              case d of
                Allow \<Rightarrow> Some ln
              | Notify \<Rightarrow> Some (''[agent] Console output throttled above '' @
                                nat_digits (console_lines_per_second prot) @ '' lines/second.'')
              | Trip \<Rightarrow> Some ''[agent] Sustained console flood detected. Output remains throttled to protect the control plane.''
              | Suppress \<Rightarrow> None))"

text \<open>The critical sections a method performs after its work on the lifecycle state.\<close>

datatype hub_action =
    DropSenders "string list"
  | DropHistories "string list"
  | DropHistoriesAndProtection "string list"
  | DropProtection string
  | DropIdleSender string nat
  | PushLine string string
  | SendEntry string console_entry

definition send_entry :: "string \<Rightarrow> console_entry \<Rightarrow> hub \<Rightarrow> hub" where
  "send_entry sid e h =
     (case senders h sid of
        None \<Rightarrow> h
      | Some ch \<Rightarrow> h\<lparr> sent := (sent h)(ch := sent h ch @ [e]) \<rparr>)"

fun exec_action :: "hub_action \<Rightarrow> hub \<Rightarrow> hub \<times> hub_action list" where
  "exec_action (DropSenders ids) h =
     (h\<lparr> senders := fold (\<lambda>k m. m(k := None)) ids (senders h) \<rparr>, [])"
| "exec_action (DropHistories ids) h =
     (h\<lparr> hub_history := fold history_remove ids (hub_history h) \<rparr>, [])"
| "exec_action (DropHistoriesAndProtection ids) h =
     (h\<lparr> hub_history := fold history_remove ids (hub_history h),
         hub_protection := fold protection_remove ids (hub_protection h) \<rparr>, [])"
| "exec_action (DropProtection sid) h =
     (h\<lparr> hub_protection := protection_remove sid (hub_protection h) \<rparr>, [])"
| "exec_action (DropIdleSender sid ch) h =
     (if senders h sid = Some ch \<and> receiver_count h ch = 0
      then (h\<lparr> senders := (senders h)(sid := None) \<rparr>, []) else (h, []))"
| "exec_action (PushLine sid ln) h =
     (case history_push sid ln (hub_history h) of
        (c, e) \<Rightarrow> (h\<lparr> hub_history := c \<rparr>, [SendEntry sid e]))"
| "exec_action (SendEntry sid e) h = (send_entry sid e h, [])"

subsection \<open>Methods under the lifecycle lock\<close>

definition synchronize_servers ::
  "string list \<Rightarrow> hub \<Rightarrow> hub \<times> console_sync_result res \<times> hub_action list" where
  "synchronize_servers ids h =
     (if inventory_initialized h then (h, Ok (sync_result h 0), [])
      else
        case validate_inventory ids of
          Inl e \<Rightarrow> (h, Inl e, [])
        | Inr d0 \<Rightarrow>
            let d1 = fold List.insert (pending_additions h) d0;
                d2 = fold removeAll (pending_removals h) d1;
                removed = filter (\<lambda>k. k \<notin> set d2) (desired h);
                h1 = fold stop_reader removed
                       (h\<lparr> pending_additions := [], pending_removals := [] \<rparr>);
                h2 = h1\<lparr> desired := d2, inventory_initialized := True \<rparr>
            in (h2, Ok (sync_result h2 (length removed)),
                if removed = [] then []
                else [DropSenders removed, DropHistoriesAndProtection removed]))"

definition track_server :: "string \<Rightarrow> hub \<Rightarrow> hub \<times> unit res" where
  "track_server sid h =
     (case validate_id sid of
        Inl e \<Rightarrow> (h, Inl e)
      | Inr _ \<Rightarrow>
          let h1 = record_addition sid h in
          (h1\<lparr> desired := List.insert sid (desired h1) \<rparr>, Ok ()))"

definition refresh_server :: "string \<Rightarrow> hub \<Rightarrow> hub \<times> unit res" where
  "refresh_server sid h =
     (case validate_id sid of
        Inl e \<Rightarrow> (h, Inl e)
      | Inr _ \<Rightarrow>
          let h1 = record_addition sid h;
              h2 = h1\<lparr> desired := List.insert sid (desired h1) \<rparr>
          in (case map_of (readers h2) sid of
                Some tok \<Rightarrow> (upd_task tok (\<lambda>t. t\<lparr> t_suspended := False, t_wake := True \<rparr>) h2, Ok ())
              | None \<Rightarrow> (h2, Ok ())))"

definition attach_requires_inspection :: "string \<Rightarrow> hub \<Rightarrow> bool res" where
  "attach_requires_inspection sid h =
     (if inventory_initialized h \<and> sid \<notin> set (desired h)
      then Err (Bail ''server is not assigned to this agent console inventory'')
      else if \<not> inventory_initialized h \<and> sid \<in> set (pending_removals h)
      then Err (Bail ''server was removed before console inventory bootstrap'')
      else Ok (sid \<notin> set (desired h)))"

definition detach_reader :: "string \<Rightarrow> hub \<Rightarrow> hub" where
  "detach_reader sid h =
     (case map_of (readers h) sid of
        Some tok \<Rightarrow> upd_task tok (\<lambda>t. t\<lparr> t_suspended := True, t_wake := True \<rparr>) h
      | None \<Rightarrow> h)"

definition wake_reader :: "string \<Rightarrow> hub \<Rightarrow> hub" where
  "wake_reader sid h =
     (if sid \<notin> set (desired h) then h
      else case map_of (readers h) sid of
        Some tok \<Rightarrow>
          upd_task tok (\<lambda>t. t\<lparr> t_suspended := False,
                               t_wake := (t_wake t \<or> t_suspended t \<or> t_parked t) \<rparr>) h
      | None \<Rightarrow> h)"

text \<open>The part of @subscribe@ under the lifecycle lock; the snapshot of the history follows.\<close>

definition subscribe :: "string \<Rightarrow> hub \<Rightarrow> hub \<times> nat res" where
  "subscribe sid h0 =
     (case validate_subscription sid h0 of
        (h, Inl e) \<Rightarrow> (h, Inl e)
      | (h, Inr _) \<Rightarrow>
          (case validate_reader_capacity sid h of
             Inl e \<Rightarrow> (h, Inl e)
           | Inr _ \<Rightarrow>
               let (h1, ch) =
                     (case senders h sid of
                        Some ch \<Rightarrow> (h, ch)
                      | None \<Rightarrow> (h\<lparr> senders := (senders h)(sid \<mapsto> next_token h),
                                    next_token := next_token h + 1 \<rparr>, next_token h));
                   h2 = h1\<lparr> receiver_count := (receiver_count h1)(ch := receiver_count h1 ch + 1) \<rparr>
               in (ensure_reader_locked sid ch h2, Ok ch)))"

definition retire_idle_reader :: "string \<Rightarrow> nat \<Rightarrow> nat \<Rightarrow> hub \<Rightarrow> hub \<times> hub_action list" where
  "retire_idle_reader sid tok ch h =
     (if map_of (readers h) sid \<noteq> Some tok then (h, [])
      else
        let h1 = h\<lparr> readers := AList.delete sid (readers h) \<rparr> in
        if receiver_count h1 ch > 0 \<and> sid \<in> set (desired h1)
        then (start_reader_locked sid ch h1, [])
        else (h1, [DropIdleSender sid ch, DropHistories [sid]]))"

definition hub_remove :: "string \<Rightarrow> hub \<Rightarrow> hub \<times> hub_action list" where
  "hub_remove sid h =
     (let h1 = (if inventory_initialized h then h
                else h\<lparr> pending_additions := removeAll sid (pending_additions h),
                        pending_removals := List.insert sid (pending_removals h) \<rparr>);
          h2 = h1\<lparr> desired := removeAll sid (desired h1) \<rparr>
      in (stop_reader sid h2, [DropSenders [sid], DropHistories [sid], DropProtection sid]))"

definition publish :: "string \<Rightarrow> string \<Rightarrow> clock \<Rightarrow> hub \<Rightarrow> hub \<times> hub_action list" where
  "publish sid ln clk h =
     (if inventory_initialized h \<and> sid \<notin> set (desired h)
         \<or> \<not> inventory_initialized h \<and> sid \<in> set (pending_removals h)
      then (h, [])
      else case prepare_line sid ln clk h of
        (h', None) \<Rightarrow> (h', [])
      | (h', Some l) \<Rightarrow> (h', [PushLine sid l]))"

end
