(* ===== verification/Console_Machine.thy ===== *)
theory Console_Machine
  imports Console_Hub
begin

text \<open>
  The console hub as a concurrent machine: hub methods take the lifecycle lock one at a
  time and perform their critical sections in order, reader tasks prepare, store and
  broadcast lines between any two sections, viewers leave, tasks end.  Invariants of every
  reachable state follow by rule induction.
\<close>

datatype hub_op =
    OpSync "string list" | OpTrack string | OpRefresh string | OpDetach string | OpWake string
  | OpSubscribe string | OpPublish string string clock | OpRetire nat | OpRemove string

fun begin_op :: "hub_op \<Rightarrow> hub \<Rightarrow> hub \<times> hub_action list" where
  "begin_op (OpSync ids) h = (case synchronize_servers ids h of (h', _, acts) \<Rightarrow> (h', acts))"
| "begin_op (OpTrack sid) h = (fst (track_server sid h), [])"
| "begin_op (OpRefresh sid) h = (fst (refresh_server sid h), [])"
| "begin_op (OpDetach sid) h = (detach_reader sid h, [])"
| "begin_op (OpWake sid) h = (wake_reader sid h, [])"
| "begin_op (OpSubscribe sid) h = (fst (subscribe sid h), [])"
| "begin_op (OpPublish sid ln clk) h = publish sid ln clk h"
| "begin_op (OpRetire tok) h =
     (case tasks h tok of Some t \<Rightarrow> retire_idle_reader (t_server t) tok (t_channel t) h | None \<Rightarrow> (h, []))"
| "begin_op (OpRemove sid) h = hub_remove sid h"

text \<open>Where a reader task is in @publish_line_when_active@; @PubDone@ has left its read loop.\<close>

datatype pub_state = PubIdle | PubPrepared "string option" | PubPushed console_entry | PubDone

text \<open>
  The machine: the hub, the critical sections the lock owner has left (the lock is free
  when there are none), the reader tasks' program points, and, as a ghost, the servers
  that were removed and not assigned again.
\<close>

record machine =
  m_hub :: hub
  m_owner :: "hub_action list"
  m_pub :: "nat \<Rightarrow> pub_state"
  m_gone :: "string set"

definition gone_after :: "hub_op \<Rightarrow> hub \<Rightarrow> hub \<Rightarrow> string set \<Rightarrow> string set" where
  "gone_after op h h' g =
     (g \<union> (case op of OpRemove sid \<Rightarrow> {sid} | _ \<Rightarrow> {}) \<union> (set (desired h) - set (desired h'))) -
     set (desired h')"

fun op_enabled :: "hub_op \<Rightarrow> machine \<Rightarrow> bool" where
  "op_enabled (OpRetire tok) m =
     (m_pub m tok = PubDone \<and> (\<exists>t. tasks (m_hub m) tok = Some t \<and> \<not> t_finished t))"
| "op_enabled _ m = True"

inductive hub_step :: "machine \<Rightarrow> machine \<Rightarrow> bool" where
  operation: "m_owner m = [] \<Longrightarrow> op_enabled op m \<Longrightarrow> begin_op op (m_hub m) = (h', acts) \<Longrightarrow>
     hub_step m (m\<lparr> m_hub := h', m_owner := acts, m_gone := gone_after op (m_hub m) h' (m_gone m) \<rparr>)"
| critical: "m_owner m = a # as \<Longrightarrow> exec_action a (m_hub m) = (h', todo) \<Longrightarrow>
     hub_step m (m\<lparr> m_hub := h', m_owner := todo @ as \<rparr>)"
| prepare: "tasks (m_hub m) tok = Some t \<Longrightarrow> m_pub m tok = PubIdle \<Longrightarrow>
     prepare_line (t_server t) ln clk (m_hub m) = (h', l) \<Longrightarrow>
     hub_step m (m\<lparr> m_hub := h',
       m_pub := (m_pub m)(tok := if t_active t then PubPrepared l else PubDone) \<rparr>)"
| suppressed: "m_pub m tok = PubPrepared None \<Longrightarrow>
     hub_step m (m\<lparr> m_pub := (m_pub m)(tok := PubIdle) \<rparr>)"
| push: "tasks (m_hub m) tok = Some t \<Longrightarrow> m_pub m tok = PubPrepared (Some l) \<Longrightarrow> t_active t \<Longrightarrow>
     history_push (t_server t) l (hub_history (m_hub m)) = (c, e) \<Longrightarrow>
     hub_step m (m\<lparr> m_hub := (m_hub m)\<lparr> hub_history := c \<rparr>,
                    m_pub := (m_pub m)(tok := PubPushed e) \<rparr>)"
| send: "tasks (m_hub m) tok = Some t \<Longrightarrow> m_pub m tok = PubPushed e \<Longrightarrow> t_active t \<Longrightarrow>
     hub_step m (m\<lparr> m_hub := send_entry (t_server t) e (m_hub m),
                    m_pub := (m_pub m)(tok := PubIdle) \<rparr>)"
| stale: "tasks (m_hub m) tok = Some t \<Longrightarrow> \<not> t_active t \<or> m_pub m tok = PubIdle \<Longrightarrow>
     hub_step m (m\<lparr> m_pub := (m_pub m)(tok := PubDone) \<rparr>)"
| finish: "tasks (m_hub m) tok = Some t \<Longrightarrow> m_pub m tok = PubDone \<or> t_aborted t \<Longrightarrow>
     hub_step m (m\<lparr> m_hub := upd_task tok (\<lambda>t. t\<lparr> t_finished := True \<rparr>) (m_hub m),
                    m_pub := (m_pub m)(tok := PubDone) \<rparr>)"
| park: "hub_step m (m\<lparr> m_hub := upd_task tok (\<lambda>t. t\<lparr> t_parked := b, t_wake := False \<rparr>) (m_hub m) \<rparr>)"
| snapshot: "hub_step m (m\<lparr> m_hub := (m_hub m)\<lparr> hub_history := view_state sid (hub_history (m_hub m)) \<rparr> \<rparr>)"
| viewer_leaves: "hub_step m (m\<lparr> m_hub := (m_hub m)
     \<lparr> receiver_count := (receiver_count (m_hub m))(ch := receiver_count (m_hub m) ch - 1) \<rparr> \<rparr>)"

inductive hub_reachable :: "hub \<Rightarrow> machine \<Rightarrow> bool" for h0 where
  start: "hub_reachable h0 \<lparr> m_hub = h0, m_owner = [], m_pub = (\<lambda>_. PubIdle), m_gone = {} \<rparr>"
| step: "hub_reachable h0 m \<Longrightarrow> hub_step m m' \<Longrightarrow> hub_reachable h0 m'"

subsection \<open>The lifecycle invariant\<close>

definition readers_registered :: "hub \<Rightarrow> bool" where
  "readers_registered h \<longleftrightarrow> distinct (map fst (readers h)) \<and>
     (\<forall>sid tok. map_of (readers h) sid = Some tok \<longrightarrow>
        sid \<in> set (desired h) \<and> (\<exists>t. tasks h tok = Some t \<and> t_server t = sid))"

definition active_registered :: "hub \<Rightarrow> (nat \<Rightarrow> pub_state) \<Rightarrow> bool" where
  "active_registered h pub \<longleftrightarrow>
     (\<forall>tok t. tasks h tok = Some t \<longrightarrow> t_active t \<longrightarrow> pub tok \<noteq> PubDone \<longrightarrow>
        map_of (readers h) (t_server t) = Some tok)"

definition tokens_fresh :: "hub \<Rightarrow> bool" where
  "tokens_fresh h \<longleftrightarrow> (\<forall>tok. next_token h \<le> tok \<longrightarrow> tasks h tok = None)"

definition lifecycle_ok :: "hub \<Rightarrow> (nat \<Rightarrow> pub_state) \<Rightarrow> bool" where
  "lifecycle_ok h pub \<longleftrightarrow>
     readers_registered h \<and> active_registered h pub \<and> tokens_fresh h \<and>
     active_readers h \<le> max_active_readers h"

lemmas lifecycle_defs =
  lifecycle_ok_def readers_registered_def active_registered_def tokens_fresh_def

lemma upd_task_sel [simp]:
  "readers (upd_task tok f h) = readers h" "desired (upd_task tok f h) = desired h"
  "next_token (upd_task tok f h) = next_token h" "senders (upd_task tok f h) = senders h"
  "hub_history (upd_task tok f h) = hub_history h" "hub_docker (upd_task tok f h) = hub_docker h"
  "max_active_readers (upd_task tok f h) = max_active_readers h"
  "inventory_initialized (upd_task tok f h) = inventory_initialized h"
  "pending_removals (upd_task tok f h) = pending_removals h"
  "receiver_count (upd_task tok f h) = receiver_count h"
  "tasks (upd_task tok f h) k = (if k = tok then map_option f (tasks h tok) else tasks h k)"
  by (auto simp: upd_task_def split: option.splits)

lemma length_filter_mono:
  "(\<And>x. x \<in> set xs \<Longrightarrow> P x \<Longrightarrow> Q x) \<Longrightarrow> length (filter P xs) \<le> length (filter Q xs)"
  by (induction xs) (auto intro: le_SucI)

lemma active_readers_mono:
  assumes "readers h' = readers h"
    and "\<And>sid tok. (sid, tok) \<in> set (readers h) \<Longrightarrow> unfinished h' tok \<Longrightarrow> unfinished h tok"
  shows "active_readers h' \<le> active_readers h"
  using assms by (auto simp: active_readers_def intro!: length_filter_mono)

lemma upd_task_ok:
  assumes "lifecycle_ok h pub"
    and "\<And>t. t_server (f t) = t_server t" "\<And>t. t_active (f t) \<Longrightarrow> t_active t"
    and "\<And>t. t_finished t \<Longrightarrow> t_finished (f t)"
  shows "lifecycle_ok (upd_task tok f h) pub"
proof -
  have "active_readers (upd_task tok f h) \<le> active_readers h"
    by (rule active_readers_mono) (auto simp: unfinished_def assms(4) split: option.splits if_splits)
  then show ?thesis
    using assms by (auto simp: lifecycle_defs simp del: map_of_eq_Some_iff) (metis+)
qed

lemma pub_done_ok: "lifecycle_ok h pub \<Longrightarrow> lifecycle_ok h (pub(tok := PubDone))"
  by (auto simp: lifecycle_defs)

lemma pub_move_ok: "lifecycle_ok h pub \<Longrightarrow> pub tok \<noteq> PubDone \<Longrightarrow> lifecycle_ok h (pub(tok := p))"
  by (auto simp: lifecycle_defs)

text \<open>Fields the lifecycle invariant does not read.\<close>

lemma lifecycle_cong:
  assumes "readers h' = readers h" "tasks h' = tasks h" "desired h' = desired h"
    "next_token h' \<ge> next_token h" "max_active_readers h' = max_active_readers h"
  shows "lifecycle_ok h pub \<Longrightarrow> lifecycle_ok h' pub"
proof -
  have "active_readers h' = active_readers h"
    using assms by (simp add: active_readers_def unfinished_def cong: filter_cong)
  then show "lifecycle_ok h pub \<Longrightarrow> lifecycle_ok h' pub"
    using assms by (simp add: lifecycle_defs)
qed

lemma lifecycle_upd [simp]:
  "lifecycle_ok (h\<lparr> hub_history := c \<rparr>) pub = lifecycle_ok h pub"
  "lifecycle_ok (h\<lparr> hub_protection := p \<rparr>) pub = lifecycle_ok h pub"
  "lifecycle_ok (h\<lparr> senders := s \<rparr>) pub = lifecycle_ok h pub"
  "lifecycle_ok (h\<lparr> sent := t \<rparr>) pub = lifecycle_ok h pub"
  "lifecycle_ok (h\<lparr> receiver_count := r \<rparr>) pub = lifecycle_ok h pub"
  by (simp_all add: lifecycle_defs active_readers_def unfinished_def)

lemma lifecycle_send [simp]: "lifecycle_ok (send_entry sid e h) pub = lifecycle_ok h pub"
  by (simp add: send_entry_def split: option.splits)

lemma stop_reader_sel [simp]:
  "map_of (readers (stop_reader sid h)) = (map_of (readers h))(sid := None)"
  "desired (stop_reader sid h) = desired h" "next_token (stop_reader sid h) = next_token h"
  "senders (stop_reader sid h) = senders h" "hub_history (stop_reader sid h) = hub_history h"
  "max_active_readers (stop_reader sid h) = max_active_readers h"
  "hub_docker (stop_reader sid h) = hub_docker h"
  "inventory_initialized (stop_reader sid h) = inventory_initialized h"
  "pending_removals (stop_reader sid h) = pending_removals h"
  by (auto simp: stop_reader_def delete_conv' split: option.splits)

lemma stop_reader_keys: "set (readers (stop_reader sid h)) \<subseteq> set (readers h)"
  by (auto simp: stop_reader_def dest: in_set_delete split: option.splits)

lemma active_readers_delete:
  "active_readers (h\<lparr> readers := AList.delete sid (readers h) \<rparr>) \<le> active_readers h"
proof -
  have "length (filter P (AList.delete sid xs)) \<le> length (filter P xs)" for P and xs :: "(string \<times> nat) list"
    by (induction xs) auto
  then show ?thesis by (simp add: active_readers_def unfinished_def)
qed

lemma delete_ok:
  assumes "lifecycle_ok h pub"
    and "\<And>tok t. map_of (readers h) sid = Some tok \<Longrightarrow> tasks h tok = Some t \<Longrightarrow> t_active t \<Longrightarrow> pub tok = PubDone"
  shows "lifecycle_ok (h\<lparr> readers := AList.delete sid (readers h) \<rparr>) pub"
proof -
  have d: "map_of (AList.delete sid (readers h)) = (map_of (readers h))(sid := None)"
    by (rule delete_conv')
  let ?h = "h\<lparr> readers := AList.delete sid (readers h) \<rparr>"
  have m: "map_of (readers ?h) = (map_of (readers h))(sid := None)" by (simp add: d)
  have "readers_registered ?h"
    using assms(1) unfolding readers_registered_def lifecycle_ok_def m by (auto simp: distinct_delete)
  moreover have "active_registered ?h pub"
    unfolding active_registered_def m
  proof (intro allI impI)
    fix tok t assume t: "tasks ?h tok = Some t" "t_active t" "pub tok \<noteq> PubDone"
    then have r: "map_of (readers h) (t_server t) = Some tok"
      using assms(1) unfolding lifecycle_ok_def active_registered_def by simp
    then have "t_server t \<noteq> sid" using assms(2) t by fastforce
    then show "((map_of (readers h))(sid := None)) (t_server t) = Some tok" using r by simp
  qed
  moreover have "tokens_fresh ?h" using assms(1) by (simp add: lifecycle_defs)
  moreover have "active_readers ?h \<le> max_active_readers ?h"
    using assms(1) active_readers_delete [of sid h] by (simp add: lifecycle_ok_def)
  ultimately show ?thesis by (simp add: lifecycle_ok_def)
qed

lemma stop_reader_ok:
  assumes "lifecycle_ok h pub"
  shows "lifecycle_ok (stop_reader sid h) pub"
proof (cases "map_of (readers h) sid")
  case (Some tok)
  let ?f = "\<lambda>t. t\<lparr> t_active := False, t_aborted := True \<rparr>"
  have "lifecycle_ok (upd_task tok ?f h) pub" by (rule upd_task_ok [OF assms]) auto
  then have "lifecycle_ok ((upd_task tok ?f h)\<lparr> readers := AList.delete sid (readers (upd_task tok ?f h)) \<rparr>) pub"
    by (rule delete_ok) (use Some in auto)
  moreover have "(upd_task tok ?f h)\<lparr> readers := AList.delete sid (readers (upd_task tok ?f h)) \<rparr> =
      stop_reader sid h"
    using Some by (auto simp: stop_reader_def upd_task_def split: option.splits)
  ultimately show ?thesis by simp
qed (use assms in \<open>simp add: stop_reader_def\<close>)

lemma stop_reader_active: "active_readers (stop_reader sid h) \<le> active_readers h"
proof (cases "map_of (readers h) sid")
  case (Some tok)
  let ?h = "h\<lparr> readers := AList.delete sid (readers h) \<rparr>"
  let ?f = "\<lambda>t. t\<lparr> t_active := False, t_aborted := True \<rparr>"
  have "active_readers (upd_task tok ?f ?h) \<le> active_readers ?h"
    by (rule active_readers_mono) (auto simp: unfinished_def split: option.splits if_splits)
  then show ?thesis
    using active_readers_delete [of sid h] Some by (simp add: stop_reader_def)
qed (simp add: stop_reader_def)

lemma update_new_append: "map_of xs k = None \<Longrightarrow> AList.update k v xs = xs @ [(k, v)]"
  by (induction xs) (auto split: if_splits)

lemma start_reader_ok:
  assumes ok: "lifecycle_ok h pub" and new: "map_of (readers h) sid = None"
    and want: "sid \<in> set (desired h)" and room: "hub_docker h \<Longrightarrow> active_readers h < max_active_readers h"
  shows "lifecycle_ok (start_reader_locked sid ch h) pub"
proof (cases "hub_docker h")
  case True
  let ?h = "start_reader_locked sid ch h" and ?tok = "next_token h"
  have rd: "readers ?h = readers h @ [(sid, ?tok)]"
    using True by (simp add: start_reader_locked_def Let_def update_new_append [OF new])
  have mp: "map_of (readers ?h) = (map_of (readers h))(sid \<mapsto> ?tok)"
    using True by (simp add: start_reader_locked_def Let_def update_conv')
  have tk: "tasks ?h k = (if k = ?tok then Some \<lparr> t_server = sid, t_channel = ch, t_active = True,
      t_parked = False, t_suspended = False, t_wake = False, t_viewer_wake = False,
      t_finished = False, t_aborted = False \<rparr> else tasks h k)" for k
    using True by (simp add: start_reader_locked_def Let_def)
  have old: "tok < ?tok" if "(s, tok) \<in> set (readers h)" for s tok
  proof -
    have "map_of (readers h) s = Some tok" using ok that by (simp add: lifecycle_defs)
    then have "tasks h tok \<noteq> None"
      using ok unfolding lifecycle_ok_def readers_registered_def by fastforce
    then show ?thesis using ok unfolding lifecycle_ok_def tokens_fresh_def by (meson not_le)
  qed
  have "filter (\<lambda>(_, tok). unfinished ?h tok) (readers h) = filter (\<lambda>(_, tok). unfinished h tok) (readers h)"
    by (rule filter_cong) (use old in \<open>fastforce simp: unfinished_def tk split: option.splits\<close>)+
  then have act: "active_readers ?h = Suc (active_readers h)"
    by (simp add: active_readers_def rd) (simp add: unfinished_def tk)
  have sel: "desired ?h = desired h" "max_active_readers ?h = max_active_readers h" "next_token ?h = Suc ?tok"
    using True by (simp_all add: start_reader_locked_def Let_def)
  have dist: "distinct (map fst (readers ?h))"
    using ok new by (auto simp: rd lifecycle_defs map_of_eq_None_iff)
  have "active_readers ?h \<le> max_active_readers ?h" using act room [OF True] sel by simp
  moreover have "tokens_fresh ?h" using ok by (simp add: lifecycle_defs tk sel)
  moreover have "readers_registered ?h"
    using ok dist want old unfolding readers_registered_def mp tk sel
    by (auto simp: lifecycle_defs simp del: map_of_eq_Some_iff)
      (metis less_irrefl map_of_SomeD)
  moreover have "active_registered ?h pub"
    unfolding active_registered_def mp tk
  proof (intro allI impI)
    fix tok t
    assume t: "(if tok = ?tok then Some \<lparr> t_server = sid, t_channel = ch, t_active = True,
      t_parked = False, t_suspended = False, t_wake = False, t_viewer_wake = False,
      t_finished = False, t_aborted = False \<rparr> else tasks h tok) = Some t" "t_active t" "pub tok \<noteq> PubDone"
    show "((map_of (readers h))(sid \<mapsto> ?tok)) (t_server t) = Some tok"
    proof (cases "tok = ?tok")
      case False
      then have "map_of (readers h) (t_server t) = Some tok"
        using ok t unfolding lifecycle_ok_def active_registered_def by simp
      then show ?thesis using new by auto
    qed (use t in auto)
  qed
  ultimately show ?thesis by (simp add: lifecycle_ok_def)
qed (use ok in \<open>simp add: start_reader_locked_def\<close>)


lemma desired_change_ok:
  assumes "lifecycle_ok h pub" "\<And>sid tok. map_of (readers h) sid = Some tok \<Longrightarrow> sid \<in> set (desired h')"
    "readers h' = readers h" "tasks h' = tasks h" "next_token h' \<ge> next_token h"
    "max_active_readers h' = max_active_readers h"
  shows "lifecycle_ok h' pub"
proof -
  have "active_readers h' = active_readers h"
    using assms by (simp add: active_readers_def unfinished_def cong: filter_cong)
  then have "active_readers h' \<le> max_active_readers h'" using assms by (simp add: lifecycle_ok_def)
  moreover have "readers_registered h'"
    using assms unfolding lifecycle_ok_def readers_registered_def by metis
  moreover have "active_registered h' pub" "tokens_fresh h'"
    using assms by (simp_all add: lifecycle_defs)
  ultimately show ?thesis by (simp add: lifecycle_ok_def)
qed

lemma readers_desired:
  "lifecycle_ok h pub \<Longrightarrow> map_of (readers h) sid = Some tok \<Longrightarrow> sid \<in> set (desired h)"
  unfolding lifecycle_ok_def readers_registered_def by blast

lemma desired_grow_ok:
  assumes "lifecycle_ok h pub" "set (desired h) \<subseteq> set (desired h')"
    "readers h' = readers h" "tasks h' = tasks h" "next_token h' \<ge> next_token h"
    "max_active_readers h' = max_active_readers h"
  shows "lifecycle_ok h' pub"
  by (rule desired_change_ok [OF assms(1) _ assms(3-6)])
    (use readers_desired [OF assms(1)] assms(2) in blast)

lemma record_addition_sel [simp]:
  "readers (record_addition sid h) = readers h" "tasks (record_addition sid h) = tasks h"
  "desired (record_addition sid h) = desired h" "next_token (record_addition sid h) = next_token h"
  "max_active_readers (record_addition sid h) = max_active_readers h"
  "hub_history (record_addition sid h) = hub_history h" "senders (record_addition sid h) = senders h"
  "inventory_initialized (record_addition sid h) = inventory_initialized h"
  "set (pending_removals (record_addition sid h)) \<subseteq> set (pending_removals h)"
  by (auto simp: record_addition_def)

lemma record_addition_keeps:
  "k \<noteq> sid \<Longrightarrow> k \<in> set (pending_removals h) \<Longrightarrow> k \<in> set (pending_removals (record_addition sid h))"
  by (auto simp: record_addition_def)

lemma track_server_ok: "lifecycle_ok h pub \<Longrightarrow> lifecycle_ok (fst (track_server sid h)) pub"
  by (cases "validate_id sid") (auto simp: track_server_def Let_def elim!: desired_grow_ok)

lemma refresh_server_ok:
  assumes "lifecycle_ok h pub"
  shows "lifecycle_ok (fst (refresh_server sid h)) pub"
proof (cases "validate_id sid")
  case (Inr u)
  let ?h1 = "record_addition sid h"
  let ?h2 = "?h1\<lparr> desired := List.insert sid (desired ?h1) \<rparr>"
  have "lifecycle_ok ?h2 pub" by (rule desired_grow_ok [OF assms]) auto
  then show ?thesis
    using Inr by (auto simp: refresh_server_def Let_def split: option.splits intro: upd_task_ok)
qed (use assms in \<open>simp add: refresh_server_def\<close>)

lemma detach_reader_ok: "lifecycle_ok h pub \<Longrightarrow> lifecycle_ok (detach_reader sid h) pub"
  by (auto simp: detach_reader_def split: option.splits intro: upd_task_ok)

lemma wake_reader_ok: "lifecycle_ok h pub \<Longrightarrow> lifecycle_ok (wake_reader sid h) pub"
  by (auto simp: wake_reader_def split: option.splits intro: upd_task_ok)

lemma validate_subscription_spec:
  assumes "validate_subscription sid h0 = (h, r)"
  shows "readers h = readers h0 \<and> tasks h = tasks h0 \<and> next_token h = next_token h0 \<and>
    max_active_readers h = max_active_readers h0 \<and> hub_docker h = hub_docker h0 \<and>
    senders h = senders h0 \<and> hub_history h = hub_history h0 \<and>
    inventory_initialized h = inventory_initialized h0 \<and> pending_removals h = pending_removals h0 \<and>
    set (desired h0) \<subseteq> set (desired h) \<and> set (desired h) \<subseteq> insert sid (set (desired h0)) \<and>
    (r = Ok () \<longrightarrow> sid \<in> set (desired h)) \<and>
    (set (desired h) \<noteq> set (desired h0) \<longrightarrow> sid \<notin> set (pending_removals h0) \<and> \<not> inventory_initialized h0)"
  using assms by (auto simp: validate_subscription_def split: if_splits)

lemma ensure_reader_ok:
  assumes "lifecycle_ok h pub" "sid \<in> set (desired h)" "validate_reader_capacity sid h = Ok ()"
  shows "lifecycle_ok (ensure_reader_locked sid ch h) pub"
proof (cases "\<exists>tok. map_of (readers h) sid = Some tok \<and> unfinished h tok")
  case True
  then show ?thesis
    using assms(1) by (auto simp: ensure_reader_locked_def) (rule upd_task_ok, auto)
next
  case False
  then have e: "ensure_reader_locked sid ch h = start_reader_locked sid ch (stop_reader sid h)"
    by (auto simp: ensure_reader_locked_def split: option.splits)
  have "active_readers (stop_reader sid h) < max_active_readers h" if "hub_docker h"
    using assms(3) False that stop_reader_active [of sid h]
    by (auto simp: validate_reader_capacity_def split: if_splits)
  then show ?thesis
    unfolding e using stop_reader_ok [OF assms(1)] assms(2) by (intro start_reader_ok) auto
qed

lemma capacity_cong:
  "readers h' = readers h \<Longrightarrow> tasks h' = tasks h \<Longrightarrow> max_active_readers h' = max_active_readers h \<Longrightarrow>
   hub_docker h' = hub_docker h \<Longrightarrow> validate_reader_capacity sid h' = validate_reader_capacity sid h"
  by (simp add: validate_reader_capacity_def active_readers_def unfinished_def cong: filter_cong)

lemma subscribe_ok:
  assumes "lifecycle_ok h0 pub"
  shows "lifecycle_ok (fst (subscribe sid h0)) pub"
proof -
  obtain h r where v: "validate_subscription sid h0 = (h, r)" by (metis surj_pair)
  note vs = validate_subscription_spec [OF v]
  have h: "lifecycle_ok h pub" by (rule desired_grow_ok [OF assms]) (use vs in auto)
  show ?thesis
  proof (cases "r = Ok () \<and> validate_reader_capacity sid h = Ok ()")
    case True
    define h1 ch where "h1 = (case senders h sid of Some ch \<Rightarrow> h
        | None \<Rightarrow> h\<lparr> senders := (senders h)(sid \<mapsto> next_token h), next_token := next_token h + 1 \<rparr>)"
      and "ch = (case senders h sid of Some ch \<Rightarrow> ch | None \<Rightarrow> next_token h)"
    define h2 where "h2 = h1\<lparr> receiver_count := (receiver_count h1)(ch := receiver_count h1 ch + 1) \<rparr>"
    have eq: "readers h2 = readers h" "tasks h2 = tasks h" "desired h2 = desired h"
      "next_token h2 \<ge> next_token h" "max_active_readers h2 = max_active_readers h"
      "hub_docker h2 = hub_docker h"
      by (auto simp: h2_def h1_def split: option.splits)
    have "lifecycle_ok h2 pub" using eq h by (intro lifecycle_cong [of h2 h]) auto
    moreover have "validate_reader_capacity sid h2 = Ok ()"
      using True capacity_cong [OF eq(1,2,5,6)] by simp
    moreover have "sid \<in> set (desired h2)" using vs True eq by simp
    ultimately have "lifecycle_ok (ensure_reader_locked sid ch h2) pub" by (intro ensure_reader_ok)
    moreover have "fst (subscribe sid h0) = ensure_reader_locked sid ch h2"
      using True v by (simp add: subscribe_def h2_def h1_def ch_def split: option.splits)
    ultimately show ?thesis by simp
  next
    case False
    then have "fst (subscribe sid h0) = h"
      using v by (auto simp: subscribe_def split: sum.splits prod.splits)
    then show ?thesis using h by simp
  qed
qed

lemma retire_ok:
  assumes ok: "lifecycle_ok h pub" and t: "tasks h tok = Some t" "\<not> t_finished t" "pub tok = PubDone"
  shows "lifecycle_ok (fst (retire_idle_reader (t_server t) tok (t_channel t) h)) pub"
proof (cases "map_of (readers h) (t_server t) = Some tok")
  case True
  let ?sid = "t_server t"
  let ?h1 = "h\<lparr> readers := AList.delete ?sid (readers h) \<rparr>"
  have h1: "lifecycle_ok ?h1 pub" by (rule delete_ok [OF ok]) (use True t in auto)
  have "length (filter P (AList.delete k xs)) < length (filter P xs)"
    if "map_of xs k = Some v" "P (k, v)" for P k v and xs :: "(string \<times> nat) list"
    using that
  proof (induction xs)
    case (Cons x xs)
    have "length (filter P (AList.delete k xs)) \<le> length (filter P xs)" by (induction xs) auto
    with Cons show ?case by (cases x) (auto split: if_splits)
  qed simp
  from this [OF True] have "active_readers ?h1 < active_readers h"
    using t by (simp add: active_readers_def unfinished_def)
  then have "active_readers ?h1 < max_active_readers ?h1" using ok by (simp add: lifecycle_ok_def)
  then have "?sid \<in> set (desired ?h1) \<Longrightarrow> lifecycle_ok (start_reader_locked ?sid (t_channel t) ?h1) pub"
    using h1 by (intro start_reader_ok) (auto simp: delete_conv')
  then show ?thesis using h1 True by (auto simp: retire_idle_reader_def Let_def)
qed (use ok in \<open>simp add: retire_idle_reader_def\<close>)

lemma remove_ok: "lifecycle_ok h pub \<Longrightarrow> lifecycle_ok (fst (hub_remove sid h)) pub"
proof -
  assume ok: "lifecycle_ok h pub"
  define h1 where "h1 = (if inventory_initialized h then h
      else h\<lparr> pending_additions := removeAll sid (pending_additions h),
              pending_removals := List.insert sid (pending_removals h) \<rparr>)"
  have s: "lifecycle_ok (stop_reader sid h1) pub"
    by (rule stop_reader_ok, rule lifecycle_cong [OF _ _ _ _ _ ok]) (auto simp: h1_def)
  have e: "fst (hub_remove sid h) = (stop_reader sid h1)\<lparr> desired := removeAll sid (desired h1) \<rparr>"
    by (auto simp: hub_remove_def h1_def Let_def stop_reader_def upd_task_def split: option.splits)
  have "k \<in> set (removeAll sid (desired h1))" if "map_of (readers (stop_reader sid h1)) k = Some tok" for k tok
    using readers_desired [OF s that] that by (auto split: if_splits)
  then show ?thesis unfolding e by (intro desired_change_ok [OF s]) auto
qed

lemma fold_stop_reader:
  assumes "lifecycle_ok h pub"
  shows "lifecycle_ok (fold stop_reader ks h) pub \<and>
    (\<forall>k. map_of (readers (fold stop_reader ks h)) k = (if k \<in> set ks then None else map_of (readers h) k)) \<and>
    desired (fold stop_reader ks h) = desired h \<and> senders (fold stop_reader ks h) = senders h \<and>
    hub_history (fold stop_reader ks h) = hub_history h"
  using assms
proof (induction ks arbitrary: h)
  case (Cons k ks)
  from Cons.IH [OF stop_reader_ok [OF Cons.prems, of k]] show ?case by auto
qed simp

lemma synchronize_ok:
  assumes ok: "lifecycle_ok h pub"
  shows "lifecycle_ok (fst (synchronize_servers ids h)) pub"
proof (cases "inventory_initialized h \<or> (\<exists>e. validate_inventory ids = Inl e)")
  case False
  then obtain d0 where d0: "validate_inventory ids = Inr d0" by (cases "validate_inventory ids") auto
  define d2 where "d2 = fold removeAll (pending_removals h) (fold List.insert (pending_additions h) d0)"
  define removed where "removed = filter (\<lambda>k. k \<notin> set d2) (desired h)"
  define h1 where "h1 = fold stop_reader removed (h\<lparr> pending_additions := [], pending_removals := [] \<rparr>)"
  have e: "fst (synchronize_servers ids h) = h1\<lparr> desired := d2, inventory_initialized := True \<rparr>"
    using False d0 by (simp add: synchronize_servers_def Let_def h1_def removed_def d2_def)
  have "lifecycle_ok (h\<lparr> pending_additions := [], pending_removals := [] \<rparr>) pub"
    by (rule lifecycle_cong [OF _ _ _ _ _ ok]) auto
  note f = fold_stop_reader [OF this, of removed, folded h1_def]
  have "sid \<in> set d2" if "map_of (readers h1) sid = Some tok" for sid tok
  proof -
    have "sid \<in> set (desired h)" using readers_desired [of h1 pub sid tok] f that by simp
    moreover have "sid \<notin> set removed" using f that by (metis option.distinct(1))
    ultimately show ?thesis by (simp add: removed_def)
  qed
  then have d: "sid \<in> set (desired (h1\<lparr> desired := d2, inventory_initialized := True \<rparr>))"
    if "map_of (readers h1) sid = Some tok" for sid tok using that by simp
  have h1: "lifecycle_ok h1 pub" using f by blast
  show ?thesis unfolding e by (rule desired_change_ok [OF h1 d]) simp_all
qed (use ok in \<open>auto simp: synchronize_servers_def\<close>)


subsection \<open>Removed servers leave nothing behind\<close>

definition has_history :: "hub \<Rightarrow> string \<Rightarrow> bool" where
  "has_history h sid \<longleftrightarrow> map_of (hc_entries (hub_history h)) sid \<noteq> None"

fun drops_history :: "string \<Rightarrow> hub_action \<Rightarrow> bool" where
  "drops_history k (DropHistories ids) = (k \<in> set ids)"
| "drops_history k (DropHistoriesAndProtection ids) = (k \<in> set ids)"
| "drops_history k _ = False"

fun drops_sender :: "string \<Rightarrow> hub_action \<Rightarrow> bool" where
  "drops_sender k (DropSenders ids) = (k \<in> set ids)"
| "drops_sender k _ = False"

text \<open>What every method guarantees about inventory, channels and history.\<close>

definition op_frame :: "hub_op \<Rightarrow> hub \<Rightarrow> hub \<Rightarrow> hub_action list \<Rightarrow> bool" where
  "op_frame op h h' acts \<longleftrightarrow>
     hub_history h' = hub_history h \<and>
     (\<forall>k. senders h' k \<noteq> None \<longrightarrow> senders h k \<noteq> None \<or> k \<in> set (desired h')) \<and>
     (\<not> inventory_initialized h' \<longrightarrow> \<not> inventory_initialized h \<and>
        (\<forall>k \<in> set (pending_removals h). k \<in> set (pending_removals h') \<or> k \<in> set (desired h'))) \<and>
     (\<forall>k. k \<in> set (desired h) - set (desired h') \<or> op = OpRemove k \<longrightarrow>
        (\<not> inventory_initialized h' \<longrightarrow> k \<in> set (pending_removals h')) \<and>
        list_ex (drops_history k) acts \<and> list_ex (drops_sender k) acts) \<and>
     (\<forall>k l. PushLine k l \<in> set acts \<longrightarrow>
        (if inventory_initialized h' then k \<in> set (desired h') else k \<notin> set (pending_removals h')))"

lemma start_reader_sel [simp]:
  "desired (start_reader_locked sid ch h) = desired h"
  "senders (start_reader_locked sid ch h) = senders h"
  "hub_history (start_reader_locked sid ch h) = hub_history h"
  "inventory_initialized (start_reader_locked sid ch h) = inventory_initialized h"
  "pending_removals (start_reader_locked sid ch h) = pending_removals h"
  "max_active_readers (start_reader_locked sid ch h) = max_active_readers h"
  by (simp_all add: start_reader_locked_def Let_def)

lemma ensure_reader_sel [simp]:
  "desired (ensure_reader_locked sid ch h) = desired h"
  "senders (ensure_reader_locked sid ch h) = senders h"
  "hub_history (ensure_reader_locked sid ch h) = hub_history h"
  "inventory_initialized (ensure_reader_locked sid ch h) = inventory_initialized h"
  "pending_removals (ensure_reader_locked sid ch h) = pending_removals h"
  "max_active_readers (ensure_reader_locked sid ch h) = max_active_readers h"
  by (simp_all add: ensure_reader_locked_def split: option.splits)

lemma track_frame: "op_frame (OpTrack sid) h (fst (track_server sid h)) []"
  using record_addition_keeps [of _ sid h]
  by (cases "validate_id sid") (auto simp: track_server_def Let_def op_frame_def)

lemma refresh_frame: "op_frame (OpRefresh sid) h (fst (refresh_server sid h)) []"
  using record_addition_keeps [of _ sid h]
  by (cases "validate_id sid") (auto simp: refresh_server_def Let_def op_frame_def split: option.splits)

lemma subscribe_frame: "op_frame (OpSubscribe sid) h0 (fst (subscribe sid h0)) []"
proof -
  obtain h r where v: "validate_subscription sid h0 = (h, r)" by (metis surj_pair)
  note vs = validate_subscription_spec [OF v]
  let ?h' = "fst (subscribe sid h0)"
  have "hub_history ?h' = hub_history h0 \<and> desired ?h' = desired h \<and>
    inventory_initialized ?h' = inventory_initialized h0 \<and>
    pending_removals ?h' = pending_removals h0 \<and>
    (\<forall>k. senders ?h' k \<noteq> None \<longrightarrow> senders h0 k \<noteq> None \<or> k \<in> set (desired h))"
  proof (cases "r = Ok () \<and> validate_reader_capacity sid h = Ok ()")
    case True
    then show ?thesis using vs v by (cases "senders h sid") (simp_all add: subscribe_def)
  next
    case False
    then have "?h' = h" using v by (auto simp: subscribe_def split: sum.splits prod.splits)
    then show ?thesis using vs by simp
  qed
  then show ?thesis using vs by (auto simp: op_frame_def)
qed

lemma retire_frame:
  "retire_idle_reader sid tok ch h = (h', acts) \<Longrightarrow> op_frame (OpRetire tok) h h' acts"
  by (auto simp: retire_idle_reader_def Let_def op_frame_def split: if_splits)

lemma remove_frame: "hub_remove sid h = (h', acts) \<Longrightarrow> op_frame (OpRemove sid) h h' acts"
  by (auto simp: hub_remove_def Let_def op_frame_def split: if_splits)

lemma prepare_line_frame: "prepare_line sid ln clk h = (h', l) \<Longrightarrow> \<exists>p. h' = h\<lparr> hub_protection := p \<rparr>"
  by (auto simp: prepare_line_def Let_def split: prod.splits)

lemma publish_frame: "publish sid ln clk h = (h', acts) \<Longrightarrow> op_frame (OpPublish sid ln clk) h h' acts"
  by (auto simp: publish_def op_frame_def dest!: prepare_line_frame split: prod.splits option.splits if_splits)

lemma in_fold_removeAll: "k \<in> set (fold removeAll ks xs) \<longleftrightarrow> k \<in> set xs \<and> k \<notin> set ks"
  by (induction ks arbitrary: xs) auto

lemma in_fold_insert: "k \<in> set (fold List.insert ks xs) \<longleftrightarrow> k \<in> set xs \<or> k \<in> set ks"
  by (induction ks arbitrary: xs) auto

lemma sync_frame:
  assumes ok: "lifecycle_ok h pub"
    and s: "synchronize_servers ids h = (h', r, acts)"
  shows "op_frame (OpSync ids) h h' acts"
proof (cases "inventory_initialized h \<or> (\<exists>e. validate_inventory ids = Inl e)")
  case True
  then have "h' = h" "acts = []"
    using s by (cases "inventory_initialized h"; auto simp: synchronize_servers_def)+
  then show ?thesis by (simp add: op_frame_def)
next
  case False
  then obtain d0 where d0: "validate_inventory ids = Inr d0" by (cases "validate_inventory ids") auto
  define d2 where "d2 = fold removeAll (pending_removals h) (fold List.insert (pending_additions h) d0)"
  define removed where "removed = filter (\<lambda>k. k \<notin> set d2) (desired h)"
  define h1 where "h1 = fold stop_reader removed (h\<lparr> pending_additions := [], pending_removals := [] \<rparr>)"
  have e: "h' = h1\<lparr> desired := d2, inventory_initialized := True \<rparr>"
    "acts = (if removed = [] then [] else [DropSenders removed, DropHistoriesAndProtection removed])"
    using False d0 s by (auto simp: synchronize_servers_def Let_def h1_def removed_def d2_def)
  have "lifecycle_ok (h\<lparr> pending_additions := [], pending_removals := [] \<rparr>) pub"
    by (rule lifecycle_cong [OF _ _ _ _ _ ok]) auto
  from fold_stop_reader [OF this, of removed, folded h1_def]
  have h1: "hub_history h1 = hub_history h" "senders h1 = senders h" by simp_all
  have "k \<in> set removed" if "k \<in> set (desired h) - set d2" for k
    using that by (simp add: removed_def)
  then show ?thesis
    unfolding op_frame_def e using h1 by (auto simp: removed_def filter_empty_conv)
qed

definition gone_ok :: "machine \<Rightarrow> bool" where
  "gone_ok m \<longleftrightarrow> (\<forall>k \<in> m_gone m.
     k \<notin> set (desired (m_hub m)) \<and>
     (\<not> inventory_initialized (m_hub m) \<longrightarrow> k \<in> set (pending_removals (m_hub m))) \<and>
     (has_history (m_hub m) k \<longrightarrow> list_ex (drops_history k) (m_owner m)) \<and>
     (senders (m_hub m) k \<noteq> None \<longrightarrow> list_ex (drops_sender k) (m_owner m)) \<and>
     (\<forall>l. PushLine k l \<notin> set (m_owner m)))"

lemma op_gone:
  assumes g: "gone_ok m" and free: "m_owner m = []" and f: "op_frame op (m_hub m) h' acts"
  shows "gone_ok (m\<lparr> m_hub := h', m_owner := acts, m_gone := gone_after op (m_hub m) h' (m_gone m) \<rparr>)"
  unfolding gone_ok_def
proof
  let ?h = "m_hub m"
  fix k
  assume "k \<in> m_gone (m\<lparr> m_hub := h', m_owner := acts, m_gone := gone_after op ?h h' (m_gone m) \<rparr>)"
  then have k: "k \<notin> set (desired h')"
    "k \<in> m_gone m \<or> op = OpRemove k \<or> k \<in> set (desired ?h) - set (desired h')"
    by (auto simp: gone_after_def split: hub_op.splits)
  have p: "\<not> inventory_initialized h' \<longrightarrow> k \<in> set (pending_removals h')"
    using f g k unfolding op_frame_def gone_ok_def by metis
  have old: "k \<in> m_gone m \<Longrightarrow> \<not> has_history ?h k \<and> senders ?h k = None"
    using g free by (auto simp: gone_ok_def)
  have same: "has_history h' k = has_history ?h k"
    using f by (simp add: op_frame_def has_history_def)
  have "has_history h' k \<longrightarrow> list_ex (drops_history k) acts"
    using f k(2) old same unfolding op_frame_def by blast
  moreover have "senders h' k \<noteq> None \<longrightarrow> list_ex (drops_sender k) acts"
    using f k old unfolding op_frame_def by blast
  moreover have "\<forall>l. PushLine k l \<notin> set acts"
    using f k(1) p unfolding op_frame_def by metis
  ultimately show "k \<notin> set (desired (m_hub (m\<lparr> m_hub := h', m_owner := acts, m_gone := gone_after op ?h h' (m_gone m) \<rparr>))) \<and>
     (\<not> inventory_initialized (m_hub (m\<lparr> m_hub := h', m_owner := acts, m_gone := gone_after op ?h h' (m_gone m) \<rparr>)) \<longrightarrow>
       k \<in> set (pending_removals (m_hub (m\<lparr> m_hub := h', m_owner := acts, m_gone := gone_after op ?h h' (m_gone m) \<rparr>)))) \<and>
     (has_history (m_hub (m\<lparr> m_hub := h', m_owner := acts, m_gone := gone_after op ?h h' (m_gone m) \<rparr>)) k \<longrightarrow>
       list_ex (drops_history k) (m_owner (m\<lparr> m_hub := h', m_owner := acts, m_gone := gone_after op ?h h' (m_gone m) \<rparr>))) \<and>
     (senders (m_hub (m\<lparr> m_hub := h', m_owner := acts, m_gone := gone_after op ?h h' (m_gone m) \<rparr>)) k \<noteq> None \<longrightarrow>
       list_ex (drops_sender k) (m_owner (m\<lparr> m_hub := h', m_owner := acts, m_gone := gone_after op ?h h' (m_gone m) \<rparr>))) \<and>
     (\<forall>l. PushLine k l \<notin> set (m_owner (m\<lparr> m_hub := h', m_owner := acts, m_gone := gone_after op ?h h' (m_gone m) \<rparr>)))"
    using k(1) p by simp
qed

subsection \<open>Histories of other servers do not appear\<close>

lemma evict_others_none:
  "map_of (hc_entries c) k = None \<Longrightarrow> map_of (hc_entries (evict_others p c)) k = None"
proof (induction p c rule: evict_others.induct)
  case (1 p c)
  show ?case
    by (subst evict_others.simps)
      (use 1 in \<open>auto simp: history_remove_map split: option.splits simp del: map_of_eq_None_iff\<close>)
qed

lemma push_none:
  assumes "map_of (hc_entries c) k = None" "k \<noteq> sid"
  shows "map_of (hc_entries (fst (history_push sid ln c))) k = None"
proof -
  obtain c1 e where a: "append_line sid ln c = (c1, e)" by (metis surj_pair)
  then have "map_of (hc_entries c1) k = None"
    using assms by (auto simp: append_line_def Let_def update_conv' split: prod.splits)
  then have "map_of (hc_entries (evict_others sid c1)) k = None" by (rule evict_others_none)
  then have "map_of (hc_entries (evict_to_budget sid c1)) k = None"
    using assms(2) by (auto simp: evict_to_budget_def Let_def update_conv' split: option.splits prod.splits)
  then show ?thesis by (simp add: history_push_def a)
qed

lemma push_some:
  "history_push sid ln c = (c', e) \<Longrightarrow> map_of (hc_entries c') k = Some y \<Longrightarrow> k \<noteq> sid \<Longrightarrow>
   \<exists>z. map_of (hc_entries c) k = Some z"
  using push_none [of c k sid ln] by (cases "map_of (hc_entries c) k") auto

lemma view_none:
  "map_of (hc_entries (view_state sid c)) k = None \<longleftrightarrow> map_of (hc_entries c) k = None"
  by (auto simp: view_state_def history_snapshot_def Let_def update_conv' simp del: map_of_eq_None_iff
      split: option.splits)

lemma fold_remove_none:
  "map_of (hc_entries (fold history_remove ids c)) k =
     (if k \<in> set ids then None else map_of (hc_entries c) k)"
  by (induction ids arbitrary: c) (auto simp: history_remove_map)

lemma fold_senders: "fold (\<lambda>k m. m(k := None)) ids m k = (if k \<in> set ids then None else m k)"
  by (induction ids arbitrary: m) auto


subsection \<open>Every reachable state\<close>

definition machine_ok :: "machine \<Rightarrow> bool" where
  "machine_ok m \<longleftrightarrow> lifecycle_ok (m_hub m) (m_pub m) \<and> gone_ok m"

lemma begin_op_ok:
  assumes "lifecycle_ok (m_hub m) (m_pub m)" "op_enabled op m" "begin_op op (m_hub m) = (h', acts)"
  shows "lifecycle_ok h' (m_pub m) \<and> op_frame op (m_hub m) h' acts"
proof (cases op)
  case (OpSync ids)
  then show ?thesis
    using assms synchronize_ok [OF assms(1), of ids] sync_frame [OF assms(1)]
    by (auto split: prod.splits)
next
  case (OpSubscribe sid)
  then show ?thesis using assms subscribe_ok subscribe_frame by auto
next
  case (OpTrack sid)
  then show ?thesis using assms track_server_ok track_frame by auto
next
  case (OpRefresh sid)
  then show ?thesis using assms refresh_server_ok refresh_frame by auto
next
  case (OpDetach sid)
  then show ?thesis
    using assms detach_reader_ok [OF assms(1), of sid]
    by (auto simp: op_frame_def detach_reader_def split: option.splits)
next
  case (OpWake sid)
  then show ?thesis
    using assms wake_reader_ok [OF assms(1), of sid]
    by (auto simp: op_frame_def wake_reader_def split: option.splits if_splits)
next
  case (OpPublish sid ln clk)
  have "lifecycle_ok h' (m_pub m)"
    using assms OpPublish
    by (auto simp: publish_def dest!: prepare_line_frame split: prod.splits option.splits if_splits)
  then show ?thesis using assms OpPublish publish_frame by auto
next
  case (OpRetire tok)
  then obtain t where t: "tasks (m_hub m) tok = Some t" "\<not> t_finished t" "m_pub m tok = PubDone"
    using assms(2) by auto
  then show ?thesis
    using assms OpRetire retire_ok [OF assms(1) t] retire_frame by auto
next
  case (OpRemove sid)
  then show ?thesis using assms remove_ok [OF assms(1), of sid] remove_frame by auto
qed

lemma critical_ok:
  assumes "machine_ok m" "m_owner m = a # as" "exec_action a (m_hub m) = (h', todo)"
  shows "machine_ok (m\<lparr> m_hub := h', m_owner := todo @ as \<rparr>)"
proof -
  have l: "lifecycle_ok h' (m_pub m)"
    using assms by (cases a) (auto simp: machine_ok_def send_entry_def split: option.splits if_splits prod.splits)
  have same: "desired h' = desired (m_hub m)" "pending_removals h' = pending_removals (m_hub m)"
    "inventory_initialized h' = inventory_initialized (m_hub m)"
    using assms(3) by (cases a; auto simp: send_entry_def split: option.splits if_splits prod.splits)+
  have sn: "senders h' k \<noteq> None \<Longrightarrow> senders (m_hub m) k \<noteq> None \<and> \<not> drops_sender k a" for k
    using assms(3) by (cases a) (auto simp: send_entry_def fold_senders split: option.splits if_splits prod.splits)
  have hi: "has_history h' k \<Longrightarrow> (has_history (m_hub m) k \<or> (\<exists>l. a = PushLine k l)) \<and> \<not> drops_history k a" for k
    using assms(3)
    by (cases a) (auto simp: has_history_def send_entry_def fold_remove_none
        simp del: map_of_eq_None_iff map_of_eq_Some_iff
        dest: push_some split: option.splits if_splits prod.splits)
  have pl: "PushLine k l \<notin> set todo" for k l
    using assms(3) by (cases a) (auto split: if_splits prod.splits)
  have "gone_ok (m\<lparr> m_hub := h', m_owner := todo @ as \<rparr>)"
    unfolding gone_ok_def
  proof
    fix k assume "k \<in> m_gone (m\<lparr> m_hub := h', m_owner := todo @ as \<rparr>)"
    then have k: "k \<notin> set (desired (m_hub m))"
      "\<not> inventory_initialized (m_hub m) \<longrightarrow> k \<in> set (pending_removals (m_hub m))"
      "has_history (m_hub m) k \<longrightarrow> list_ex (drops_history k) (a # as)"
      "senders (m_hub m) k \<noteq> None \<longrightarrow> list_ex (drops_sender k) (a # as)"
      "\<forall>l. PushLine k l \<notin> set (a # as)"
      using assms(1,2) unfolding machine_ok_def gone_ok_def by auto
    have "has_history h' k \<longrightarrow> list_ex (drops_history k) (todo @ as)"
      using hi [of k] k(3,5) by auto
    moreover have "senders h' k \<noteq> None \<longrightarrow> list_ex (drops_sender k) (todo @ as)"
      using sn [of k] k(4) by auto
    ultimately show "k \<notin> set (desired (m_hub (m\<lparr> m_hub := h', m_owner := todo @ as \<rparr>))) \<and>
       (\<not> inventory_initialized (m_hub (m\<lparr> m_hub := h', m_owner := todo @ as \<rparr>)) \<longrightarrow>
          k \<in> set (pending_removals (m_hub (m\<lparr> m_hub := h', m_owner := todo @ as \<rparr>)))) \<and>
       (has_history (m_hub (m\<lparr> m_hub := h', m_owner := todo @ as \<rparr>)) k \<longrightarrow>
          list_ex (drops_history k) (m_owner (m\<lparr> m_hub := h', m_owner := todo @ as \<rparr>))) \<and>
       (senders (m_hub (m\<lparr> m_hub := h', m_owner := todo @ as \<rparr>)) k \<noteq> None \<longrightarrow>
          list_ex (drops_sender k) (m_owner (m\<lparr> m_hub := h', m_owner := todo @ as \<rparr>))) \<and>
       (\<forall>l. PushLine k l \<notin> set (m_owner (m\<lparr> m_hub := h', m_owner := todo @ as \<rparr>)))"
      using k(1,2,5) same pl by simp
  qed
  then show ?thesis using l by (simp add: machine_ok_def)
qed

lemma gone_cong:
  assumes "gone_ok m" "m_gone m' = m_gone m" "m_owner m' = m_owner m"
    "desired (m_hub m') = desired (m_hub m)" "senders (m_hub m') = senders (m_hub m)"
    "inventory_initialized (m_hub m') = inventory_initialized (m_hub m)"
    "pending_removals (m_hub m') = pending_removals (m_hub m)"
    "\<And>k. k \<in> m_gone m \<Longrightarrow> has_history (m_hub m') k \<Longrightarrow> has_history (m_hub m) k"
  shows "gone_ok m'"
  using assms unfolding gone_ok_def by auto

lemma hub_step_ok: "hub_step m m' \<Longrightarrow> machine_ok m \<Longrightarrow> machine_ok m'"
proof (induction rule: hub_step.induct)
  case (operation m op h' acts)
  then show ?case
    using begin_op_ok [of m op h' acts] op_gone [of m op h' acts] by (simp add: machine_ok_def)
next
  case (critical m a as h' todo)
  then show ?case by (intro critical_ok)
next
  case (prepare m tok t ln clk h' l)
  obtain p where s: "h' = (m_hub m)\<lparr> hub_protection := p \<rparr>" using prepare_line_frame [OF prepare(3)] by blast
  have "lifecycle_ok h' (m_pub m)" using prepare(4) s by (simp add: machine_ok_def)
  moreover have "m_pub m tok \<noteq> PubDone" using prepare(2) by simp
  ultimately have "lifecycle_ok h' ((m_pub m)(tok := p))" for p by (rule pub_move_ok)
  moreover have "gone_ok (m\<lparr> m_hub := h',
      m_pub := (m_pub m)(tok := if t_active t then PubPrepared l else PubDone) \<rparr>)"
    by (rule gone_cong [of m]) (use prepare(4) s in \<open>auto simp: machine_ok_def has_history_def\<close>)
  ultimately show ?case by (simp add: machine_ok_def)
next
  case (suppressed m tok)
  then show ?case
    using pub_move_ok [of "m_hub m" "m_pub m" tok] gone_cong [of m "m\<lparr> m_pub := (m_pub m)(tok := PubIdle) \<rparr>"]
    by (simp add: machine_ok_def)
next
  case (push m tok t l c e)
  have np: "m_pub m tok \<noteq> PubDone" using push(2) by simp
  have "map_of (readers (m_hub m)) (t_server t) = Some tok"
    using push(1,3,5) np unfolding machine_ok_def lifecycle_ok_def active_registered_def by blast
  then have "t_server t \<in> set (desired (m_hub m))"
    using readers_desired push(5) by (auto simp: machine_ok_def)
  then have live: "t_server t \<notin> m_gone m" using push(5) by (auto simp: machine_ok_def gone_ok_def)
  have "lifecycle_ok ((m_hub m)\<lparr> hub_history := c \<rparr>) (m_pub m)"
    using push(5) by (simp add: machine_ok_def)
  then have "lifecycle_ok ((m_hub m)\<lparr> hub_history := c \<rparr>) ((m_pub m)(tok := PubPushed e))"
    using np by (rule pub_move_ok)
  moreover have "gone_ok (m\<lparr> m_hub := (m_hub m)\<lparr> hub_history := c \<rparr>, m_pub := (m_pub m)(tok := PubPushed e) \<rparr>)"
  proof (rule gone_cong [of m])
    fix k assume "k \<in> m_gone m" "has_history (m_hub (m\<lparr> m_hub := (m_hub m)\<lparr> hub_history := c \<rparr>,
        m_pub := (m_pub m)(tok := PubPushed e) \<rparr>)) k"
    then show "has_history (m_hub m) k"
      using push_some [OF push(4), of k] live
      by (auto simp: has_history_def simp del: map_of_eq_None_iff)
  qed (use push(5) in \<open>simp_all add: machine_ok_def\<close>)
  ultimately show ?case by (simp add: machine_ok_def)
next
  case (send m tok t e)
  have "lifecycle_ok (send_entry (t_server t) e (m_hub m)) (m_pub m)"
    using send(4) by (simp add: machine_ok_def)
  moreover have "m_pub m tok \<noteq> PubDone" using send(2) by simp
  ultimately have "lifecycle_ok (send_entry (t_server t) e (m_hub m)) ((m_pub m)(tok := PubIdle))"
    by (rule pub_move_ok)
  moreover have "gone_ok (m\<lparr> m_hub := send_entry (t_server t) e (m_hub m), m_pub := (m_pub m)(tok := PubIdle) \<rparr>)"
    by (rule gone_cong [of m]) (use send(4) in \<open>auto simp: machine_ok_def has_history_def send_entry_def split: option.splits\<close>)
  ultimately show ?case by (simp add: machine_ok_def)
next
  case (stale m tok t)
  then show ?case
    using pub_done_ok [of "m_hub m" "m_pub m" tok] gone_cong [of m "m\<lparr> m_pub := (m_pub m)(tok := PubDone) \<rparr>"]
    by (simp add: machine_ok_def)
next
  case (finish m tok t)
  have "lifecycle_ok (upd_task tok (\<lambda>t. t\<lparr> t_finished := True \<rparr>) (m_hub m)) (m_pub m)"
    by (rule upd_task_ok) (use finish in \<open>auto simp: machine_ok_def\<close>)
  then have "lifecycle_ok (upd_task tok (\<lambda>t. t\<lparr> t_finished := True \<rparr>) (m_hub m)) ((m_pub m)(tok := PubDone))"
    by (rule pub_done_ok)
  moreover have "gone_ok (m\<lparr> m_hub := upd_task tok (\<lambda>t. t\<lparr> t_finished := True \<rparr>) (m_hub m),
      m_pub := (m_pub m)(tok := PubDone) \<rparr>)"
    by (rule gone_cong [of m]) (use finish in \<open>auto simp: machine_ok_def has_history_def\<close>)
  ultimately show ?case by (simp add: machine_ok_def)
next
  case (park m tok b)
  have "lifecycle_ok (upd_task tok (\<lambda>t. t\<lparr> t_parked := b, t_wake := False \<rparr>) (m_hub m)) (m_pub m)"
    by (rule upd_task_ok) (use park in \<open>auto simp: machine_ok_def\<close>)
  moreover have "gone_ok (m\<lparr> m_hub := upd_task tok (\<lambda>t. t\<lparr> t_parked := b, t_wake := False \<rparr>) (m_hub m) \<rparr>)"
    by (rule gone_cong [of m]) (use park in \<open>auto simp: machine_ok_def has_history_def\<close>)
  ultimately show ?case by (simp add: machine_ok_def)
next
  case (snapshot m sid)
  have "lifecycle_ok ((m_hub m)\<lparr> hub_history := view_state sid (hub_history (m_hub m)) \<rparr>) (m_pub m)"
    using snapshot by (simp add: machine_ok_def)
  moreover have "gone_ok (m\<lparr> m_hub := (m_hub m)\<lparr> hub_history := view_state sid (hub_history (m_hub m)) \<rparr> \<rparr>)"
    by (rule gone_cong [of m]) (use snapshot in \<open>auto simp: machine_ok_def has_history_def view_none simp del: map_of_eq_None_iff\<close>)
  ultimately show ?case by (simp add: machine_ok_def)
next
  case (viewer_leaves m ch)
  have "lifecycle_ok ((m_hub m)\<lparr> receiver_count := (receiver_count (m_hub m))
      (ch := receiver_count (m_hub m) ch - 1) \<rparr>) (m_pub m)"
    using viewer_leaves by (simp add: machine_ok_def)
  moreover have "gone_ok (m\<lparr> m_hub := (m_hub m)\<lparr> receiver_count := (receiver_count (m_hub m))
      (ch := receiver_count (m_hub m) ch - 1) \<rparr> \<rparr>)"
    by (rule gone_cong [of m]) (use viewer_leaves in \<open>auto simp: machine_ok_def has_history_def\<close>)
  ultimately show ?case by (simp add: machine_ok_def)
qed

lemma reachable_ok:
  assumes "hub_reachable (with_optional_docker env docker prot) m"
  shows "machine_ok m"
  using assms
proof (induction rule: hub_reachable.induct)
  case start
  show ?case
    by (simp add: machine_ok_def lifecycle_defs gone_ok_def with_optional_docker_def active_readers_def)
next
  case (step m m')
  then show ?case using hub_step_ok by blast
qed


subsection \<open>Properties\<close>

text \<open>C5: in every reachable state of the hub, whatever interleaving of methods, reader
  tasks and viewers led there, only assigned servers have readers and at most the configured
  number of readers is active; and whenever the lifecycle lock is free, a server that was
  removed (or left out of the inventory) and not assigned again has no reader, no channel
  and no history, so a late line of its aborted reader can never resurface.\<close>

theorem hub_reachable_safe:
  assumes "hub_reachable (with_optional_docker env docker prot) m"
  shows "(\<forall>sid tok. map_of (readers (m_hub m)) sid = Some tok \<longrightarrow> sid \<in> set (desired (m_hub m))) \<and>
    active_readers (m_hub m) \<le> max_active_readers (m_hub m) \<and>
    (m_owner m = [] \<longrightarrow> (\<forall>sid \<in> m_gone m.
       map_of (readers (m_hub m)) sid = None \<and> senders (m_hub m) sid = None \<and>
       lines_of (hub_history (m_hub m)) sid = [] \<and>
       \<not> is_ok (snd (subscribe sid (m_hub m)))))"
proof -
  have ok: "lifecycle_ok (m_hub m) (m_pub m)" "gone_ok m"
    using reachable_ok [OF assms] by (simp_all add: machine_ok_def)
  have gone: "map_of (readers (m_hub m)) sid = None \<and> senders (m_hub m) sid = None \<and>
      lines_of (hub_history (m_hub m)) sid = [] \<and> \<not> is_ok (snd (subscribe sid (m_hub m)))"
    if "m_owner m = []" "sid \<in> m_gone m" for sid
  proof -
    have g: "sid \<notin> set (desired (m_hub m))" "\<not> has_history (m_hub m) sid" "senders (m_hub m) sid = None"
      "\<not> inventory_initialized (m_hub m) \<longrightarrow> sid \<in> set (pending_removals (m_hub m))"
      using ok(2) that by (auto simp: gone_ok_def)
    then have "map_of (readers (m_hub m)) sid = None"
      using readers_desired [OF ok(1)] by (metis option.exhaust)
    moreover have "lines_of (hub_history (m_hub m)) sid = []"
      using g(2) by (simp add: has_history_def lines_of_def)
    moreover have "\<not> is_ok (snd (subscribe sid (m_hub m)))"
      using g by (auto simp: subscribe_def validate_subscription_def)
    ultimately show ?thesis using g by simp
  qed
  show ?thesis
    using ok(1) gone readers_desired [OF ok(1)] unfolding lifecycle_ok_def by blast
qed

subsection \<open>A run\<close>

lemma reachable_steps: "hub_step\<^sup>*\<^sup>* m m' \<Longrightarrow> hub_reachable h m \<Longrightarrow> hub_reachable h m'"
  by (induction rule: rtranclp_induct) (auto intro: hub_reachable.step)

text \<open>The lock owner can always go through sections that leave no others behind.\<close>

lemma sections_complete:
  assumes "m_owner m = as" "list_all (\<lambda>a. case a of PushLine _ _ \<Rightarrow> False | DropIdleSender _ _ \<Rightarrow> False | _ \<Rightarrow> True) as"
  shows "\<exists>h. hub_step\<^sup>*\<^sup>* m (m\<lparr> m_hub := h, m_owner := [] \<rparr>)"
  using assms
proof (induction as arbitrary: m)
  case (Cons a as)
  obtain h where a: "exec_action a (m_hub m) = (h, [])" using Cons.prems by (cases a) auto
  let ?m = "m\<lparr> m_hub := h, m_owner := as \<rparr>"
  have "hub_step m ?m" using hub_step.critical [of m a as h "[]"] a Cons.prems(1) by simp
  moreover obtain h' where "hub_step\<^sup>*\<^sup>* ?m (?m\<lparr> m_hub := h', m_owner := [] \<rparr>)"
    using Cons.IH [of ?m] Cons.prems by auto
  ultimately have "hub_step\<^sup>*\<^sup>* m (?m\<lparr> m_hub := h', m_owner := [] \<rparr>)" by (rule converse_rtranclp_into_rtranclp)
  then show ?case by auto
next
  case Nil
  then show ?case by (intro exI [of _ "m_hub m"]) (cases m, simp)
qed

text \<open>A server can be removed whenever the lock is free, whatever its reader is doing.\<close>

lemma removal_completes:
  assumes "m_owner m = []"
  shows "\<exists>m'. hub_step\<^sup>*\<^sup>* m m' \<and> m_owner m' = [] \<and> sid \<in> m_gone m' \<and> m_pub m' = m_pub m"
proof -
  let ?as = "[DropSenders [sid], DropHistories [sid], DropProtection sid]"
  obtain h where h: "hub_remove sid (m_hub m) = (h, ?as)" by (simp add: hub_remove_def Let_def)
  then have "sid \<notin> set (desired h)" by (auto simp: hub_remove_def Let_def)
  then have g: "sid \<in> gone_after (OpRemove sid) (m_hub m) h (m_gone m)" by (simp add: gone_after_def)
  let ?m = "m\<lparr> m_hub := h, m_owner := ?as, m_gone := gone_after (OpRemove sid) (m_hub m) h (m_gone m) \<rparr>"
  have "hub_step m ?m" using hub_step.operation [of m "OpRemove sid" h ?as] assms h by simp
  moreover obtain h' where "hub_step\<^sup>*\<^sup>* ?m (?m\<lparr> m_hub := h', m_owner := [] \<rparr>)"
    using sections_complete [of ?m ?as] by auto
  ultimately have "hub_step\<^sup>*\<^sup>* m (?m\<lparr> m_hub := h', m_owner := [] \<rparr>)" by (rule converse_rtranclp_into_rtranclp)
  then show ?thesis using g by (intro exI [of _ "?m\<lparr> m_hub := h', m_owner := [] \<rparr>"]) simp
qed

definition run_protection :: protection_state where
  "run_protection = \<lparr> ps_commands = Map.empty, ps_console = Map.empty, ps_statuses = Map.empty, ps_recovery = Map.empty,
     console_lines_per_second = 9, console_strike_limit = 3, console_max_line_length = 9, console_commands_per_5_seconds = 9 \<rparr>"

definition run_hub :: hub where "run_hub = with_optional_docker Map.empty True run_protection"

lemma run_subscribed:
  "readers (fst (subscribe ''a'' run_hub)) = [(''a'', 1)]"
  "tasks (fst (subscribe ''a'' run_hub)) 1 = Some \<lparr> t_server = ''a'', t_channel = 0, t_active = True, t_parked = False,
     t_suspended = False, t_wake = False, t_viewer_wake = False, t_finished = False, t_aborted = False \<rparr>"
  "hub_history (fst (subscribe ''a'' run_hub)) = hub_history run_hub"
  "hub_protection (fst (subscribe ''a'' run_hub)) = run_protection"
  by (simp_all add: subscribe_def run_hub_def with_optional_docker_def validate_subscription_def
      validate_reader_capacity_def active_readers_def configured_max_active_readers_def ensure_reader_locked_def
      start_reader_locked_def stop_reader_def unfinished_def Let_def)

lemma run_prepared:
  "prepare_line ''a'' ''x'' (\<lambda>_. 0) (fst (subscribe ''a'' run_hub)) =
    ((fst (subscribe ''a'' run_hub))\<lparr> hub_protection := fst (observe_line ''a'' (\<lambda>_. 0) run_protection) \<rparr>, Some ''x'')"
  unfolding prepare_line_def run_subscribed Let_def
  by (simp add: run_protection_def observe_line_def observe_rate_def count_line_def window_restart_def
      strike_cooldown_def fresh_console_rate_def secs_def Let_def)

lemma run_pushed: "\<exists>c e. history_push ''a'' ''x'' (hub_history run_hub) = (c, e) \<and> lines_of c ''a'' = [''x'']"
  by (simp add: run_hub_def with_optional_docker_def history_configured_def clamp_def DEFAULT_TOTAL_HISTORY_BYTES_def
      MAX_TOTAL_HISTORY_BYTES_def history_push_def append_line_def with_maximum_def empty_history_def saturating_add_def
      usize_max_def entry_charge_def window_guard_def CONSOLE_HISTORY_LINES_def CONSOLE_HISTORY_BYTES_def
      evict_to_budget_def evict_others.simps oldest_other_def history_remove_def budget_guard_def lines_of_def Let_def)

text \<open>A viewer starts the reader, and the reader stores a line that it has not broadcast yet.\<close>

lemma run_publishing:
  "\<exists>m e. hub_reachable run_hub m \<and> m_owner m = [] \<and> map_of (readers (m_hub m)) ''a'' = Some 1 \<and>
     active_readers (m_hub m) = 1 \<and> lines_of (hub_history (m_hub m)) ''a'' = [''x''] \<and> m_pub m 1 = PubPushed e"
proof -
  define h1 where "h1 = fst (subscribe ''a'' run_hub)"
  note h1 = run_subscribed [folded h1_def]
  define m0 where "m0 = \<lparr> m_hub = run_hub, m_owner = [], m_pub = (\<lambda>_. PubIdle), m_gone = {} \<rparr>"
  define m1 where "m1 = m0\<lparr> m_hub := h1, m_owner := [], m_gone := gone_after (OpSubscribe ''a'') run_hub h1 {} \<rparr>"
  have s1: "hub_step m0 m1"
    using hub_step.operation [of m0 "OpSubscribe ''a''" h1 "[]"] by (simp add: m0_def m1_def h1_def)
  define h2 where "h2 = h1\<lparr> hub_protection := fst (observe_line ''a'' (\<lambda>_. 0) run_protection) \<rparr>"
  define m2 where "m2 = m1\<lparr> m_hub := h2, m_pub := (m_pub m1)(1 := PubPrepared (Some ''x'')) \<rparr>"
  have s2: "hub_step m1 m2"
    using hub_step.prepare [of m1 1 _ "''x''" "\<lambda>_. 0" h2 "Some ''x''"] h1(2) run_prepared [folded h1_def]
    by (simp add: m1_def m0_def m2_def h2_def)
  obtain c e where c: "history_push ''a'' ''x'' (hub_history run_hub) = (c, e)" "lines_of c ''a'' = [''x'']"
    using run_pushed by blast
  define m3 where "m3 = m2\<lparr> m_hub := h2\<lparr> hub_history := c \<rparr>, m_pub := (m_pub m2)(1 := PubPushed e) \<rparr>"
  have s3: "hub_step m2 m3"
    using hub_step.push [of m2 1 _ "''x''" c e] c h1(2,3) by (simp add: m2_def m3_def h2_def)
  have "hub_reachable run_hub m3"
    using hub_reachable.start [of run_hub, folded m0_def] s1 s2 s3 by (blast intro: hub_reachable.step)
  moreover have "active_readers (m_hub m3) = 1"
    using h1(1,2) by (simp add: m3_def h2_def active_readers_def unfinished_def)
  ultimately show ?thesis
    using c(2) h1(1) by (intro exI [of _ m3] exI [of _ e]) (simp add: m3_def m2_def m1_def m0_def h2_def)
qed

text \<open>In this run the reader is registered for an assigned server; then the server is removed
  while the line is on its way, and with the lock free again nothing of it is left.\<close>

theorem hub_reachable_safe_witness:
  "\<exists>m e m'. hub_reachable run_hub m \<and> map_of (readers (m_hub m)) ''a'' = Some 1 \<and> active_readers (m_hub m) = 1 \<and>
     lines_of (hub_history (m_hub m)) ''a'' = [''x''] \<and> m_pub m 1 = PubPushed e \<and>
     ''a'' \<in> set (desired (m_hub m)) \<and> 1 \<le> max_active_readers (m_hub m) \<and>
     hub_step\<^sup>*\<^sup>* m m' \<and> m_owner m' = [] \<and> ''a'' \<in> m_gone m' \<and> m_pub m' 1 = PubPushed e \<and>
     map_of (readers (m_hub m')) ''a'' = None \<and> senders (m_hub m') ''a'' = None \<and>
     lines_of (hub_history (m_hub m')) ''a'' = [] \<and> \<not> is_ok (snd (subscribe ''a'' (m_hub m')))"
proof -
  obtain m e where m: "hub_reachable run_hub m" "m_owner m = []" "map_of (readers (m_hub m)) ''a'' = Some 1"
    "active_readers (m_hub m) = 1" "lines_of (hub_history (m_hub m)) ''a'' = [''x'']" "m_pub m 1 = PubPushed e"
    using run_publishing by blast
  obtain m' where m': "hub_step\<^sup>*\<^sup>* m m'" "m_owner m' = []" "''a'' \<in> m_gone m'" "m_pub m' = m_pub m"
    using removal_completes [OF m(2)] by blast
  have "hub_reachable run_hub m'" using reachable_steps [OF m'(1) m(1)] .
  then have "map_of (readers (m_hub m')) ''a'' = None" "senders (m_hub m') ''a'' = None"
    "lines_of (hub_history (m_hub m')) ''a'' = []" "\<not> is_ok (snd (subscribe ''a'' (m_hub m')))"
    using hub_reachable_safe [of Map.empty True run_protection m'] m'(2,3) unfolding run_hub_def by blast+
  moreover have "''a'' \<in> set (desired (m_hub m))" "1 \<le> max_active_readers (m_hub m)"
    using hub_reachable_safe [of Map.empty True run_protection m] m(1,3,4) unfolding run_hub_def by auto
  ultimately show ?thesis using m m' by metis
qed

lemma validate_inventory_loop_ok:
  "list_all valid_id ids \<Longrightarrow> \<exists>d. validate_inventory_loop acc ids = Ok d \<and> set d = set acc \<union> set ids"
proof (induction ids arbitrary: acc)
  case (Cons i ids)
  then obtain d where "validate_inventory_loop (List.insert i acc) ids = Ok d"
    "set d = set (List.insert i acc) \<union> set ids" using Cons.IH [of "List.insert i acc"] by auto
  moreover have "validate_id i = Ok ()" using Cons.prems by (simp add: validate_id_iff)
  ultimately show ?case by simp
qed simp

text \<open>Lemma: the first inventory snapshot with valid ids leaves exactly the servers of the
  snapshot or created meanwhile, minus those deleted meanwhile (a deletion or creation wins
  over an older snapshot); later snapshots change nothing, and a snapshot with an invalid id
  is refused without effect.\<close>

theorem synchronize_servers_inventory:
  "case synchronize_servers ids h of (h', r, acts) \<Rightarrow>
     if inventory_initialized h then h' = h \<and> is_ok r \<and> acts = []
     else if list_all valid_id ids then
       inventory_initialized h' \<and> is_ok r \<and>
       set (desired h') =
         (set ids \<union> set (pending_additions h)) - set (pending_removals h) \<and>
       acts = (let gone = filter (\<lambda>k. k \<notin> set (desired h')) (desired h) in
               if gone = [] then [] else [DropSenders gone, DropHistoriesAndProtection gone])
     else h' = h \<and> r = Err (Bail ''invalid server id'') \<and> acts = []"
proof (cases "inventory_initialized h")
  case False
  have bad: "validate_inventory_loop acc ids = Err (Bail ''invalid server id'')"
    if "\<not> list_all valid_id ids" for acc
    using that
  proof (induction ids arbitrary: acc)
    case (Cons i ids)
    then show ?case by (cases "valid_id i") (auto simp: validate_id_Err validate_id_iff [symmetric])
  qed simp
  show ?thesis
  proof (cases "list_all valid_id ids")
    case True
    then obtain d where d: "validate_inventory ids = Ok d" "set d = set ids"
      using validate_inventory_loop_ok [of ids "[]"] by (auto simp: validate_inventory_def)
    define d2 where "d2 = fold removeAll (pending_removals h) (fold List.insert (pending_additions h) d)"
    define gone where "gone = filter (\<lambda>k. k \<notin> set d2) (desired h)"
    define h2 where "h2 = (fold stop_reader gone (h\<lparr> pending_additions := [], pending_removals := [] \<rparr>))
        \<lparr> desired := d2, inventory_initialized := True \<rparr>"
    have "synchronize_servers ids h = (h2, Ok (sync_result h2 (length gone)),
        if gone = [] then [] else [DropSenders gone, DropHistoriesAndProtection gone])"
      using False d(1) by (simp add: synchronize_servers_def Let_def d2_def gone_def h2_def)
    note S = this
    have A: "filter (\<lambda>k. k \<notin> set (desired h2)) (desired h) = gone" by (simp add: h2_def gone_def)
    have B: "set (desired h2) = (set ids \<union> set (pending_additions h)) - set (pending_removals h)"
    proof (intro set_eqI)
      fix k
      have "desired h2 = d2" by (simp add: h2_def)
      then show "k \<in> set (desired h2) \<longleftrightarrow> k \<in> (set ids \<union> set (pending_additions h)) - set (pending_removals h)"
        by (simp only: d2_def in_fold_removeAll in_fold_insert d(2) Un_iff Diff_iff)
    qed
    have C: "inventory_initialized h2" by (simp add: h2_def)
    show ?thesis unfolding S prod.case Let_def A using False True B C by simp
  qed (use False bad in \<open>simp add: synchronize_servers_def validate_inventory_def\<close>)
qed (simp add: synchronize_servers_def)

text \<open>The filter of the live stream (@server.rs@): an entry is shown when its sequence is
  above the one the replay reached.\<close>

definition live_accepts :: "nat \<Rightarrow> console_entry \<Rightarrow> bool" where
  "live_accepts replayed_through e \<longleftrightarrow> sequence e > replayed_through"

text \<open>Lemma: once the history of a server was evicted for the budget, its numbering restarts at
  one, so a viewer that replayed up to any sequence R before keeps dropping the server's live
  lines until R of them have passed.\<close>

theorem eviction_restarts_numbering:
  assumes "map_of (hc_entries c) sid = None" "history_push sid ln c = (c', e)"
  shows "sequence e = 1 \<and> (live_accepts R e \<longleftrightarrow> R = 0)"
proof -
  have "sequence e = saturating_add 0 1"
    using assms by (auto simp: history_push_def append_line_def Let_def empty_history_def
        simp del: map_of_eq_None_iff split: prod.splits)
  then show ?thesis by (simp add: live_accepts_def saturating_add_def usize_max_def)
qed

theorem eviction_restarts_numbering_witness:
  "(let c1 = fst (history_push ''a'' ''x'' (with_maximum 60));
        c2 = fst (history_snapshot ''a'' c1);
        R = snd (snd (history_snapshot ''a'' c1));
        c3 = fst (history_push ''b'' ''yyyyyyyyyyyyyyyyyyyy'' c2)
    in R = 1 \<and> \<not> live_accepts R (snd (history_push ''a'' ''new'' c3)))"
proof -
  note defs = history_push_def append_line_def with_maximum_def empty_history_def
    saturating_add_def usize_max_def entry_charge_def window_guard_def CONSOLE_HISTORY_LINES_def
    CONSOLE_HISTORY_BYTES_def evict_to_budget_def evict_others.simps Let_def oldest_other_def
    history_remove_def budget_guard_def history_snapshot_def
  define c1 c2 c3 where "c1 = fst (history_push ''a'' ''x'' (with_maximum 60))"
    and "c2 = fst (history_snapshot ''a'' c1)"
    and "c3 = fst (history_push ''b'' ''yyyyyyyyyyyyyyyyyyyy'' c2)"
  have c1: "c1 = \<lparr> hc_entries = [(''a'', \<lparr> h_lines = [\<lparr> sequence = 1, line = ''x'' \<rparr>], content_bytes = 1,
      h_charged = 25, next_sequence = 1, last_access = 1 \<rparr>)], hc_charged = 25, maximum_bytes = 60, hc_clock = 1 \<rparr>"
    by (simp add: c1_def defs)
  have R: "snd (snd (history_snapshot ''a'' c1)) = 1" by (simp add: c1 defs)
  have c2: "c2 = \<lparr> hc_entries = [(''a'', \<lparr> h_lines = [\<lparr> sequence = 1, line = ''x'' \<rparr>], content_bytes = 1,
      h_charged = 25, next_sequence = 1, last_access = 2 \<rparr>)], hc_charged = 25, maximum_bytes = 60, hc_clock = 2 \<rparr>"
    by (simp add: c2_def c1 defs)
  have c3: "map_of (hc_entries c3) ''a'' = None" by (simp add: c3_def c2 defs)
  obtain c' e where e: "history_push ''a'' ''new'' c3 = (c', e)" by (metis surj_pair)
  have "\<not> live_accepts 1 e" using eviction_restarts_numbering [OF c3 e] by simp
  then show ?thesis
    using R e by (simp add: Let_def c3_def c2_def c1_def)
qed

end
