(* ===== verification/Json.thy ===== *)
theory Json
  imports Rust_Str Prelude
begin

text \<open>
  @serde_json::Value@ as the agent uses it: objects are @BTreeMap@s, kept here as association
  lists in the order of their keys; a number is an integer or the text of a finite double.
  The serialised form that @to_string@ gives is modelled because configuration files
  receive it; reading JSON text is left to the library.
\<close>

datatype json =
    JNull
  | JBool bool
  | JInt int
  | JFloat string
  | JString string
  | JArray "json list"
  | JObject "(string \<times> json) list"

fun as_str :: "json \<Rightarrow> string option" where
  "as_str (JString s) = Some s"
| "as_str _ = None"

fun as_bool :: "json \<Rightarrow> bool option" where
  "as_bool (JBool b) = Some b"
| "as_bool _ = None"

fun as_array :: "json \<Rightarrow> json list option" where
  "as_array (JArray xs) = Some xs"
| "as_array _ = None"

fun as_object :: "json \<Rightarrow> (string \<times> json) list option" where
  "as_object (JObject kvs) = Some kvs"
| "as_object _ = None"

definition is_object :: "json \<Rightarrow> bool" where "is_object v \<longleftrightarrow> as_object v \<noteq> None"

fun json_get :: "string \<Rightarrow> json \<Rightarrow> json option" where
  "json_get k (JObject kvs) = map_of kvs k"
| "json_get k _ = None"

text \<open>@Value::pointer@ with its path already split: an array index has no sign and no leading zero.\<close>

definition pointer_index :: "string \<Rightarrow> nat option" where
  "pointer_index s =
     (if starts_with ''+'' s \<or> (starts_with ''0'' s \<and> length s \<noteq> 1) then None
      else parse_unsigned usize_max s)"

fun pointer :: "string list \<Rightarrow> json \<Rightarrow> json option" where
  "pointer [] v = Some v"
| "pointer (k # ks) (JObject kvs) = Option.bind (map_of kvs k) (pointer ks)"
| "pointer (k # ks) (JArray xs) =
     (case pointer_index k of
        Some i \<Rightarrow> if i < length xs then pointer ks (xs ! i) else None
      | None \<Rightarrow> None)"
| "pointer (k # ks) _ = None"

subsection \<open>Ordered objects\<close>

fun str_less :: "string \<Rightarrow> string \<Rightarrow> bool" where
  "str_less xs [] = False"
| "str_less [] (y # ys) = True"
| "str_less (x # xs) (y # ys) =
     ((of_char x :: nat) < of_char y \<or> (x = y \<and> str_less xs ys))"

fun obj_put :: "string \<Rightarrow> json \<Rightarrow> (string \<times> json) list \<Rightarrow> (string \<times> json) list" where
  "obj_put k v [] = [(k, v)]"
| "obj_put k v ((k', v') # kvs) =
     (if k = k' then (k, v) # kvs
      else if str_less k k' then (k, v) # (k', v') # kvs
      else (k', v') # obj_put k v kvs)"

lemma map_of_obj_put [simp]: "map_of (obj_put k v kvs) k' = (if k' = k then Some v else map_of kvs k')"
  by (induction kvs) auto

fun sorted_keys :: "string list \<Rightarrow> bool" where
  "sorted_keys [] = True"
| "sorted_keys (k # ks) = (list_all (str_less k) ks \<and> sorted_keys ks)"

fun wf_json :: "json \<Rightarrow> bool" where
  "wf_json (JArray xs) = list_all wf_json xs"
| "wf_json (JObject kvs) = (sorted_keys (map fst kvs) \<and> list_all wf_json (map snd kvs))"
| "wf_json _ = True"

lemma str_less_irrefl [simp]: "\<not> str_less k k"
  by (induction k) auto

lemma str_less_trans: "str_less a b \<Longrightarrow> str_less b c \<Longrightarrow> str_less a c"
proof (induction a b arbitrary: c rule: str_less.induct)
  case (2 y ys)
  then show ?case by (cases c) auto
next
  case (3 x xs y ys)
  then show ?case by (cases c) auto
qed simp

lemma str_less_total: "a \<noteq> b \<Longrightarrow> \<not> str_less a b \<Longrightarrow> str_less b a"
proof (induction a b rule: str_less.induct)
  case (1 xs)
  then show ?case by (cases xs) auto
next
  case (3 x xs y ys)
  have "of_char x = (of_char y :: nat) \<Longrightarrow> x = y" by (metis char_of_char)
  with 3 show ?case by auto
qed simp

lemma keys_obj_put: "set (map fst (obj_put k v kvs)) = insert k (set (map fst kvs))"
proof (induction kvs)
  case (Cons p kvs)
  then show ?case by (cases p) (simp add: insert_commute)
qed simp

lemma sorted_obj_put: "sorted_keys (map fst kvs) \<Longrightarrow> sorted_keys (map fst (obj_put k v kvs))"
proof (induction kvs)
  case (Cons p kvs)
  obtain k' v' where p: "p = (k', v')" by (cases p)
  consider "k = k'" | "k \<noteq> k'" "str_less k k'" | "k \<noteq> k'" "\<not> str_less k k'" by blast
  then show ?case
  proof cases
    case 3
    then have "str_less k' k" by (rule str_less_total)
    moreover have "list_all (str_less k') (map fst kvs)" using Cons.prems p by simp
    ultimately have "\<forall>q \<in> set (map fst (obj_put k v kvs)). str_less k' q"
      by (subst keys_obj_put) (auto simp: list_all_iff)
    then show ?thesis using Cons 3 p by (simp add: list_all_iff)
  qed (use Cons.prems p in \<open>auto simp: list_all_iff intro: str_less_trans\<close>)
qed simp

lemma values_obj_put: "list_all P (map snd kvs) \<Longrightarrow> P v \<Longrightarrow> list_all P (map snd (obj_put k v kvs))"
  by (induction kvs) auto

lemma map_of_values: "map_of kvs k = Some c \<Longrightarrow> list_all P (map snd kvs) \<Longrightarrow> P c"
  by (force simp: list_all_iff dest: map_of_SomeD)

subsection \<open>The text of a value\<close>

definition hex_char :: "nat \<Rightarrow> char" where
  "hex_char n = (if n < 10 then char_of (n + 48) else char_of (n + 87))"

definition escape_char :: "char \<Rightarrow> string" where
  "escape_char c =
     (let b = (of_char c :: nat) in
      if b = 34 then [CHR 0x5C, CHR 0x22]
      else if b = 92 then [CHR 0x5C, CHR 0x5C]
      else if b = 8 then CHR 0x5C # ''b''
      else if b = 9 then CHR 0x5C # ''t''
      else if b = 10 then CHR 0x5C # ''n''
      else if b = 12 then CHR 0x5C # ''f''
      else if b = 13 then CHR 0x5C # ''r''
      else if b < 32 then CHR 0x5C # ''u00'' @ [hex_char (b div 16), hex_char (b mod 16)]
      else [c])"

definition json_string :: "string \<Rightarrow> string" where
  "json_string s = [CHR 0x22] @ concat (map escape_char s) @ [CHR 0x22]"

definition bool_text :: "bool \<Rightarrow> string" where
  "bool_text b = (if b then ''true'' else ''false'')"

fun json_text :: "json \<Rightarrow> string" where
  "json_text JNull = ''null''"
| "json_text (JBool b) = bool_text b"
| "json_text (JInt i) = int_to_string i"
| "json_text (JFloat s) = s"
| "json_text (JString s) = json_string s"
| "json_text (JArray xs) = ''['' @ join_with '','' (map json_text xs) @ '']''"
| "json_text (JObject kvs) =
     ''{'' @ join_with '','' (map (\<lambda>(k, v). json_string k @ '':'' @ json_text v) kvs) @ ''}''"

text \<open>@scalar_text@ and @replacement_for_current@ of @configuration.rs@.\<close>

fun scalar_text :: "json \<Rightarrow> string" where
  "scalar_text JNull = []"
| "scalar_text (JBool b) = bool_text b"
| "scalar_text (JInt i) = int_to_string i"
| "scalar_text (JFloat s) = s"
| "scalar_text (JString s) = s"
| "scalar_text v = json_text v"

fun replacement_for_current :: "json \<Rightarrow> string \<Rightarrow> json option" where
  "replacement_for_current (JObject options) current = map_of options current"
| "replacement_for_current v current = Some v"

lemma replacement_plain: "\<not> is_object v \<Longrightarrow> replacement_for_current v c = Some v"
  by (cases v) (auto simp: is_object_def)

end
