(* ===== verification/Docker_Api.thy ===== *)
theory Docker_Api
  imports Json
begin

text \<open>
  The data the agent exchanges with the Docker Engine API: the parts of bollard's models it
  reads and writes, with association lists for the maps, the calls it makes and the errors it distinguishes.  What the engine
  answers is a parameter everywhere.
\<close>

text \<open>An error of the Docker API: a status the daemon answered, or anything else.\<close>

datatype docker_error = DockerStatus nat string | DockerOther string

fun docker_error_value :: "docker_error \<Rightarrow> error" where
  "docker_error_value (DockerStatus code text) = Ext text"
| "docker_error_value (DockerOther text) = Ext text"

definition docker_status :: "docker_error \<Rightarrow> nat option" where
  "docker_status e = (case e of DockerStatus code _ \<Rightarrow> Some code | DockerOther _ \<Rightarrow> None)"

datatype mount_kind = BindMount | OtherMount string

record mount_spec =
  mount_target :: "string option"
  mount_from :: "string option"
  mount_kind :: "mount_kind option"
  mount_read_only :: "bool option"

record port_binding =
  pb_host_ip :: "string option"
  pb_host_port :: "string option"

type_synonym port_bindings = "(string \<times> port_binding list option) list"

datatype restart_policy = RestartNo | RestartOther string

record host_config =
  tmpfs :: "(string \<times> string) list option"
  hc_mounts :: "mount_spec list option"
  hc_network_mode :: "string option"
  hc_pids_limit :: "int option"
  hc_restart :: "restart_policy option"
  hc_security_opt :: "string list option"
  hc_log_config :: "(string \<times> (string \<times> string) list) option"
  hc_memory :: "int option"
  hc_memory_swap :: "int option"
  hc_cpuset_cpus :: "string option"
  hc_nano_cpus :: "int option"
  hc_port_bindings :: "port_bindings option"
  hc_auto_remove :: "bool option"
  hc_rest :: json

record health_config =
  hl_test :: "string list"
  hl_interval :: int
  hl_timeout :: int
  hl_start_period :: int
  hl_retries :: int

text \<open>The fields of a container's configuration; @cc_rest@ holds those never touched.\<close>

record container_config =
  cc_image :: "string option"
  cc_user :: "string option"
  cc_working_dir :: "string option"
  cc_console :: bool
  cc_env :: "string list option"
  cc_entrypoint :: "string list option"
  cc_cmd :: "string list option"
  cc_healthcheck :: "health_config option"
  cc_labels :: "(string \<times> string) list option"
  cc_exposed_ports :: "string list option"
  cc_rest :: json

text \<open>The networks to join, each with its aliases.\<close>

type_synonym networking_config = "(string \<times> string list) list option"

record container_body =
  cb_config :: container_config
  cb_host :: "host_config option"
  cb_networks :: networking_config

record container_update =
  cu_memory :: "int option"
  cu_memory_swap :: "int option"
  cu_cpuset_cpus :: "string option"
  cu_nano_cpus :: "int option"
  cu_restart :: "restart_policy option"

definition no_update :: container_update where
  "no_update = \<lparr> cu_memory = None, cu_memory_swap = None, cu_cpuset_cpus = None, cu_nano_cpus = None,
     cu_restart = None \<rparr>"

text \<open>What the engine reports of a container, and the same report as JSON.\<close>

record container_info =
  ci_config :: "container_config option"
  ci_host :: "host_config option"
  ci_running :: "bool option"
  ci_networks :: "string list option"
  ci_json :: json

datatype api_call =
    InspectContainer string
  | CreateContainer string container_body
  | StartContainer string
  | StopContainer string nat
  | KillContainer string string
  | RemoveContainer string
  | RenameContainer string string
  | UpdateContainer string container_update
  | PullImage string "string option"
  | InspectImage string
  | InspectNetwork string
  | CreateNetwork string string "(string \<times> string) list"
  | WaitContainer string
  | ContainerLogs string
  | ContainerStats string
  | AttachContainer string
  | WriteConsole string string

end
