(* ===== verification/Filesystem.thy ===== *)
theory Filesystem
  imports Paths Rust_Utf8 Docker_Api "HOL-Library.AList" "HOL-Library.Sublist"
begin

text \<open>
  The file system calls of @std::fs@ that the agent uses, over a tree of directories,
  regular files and symbolic links, with an error for every call the schedule of faults
  makes fail and the list of all intermediate trees, so that a property can speak of a
  crash at any point.  The tree is ghost-free data; permissions and times are not modelled.
\<close>

subsection \<open>Trees\<close>

datatype node =
    RegFile string
  | Symlink path
  | Dir "(string \<times> node) list"

fun lookup :: "node \<Rightarrow> string list \<Rightarrow> node option" where
  "lookup n [] = Some n"
| "lookup (Dir es) (x # xs) = (case map_of es x of None \<Rightarrow> None | Some m \<Rightarrow> lookup m xs)"
| "lookup (RegFile c) (x # xs) = None"
| "lookup (Symlink t) (x # xs) = None"

text \<open>Storing a node at a path whose parent is a directory; removing is storing nothing.\<close>

fun put :: "string list \<Rightarrow> node option \<Rightarrow> node \<Rightarrow> node" where
  "put [] v n = (case v of None \<Rightarrow> n | Some m \<Rightarrow> m)"
| "put [x] v (Dir es) =
     Dir (case v of None \<Rightarrow> AList.delete x es | Some m \<Rightarrow> AList.update x m es)"
| "put (x # y # ys) v (Dir es) =
     (case map_of es x of
        None \<Rightarrow> Dir es
      | Some m \<Rightarrow> Dir (AList.update x (put (y # ys) v m) es))"
| "put (x # xs) v (RegFile c) = RegFile c"
| "put (x # xs) v (Symlink t) = Symlink t"

definition is_dir_at :: "node \<Rightarrow> string list \<Rightarrow> bool" where
  "is_dir_at t p = (case lookup t p of Some (Dir _) \<Rightarrow> True | _ \<Rightarrow> False)"

definition parent_ok :: "node \<Rightarrow> string list \<Rightarrow> bool" where
  "parent_ok t p \<longleftrightarrow> p \<noteq> [] \<and> is_dir_at t (butlast p)"

lemma lookup_append:
  "lookup t (p @ q) = Option.bind (lookup t p) (\<lambda>n. lookup n q)"
  by (induction t p rule: lookup.induct) (auto split: option.splits)

lemma parent_ok_Cons:
  "parent_ok (Dir es) (x # y # ys) \<longleftrightarrow> (\<exists>m. map_of es x = Some m \<and> parent_ok m (y # ys))"
  by (auto simp: parent_ok_def is_dir_at_def split: option.splits)

lemma is_dir_at_file [simp]: "\<not> is_dir_at (RegFile c) q" "\<not> is_dir_at (Symlink l) q"
  by (cases q; simp add: is_dir_at_def)+

lemma parent_ok_file [simp]: "\<not> parent_ok (RegFile c) p" "\<not> parent_ok (Symlink l) p"
  by (simp_all add: parent_ok_def)

lemma lookup_put_same:
  "parent_ok t p \<Longrightarrow> lookup (put p v t) p = v"
proof (induction p v t rule: put.induct)
  case (2 x v es)
  then show ?case by (cases v) (auto simp: delete_conv' update_conv')
next
  case (3 x y ys v es)
  then obtain m where "map_of es x = Some m" "parent_ok m (y # ys)" by (auto simp: parent_ok_Cons)
  with 3 show ?case by (auto simp: update_conv')
qed (auto simp: parent_ok_def [of _ "[]"])

lemma lookup_put_below:
  "parent_ok t p \<Longrightarrow> lookup (put p (Some n) t) (p @ q) = lookup n q"
  by (simp add: lookup_append lookup_put_same)

lemma lookup_put_other:
  "\<not> prefix p q \<Longrightarrow> \<not> prefix q p \<Longrightarrow> lookup (put p v t) q = lookup t q"
proof (induction p v t arbitrary: q rule: put.induct)
  case (2 x v es)
  then show ?case by (cases q) (auto simp: delete_conv' update_conv' split: option.splits)
next
  case (3 x y ys v es)
  then show ?case by (cases q) (auto simp: update_conv' split: option.splits)
qed auto

lemma lookup_put_above:
  "prefix q p \<Longrightarrow> q \<noteq> p \<Longrightarrow> is_dir_at t q \<Longrightarrow> is_dir_at (put p v t) q"
proof (induction p v t arbitrary: q rule: put.induct)
  case (2 x v es)
  then show ?case by (cases q) (auto simp: is_dir_at_def)
next
  case (3 x y ys v es)
  show ?case
  proof (cases q)
    case Nil
    then show ?thesis by (auto simp: is_dir_at_def split: option.splits)
  next
    case (Cons a q')
    then have a: "a = x" "prefix q' (y # ys)" "q' \<noteq> y # ys" using 3 by auto
    obtain m where m: "map_of es x = Some m" "is_dir_at m q'"
      using 3(4) Cons a by (auto simp: is_dir_at_def split: option.splits)
    then show ?thesis using 3(1) [OF m(1) a(2,3) m(2)] Cons a
      by (simp add: is_dir_at_def update_conv')
  qed
qed (auto simp: is_dir_at_def)

subsection \<open>Path resolution\<close>

text \<open>
  Resolving a path from a directory: symbolic links in the middle are followed, the last
  one on request, at most 40 of them.  The result is the place the path names, which may
  not exist when only its last component is missing.
\<close>

function resolve_from :: "nat \<Rightarrow> node \<Rightarrow> string list \<Rightarrow> path \<Rightarrow> bool \<Rightarrow> string list res" where
  "resolve_from n t cur [] follow = Ok cur"
| "resolve_from n t cur (RootDir # cs) follow = resolve_from n t [] cs follow"
| "resolve_from n t cur (CurDir # cs) follow = resolve_from n t cur cs follow"
| "resolve_from n t cur (ParentDir # cs) follow = resolve_from n t (butlast cur) cs follow"
| "resolve_from n t cur (Normal s # cs) follow =
     (case lookup t cur of
        Some (Dir es) \<Rightarrow>
          (case map_of es s of
             None \<Rightarrow> if cs = [] then Ok (cur @ [s]) else Err (Io NotFound)
           | Some (Symlink target) \<Rightarrow>
               if cs \<noteq> [] \<or> follow then
                 (case n of
                    0 \<Rightarrow> Err (Io TooManyLinks)
                  | Suc k \<Rightarrow> resolve_from k t cur (target @ cs) follow)
               else Ok (cur @ [s])
           | Some (Dir _) \<Rightarrow> resolve_from n t (cur @ [s]) cs follow
           | Some (RegFile _) \<Rightarrow> if cs = [] then Ok (cur @ [s]) else Err (Io NotADirectory))
      | Some _ \<Rightarrow> Err (Io NotADirectory)
      | None \<Rightarrow> Err (Io NotFound))"
  by pat_completeness auto
termination
  by (relation "measures [\<lambda>(n, t, cur, cs, follow). n, \<lambda>(n, t, cur, cs, follow). length cs]") auto

definition max_links :: nat where "max_links = 40"

text \<open>The absolute path of a place.\<close>

definition abs_path :: "string list \<Rightarrow> path" where
  "abs_path p = RootDir # map Normal p"

text \<open>A path none of whose directories is a symbolic link.\<close>

definition real_parent :: "node \<Rightarrow> string list \<Rightarrow> bool" where
  "real_parent t p \<longleftrightarrow> (\<forall>i < length p. is_dir_at t (take i p))"

lemma real_parent_ok: "real_parent t p \<Longrightarrow> p \<noteq> [] \<Longrightarrow> parent_ok t p"
  by (auto simp: real_parent_def parent_ok_def butlast_conv_take)

lemma real_parentD: "real_parent t p \<Longrightarrow> prefix q p \<Longrightarrow> q \<noteq> p \<Longrightarrow> is_dir_at t q"
  unfolding real_parent_def
  by (metis append_eq_conv_conj append_self_conv length_append less_add_same_cancel1
      length_greater_0_conv prefix_def)

lemma resolve_real:
  assumes "real_parent t (cur @ names)"
    and "follow \<Longrightarrow> (\<forall>s. lookup t (cur @ names) \<noteq> Some (Symlink s))"
  shows "resolve_from n t cur (map Normal names) follow = Ok (cur @ names)"
  using assms
proof (induction names arbitrary: cur)
  case (Cons s names)
  have d: "is_dir_at t cur" using real_parentD [OF Cons.prems(1), of cur] by simp
  then obtain es where es: "lookup t cur = Some (Dir es)"
    by (auto simp: is_dir_at_def split: option.splits node.splits)
  have l: "lookup t (cur @ [s]) = map_of es s"
    by (simp add: lookup_append es split: option.splits)
  have IH: "resolve_from n t (cur @ [s]) (map Normal names) follow = Ok ((cur @ [s]) @ names)"
    by (rule Cons.IH) (use Cons.prems in auto)
  show ?case
  proof (cases names)
    case Nil
    then show ?thesis
      using Cons.prems(2) l es IH by (auto split: option.splits node.splits)
  next
    case (Cons s' ns)
    then have "is_dir_at t (cur @ [s])"
      using real_parentD [OF Cons.prems(1), of "cur @ [s]"] by simp
    then show ?thesis using l es IH by (auto simp: is_dir_at_def split: option.splits node.splits)
  qed
qed simp

lemma resolve_abs:
  assumes "real_parent t p" "follow \<Longrightarrow> (\<forall>s. lookup t p \<noteq> Some (Symlink s))"
  shows "resolve_from n t cur (abs_path p) follow = Ok p"
  using resolve_real [of t "[]" p] assms by (simp add: abs_path_def)


subsection \<open>Path functions\<close>

definition path_parent :: "path \<Rightarrow> path option" where
  "path_parent p = (if p = [] \<or> p = [RootDir] then None else Some (butlast p))"

definition file_name :: "path \<Rightarrow> string option" where
  "file_name p = (if p = [] then None else case last p of Normal s \<Rightarrow> Some s | _ \<Rightarrow> None)"

lemma components_path_string:
  assumes "list_all plain_name names"
  shows "components (path_string (abs_path names)) = abs_path names"
proof (cases "names = []")
  case True
  then show ?thesis by (simp add: abs_path_def path_string_def components_def seg_components_def)
next
  case False
  have ps: "path_string (abs_path names) = CHR ''/'' # join_with ''/'' names"
    using False by (simp add: path_string_def abs_path_def o_def join_with_Cons)
  have sp: "split_on (CHR ''/'') (join_with ''/'' names) = names"
    using assms False by (intro split_on_join) (auto simp: list_all_iff plain_name_def)
  have "seg_components names = map Normal names"
    using assms by (induction names) (auto simp: seg_components_def plain_name_def)
  then show ?thesis unfolding ps by (simp add: components_def split_on_Cons sp abs_path_def del: split_on.simps)
qed

subsection \<open>Worlds and calls\<close>

text \<open>
  The next call fails before its effect, or (a write) after storing some bytes.  The trace
  lists the trees between the effects.
\<close>

datatype fault = NoFault | Fail io_kind | Partial nat io_kind

text \<open>A world is the file tree, the current directory, the faults to come, the trees so far, the
  requests to other programs and the state of a remote bucket.
  A request is a process with its arguments, additional environment
  and standard input, a shell command inside a container, or a call of the Docker Engine API.\<close>

datatype request =
    Spawn "string list" "(string \<times> string) list" string
  | ContainerExec string string
  | Api api_call

record world =
  w_root :: node
  w_cwd :: "string list"
  w_faults :: "fault list"
  w_trace :: "node list"
  w_requests :: "request list"
  w_objects :: "(string \<times> string) list"

text \<open>Calls over any state; those of the operating system work on a world.\<close>

type_synonym ('s, 'a) act = "'s \<Rightarrow> 'a res \<times> 's"
type_synonym 'a io = "(world, 'a) act"

definition io_return :: "'a \<Rightarrow> ('s, 'a) act" where "io_return x w = (Ok x, w)"
definition io_fail :: "error \<Rightarrow> ('s, 'a) act" where "io_fail e w = (Err e, w)"
definition io_lift :: "'a res \<Rightarrow> ('s, 'a) act" where "io_lift r w = (r, w)"

definition io_bind :: "('s, 'a) act \<Rightarrow> ('a \<Rightarrow> ('s, 'b) act) \<Rightarrow> ('s, 'b) act" where
  "io_bind m f w = (case m w of (Inl e, w') \<Rightarrow> (Inl e, w') | (Inr x, w') \<Rightarrow> f x w')"

definition io_ctx :: "string \<Rightarrow> ('s, 'a) act \<Rightarrow> ('s, 'a) act" where
  "io_ctx c m w = (case m w of (r, w') \<Rightarrow> (res_context c r, w'))"

text \<open>@let _ = ...@: the outcome is dropped, the effect stays.\<close>

definition io_ignore :: "('s, 'a) act \<Rightarrow> ('s, unit) act" where
  "io_ignore m w = (Ok (), snd (m w))"

definition io_catch :: "('s, 'a) act \<Rightarrow> (error \<Rightarrow> ('s, 'a) act) \<Rightarrow> ('s, 'a) act" where
  "io_catch m h w = (case m w of (Inl e, w') \<Rightarrow> h e w' | (Inr x, w') \<Rightarrow> (Inr x, w'))"

text \<open>The outcome as a value, for a @match@ on it.\<close>

definition io_try :: "('s, 'a) act \<Rightarrow> ('s, 'a res) act" where
  "io_try m w = (case m w of (r, w') \<Rightarrow> (Ok r, w'))"

definition take_fault :: "world \<Rightarrow> fault \<times> world" where
  "take_fault w = (case w_faults w of [] \<Rightarrow> (NoFault, w) | f # fs \<Rightarrow> (f, w\<lparr> w_faults := fs \<rparr>))"

definition set_root :: "node \<Rightarrow> world \<Rightarrow> world" where
  "set_root t w = w\<lparr> w_root := t, w_trace := w_trace w @ [t] \<rparr>"

text \<open>A call that reads, and one that changes the tree in one step.\<close>

definition io_query :: "(node \<Rightarrow> string list \<Rightarrow> 'a res) \<Rightarrow> 'a io" where
  "io_query f w =
     (case take_fault w of
        (NoFault, w1) \<Rightarrow> (f (w_root w1) (w_cwd w1), w1)
      | (Fail k, w1) \<Rightarrow> (Err (Io k), w1)
      | (Partial _ k, w1) \<Rightarrow> (Err (Io k), w1))"

definition io_tree :: "(node \<Rightarrow> string list \<Rightarrow> node res) \<Rightarrow> unit io" where
  "io_tree f w =
     (case take_fault w of
        (NoFault, w1) \<Rightarrow>
          (case f (w_root w1) (w_cwd w1) of Inl e \<Rightarrow> (Inl e, w1) | Inr t \<Rightarrow> (Ok (), set_root t w1))
      | (Fail k, w1) \<Rightarrow> (Err (Io k), w1)
      | (Partial _ k, w1) \<Rightarrow> (Err (Io k), w1))"

definition resolve :: "node \<Rightarrow> string list \<Rightarrow> path \<Rightarrow> bool \<Rightarrow> string list res" where
  "resolve t cwd p follow =
     (if p = [] then Err (Io NotFound) else resolve_from max_links t cwd p follow)"

definition existing :: "node \<Rightarrow> string list \<Rightarrow> path \<Rightarrow> bool \<Rightarrow> (string list \<times> node) res" where
  "existing t cwd p follow =
     res_bind (resolve t cwd p follow) (\<lambda>q.
       case lookup t q of None \<Rightarrow> Err (Io NotFound) | Some n \<Rightarrow> Ok (q, n))"

subsection \<open>The calls of @std::fs@\<close>

definition fs_exists :: "path \<Rightarrow> world \<Rightarrow> bool" where
  "fs_exists p w = is_ok (existing (w_root w) (w_cwd w) p True)"

definition fs_is_file :: "path \<Rightarrow> world \<Rightarrow> bool" where
  "fs_is_file p w = (case existing (w_root w) (w_cwd w) p True of Inr (_, RegFile _) \<Rightarrow> True | _ \<Rightarrow> False)"

definition fs_is_dir :: "path \<Rightarrow> world \<Rightarrow> bool" where
  "fs_is_dir p w = (case existing (w_root w) (w_cwd w) p True of Inr (_, Dir _) \<Rightarrow> True | _ \<Rightarrow> False)"

definition read_tree :: "path \<Rightarrow> node \<Rightarrow> string list \<Rightarrow> string res" where
  "read_tree p t cwd =
     res_bind (existing t cwd p True) (\<lambda>(_, n).
       case n of RegFile c \<Rightarrow> Ok c | Dir _ \<Rightarrow> Err (Io IsADirectory) | Symlink _ \<Rightarrow> Err (Io OtherIo))"

definition fs_read :: "path \<Rightarrow> string io" where "fs_read p = io_query (read_tree p)"

definition fs_read_to_string :: "path \<Rightarrow> string io" where
  "fs_read_to_string p =
     io_query (\<lambda>t cwd. res_bind (read_tree p t cwd) (\<lambda>c.
       if valid_utf8 c then Ok c else Err (Io InvalidData)))"

definition fs_canonicalize :: "path \<Rightarrow> path io" where
  "fs_canonicalize p = io_query (\<lambda>t cwd. res_bind (existing t cwd p True) (\<lambda>(q, _). Ok (abs_path q)))"

definition fs_symlink_metadata :: "path \<Rightarrow> node io" where
  "fs_symlink_metadata p = io_query (\<lambda>t cwd. res_bind (existing t cwd p False) (\<lambda>(_, n). Ok n))"

text \<open>@fs::metadata@ follows links; a directory has some length of its own.\<close>

definition fs_metadata :: "path \<Rightarrow> node io" where
  "fs_metadata p = io_query (\<lambda>t cwd. res_bind (existing t cwd p True) (\<lambda>(_, n). Ok n))"

fun node_len :: "nat \<Rightarrow> node \<Rightarrow> nat" where
  "node_len dir_len (RegFile c) = length c"
| "node_len dir_len _ = dir_len"

definition fs_read_dir :: "path \<Rightarrow> string list io" where
  "fs_read_dir p = io_query (\<lambda>t cwd. res_bind (existing t cwd p True) (\<lambda>(_, n).
     case n of Dir es \<Rightarrow> Ok (map fst es) | _ \<Rightarrow> Err (Io NotADirectory)))"

text \<open>Where a write goes: any place that is not a directory.\<close>

definition write_place :: "path \<Rightarrow> node \<Rightarrow> string list \<Rightarrow> string list res" where
  "write_place p t cwd =
     res_bind (resolve t cwd p True) (\<lambda>q.
       case lookup t q of Some (Dir _) \<Rightarrow> Err (Io IsADirectory) | _ \<Rightarrow> Ok q)"

text \<open>@fs::write@ truncates or creates the file, then stores the bytes.\<close>

definition fs_write :: "path \<Rightarrow> string \<Rightarrow> unit io" where
  "fs_write p c w =
     (case take_fault w of
        (Fail k, w1) \<Rightarrow> (Err (Io k), w1)
      | (f, w1) \<Rightarrow>
          (case write_place p (w_root w1) (w_cwd w1) of
             Inl e \<Rightarrow> (Inl e, w1)
           | Inr q \<Rightarrow>
               let w2 = set_root (put q (Some (RegFile [])) (w_root w1)) w1 in
               (case f of
                  Partial n k \<Rightarrow> (Err (Io k), set_root (put q (Some (RegFile (take n c))) (w_root w2)) w2)
                | _ \<Rightarrow> (Ok (), set_root (put q (Some (RegFile c)) (w_root w2)) w2))))"

text \<open>@write_all@ on a handle opened at the end of what was written before.\<close>

definition fs_append :: "path \<Rightarrow> string \<Rightarrow> unit io" where
  "fs_append p c w =
     (case take_fault w of
        (Fail k, w1) \<Rightarrow> (Err (Io k), w1)
      | (f, w1) \<Rightarrow>
          (case existing (w_root w1) (w_cwd w1) p True of
             Inr (q, RegFile old) \<Rightarrow>
               (case f of
                  Partial n k \<Rightarrow> (Err (Io k), set_root (put q (Some (RegFile (old @ take n c))) (w_root w1)) w1)
                | _ \<Rightarrow> (Ok (), set_root (put q (Some (RegFile (old @ c))) (w_root w1)) w1))
           | Inr _ \<Rightarrow> (Err (Io IsADirectory), w1)
           | Inl e \<Rightarrow> (Inl e, w1)))"

definition fs_copy :: "path \<Rightarrow> path \<Rightarrow> unit io" where
  "fs_copy a b = io_bind (fs_read a) (\<lambda>c w.
     fs_write b (if write_place b (w_root w) (w_cwd w) = resolve (w_root w) (w_cwd w) a True
                 then [] else c) w)"

definition create_new_tree :: "path \<Rightarrow> node \<Rightarrow> string list \<Rightarrow> node res" where
  "create_new_tree p t cwd =
     res_bind (resolve t cwd p False) (\<lambda>q.
       if lookup t q = None then Ok (put q (Some (RegFile [])) t) else Err (Io AlreadyExists))"

definition fs_create_new :: "path \<Rightarrow> unit io" where "fs_create_new p = io_tree (create_new_tree p)"

definition rename_tree :: "path \<Rightarrow> path \<Rightarrow> node \<Rightarrow> string list \<Rightarrow> node res" where
  "rename_tree a b t cwd =
     res_bind (existing t cwd a False) (\<lambda>(src, n).
     res_bind (resolve t cwd b False) (\<lambda>dst.
       let moved = put dst (Some n) (put src None t) in
       if src = dst then Ok t
       else if prefix src dst then Err (Io InvalidInput)
       else case (n, lookup t dst) of
         (_, None) \<Rightarrow> Ok moved
       | (Dir _, Some (Dir [])) \<Rightarrow> Ok moved
       | (Dir _, Some (Dir _)) \<Rightarrow> Err (Io DirectoryNotEmpty)
       | (Dir _, Some _) \<Rightarrow> Err (Io NotADirectory)
       | (_, Some (Dir _)) \<Rightarrow> Err (Io IsADirectory)
       | (_, Some _) \<Rightarrow> Ok moved))"

definition fs_rename :: "path \<Rightarrow> path \<Rightarrow> unit io" where "fs_rename a b = io_tree (rename_tree a b)"

definition fs_remove_file :: "path \<Rightarrow> unit io" where
  "fs_remove_file p = io_tree (\<lambda>t cwd.
     res_bind (existing t cwd p False) (\<lambda>(q, n).
       case n of Dir _ \<Rightarrow> Err (Io IsADirectory) | _ \<Rightarrow> Ok (put q None t)))"

definition fs_remove_dir_all :: "path \<Rightarrow> unit io" where
  "fs_remove_dir_all p = io_tree (\<lambda>t cwd.
     res_bind (existing t cwd p False) (\<lambda>(q, n).
       case n of RegFile _ \<Rightarrow> Err (Io NotADirectory) | _ \<Rightarrow> Ok (put q None t)))"

definition mkdir_tree :: "path \<Rightarrow> node \<Rightarrow> string list \<Rightarrow> node res" where
  "mkdir_tree p t cwd =
     res_bind (resolve t cwd p False) (\<lambda>q.
       if lookup t q = None then Ok (put q (Some (Dir [])) t) else Err (Io AlreadyExists))"

definition is_dir_tree :: "path \<Rightarrow> node \<Rightarrow> string list \<Rightarrow> bool" where
  "is_dir_tree p t cwd = (case existing t cwd p True of Inr (_, Dir _) \<Rightarrow> True | _ \<Rightarrow> False)"

text \<open>@fs::create_dir_all@: make the directory, else its parents first.\<close>

function mkdirs_tree :: "path \<Rightarrow> node \<Rightarrow> string list \<Rightarrow> node res" where
  "mkdirs_tree p t cwd =
     (if p = [] then Ok t
      else case mkdir_tree p t cwd of
        Inr t' \<Rightarrow> Ok t'
      | Inl e \<Rightarrow>
          if e = Io NotFound then
            (if p = [RootDir] then Err e
             else case mkdirs_tree (butlast p) t cwd of
               Inl e' \<Rightarrow> Inl e'
             | Inr t1 \<Rightarrow>
                 (case mkdir_tree p t1 cwd of
                    Inr t2 \<Rightarrow> Ok t2
                  | Inl e2 \<Rightarrow> if is_dir_tree p t1 cwd then Ok t1 else Inl e2))
          else if is_dir_tree p t cwd then Ok t else Inl e)"
  by pat_completeness auto
termination
  by (relation "measure (\<lambda>(p, t, cwd). length p)") auto

declare mkdirs_tree.simps [simp del]

definition fs_create_dir_all :: "path \<Rightarrow> unit io" where
  "fs_create_dir_all p = io_tree (mkdirs_tree p)"

text \<open>Setting permissions changes nothing the model shows, but may fail.\<close>

definition fs_set_permissions :: "path \<Rightarrow> unit io" where
  "fs_set_permissions p = io_query (\<lambda>t cwd. res_bind (existing t cwd p True) (\<lambda>_. Ok ()))"

subsection \<open>Calls and invariants of all intermediate trees\<close>

named_theorems io_defs \<open>the combinators of calls\<close>
lemmas [io_defs] = io_bind_def io_return_def io_fail_def io_lift_def io_ctx_def io_ignore_def io_catch_def

definition all_trees :: "(node \<Rightarrow> bool) \<Rightarrow> world \<Rightarrow> bool" where
  "all_trees I w \<longleftrightarrow> I (w_root w) \<and> (\<forall>t \<in> set (w_trace w). I t)"

lemma take_fault_sel:
  "take_fault w = (f, w1) \<Longrightarrow> w_root w1 = w_root w \<and> w_cwd w1 = w_cwd w \<and> w_trace w1 = w_trace w"
  by (auto simp: take_fault_def split: list.splits)

lemma set_root_sel [simp]:
  "w_root (set_root t w) = t" "w_cwd (set_root t w) = w_cwd w" "w_trace (set_root t w) = w_trace w @ [t]"
  "w_faults (set_root t w) = w_faults w"
  by (simp_all add: set_root_def)

lemma io_query_spec:
  assumes "io_query f w = (r, w')"
  shows "w_root w' = w_root w \<and> w_cwd w' = w_cwd w \<and> w_trace w' = w_trace w \<and>
    (r = f (w_root w) (w_cwd w) \<or> (\<exists>k. r = Err (Io k)))"
proof -
  obtain k w1 where t: "take_fault w = (k, w1)" by (metis surj_pair)
  show ?thesis
    using assms take_fault_sel [OF t] by (cases k) (auto simp: io_query_def t)
qed

lemma io_query_Ok:
  "io_query f w = (Inr x, w') \<Longrightarrow>
   w_root w' = w_root w \<and> w_cwd w' = w_cwd w \<and> w_trace w' = w_trace w \<and> f (w_root w) (w_cwd w) = Inr x"
  using io_query_spec [of f w "Inr x" w'] by auto

lemma io_tree_spec:
  assumes "io_tree f w = (r, w')"
  shows "w_cwd w' = w_cwd w \<and>
    (case r of
       Inl e \<Rightarrow> w_root w' = w_root w \<and> w_trace w' = w_trace w
     | Inr _ \<Rightarrow> \<exists>t. f (w_root w) (w_cwd w) = Inr t \<and> w_root w' = t \<and> w_trace w' = w_trace w @ [t])"
proof -
  obtain k w1 where t: "take_fault w = (k, w1)" by (metis surj_pair)
  show ?thesis
    using assms take_fault_sel [OF t]
    by (cases k; cases "f (w_root w) (w_cwd w)") (auto simp: io_tree_def t)
qed

lemma io_tree_inv:
  assumes "all_trees I w" "\<And>t. f (w_root w) (w_cwd w) = Inr t \<Longrightarrow> I t"
  shows "all_trees I (snd (io_tree f w))"
proof -
  obtain r w' where r: "io_tree f w = (r, w')" by (metis surj_pair)
  show ?thesis
    using assms io_tree_spec [OF r] by (cases r) (auto simp: all_trees_def r)
qed

lemma io_query_inv: "all_trees I w \<Longrightarrow> all_trees I (snd (io_query f w))"
proof -
  assume a: "all_trees I w"
  obtain r w' where r: "io_query f w = (r, w')" by (metis surj_pair)
  show ?thesis using a io_query_spec [OF r] by (simp add: all_trees_def r)
qed

lemma fs_write_spec:
  assumes "fs_write p c w = (r, w')"
  shows "w_cwd w' = w_cwd w \<and>
    ((\<exists>e. r = Inl e) \<and> w_root w' = w_root w \<and> w_trace w' = w_trace w \<or>
     (\<exists>q x. write_place p (w_root w) (w_cwd w) = Ok q \<and> (r = Ok () \<longrightarrow> x = c) \<and>
        w_root w' = put q (Some (RegFile x)) (put q (Some (RegFile [])) (w_root w)) \<and>
        w_trace w' = w_trace w @ [put q (Some (RegFile [])) (w_root w), w_root w']))"
proof -
  obtain f w1 where t: "take_fault w = (f, w1)" by (metis surj_pair)
  note s = take_fault_sel [OF t]
  show ?thesis
  proof (cases "(\<exists>k. f = Fail k) \<or> (\<exists>e. write_place p (w_root w) (w_cwd w) = Inl e)")
    case True
    then show ?thesis
      using assms s by (cases f) (auto simp: fs_write_def t)
  next
    case False
    then obtain q where q: "write_place p (w_root w) (w_cwd w) = Inr q"
      by (cases "write_place p (w_root w) (w_cwd w)") auto
    show ?thesis
    proof (cases f)
      case NoFault
      then show ?thesis using assms s q by (auto simp: fs_write_def t Let_def)
    next
      case (Partial n k)
      then show ?thesis using assms s q by (auto simp: fs_write_def t Let_def)
    qed (use False in auto)
  qed
qed

text \<open>A property of all trees that a sequence of calls keeps, whatever fails.\<close>

definition keeps :: "(node \<Rightarrow> bool) \<Rightarrow> 'a io \<Rightarrow> bool" where
  "keeps I m \<longleftrightarrow> (\<forall>w. all_trees I w \<longrightarrow> all_trees I (snd (m w)))"

lemma keeps_bind: "keeps I m \<Longrightarrow> (\<And>x. keeps I (f x)) \<Longrightarrow> keeps I (io_bind m f)"
  by (auto simp: keeps_def io_bind_def split: prod.splits sum.splits)

lemma keeps_simple [intro]:
  "keeps I (io_return x)" "keeps I (io_fail e)" "keeps I (io_lift r)" "keeps I (io_query f)"
  "keeps I m \<Longrightarrow> keeps I (io_ctx c m)" "keeps I m \<Longrightarrow> keeps I (io_ignore m)"
  by (auto simp: keeps_def io_defs io_query_inv split: prod.splits)


subsection \<open>Triples\<close>

text \<open>
  From a state with @P@ and @A@, the call ends with @A@ whatever fails, and with @Q@ of its
  value when it succeeds.
\<close>

definition triple :: "(world \<Rightarrow> bool) \<Rightarrow> (world \<Rightarrow> bool) \<Rightarrow> 'a io \<Rightarrow> ('a \<Rightarrow> world \<Rightarrow> bool) \<Rightarrow> bool" where
  "triple A P m Q \<longleftrightarrow> (\<forall>w r w'. A w \<longrightarrow> P w \<longrightarrow> m w = (r, w') \<longrightarrow> A w' \<and> (\<forall>x. r = Inr x \<longrightarrow> Q x w'))"

named_theorems triples \<open>rules that compose triples\<close>

lemma triple_bind [triples]:
  "triple A P m Q \<Longrightarrow> (\<And>x. triple A (Q x) (f x) R) \<Longrightarrow> triple A P (io_bind m f) R"
  unfolding triple_def
proof (intro allI impI)
  fix w r w'
  assume m: "\<forall>w r w'. A w \<longrightarrow> P w \<longrightarrow> m w = (r, w') \<longrightarrow> A w' \<and> (\<forall>x. r = Inr x \<longrightarrow> Q x w')"
    and f: "\<And>x. \<forall>w r w'. A w \<longrightarrow> Q x w \<longrightarrow> f x w = (r, w') \<longrightarrow> A w' \<and> (\<forall>y. r = Inr y \<longrightarrow> R y w')"
    and w: "A w" "P w" "io_bind m f w = (r, w')"
  obtain r1 w1 where 1: "m w = (r1, w1)" by (metis surj_pair)
  show "A w' \<and> (\<forall>y. r = Inr y \<longrightarrow> R y w')"
  proof (cases r1)
    case (Inl e)
    then show ?thesis using m w 1 by (auto simp: io_bind_def)
  next
    case (Inr x)
    then have "A w1" "Q x w1" using m w(1,2) 1 by auto
    moreover have "f x w1 = (r, w')" using w(3) 1 Inr by (simp add: io_bind_def)
    ultimately show ?thesis using f [of x] by blast
  qed
qed

lemma triple_ctx [triples]: "triple A P m Q \<Longrightarrow> triple A P (io_ctx c m) Q"
  unfolding triple_def io_ctx_def
  by (auto simp: res_context_Inr_iff split: prod.splits)

lemma triple_return [triples]: "(\<And>w. A w \<Longrightarrow> P w \<Longrightarrow> Q x w) \<Longrightarrow> triple A P (io_return x) Q"
  by (simp add: triple_def io_return_def)

lemma triple_fail [triples]: "triple A P (io_fail e) Q"
  by (simp add: triple_def io_fail_def)

lemma triple_lift [triples]: "(\<And>x w. r = Inr x \<Longrightarrow> A w \<Longrightarrow> P w \<Longrightarrow> Q x w) \<Longrightarrow> triple A P (io_lift r) Q"
  by (simp add: triple_def io_lift_def)

lemma triple_pre: "triple A P' m Q \<Longrightarrow> (\<And>w. A w \<Longrightarrow> P w \<Longrightarrow> P' w) \<Longrightarrow> triple A P m Q"
  unfolding triple_def by blast

lemma triple_post: "triple A P m Q' \<Longrightarrow> (\<And>x w. A w \<Longrightarrow> Q' x w \<Longrightarrow> Q x w) \<Longrightarrow> triple A P m Q"
  unfolding triple_def by blast

lemma triple_fact: "(c \<Longrightarrow> triple A P m Q) \<Longrightarrow> triple A (\<lambda>w. c \<and> P w) m Q"
  unfolding triple_def by blast

lemma tripleD:
  "triple A P m Q \<Longrightarrow> A w \<Longrightarrow> P w \<Longrightarrow> m w = (r, w') \<Longrightarrow> A w' \<and> (\<forall>x. r = Inr x \<longrightarrow> Q x w')"
  unfolding triple_def by blast

lemma triple_query:
  assumes "\<And>w x. A w \<Longrightarrow> P w \<Longrightarrow> f (w_root w) (w_cwd w) = Inr x \<Longrightarrow> Q x w"
    and "\<And>w w'. w_root w' = w_root w \<Longrightarrow> w_cwd w' = w_cwd w \<Longrightarrow> w_trace w' = w_trace w \<Longrightarrow> A w \<Longrightarrow> A w'"
    and "\<And>w w' x. w_root w' = w_root w \<Longrightarrow> w_cwd w' = w_cwd w \<Longrightarrow> w_trace w' = w_trace w \<Longrightarrow> Q x w \<Longrightarrow> Q x w'"
  shows "triple A P (io_query f) Q"
  unfolding triple_def
proof (intro allI impI conjI)
  fix w r w' assume a: "A w" "P w" "io_query f w = (r, w')"
  note s = io_query_spec [OF a(3)]
  show "A w'" using assms(2) a(1) s by blast
  fix x assume "r = Inr x"
  then have "f (w_root w) (w_cwd w) = Inr x" using s by auto
  then show "Q x w'" using assms(1) [OF a(1,2)] assms(3) s by blast
qed

lemma triple_tree:
  assumes "\<And>w t. A w \<Longrightarrow> P w \<Longrightarrow> f (w_root w) (w_cwd w) = Inr t \<Longrightarrow> A (set_root t w) \<and> Q () (set_root t w)"
    and "\<And>w w'. w_root w' = w_root w \<Longrightarrow> w_cwd w' = w_cwd w \<Longrightarrow> w_trace w' = w_trace w \<Longrightarrow> A w \<Longrightarrow> A w'"
    and "\<And>w w' x. w_root w' = w_root w \<Longrightarrow> w_cwd w' = w_cwd w \<Longrightarrow> w_trace w' = w_trace w \<Longrightarrow> Q x w \<Longrightarrow> Q x w'"
  shows "triple A P (io_tree f) Q"
  unfolding triple_def
proof (intro allI impI conjI)
  fix w r w' assume a: "A w" "P w" "io_tree f w = (r, w')"
  note s = io_tree_spec [OF a(3)]
  show "A w'"
  proof (cases r)
    case (Inl e)
    then show ?thesis using s a(1) assms(2) by auto
  next
    case (Inr u)
    then obtain t where "f (w_root w) (w_cwd w) = Inr t" "w_root w' = t" "w_trace w' = w_trace w @ [t]" "w_cwd w' = w_cwd w"
      using s by auto
    then show ?thesis using assms(1) [OF a(1,2), of t] assms(2) [of w' "set_root t w"] by simp
  qed
  fix x assume x: "r = Inr x"
  then obtain t where "f (w_root w) (w_cwd w) = Inr t" "w_root w' = t" "w_trace w' = w_trace w @ [t]" "w_cwd w' = w_cwd w"
    using s by auto
  then show "Q x w'" using assms(1) [OF a(1,2), of t] assms(3) [of w' "set_root t w"] by simp
qed

lemma all_trees_cong: "w_root w' = w_root w \<Longrightarrow> w_trace w' = w_trace w \<Longrightarrow> all_trees I w \<Longrightarrow> all_trees I w'"
  by (simp add: all_trees_def)

lemma all_trees_set [simp]: "all_trees I w \<Longrightarrow> I t \<Longrightarrow> all_trees I (set_root t w)"
  by (auto simp: all_trees_def)


lemma io_bind_Ok:
  "io_bind m f w = (Inr y, w') \<longleftrightarrow> (\<exists>x w1. m w = (Inr x, w1) \<and> f x w1 = (Inr y, w'))"
  by (auto simp: io_bind_def split: prod.splits sum.splits)

lemma io_bind_split:
  "io_bind m f a = (r, b) \<Longrightarrow>
   (\<exists>e. m a = (Inl e, b) \<and> r = Inl e) \<or> (\<exists>x c. m a = (Inr x, c) \<and> f x c = (r, b))"
  by (auto simp: io_bind_def split: prod.splits sum.splits)

lemma io_bind_cases:
  assumes "io_bind m f s = (r, s')"
  obtains e where "m s = (Inl e, s')" "r = Inl e" | x s1 where "m s = (Inr x, s1)" "f x s1 = (r, s')"
  using io_bind_split [OF assms] by blast

lemma io_ctx_Ok: "io_ctx c m w = (Inr y, w') \<longleftrightarrow> m w = (Inr y, w')"
  by (auto simp: io_ctx_def res_context_Inr_iff split: prod.splits)

lemma io_simple_Ok:
  "io_return x w = (Inr y, w') \<longleftrightarrow> y = x \<and> w' = w" "io_lift r w = (Inr y, w') \<longleftrightarrow> r = Inr y \<and> w' = w"
  "\<not> io_fail e w = (Inr y, w')"
  by (auto simp: io_return_def io_lift_def io_fail_def)

lemma io_tree_Ok:
  "io_tree f w = (Inr y, w') \<Longrightarrow>
   \<exists>t. f (w_root w) (w_cwd w) = Inr t \<and> w_root w' = t \<and> w_cwd w' = w_cwd w \<and> w_trace w' = w_trace w @ [t]"
  using io_tree_spec [of f w "Inr y" w'] by auto

end
