(* ===== verification/Update.thy ===== *)
theory Update
  imports Filesystem
begin

text \<open>
  @runtime/update.rs@: staging, activation, rollback and commitment of agent binaries.
  Parameters of the definitions: the HTTP response, SHA-256, hexadecimal decoding, fresh
  UUIDs, the time, the JSON form of the activation state and the answers of @systemctl@.
\<close>

datatype activation_outcome = NothingPending | Activated | RolledBack

record activation_state =
  as_previous :: string
  as_activated :: string
  as_activated_at :: string

record update_result =
  ur_message :: string
  ur_staged :: string
  ur_restart_required :: bool

text \<open>The response of the artifact request: final scheme, announced length and body chunks.\<close>

record http_response =
  hr_scheme :: string
  hr_content_length :: "nat option"
  hr_chunks :: "string res list"

definition staging :: "path \<Rightarrow> path" where
  "staging exe =
     path_join (case path_parent exe of Some p \<Rightarrow> p | None \<Rightarrow> components ''.'') (components ''updates'')"

definition activation_state_path :: "path \<Rightarrow> path" where
  "activation_state_path exe = path_join (staging exe) (components ''activation-state.json'')"

definition pending_marker :: "path \<Rightarrow> path" where
  "pending_marker exe = path_join (staging exe) (components ''pending-artifact'')"

text \<open>Empty strings are the empty path.\<close>

definition path_buf :: "string \<Rightarrow> path" where "path_buf s = components s"

definition pending_update_at :: "path \<Rightarrow> path option io" where
  "pending_update_at exe w =
     (if \<not> fs_exists (pending_marker exe) w then (Ok None, w)
      else io_bind (fs_read_to_string (pending_marker exe)) (\<lambda>v0.
        let v = trim v0 in
        if v = [] then io_return None
        else io_bind (fs_canonicalize (staging exe)) (\<lambda>dir.
             io_bind (fs_canonicalize (path_buf v)) (\<lambda>pending w1.
               if path_parent pending \<noteq> Some dir \<or> \<not> fs_is_file pending w1
               then (Err (Bail ''pending agent update is outside the update staging directory''), w1)
               else (Ok (Some pending), w1)))) w)"

definition replace_binary :: "path \<Rightarrow> path \<Rightarrow> unit io" where
  "replace_binary source target =
     io_bind (fs_set_permissions source) (\<lambda>_. fs_rename source target)"

definition rollback_at :: "(string \<Rightarrow> activation_state res) \<Rightarrow> string \<Rightarrow> path \<Rightarrow> activation_outcome io" where
  "rollback_at dec stamp exe w =
     (if \<not> fs_exists (activation_state_path exe) w then (Ok NothingPending, w)
      else io_bind (fs_read (activation_state_path exe)) (\<lambda>bytes.
           io_bind (io_lift (dec bytes)) (\<lambda>state w1.
             let previous = path_buf (as_previous state);
                 failed = path_join (staging exe) (components (''failed-agent-'' @ stamp)) in
             if \<not> fs_exists previous w1
             then (Err (Bail ''previous agent binary is unavailable for rollback''), w1)
             else io_bind (io_ctx ''preserve failed agent binary'' (fs_rename exe failed)) (\<lambda>_.
                  io_bind (io_catch (fs_rename previous exe) (\<lambda>e.
                     io_bind (io_ignore (fs_rename failed exe)) (\<lambda>_.
                       io_fail (Ctx ''restore previous agent binary'' e)))) (\<lambda>_.
                  io_bind (fs_remove_file (activation_state_path exe)) (\<lambda>_.
                    io_return RolledBack))) w1)) w)"

definition activate_at ::
  "(activation_state \<Rightarrow> string) \<Rightarrow> (string \<Rightarrow> activation_state res) \<Rightarrow> string \<Rightarrow> string \<Rightarrow> path \<Rightarrow>
   activation_outcome io" where
  "activate_at enc dec now stamp exe w =
     (let dir = staging exe; marker = pending_marker exe in
      if \<not> fs_exists marker w then
        (if fs_exists (activation_state_path exe) w then rollback_at dec stamp exe w
         else (Ok NothingPending, w))
      else io_bind (pending_update_at exe) (\<lambda>found.
           io_bind (io_lift (case found of None \<Rightarrow> Err (Bail ''pending agent update marker is empty'')
                             | Some p \<Rightarrow> Ok p)) (\<lambda>pending.
           let previous = path_join dir (components ''previous-agent'');
               previous_temp = path_join dir (components ''previous-agent.tmp'') in
           io_bind (io_ctx ''preserve previous agent binary'' (fs_copy exe previous_temp)) (\<lambda>_.
           io_bind (io_ctx ''commit previous agent binary'' (fs_rename previous_temp previous)) (\<lambda>_.
           let state = \<lparr> as_previous = path_string previous, as_activated = path_string exe,
                         as_activated_at = now \<rparr> in
           io_bind (fs_write (activation_state_path exe) (enc state)) (\<lambda>_.
           io_bind (io_ctx ''activate staged agent binary'' (replace_binary pending exe)) (\<lambda>_.
           io_bind (fs_remove_file marker) (\<lambda>_. io_return Activated))))))) w)"

definition commit_healthy_at :: "(string \<Rightarrow> activation_state res) \<Rightarrow> path \<Rightarrow> unit io" where
  "commit_healthy_at dec exe w =
     (if \<not> fs_exists (activation_state_path exe) w then (Ok (), w)
      else io_bind (fs_read (activation_state_path exe)) (\<lambda>bytes.
           io_bind (io_lift (dec bytes)) (\<lambda>state.
           io_bind (io_ignore (fs_remove_file (path_buf (as_previous state)))) (\<lambda>_.
             fs_remove_file (activation_state_path exe)))) w)"

subsection \<open>Staging\<close>

definition max_artifact :: nat where "max_artifact = 512 * 1024 * 1024"

text \<open>The download loop: the size so far and the bytes hashed so far.\<close>

fun stage_chunks :: "path \<Rightarrow> nat \<Rightarrow> string \<Rightarrow> string res list \<Rightarrow> (nat \<times> string) io" where
  "stage_chunks target acc hashed [] = io_return (acc, hashed)"
| "stage_chunks target acc hashed (c # cs) =
     io_bind (io_lift c) (\<lambda>chunk.
       let size' = acc + length chunk in
       if size' > max_artifact then
         io_bind (io_ignore (fs_remove_file target)) (\<lambda>_.
           io_fail (Bail ''update artifact exceeds 512 MiB limit''))
       else io_bind (fs_append target chunk) (\<lambda>_. stage_chunks target size' (hashed @ chunk) cs))"

definition stage ::
  "(string \<Rightarrow> string) \<Rightarrow> (string \<Rightarrow> string res) \<Rightarrow> (string \<Rightarrow> http_response res) \<Rightarrow> string \<Rightarrow> string \<Rightarrow>
   path \<Rightarrow> string \<Rightarrow> string \<Rightarrow> update_result io" where
  "stage sha256 hex_decode fetch uuid1 uuid2 exe url sha =
     (if \<not> starts_with ''https://'' url then io_fail (Bail ''update artifact URL must use HTTPS'')
      else io_bind (io_lift (res_context ''SHA-256 must be hexadecimal'' (hex_decode (trim sha)))) (\<lambda>expected.
      if length expected \<noteq> 32 then io_fail (Bail ''SHA-256 checksum is required'')
      else io_bind (io_lift (fetch url)) (\<lambda>response.
      if hr_scheme response \<noteq> ''https'' then io_fail (Bail ''update redirects must remain on HTTPS'')
      else if (case hr_content_length response of Some v \<Rightarrow> v > max_artifact | None \<Rightarrow> False)
      then io_fail (Bail ''update artifact exceeds 512 MiB limit'')
      else
        let dir = staging exe; marker = pending_marker exe;
            target = path_join dir (components (''agapornis-agent-'' @ uuid1 @ ''.pending''));
            marker_temp = path_join dir (components (''.pending-artifact-'' @ uuid2 @ ''.tmp'')) in
        io_bind (fs_create_dir_all dir) (\<lambda>_.
        io_bind (fs_set_permissions dir) (\<lambda>_.
        io_bind (pending_update_at exe) (\<lambda>found.
        if found \<noteq> None then io_fail (Bail ''a verified agent update is already staged'')
        else
        io_bind (\<lambda>w. if fs_exists marker w
                     then io_ctx ''remove empty pending agent update marker'' (fs_remove_file marker) w
                     else (Ok (), w)) (\<lambda>_.
        io_bind (fs_create_new target) (\<lambda>_.
        io_bind (stage_chunks target 0 [] (hr_chunks response)) (\<lambda>(acc, hashed).
        if acc = 0 then
          io_bind (io_ignore (fs_remove_file target)) (\<lambda>_. io_fail (Bail ''update artifact is empty''))
        else if sha256 hashed \<noteq> expected then
          io_bind (io_ignore (fs_remove_file target)) (\<lambda>_.
            io_fail (Bail ''update artifact checksum mismatch''))
        else
        io_bind (fs_set_permissions target) (\<lambda>_.
        io_bind (fs_create_new marker_temp) (\<lambda>_.
        io_bind (fs_append marker_temp (path_string target)) (\<lambda>_.
        io_bind (io_catch (fs_rename marker_temp marker) (\<lambda>e.
            io_bind (io_ignore (fs_remove_file marker_temp)) (\<lambda>_.
            io_bind (io_ignore (fs_remove_file target)) (\<lambda>_.
              io_fail (Ctx ''commit pending agent update marker'' e))))) (\<lambda>_.
        io_return \<lparr> ur_message = ''Update staged. Restart the agent service to activate it.'',
                    ur_staged = path_string target, ur_restart_required = True \<rparr>)))))))))))))"

subsection \<open>Restart and status\<close>

definition service_char :: "char \<Rightarrow> bool" where
  "service_char c \<longleftrightarrow> is_ascii_alnum c \<or> c \<in> set ''@_.:-''"

text \<open>The answer of @systemctl show@: whether it succeeded, and its standard output.\<close>

definition validate_systemd_service ::
  "environment \<Rightarrow> (string \<Rightarrow> (bool \<times> string) res) \<Rightarrow> string res" where
  "validate_systemd_service env systemctl =
     (let service = (case env ''AGAPORNIS_UPDATE_SYSTEMD_SERVICE'' of Some s \<Rightarrow> s
                     | None \<Rightarrow> ''agapornis-agent.service'') in
      if service = [] \<or> length service > 255 \<or> \<not> list_all service_char service
      then Err (Bail ''configured agent systemd service name is invalid'')
      else res_bind (res_context ''systemctl is unavailable for safe update restart'' (systemctl service))
        (\<lambda>(success, out).
          if \<not> success \<or> trim (from_utf8_lossy out) \<noteq> ''loaded''
          then Err (Bail ''agent systemd service is not loaded; restart the staged update manually'')
          else Ok service))"

definition restart_pending ::
  "environment \<Rightarrow> (string \<Rightarrow> (bool \<times> string) res) \<Rightarrow> path \<Rightarrow> (update_result \<times> string) io" where
  "restart_pending env systemctl exe =
     io_bind (pending_update_at exe) (\<lambda>found.
     io_bind (io_lift (case found of
         None \<Rightarrow> Err (Bail ''no verified agent update is staged for restart'') | Some p \<Rightarrow> Ok p)) (\<lambda>pending.
     io_bind (io_lift (validate_systemd_service env systemctl)) (\<lambda>service.
       io_return (\<lparr> ur_message = ''Agent restart scheduled. The staged update will be activated safely.'',
                    ur_staged = path_string pending, ur_restart_required = True \<rparr>, service))))"

definition update_pending_status :: "path \<Rightarrow> world \<Rightarrow> string \<times> bool" where
  "update_pending_status exe w =
     (let pending = trim (case fst (fs_read_to_string (pending_marker exe) w) of Inr s \<Rightarrow> s | Inl _ \<Rightarrow> [])
      in (pending, pending \<noteq> []))"


subsection \<open>The staging directory as a setting\<close>

text \<open>
  The executable @nm@ lies in the real directory @d@ next to the real directory
  @updates@ (no symbolic links on the way).
\<close>

abbreviation updates_dir :: "string list \<Rightarrow> string list" where
  "updates_dir d \<equiv> d @ [''updates'']"

abbreviation in_updates :: "string list \<Rightarrow> string \<Rightarrow> string list" where
  "in_updates d x \<equiv> d @ [''updates'', x]"

definition real_dirs :: "node \<Rightarrow> string list \<Rightarrow> bool" where
  "real_dirs t d \<longleftrightarrow> (\<forall>q. prefix q (updates_dir d) \<longrightarrow> is_dir_at t q)"

definition child :: "node \<Rightarrow> string list \<Rightarrow> string \<Rightarrow> node option" where
  "child t d x = lookup t (in_updates d x)"

definition not_link :: "node option \<Rightarrow> bool" where
  "not_link v \<longleftrightarrow> (\<forall>l. v \<noteq> Some (Symlink l))"

lemma take_snoc_prefix: "i < length (xs @ [x]) \<Longrightarrow> prefix (take i (xs @ [x])) xs"
  by (simp add: take_is_prefix)

lemma real_dirs_parent:
  assumes "real_dirs t d"
  shows "real_parent t (in_updates d x)" "real_parent t (d @ [x])"
proof -
  have e: "in_updates d x = updates_dir d @ [x]" by simp
  note dirs = assms [unfolded real_dirs_def, rule_format]
  show "real_parent t (in_updates d x)"
    unfolding real_parent_def e
    by (intro allI impI, rule dirs, erule take_snoc_prefix)
  show "real_parent t (d @ [x])"
    unfolding real_parent_def
    by (intro allI impI, rule dirs, rule prefix_order.trans, erule take_snoc_prefix) simp
qed

lemma real_dirs_updates: "real_dirs t d \<Longrightarrow> is_dir_at t (updates_dir d)"
  unfolding real_dirs_def by blast

lemma real_dirs_put:
  assumes "real_dirs t d" "p = in_updates d x \<or> p = d @ [nm] \<and> nm \<noteq> ''updates''"
  shows "real_dirs (put p v t) d"
  unfolding real_dirs_def
proof (intro allI impI)
  fix q assume q: "prefix q (updates_dir d)"
  then have dq: "is_dir_at t q" using assms(1) unfolding real_dirs_def by blast
  show "is_dir_at (put p v t) q"
  proof (cases "prefix q p")
    case True
    moreover have "q \<noteq> p"
      using q assms(2) by (auto simp: prefix_def)
    ultimately show ?thesis using dq by (intro lookup_put_above)
  next
    case False
    have "\<not> prefix p q"
    proof
      assume pq: "prefix p q"
      then have "prefix p (updates_dir d)" using q prefix_order.trans by blast
      then show False using assms(2) by (auto simp: prefix_def)
    qed
    then have "lookup (put p v t) q = lookup t q" using False by (intro lookup_put_other)
    then show ?thesis using dq by (simp add: is_dir_at_def)
  qed
qed

lemma child_put:
  assumes "real_dirs t d"
  shows "child (put (in_updates d x) v t) d y = (if y = x then v else child t d y)"
    "lookup (put (in_updates d x) v t) (d @ [nm]) =
       (if nm = ''updates'' then lookup (put (in_updates d x) v t) (d @ [nm]) else lookup t (d @ [nm]))"
    "nm \<noteq> ''updates'' \<Longrightarrow> child (put (d @ [nm]) v t) d y = child t d y"
    "lookup (put (d @ [nm]) v t) (d @ [nm]) = v"
  using real_parent_ok [OF real_dirs_parent(1) [OF assms, of x]]
    real_parent_ok [OF real_dirs_parent(2) [OF assms, of nm]]
  by (auto simp: child_def lookup_put_same intro!: lookup_put_other)

lemma abs_path_join:
  "list_all plain_name xs \<Longrightarrow> s \<noteq> [] \<Longrightarrow> components s = [Normal s] \<Longrightarrow>
   path_join (abs_path xs) (components s) = abs_path (xs @ [s])"
  by (simp add: abs_path_def path_join_def is_absolute_def)

lemma staging_abs: "staging (abs_path (d @ [nm])) = abs_path (updates_dir d)"
proof -
  have "path_parent (abs_path (d @ [nm])) = Some (abs_path d)"
    by (simp add: path_parent_def abs_path_def butlast_append)
  moreover have "components ''updates'' = [Normal ''updates'']" by (rule components_plain) auto
  ultimately show ?thesis
    by (simp add: staging_def path_join_def is_absolute_def abs_path_def)
qed

lemma staging_child:
  "components s = [Normal s] \<Longrightarrow>
   path_join (staging (abs_path (d @ [nm]))) (components s) = abs_path (in_updates d s)"
  by (simp add: staging_abs path_join_def is_absolute_def) (simp add: abs_path_def)

lemma update_paths:
  "activation_state_path (abs_path (d @ [nm])) = abs_path (in_updates d ''activation-state.json'')"
  "pending_marker (abs_path (d @ [nm])) = abs_path (in_updates d ''pending-artifact'')"
  "path_join (staging (abs_path (d @ [nm]))) (components ''previous-agent'') =
     abs_path (in_updates d ''previous-agent'')"
  "path_join (staging (abs_path (d @ [nm]))) (components ''previous-agent.tmp'') =
     abs_path (in_updates d ''previous-agent.tmp'')"
  unfolding activation_state_path_def pending_marker_def
  by (rule staging_child, rule components_plain, simp_all)+

lemma resolve_child:
  assumes "real_dirs t d" "follow \<Longrightarrow> not_link (child t d x)"
  shows "resolve t cwd (abs_path (in_updates d x)) follow = Ok (in_updates d x)"
  unfolding resolve_def
  using resolve_abs [OF real_dirs_parent(1) [OF assms(1), of x], of follow max_links cwd] assms(2)
  by (auto simp: abs_path_def child_def not_link_def)

lemma resolve_exe:
  assumes "real_dirs t d" "follow \<Longrightarrow> not_link (lookup t (d @ [nm]))"
  shows "resolve t cwd (abs_path (d @ [nm])) follow = Ok (d @ [nm])"
  unfolding resolve_def
  using resolve_abs [OF real_dirs_parent(2) [OF assms(1), of nm], of follow max_links cwd] assms(2)
  by (auto simp: abs_path_def not_link_def)

lemma not_link_simps [simp]: "not_link None" "not_link (Some (RegFile c))" "not_link (Some (Dir es))"
  by (simp_all add: not_link_def)

lemma exists_child:
  "real_dirs (w_root w) d \<Longrightarrow> not_link (child (w_root w) d x) \<Longrightarrow>
   fs_exists (abs_path (in_updates d x)) w \<longleftrightarrow> child (w_root w) d x \<noteq> None"
  using resolve_child [of "w_root w" d True x "w_cwd w"]
  by (auto simp: fs_exists_def existing_def child_def split: option.splits)

lemma read_child:
  "real_dirs t d \<Longrightarrow> child t d x = Some (RegFile c) \<Longrightarrow> read_tree (abs_path (in_updates d x)) t cwd = Ok c"
  using resolve_child [of t d True x cwd] by (simp add: read_tree_def existing_def child_def)

lemma read_exe:
  "real_dirs t d \<Longrightarrow> lookup t (d @ [nm]) = Some (RegFile c) \<Longrightarrow> read_tree (abs_path (d @ [nm])) t cwd = Ok c"
  using resolve_exe [of t d True nm cwd] by (simp add: read_tree_def existing_def)

lemma write_place_child:
  "real_dirs t d \<Longrightarrow> not_link (child t d x) \<Longrightarrow> write_place (abs_path (in_updates d x)) t cwd = Ok q \<Longrightarrow>
   q = in_updates d x"
  using resolve_child [of t d True x cwd] by (auto simp: write_place_def split: option.splits node.splits)

lemma rename_child:
  assumes "real_dirs t d" "child t d a = Some (RegFile c)" "a \<noteq> b" "not_link (child t d b)"
    "rename_tree (abs_path (in_updates d a)) (abs_path (in_updates d b)) t cwd = Ok t'"
  shows "t' = put (in_updates d b) (Some (RegFile c)) (put (in_updates d a) None t)"
  using assms resolve_child [of t d False a cwd] resolve_child [of t d False b cwd]
  by (auto simp: rename_tree_def existing_def child_def Let_def prefix_def split: option.splits node.splits if_splits)

lemma rename_to_exe:
  assumes "real_dirs t d" "child t d a = Some (RegFile c)" "nm \<noteq> ''updates''"
    "lookup t (d @ [nm]) = Some (RegFile e) \<or> lookup t (d @ [nm]) = None"
    "rename_tree (abs_path (in_updates d a)) (abs_path (d @ [nm])) t cwd = Ok t'"
  shows "t' = put (d @ [nm]) (Some (RegFile c)) (put (in_updates d a) None t)"
  using assms resolve_child [of t d False a cwd] resolve_exe [of t d False nm cwd]
  by (auto simp: rename_tree_def existing_def child_def Let_def prefix_def split: option.splits node.splits if_splits)

lemma rename_from_exe:
  assumes "real_dirs t d" "lookup t (d @ [nm]) = Some (RegFile c)" "nm \<noteq> ''updates''"
    "rename_tree (abs_path (d @ [nm])) (abs_path (in_updates d b)) t cwd = Ok t'"
  shows "t' = put (in_updates d b) (Some (RegFile c)) (put (d @ [nm]) None t)"
  using assms resolve_child [of t d False b cwd] resolve_exe [of t d False nm cwd]
  by (auto simp: rename_tree_def existing_def child_def Let_def prefix_def split: option.splits node.splits if_splits)

lemma remove_child:
  assumes "real_dirs t d" "child t d a = Some (RegFile c)"
  shows "existing t cwd (abs_path (in_updates d a)) False = Ok (in_updates d a, RegFile c)"
  using assms resolve_child [of t d False a cwd] by (simp add: existing_def child_def)


subsection \<open>Activation of a staged binary\<close>

text \<open>The names the agent uses inside the staging directory.\<close>

abbreviation "prev_name \<equiv> ''previous-agent''"
abbreviation "temp_name \<equiv> ''previous-agent.tmp''"
abbreviation "state_name \<equiv> ''activation-state.json''"
abbreviation "marker_name \<equiv> ''pending-artifact''"

record update_setting =
  us_dir :: "string list"
  us_name :: string
  us_pending :: string
  us_old :: string
  us_new :: string

definition setting_ok :: "update_setting \<Rightarrow> bool" where
  "setting_ok u \<longleftrightarrow> list_all plain_name (us_dir u) \<and> plain_name (us_name u) \<and> plain_name (us_pending u) \<and>
     us_name u \<noteq> ''updates'' \<and> us_pending u \<notin> {prev_name, temp_name, state_name, marker_name}"

abbreviation exe_place :: "update_setting \<Rightarrow> string list" where
  "exe_place u \<equiv> us_dir u @ [us_name u]"

definition staged :: "update_setting \<Rightarrow> node \<Rightarrow> bool" where
  "staged u t \<longleftrightarrow> real_dirs t (us_dir u) \<and> lookup t (exe_place u) = Some (RegFile (us_old u)) \<and>
     child t (us_dir u) (us_pending u) = Some (RegFile (us_new u)) \<and>
     (\<exists>m. child t (us_dir u) marker_name = Some (RegFile m) \<and> valid_utf8 m \<and>
        trim m = path_string (abs_path (in_updates (us_dir u) (us_pending u)))) \<and>
     not_link (child t (us_dir u) prev_name) \<and> not_link (child t (us_dir u) temp_name) \<and>
     not_link (child t (us_dir u) state_name)"

definition state_of :: "update_setting \<Rightarrow> string \<Rightarrow> activation_state" where
  "state_of u now =
     \<lparr> as_previous = path_string (abs_path (in_updates (us_dir u) prev_name)),
       as_activated = path_string (abs_path (exe_place u)), as_activated_at = now \<rparr>"

text \<open>Before activation the old binary is in place; after it the new one, with the old one
  and the state file ready for a rollback.\<close>

definition rollback_ready :: "(activation_state \<Rightarrow> string) \<Rightarrow> string \<Rightarrow> update_setting \<Rightarrow> node \<Rightarrow> bool" where
  "rollback_ready enc now u t \<longleftrightarrow> real_dirs t (us_dir u) \<and>
     lookup t (exe_place u) = Some (RegFile (us_new u)) \<and>
     child t (us_dir u) prev_name = Some (RegFile (us_old u)) \<and>
     child t (us_dir u) state_name = Some (RegFile (enc (state_of u now)))"

definition safe_tree :: "(activation_state \<Rightarrow> string) \<Rightarrow> string \<Rightarrow> update_setting \<Rightarrow> node \<Rightarrow> bool" where
  "safe_tree enc now u t \<longleftrightarrow>
     lookup t (exe_place u) = Some (RegFile (us_old u)) \<or> rollback_ready enc now u t"

lemma staged_safe: "staged u t \<Longrightarrow> safe_tree enc now u t"
  by (simp add: staged_def safe_tree_def)

lemma staged_put:
  assumes "staged u t" "setting_ok u" "x \<in> {prev_name, temp_name, state_name}" "not_link v"
  shows "staged u (put (in_updates (us_dir u) x) v t)"
proof -
  let ?t = "put (in_updates (us_dir u) x) v t"
  have rd: "real_dirs t (us_dir u)" using assms(1) by (simp add: staged_def)
  have rd': "real_dirs ?t (us_dir u)" by (rule real_dirs_put [OF rd]) simp
  have c: "child ?t (us_dir u) y = (if y = x then v else child t (us_dir u) y)" for y
    by (rule child_put(1) [OF rd])
  have e: "lookup ?t (exe_place u) = lookup t (exe_place u)"
    using child_put(2) [OF rd, of x v "us_name u"] assms(2) by (simp add: setting_ok_def)
  have "marker_name \<noteq> x" "us_pending u \<noteq> x" using assms(2,3) by (auto simp: setting_ok_def)
  then show ?thesis
    using assms(1,4) unfolding staged_def c e by (simp add: rd')
qed

lemma pending_staged:
  assumes "staged u (w_root w)" "setting_ok u"
    and "pending_update_at (abs_path (exe_place u)) w = (r, w')"
  shows "w_root w' = w_root w \<and> w_cwd w' = w_cwd w \<and> w_trace w' = w_trace w \<and>
    (r = Ok (Some (abs_path (in_updates (us_dir u) (us_pending u)))) \<or> (\<exists>e. r = Inl e))"
proof -
  let ?d = "us_dir u" and ?pn = "us_pending u" and ?t = "w_root w"
  obtain m where m: "child ?t ?d marker_name = Some (RegFile m)" "valid_utf8 m"
    "trim m = path_string (abs_path (in_updates ?d ?pn))" and rd: "real_dirs ?t ?d"
    and pn: "child ?t ?d ?pn = Some (RegFile (us_new u))"
    using assms(1) by (auto simp: staged_def)
  have ex: "fs_exists (pending_marker (abs_path (exe_place u))) w"
    using exists_child [OF rd, of marker_name] m(1) by (simp add: update_paths)
  have ne: "trim m \<noteq> []" by (simp add: m(3) path_string_def abs_path_def join_with_Cons)
  have plain: "list_all plain_name (in_updates ?d ?pn)"
    using assms(2) by (simp add: setting_ok_def plain_name_def)
  then have pb: "path_buf (trim m) = abs_path (in_updates ?d ?pn)"
    by (simp only: path_buf_def m(3) components_path_string)
  obtain r1 w1 where r1: "fs_read_to_string (pending_marker (abs_path (exe_place u))) w = (r1, w1)"
    by (metis surj_pair)
  have rt: "read_tree (pending_marker (abs_path (exe_place u))) ?t (w_cwd w) = Ok m"
    using read_child [OF rd m(1)] by (simp add: update_paths)
  have s1: "w_root w1 = ?t \<and> w_cwd w1 = w_cwd w \<and> w_trace w1 = w_trace w \<and> (r1 = Ok m \<or> (\<exists>e. r1 = Inl e))"
    using io_query_spec [OF r1 [unfolded fs_read_to_string_def]] rt m(2) by auto
  obtain r2 w2 where r2: "fs_canonicalize (staging (abs_path (exe_place u))) w1 = (r2, w2)" by (metis surj_pair)
  have "resolve ?t c (abs_path (updates_dir ?d)) True = Ok (updates_dir ?d)" for c
  proof -
    have "is_dir_at ?t (updates_dir ?d)" using rd by (rule real_dirs_updates)
    then show ?thesis
      unfolding resolve_def using resolve_abs [OF real_dirs_parent(2) [OF rd, of "''updates''"], of True]
      by (auto simp: abs_path_def is_dir_at_def split: option.splits node.splits)
  qed
  moreover have "\<exists>es. lookup ?t (updates_dir ?d) = Some (Dir es)"
    using real_dirs_updates [OF rd] by (auto simp: is_dir_at_def split: option.splits node.splits)
  ultimately have s2: "w_root w2 = ?t \<and> w_cwd w2 = w_cwd w1 \<and> w_trace w2 = w_trace w1 \<and>
      (r2 = Ok (abs_path (updates_dir ?d)) \<or> (\<exists>e. r2 = Inl e))" if "w_root w1 = ?t"
    using io_query_spec [OF r2 [unfolded fs_canonicalize_def]] that
    by (auto simp: staging_abs existing_def)
  obtain r3 w3 where r3: "fs_canonicalize (abs_path (in_updates ?d ?pn)) w2 = (r3, w3)" by (metis surj_pair)
  have s3: "w_root w3 = ?t \<and> w_cwd w3 = w_cwd w2 \<and> w_trace w3 = w_trace w2 \<and>
      (r3 = Ok (abs_path (in_updates ?d ?pn)) \<or> (\<exists>e. r3 = Inl e))" if "w_root w2 = ?t"
    using io_query_spec [OF r3 [unfolded fs_canonicalize_def]] that
      resolve_child [OF rd, of True ?pn] pn by (auto simp: existing_def child_def)
  have isf: "fs_is_file (abs_path (in_updates ?d ?pn)) w3" if "w_root w3 = ?t"
    using resolve_child [OF rd, of True ?pn] pn that by (simp add: fs_is_file_def existing_def child_def)
  have par: "path_parent (abs_path (in_updates ?d ?pn)) = Some (abs_path (updates_dir ?d))"
    by (simp add: path_parent_def abs_path_def butlast_append)
  show ?thesis
    using assms(3) s1 s2 s3 isf ne
    by (auto simp: pending_update_at_def ex io_bind_def r1 r2 r3 pb par Let_def
        split: sum.splits prod.splits if_splits)
qed

lemma write_step:
  assumes "staged u (w_root w)" "setting_ok u" "x \<in> {prev_name, temp_name, state_name}"
    "all_trees (safe_tree enc now u) w"
    "fs_write (abs_path (in_updates (us_dir u) x)) c w = (r, w')"
  shows "staged u (w_root w') \<and> all_trees (safe_tree enc now u) w' \<and>
    (\<forall>y. r = Inr y \<longrightarrow> child (w_root w') (us_dir u) x = Some (RegFile c)) \<and>
    (\<forall>y. y \<noteq> x \<longrightarrow> child (w_root w') (us_dir u) y = child (w_root w) (us_dir u) y)"
proof -
  let ?p = "in_updates (us_dir u) x"
  have rd: "real_dirs (w_root w) (us_dir u)" and nl: "not_link (child (w_root w) (us_dir u) x)"
    using assms(1,3) by (auto simp: staged_def)
  consider "\<exists>e. r = Inl e" "w_root w' = w_root w" "w_trace w' = w_trace w"
    | q b where "write_place (abs_path ?p) (w_root w) (w_cwd w) = Ok q" "r = Ok () \<longrightarrow> b = c"
        "w_root w' = put q (Some (RegFile b)) (put q (Some (RegFile [])) (w_root w))"
        "w_trace w' = w_trace w @ [put q (Some (RegFile [])) (w_root w), w_root w']"
    using fs_write_spec [OF assms(5)] by blast
  then show ?thesis
  proof cases
    case 1
    then show ?thesis using assms(1,4) by (auto simp: all_trees_def)
  next
    case (2 q b)
    have q: "q = ?p" by (rule write_place_child [OF rd nl 2(1)])
    let ?t1 = "put ?p (Some (RegFile [])) (w_root w)"
    have t1: "staged u ?t1" by (rule staged_put [OF assms(1-3)]) simp
    then have t2: "staged u (w_root w')"
      using staged_put [OF t1 assms(2,3), of "Some (RegFile b)"] 2(3) q by simp
    have rd1: "real_dirs ?t1 (us_dir u)" using t1 by (simp add: staged_def)
    have "child (w_root w') (us_dir u) y = (if y = x then Some (RegFile b) else child (w_root w) (us_dir u) y)" for y
      using child_put(1) [OF rd1] child_put(1) [OF rd] 2(3) q by simp
    then show ?thesis
      using t2 t1 2(2,4) q assms(4) by (auto simp: all_trees_def staged_safe)
  qed
qed

lemma copy_step:
  assumes "staged u (w_root w)" "setting_ok u" "all_trees (safe_tree enc now u) w"
    "fs_copy (abs_path (exe_place u)) (abs_path (in_updates (us_dir u) temp_name)) w = (r, w')"
  shows "staged u (w_root w') \<and> all_trees (safe_tree enc now u) w' \<and>
    (\<forall>y. r = Inr y \<longrightarrow> child (w_root w') (us_dir u) temp_name = Some (RegFile (us_old u)))"
proof -
  let ?e = "abs_path (exe_place u)" and ?b = "abs_path (in_updates (us_dir u) temp_name)"
  have rd: "real_dirs (w_root w) (us_dir u)" and ex: "lookup (w_root w) (exe_place u) = Some (RegFile (us_old u))"
    and nl: "not_link (child (w_root w) (us_dir u) temp_name)"
    using assms(1) by (auto simp: staged_def)
  obtain r1 w1 where r1: "fs_read ?e w = (r1, w1)" by (metis surj_pair)
  have s1: "w_root w1 = w_root w \<and> w_cwd w1 = w_cwd w \<and> w_trace w1 = w_trace w \<and>
      (r1 = Ok (us_old u) \<or> (\<exists>k. r1 = Inl k))"
    using io_query_spec [OF r1 [unfolded fs_read_def]] read_exe [OF rd ex] by auto
  then have a1: "all_trees (safe_tree enc now u) w1" "staged u (w_root w1)"
    using assms(1,3) by (auto simp: all_trees_def)
  show ?thesis
  proof (cases r1)
    case (Inl k)
    then show ?thesis using assms(4) a1 by (auto simp: fs_copy_def io_bind_def r1)
  next
    case (Inr c)
    then have c: "c = us_old u" using s1 by auto
    have ne: "write_place ?b (w_root w1) (w_cwd w1) \<noteq> resolve (w_root w1) (w_cwd w1) ?e True"
      using write_place_child [of "w_root w1" "us_dir u" temp_name "w_cwd w1"] s1 rd nl
        resolve_exe [of "w_root w1" "us_dir u" True "us_name u" "w_cwd w1"] ex by auto
    have "fs_write ?b (us_old u) w1 = (r, w')"
      using assms(4) ne Inr c by (simp add: fs_copy_def io_bind_def r1)
    then show ?thesis using write_step [OF a1(2) assms(2) _ a1(1)] by blast
  qed
qed


abbreviation safe_world :: "(activation_state \<Rightarrow> string) \<Rightarrow> string \<Rightarrow> update_setting \<Rightarrow> world \<Rightarrow> bool" where
  "safe_world enc now u \<equiv> all_trees (safe_tree enc now u)"

lemma staged_dirs: "staged u t \<Longrightarrow> real_dirs t (us_dir u)" by (simp add: staged_def)

lemma pending_triple:
  "setting_ok u \<Longrightarrow> triple (safe_world enc now u) (\<lambda>w. staged u (w_root w))
     (pending_update_at (abs_path (exe_place u)))
     (\<lambda>x w. x = Some (abs_path (in_updates (us_dir u) (us_pending u))) \<and> staged u (w_root w))"
  unfolding triple_def
proof (intro allI impI)
  fix w r w'
  assume a: "setting_ok u" "safe_world enc now u w" "staged u (w_root w)"
    "pending_update_at (abs_path (exe_place u)) w = (r, w')"
  show "safe_world enc now u w' \<and>
    (\<forall>x. r = Inr x \<longrightarrow> x = Some (abs_path (in_updates (us_dir u) (us_pending u))) \<and> staged u (w_root w'))"
    using pending_staged [OF a(3,1,4)] a(2,3) by (auto simp: all_trees_def)
qed

lemma copy_triple:
  "setting_ok u \<Longrightarrow> triple (safe_world enc now u) (\<lambda>w. staged u (w_root w))
     (fs_copy (abs_path (exe_place u)) (abs_path (in_updates (us_dir u) temp_name)))
     (\<lambda>_ w. staged u (w_root w) \<and> child (w_root w) (us_dir u) temp_name = Some (RegFile (us_old u)))"
  unfolding triple_def using copy_step by blast

lemma keep_previous_triple:
  assumes "setting_ok u"
  shows "triple (safe_world enc now u)
     (\<lambda>w. staged u (w_root w) \<and> child (w_root w) (us_dir u) temp_name = Some (RegFile (us_old u)))
     (fs_rename (abs_path (in_updates (us_dir u) temp_name)) (abs_path (in_updates (us_dir u) prev_name)))
     (\<lambda>_ w. staged u (w_root w) \<and> child (w_root w) (us_dir u) prev_name = Some (RegFile (us_old u)))"
  unfolding fs_rename_def
proof (rule triple_tree)
  fix w t
  assume A: "safe_world enc now u w"
    and P: "staged u (w_root w) \<and> child (w_root w) (us_dir u) temp_name = Some (RegFile (us_old u))"
    and r: "rename_tree (abs_path (in_updates (us_dir u) temp_name)) (abs_path (in_updates (us_dir u) prev_name))
      (w_root w) (w_cwd w) = Inr t"
  let ?t1 = "put (in_updates (us_dir u) temp_name) None (w_root w)"
  have t: "t = put (in_updates (us_dir u) prev_name) (Some (RegFile (us_old u))) ?t1"
    by (rule rename_child [OF staged_dirs _ _ _ r]) (use P in \<open>auto simp: staged_def\<close>)
  have s1: "staged u ?t1" by (rule staged_put) (use P assms in auto)
  have s2: "staged u t" unfolding t by (rule staged_put [OF s1 assms]) auto
  have "child t (us_dir u) prev_name = Some (RegFile (us_old u))"
    unfolding t using child_put(1) [OF staged_dirs [OF s1]] by simp
  then show "safe_world enc now u (set_root t w) \<and> (staged u (w_root (set_root t w)) \<and>
      child (w_root (set_root t w)) (us_dir u) prev_name = Some (RegFile (us_old u)))"
    using s2 A staged_safe [OF s2] by simp
qed (auto intro: all_trees_cong)

lemma state_triple:
  assumes "setting_ok u"
  shows "triple (safe_world enc now u)
     (\<lambda>w. staged u (w_root w) \<and> child (w_root w) (us_dir u) prev_name = Some (RegFile (us_old u)))
     (fs_write (abs_path (in_updates (us_dir u) state_name)) c)
     (\<lambda>_ w. staged u (w_root w) \<and> child (w_root w) (us_dir u) prev_name = Some (RegFile (us_old u)) \<and>
        child (w_root w) (us_dir u) state_name = Some (RegFile c))"
  unfolding triple_def
proof (intro allI impI)
  fix w r w'
  assume a: "safe_world enc now u w"
    "staged u (w_root w) \<and> child (w_root w) (us_dir u) prev_name = Some (RegFile (us_old u))"
    "fs_write (abs_path (in_updates (us_dir u) state_name)) c w = (r, w')"
  have "prev_name \<noteq> state_name" by simp
  with a write_step [of u w state_name enc now c r w'] assms
  show "safe_world enc now u w' \<and> (\<forall>x. r = Inr x \<longrightarrow> staged u (w_root w') \<and>
      child (w_root w') (us_dir u) prev_name = Some (RegFile (us_old u)) \<and>
      child (w_root w') (us_dir u) state_name = Some (RegFile c))"
    by (auto simp del: unit.exhaust)
qed

lemma replace_triple:
  assumes "setting_ok u"
  shows "triple (safe_world enc now u)
     (\<lambda>w. staged u (w_root w) \<and> child (w_root w) (us_dir u) prev_name = Some (RegFile (us_old u)) \<and>
        child (w_root w) (us_dir u) state_name = Some (RegFile (enc (state_of u now))))
     (replace_binary (abs_path (in_updates (us_dir u) (us_pending u))) (abs_path (exe_place u)))
     (\<lambda>_ w. rollback_ready enc now u (w_root w) \<and> (\<exists>m. child (w_root w) (us_dir u) marker_name = Some (RegFile m)))"
  (is "triple ?A ?P _ ?Q")
proof -
  let ?d = "us_dir u"
  have p: "triple ?A ?P (fs_set_permissions (abs_path (in_updates ?d (us_pending u)))) (\<lambda>_. ?P)"
    unfolding fs_set_permissions_def by (rule triple_query) (auto intro: all_trees_cong)
  have q: "triple ?A ?P (fs_rename (abs_path (in_updates ?d (us_pending u))) (abs_path (exe_place u))) ?Q"
    unfolding fs_rename_def
  proof (rule triple_tree)
    fix w t
    assume A: "?A w" and P: "?P w"
      and r: "rename_tree (abs_path (in_updates ?d (us_pending u))) (abs_path (exe_place u)) (w_root w) (w_cwd w) = Inr t"
    have nm: "us_name u \<noteq> ''updates''" using assms by (simp add: setting_ok_def)
    have rd: "real_dirs (w_root w) ?d" using P by (simp add: staged_def)
    let ?t1 = "put (in_updates ?d (us_pending u)) None (w_root w)"
    have t: "t = put (exe_place u) (Some (RegFile (us_new u))) ?t1"
      by (rule rename_to_exe [OF rd _ nm _ r]) (use P in \<open>auto simp: staged_def\<close>)
    have rd1: "real_dirs ?t1 ?d" by (rule real_dirs_put [OF rd]) simp
    have rd2: "real_dirs t ?d" unfolding t by (rule real_dirs_put [OF rd1, where nm = "us_name u"]) (simp add: nm)
    have c: "child t ?d y = (if y = us_pending u then None else child (w_root w) ?d y)" for y
      unfolding t child_put(3) [OF rd1 nm] child_put(1) [OF rd] ..
    have e: "lookup t (exe_place u) = Some (RegFile (us_new u))"
      unfolding t by (rule child_put(4) [OF rd1])
    have n: "us_pending u \<notin> {prev_name, temp_name, state_name, marker_name}"
      using assms by (simp add: setting_ok_def)
    have "rollback_ready enc now u t"
      using P n by (auto simp: rollback_ready_def rd2 e c)
    moreover have "\<exists>m. child t ?d marker_name = Some (RegFile m)"
      using P n by (auto simp: c staged_def)
    ultimately show "?A (set_root t w) \<and> ?Q () (set_root t w)"
      using A by (simp add: safe_tree_def)
  qed (auto intro: all_trees_cong)
  show ?thesis unfolding replace_binary_def by (rule triple_bind [OF p q])
qed

lemma remove_marker_triple:
  assumes "setting_ok u"
  shows "triple (safe_world enc now u)
     (\<lambda>w. rollback_ready enc now u (w_root w) \<and> (\<exists>m. child (w_root w) (us_dir u) marker_name = Some (RegFile m)))
     (fs_remove_file (abs_path (in_updates (us_dir u) marker_name)))
     (\<lambda>_ w. rollback_ready enc now u (w_root w) \<and> child (w_root w) (us_dir u) marker_name = None)"
  unfolding fs_remove_file_def
proof (rule triple_tree)
  let ?d = "us_dir u"
  fix w t
  assume A: "safe_world enc now u w"
    and P: "rollback_ready enc now u (w_root w) \<and> (\<exists>m. child (w_root w) ?d marker_name = Some (RegFile m))"
    and r: "res_bind (existing (w_root w) (w_cwd w) (abs_path (in_updates ?d marker_name)) False)
       (\<lambda>(q, n). case n of Dir _ \<Rightarrow> Err (Io IsADirectory) | _ \<Rightarrow> Ok (put q None (w_root w))) = Inr t"
  have rd: "real_dirs (w_root w) ?d" using P by (simp add: rollback_ready_def)
  have nm: "us_name u \<noteq> ''updates''" using assms by (simp add: setting_ok_def)
  obtain m where "child (w_root w) ?d marker_name = Some (RegFile m)" using P by blast
  then have t: "t = put (in_updates ?d marker_name) None (w_root w)"
    using r remove_child [OF rd] by simp
  have rd': "real_dirs t ?d" unfolding t by (rule real_dirs_put [OF rd]) simp
  have c: "child t ?d y = (if y = marker_name then None else child (w_root w) ?d y)" for y
    unfolding t by (rule child_put(1) [OF rd])
  have e: "lookup t (exe_place u) = lookup (w_root w) (exe_place u)"
    unfolding t using child_put(2) [OF rd, of marker_name None "us_name u"] nm by simp
  have "rollback_ready enc now u t" using P by (simp add: rollback_ready_def rd' c e)
  then show "safe_world enc now u (set_root t w) \<and> (rollback_ready enc now u (w_root (set_root t w)) \<and>
      child (w_root (set_root t w)) ?d marker_name = None)"
    using A by (simp add: safe_tree_def c)
qed (auto intro: all_trees_cong)

lemma activate_triple:
  assumes "setting_ok u"
  shows "triple (safe_world enc now u) (\<lambda>w. staged u (w_root w))
     (activate_at enc dec now stamp (abs_path (exe_place u)))
     (\<lambda>x w. x = Activated \<and> rollback_ready enc now u (w_root w) \<and>
        child (w_root w) (us_dir u) marker_name = None)"
proof -
  let ?e = "abs_path (exe_place u)"
  let ?body = "io_bind (pending_update_at ?e) (\<lambda>found.
      io_bind (io_lift (case found of None \<Rightarrow> Err (Bail ''pending agent update marker is empty'') | Some p \<Rightarrow> Ok p)) (\<lambda>pending.
      io_bind (io_ctx ''preserve previous agent binary'' (fs_copy ?e (abs_path (in_updates (us_dir u) temp_name)))) (\<lambda>_.
      io_bind (io_ctx ''commit previous agent binary''
        (fs_rename (abs_path (in_updates (us_dir u) temp_name)) (abs_path (in_updates (us_dir u) prev_name)))) (\<lambda>_.
      io_bind (fs_write (abs_path (in_updates (us_dir u) state_name)) (enc (state_of u now))) (\<lambda>_.
      io_bind (io_ctx ''activate staged agent binary'' (replace_binary pending ?e)) (\<lambda>_.
      io_bind (fs_remove_file (abs_path (in_updates (us_dir u) marker_name))) (\<lambda>_. io_return Activated)))))))"
  have eq: "activate_at enc dec now stamp ?e w = ?body w" if s: "staged u (w_root w)" for w
  proof -
    have "fs_exists (pending_marker ?e) w"
      using exists_child [OF staged_dirs [OF s], of marker_name] s by (auto simp: update_paths staged_def)
    then show ?thesis by (simp add: activate_at_def Let_def update_paths state_of_def)
  qed
  have "triple (safe_world enc now u) (\<lambda>w. staged u (w_root w)) ?body
     (\<lambda>x w. x = Activated \<and> rollback_ready enc now u (w_root w) \<and> child (w_root w) (us_dir u) marker_name = None)"
    by (rule triple_bind [OF pending_triple [OF assms]],
        rule triple_bind [where Q = "\<lambda>pending w. pending = abs_path (in_updates (us_dir u) (us_pending u)) \<and> staged u (w_root w)"],
        rule triple_lift, force split: option.splits, rule triple_fact, simp only:,
        rule triple_bind [OF triple_ctx [OF copy_triple [OF assms]]],
        rule triple_bind [OF triple_ctx [OF keep_previous_triple [OF assms]]],
        rule triple_bind [OF state_triple [OF assms]],
        rule triple_bind [OF triple_ctx [OF replace_triple [OF assms]]],
        rule triple_bind [OF remove_marker_triple [OF assms]],
        rule triple_return, simp)
  then show ?thesis unfolding triple_def using eq by metis
qed


subsection \<open>Rollback\<close>

lemma previous_path:
  "setting_ok u \<Longrightarrow> path_buf (as_previous (state_of u now)) = abs_path (in_updates (us_dir u) prev_name)"
  unfolding path_buf_def state_of_def
  by (simp only: update_setting.select_convs activation_state.select_convs, rule components_path_string)
    (auto simp: setting_ok_def plain_name_def)

lemma rollback_success:
  assumes u: "setting_ok u" and ready: "rollback_ready enc now u (w_root w)"
    and dec: "dec (enc (state_of u now)) = Ok (state_of u now)" and st: "CHR ''/'' \<notin> set stamp"
    and run: "rollback_at dec stamp (abs_path (exe_place u)) w = (Inr y, w')"
  shows "y = RolledBack \<and> real_dirs (w_root w') (us_dir u) \<and>
    lookup (w_root w') (exe_place u) = Some (RegFile (us_old u)) \<and>
    child (w_root w') (us_dir u) state_name = None \<and>
    child (w_root w') (us_dir u) (''failed-agent-'' @ stamp) = Some (RegFile (us_new u)) \<and>
    (\<exists>t \<in> set (w_trace w'). lookup t (exe_place u) = None)"
proof -
  let ?d = "us_dir u" and ?e = "abs_path (exe_place u)"
  define f where f: "f = ''failed-agent-'' @ stamp"
  have fn: "f \<noteq> prev_name" "f \<noteq> state_name" "components f = [Normal f]"
    by (simp_all add: f) (rule components_plain, use st in auto)
  have nm: "us_name u \<noteq> ''updates''" using u by (simp add: setting_ok_def)
  have rd: "real_dirs (w_root w) ?d" and ex: "lookup (w_root w) (exe_place u) = Some (RegFile (us_new u))"
    and pv: "child (w_root w) ?d prev_name = Some (RegFile (us_old u))"
    and sf: "child (w_root w) ?d state_name = Some (RegFile (enc (state_of u now)))"
    using ready by (simp_all add: rollback_ready_def)
  have fp: "path_join (staging ?e) (components f) = abs_path (in_updates ?d f)"
    by (rule staging_child [OF fn(3)])
  have ex0: "fs_exists (activation_state_path ?e) w"
    using exists_child [OF rd, of state_name] sf by (simp add: update_paths)
  obtain bytes w1 state w2 where r: "fs_read (activation_state_path ?e) w = (Inr bytes, w1)"
    "dec bytes = Inr state"
    and rest: "(if \<not> fs_exists (path_buf (as_previous state)) w1
       then (Err (Bail ''previous agent binary is unavailable for rollback''), w1)
       else io_bind (io_ctx ''preserve failed agent binary'' (fs_rename ?e (abs_path (in_updates ?d f)))) (\<lambda>_.
            io_bind (io_catch (fs_rename (path_buf (as_previous state)) ?e) (\<lambda>e.
               io_bind (io_ignore (fs_rename (abs_path (in_updates ?d f)) ?e)) (\<lambda>_.
                 io_fail (Ctx ''restore previous agent binary'' e)))) (\<lambda>_.
            io_bind (fs_remove_file (activation_state_path ?e)) (\<lambda>_. io_return RolledBack))) w1) = (Inr y, w')"
    using run [unfolded rollback_at_def, folded f] ex0
    by (auto simp: io_bind_Ok io_simple_Ok fp Let_def)
  have s1: "w_root w1 = w_root w" "bytes = enc (state_of u now)"
    using io_query_Ok [OF r(1) [unfolded fs_read_def]] read_child [OF rd sf] by (simp_all add: update_paths)
  then have state: "state = state_of u now" using r(2) dec by simp
  have pp: "path_buf (as_previous state) = abs_path (in_updates ?d prev_name)"
    using previous_path [OF u] state by simp
  obtain v3 w3 v4 w4 v5 where r3: "fs_rename ?e (abs_path (in_updates ?d f)) w1 = (Inr v3, w3)"
    and r4: "io_catch (fs_rename (abs_path (in_updates ?d prev_name)) ?e) (\<lambda>e.
               io_bind (io_ignore (fs_rename (abs_path (in_updates ?d f)) ?e)) (\<lambda>_.
                 io_fail (Ctx ''restore previous agent binary'' e))) w3 = (Inr v4, w4)"
    and r5: "fs_remove_file (activation_state_path ?e) w4 = (Inr v5, w')" and y: "y = RolledBack"
    using rest by (auto simp: pp io_bind_Ok io_ctx_Ok io_simple_Ok split: if_splits)
  obtain t3 where t3: "rename_tree ?e (abs_path (in_updates ?d f)) (w_root w1) (w_cwd w1) = Inr t3"
    "w_root w3 = t3" "w_trace w3 = w_trace w1 @ [t3]"
    using io_tree_Ok [OF r3 [unfolded fs_rename_def]] by blast
  let ?t1 = "put (exe_place u) None (w_root w)"
  have t3e: "t3 = put (in_updates ?d f) (Some (RegFile (us_new u))) ?t1"
    by (rule rename_from_exe [OF rd ex nm t3(1) [unfolded s1]])
  have rd1: "real_dirs ?t1 ?d" by (rule real_dirs_put [OF rd, where nm = "us_name u"]) (simp add: nm)
  have rd3: "real_dirs t3 ?d" unfolding t3e by (rule real_dirs_put [OF rd1]) simp
  have c3: "child t3 ?d z = (if z = f then Some (RegFile (us_new u)) else child (w_root w) ?d z)" for z
    unfolding t3e child_put(1) [OF rd1] child_put(3) [OF rd nm] ..
  have e3: "lookup t3 (exe_place u) = None"
    unfolding t3e using child_put(2) [OF rd1, of f _ "us_name u"] nm child_put(4) [OF rd, of "us_name u" None] by simp
  have r4': "fs_rename (abs_path (in_updates ?d prev_name)) ?e w3 = (Inr v4, w4)"
    using r4 by (auto simp: io_catch_def io_bind_def io_fail_def io_ignore_def split: prod.splits sum.splits)
  obtain t4 where t4: "rename_tree (abs_path (in_updates ?d prev_name)) ?e (w_root w3) (w_cwd w3) = Inr t4"
    "w_root w4 = t4" "w_trace w4 = w_trace w3 @ [t4]"
    using io_tree_Ok [OF r4' [unfolded fs_rename_def]] by blast
  let ?t3' = "put (in_updates ?d prev_name) None t3"
  have t4e: "t4 = put (exe_place u) (Some (RegFile (us_old u))) ?t3'"
    by (rule rename_to_exe [OF rd3 _ nm _ t4(1) [unfolded t3(2)]]) (use c3 pv e3 fn(1) in auto)
  have rd3': "real_dirs ?t3' ?d" by (rule real_dirs_put [OF rd3]) simp
  have rd4: "real_dirs t4 ?d" unfolding t4e by (rule real_dirs_put [OF rd3', where nm = "us_name u"]) (simp add: nm)
  have c4: "child t4 ?d z = (if z = prev_name then None else child t3 ?d z)" for z
    unfolding t4e child_put(3) [OF rd3' nm] child_put(1) [OF rd3] ..
  have e4: "lookup t4 (exe_place u) = Some (RegFile (us_old u))"
    unfolding t4e by (rule child_put(4) [OF rd3'])
  have s4: "child t4 ?d state_name = Some (RegFile (enc (state_of u now)))"
    using c4 c3 sf fn(2) by simp
  obtain t5 where t5: "t5 = put (in_updates ?d state_name) None t4" "w_root w' = t5" "w_trace w' = w_trace w4 @ [t5]"
    using io_tree_Ok [OF r5 [unfolded fs_remove_file_def]] remove_child [OF rd4 s4]
    by (auto simp: update_paths t4(2))
  have "real_dirs t5 ?d" unfolding t5(1) by (rule real_dirs_put [OF rd4]) simp
  moreover have "lookup t5 (exe_place u) = Some (RegFile (us_old u))"
    unfolding t5(1) using child_put(2) [OF rd4, of state_name None "us_name u"] nm e4 by simp
  moreover have "child t5 ?d z = (if z = state_name then None else child t4 ?d z)" for z
    unfolding t5(1) by (rule child_put(1) [OF rd4])
  moreover have "t3 \<in> set (w_trace w')" using t5(3) t4(3) t3(3) by simp
  ultimately show ?thesis using y e3 t5(2) c4 c3 fn(1,2) unfolding f [symmetric] by auto
qed


subsection \<open>Properties\<close>

definition demo_setting :: update_setting where
  "demo_setting = \<lparr> us_dir = [''b''], us_name = ''agent'', us_pending = ''x'', us_old = ''old'', us_new = ''new'' \<rparr>"

definition demo_world :: "fault list \<Rightarrow> world" where
  "demo_world fs = \<lparr> w_root = Dir [(''b'', Dir [(''agent'', RegFile ''old''),
     (''updates'', Dir [(''pending-artifact'', RegFile ''/b/updates/x''), (''x'', RegFile ''new'')])])],
     w_cwd = [], w_faults = fs, w_trace = [], w_requests = [], w_objects = [] \<rparr>"

lemma demo_ok: "setting_ok demo_setting"
  by (simp add: setting_ok_def demo_setting_def plain_name_def)

lemma demo_staged: "staged demo_setting (w_root (demo_world fs))"
proof -
  have "is_dir_at (w_root (demo_world fs)) q" if "prefix q [''b'', ''updates'']" for q
    using that by (auto simp: prefix_Cons demo_world_def is_dir_at_def)
  moreover have "trim ''/b/updates/x'' = path_string (abs_path [''b'', ''updates'', ''x''])"
    "valid_utf8 ''/b/updates/x''"
    by code_simp+
  ultimately show ?thesis
    by (simp add: staged_def real_dirs_def demo_setting_def demo_world_def child_def)
qed

text \<open>C6: activating a staged update is crash-safe: whatever call fails, and between any two
  effects, the executable is the old binary, or it is the new one with the old binary and the
  activation state in place for a rollback; when activation succeeds the new binary runs and
  the marker is gone.\<close>

theorem activation_crash_safe:
  assumes "setting_ok u" "staged u (w_root w)" "w_trace w = []"
    and "activate_at enc dec now stamp (abs_path (exe_place u)) w = (r, w')"
  shows "(\<forall>t \<in> set (w_root w' # w_trace w').
      lookup t (exe_place u) = Some (RegFile (us_old u)) \<or> rollback_ready enc now u t) \<and>
    (case r of Inl _ \<Rightarrow> True
     | Inr x \<Rightarrow> x = Activated \<and> lookup (w_root w') (exe_place u) = Some (RegFile (us_new u)) \<and>
         child (w_root w') (us_dir u) marker_name = None)"
proof -
  have "safe_world enc now u w" using assms(2,3) by (simp add: all_trees_def staged_safe)
  from tripleD [OF activate_triple [OF assms(1)] this assms(2,4)] show ?thesis
    by (auto simp: all_trees_def safe_tree_def rollback_ready_def split: sum.splits)
qed

theorem activation_crash_safe_witness:
  "lookup (w_root (snd (activate_at (\<lambda>_. ''S'') (\<lambda>_. Err (Ext [])) ''now'' ''t'' (abs_path [''b'', ''agent''])
     (demo_world [])))) [''b'', ''agent''] = Some (RegFile ''new'')"
proof -
  let ?run = "activate_at (\<lambda>_. ''S'') (\<lambda>_. Err (Ext [])) ''now'' ''t'' (abs_path [''b'', ''agent'']) (demo_world [])"
  obtain r w' where r: "?run = (r, w')" by (metis surj_pair)
  have tr: "w_trace (demo_world []) = []" by (simp add: demo_world_def)
  have pl: "exe_place demo_setting = [''b'', ''agent'']" "us_new demo_setting = ''new''"
    by (simp_all add: demo_setting_def)
  have "is_ok (fst ?run)" by code_simp
  then obtain x where "r = Inr x" using r by (auto simp: is_ok_iff)
  then show ?thesis
    using activation_crash_safe [OF demo_ok demo_staged tr, unfolded pl, OF r] r by simp
qed

text \<open>C7: rolling back after an activation restores the old binary and keeps the failed one
  aside; but on its way there is a moment at which no executable exists at all, so a crash
  there leaves the host without an agent.\<close>

theorem rollback_restores_old:
  assumes "setting_ok u" "staged u (w_root w)" "w_trace w = []"
    and "activate_at enc dec now stamp0 (abs_path (exe_place u)) w = (Inr x, w1)"
    and "dec (enc (state_of u now)) = Ok (state_of u now)" "CHR ''/'' \<notin> set stamp"
    and "rollback_at dec stamp (abs_path (exe_place u)) w1 = (Inr y, w2)"
  shows "y = RolledBack \<and> lookup (w_root w2) (exe_place u) = Some (RegFile (us_old u)) \<and>
    child (w_root w2) (us_dir u) (''failed-agent-'' @ stamp) = Some (RegFile (us_new u)) \<and>
    child (w_root w2) (us_dir u) state_name = None \<and>
    (\<exists>t \<in> set (w_trace w2). lookup t (exe_place u) = None)"
proof -
  have "safe_world enc now u w" using assms(2,3) by (simp add: all_trees_def staged_safe)
  from tripleD [OF activate_triple [OF assms(1)] this assms(2,4)]
  have "rollback_ready enc now u (w_root w1)" by blast
  from rollback_success [OF assms(1) this assms(5,6,7)] show ?thesis by blast
qed

theorem rollback_restores_old_witness:
  "(let enc = (\<lambda>_. ''S''); st = state_of demo_setting ''now''; dec = (\<lambda>_. Ok st);
        exe = abs_path [''b'', ''agent''];
        w1 = snd (activate_at enc dec ''now'' ''t'' exe (demo_world []));
        w2 = snd (rollback_at dec ''t'' exe w1)
    in lookup (w_root w2) [''b'', ''agent''] = Some (RegFile ''old''))"
proof -
  let ?dec = "\<lambda>_. Ok (state_of demo_setting ''now'')" and ?exe = "abs_path [''b'', ''agent'']"
  let ?run = "activate_at (\<lambda>_. ''S'') ?dec ''now'' ''t'' ?exe (demo_world [])"
  have tr: "w_trace (demo_world []) = []" by (simp add: demo_world_def)
  have pl: "exe_place demo_setting = [''b'', ''agent'']" "us_old demo_setting = ''old''"
    by (simp_all add: demo_setting_def)
  have "is_ok (fst ?run) \<and> is_ok (fst (rollback_at ?dec ''t'' ?exe (snd ?run)))" by code_simp
  then obtain x y w1 w2 where r: "?run = (Inr x, w1)" "rollback_at ?dec ''t'' ?exe w1 = (Inr y, w2)"
    by (cases ?run, cases "rollback_at ?dec ''t'' ?exe (snd ?run)") (auto simp: is_ok_iff)
  have s: "CHR ''/'' \<notin> set ''t''" by simp
  show ?thesis
    using rollback_restores_old [OF demo_ok demo_staged tr, unfolded pl, OF r(1) refl s r(2)] r
    by (simp add: Let_def)
qed

lemma stale_marker_pending:
  assumes rd: "real_dirs (w_root w) (us_dir u)" and u: "setting_ok u"
    and m: "child (w_root w) (us_dir u) marker_name = Some (RegFile m)"
      "trim m = path_string (abs_path (in_updates (us_dir u) (us_pending u)))"
    and gone: "child (w_root w) (us_dir u) (us_pending u) = None"
  shows "(\<exists>e. fst (pending_update_at (abs_path (exe_place u)) w) = Inl e) \<and>
    w_root (snd (pending_update_at (abs_path (exe_place u)) w)) = w_root w"
proof -
  let ?d = "us_dir u" and ?pn = "us_pending u" and ?e = "abs_path (exe_place u)"
  have ex: "fs_exists (pending_marker ?e) w"
    using exists_child [OF rd, of marker_name] m(1) by (simp add: update_paths)
  have ne: "trim m \<noteq> []" by (simp add: m(2) path_string_def abs_path_def join_with_Cons)
  have "list_all plain_name (in_updates ?d ?pn)" using u by (simp add: setting_ok_def plain_name_def)
  then have pb: "path_buf (trim m) = abs_path (in_updates ?d ?pn)"
    by (simp only: path_buf_def m(2) components_path_string)
  obtain r1 w1 where r1: "fs_read_to_string (pending_marker ?e) w = (r1, w1)" by (metis surj_pair)
  have rt: "read_tree (pending_marker ?e) (w_root w) (w_cwd w) = Ok m"
    using read_child [OF rd m(1)] by (simp add: update_paths)
  have s1: "w_root w1 = w_root w \<and> (r1 = Ok m \<or> (\<exists>e. r1 = Inl e))"
    using io_query_spec [OF r1 [unfolded fs_read_to_string_def]] rt by (cases "valid_utf8 m") auto
  obtain r2 w2 where r2: "fs_canonicalize (staging ?e) w1 = (r2, w2)" by (metis surj_pair)
  have s2: "w_root w2 = w_root w1" using io_query_spec [OF r2 [unfolded fs_canonicalize_def]] by simp
  obtain r3 w3 where r3: "fs_canonicalize (abs_path (in_updates ?d ?pn)) w2 = (r3, w3)" by (metis surj_pair)
  have s3: "w_root w3 = w_root w2 \<and> (\<exists>e. r3 = Inl e)" if "w_root w2 = w_root w"
    using io_query_spec [OF r3 [unfolded fs_canonicalize_def]] that gone
      resolve_child [OF rd, of True ?pn "w_cwd w2"] by (auto simp: existing_def child_def)
  show ?thesis
    using s1 s2 s3 ne
    by (auto simp: pending_update_at_def ex io_bind_def r1 r2 r3 pb Let_def split: sum.splits prod.splits)
qed

text \<open>Lemma: if the process stops between moving the staged binary into place and removing the
  marker, every later activation attempt fails without changing anything: neither a new
  activation nor a rollback happens at a launch until someone removes the marker by hand.\<close>

theorem activation_wedged_by_stale_marker:
  assumes "setting_ok u" "rollback_ready enc now u (w_root w)"
    and "child (w_root w) (us_dir u) marker_name = Some (RegFile m)"
    and "trim m = path_string (abs_path (in_updates (us_dir u) (us_pending u)))"
    and "child (w_root w) (us_dir u) (us_pending u) = None"
  shows "(\<exists>e. fst (activate_at enc dec now' stamp (abs_path (exe_place u)) w) = Inl e) \<and>
    w_root (snd (activate_at enc dec now' stamp (abs_path (exe_place u)) w)) = w_root w"
proof -
  let ?e = "abs_path (exe_place u)"
  have rd: "real_dirs (w_root w) (us_dir u)" using assms(2) by (simp add: rollback_ready_def)
  have ex: "fs_exists (pending_marker ?e) w"
    using exists_child [OF rd, of marker_name] assms(3) by (simp add: update_paths)
  obtain e w1 where p: "pending_update_at ?e w = (Inl e, w1)" "w_root w1 = w_root w"
    using stale_marker_pending [OF rd assms(1,3-5)] by (cases "pending_update_at ?e w") auto
  show ?thesis by (simp add: activate_at_def Let_def ex io_bind_def p)
qed

theorem activation_wedged_by_stale_marker_witness:
  "(let exe = abs_path [''b'', ''agent'']; enc = (\<lambda>_. ''S''); dec = (\<lambda>_. Err (Ext []));
        w1 = snd (activate_at enc dec ''now'' ''t'' exe (demo_world (replicate 9 NoFault @ [Fail OtherIo])))
    in lookup (w_root w1) [''b'', ''agent''] = Some (RegFile ''new'') \<and>
       \<not> is_ok (fst (activate_at enc dec ''now'' ''t'' exe w1)))"
proof -
  let ?exe = "abs_path [''b'', ''agent'']"
  let ?w1 = "snd (activate_at (\<lambda>_. ''S'') (\<lambda>_. Err (Ext [])) ''now'' ''t'' ?exe
      (demo_world (replicate 9 NoFault @ [Fail OtherIo])))"
  have tree: "w_root ?w1 = Dir [(''b'', Dir [(''agent'', RegFile ''new''),
     (''updates'', Dir [(''pending-artifact'', RegFile ''/b/updates/x''),
        (''previous-agent'', RegFile ''old''), (''activation-state.json'', RegFile ''S'')])])]"
    by code_simp
  have sel: "exe_place demo_setting = [''b'', ''agent'']" "us_new demo_setting = ''new''"
    "us_old demo_setting = ''old''" "us_dir demo_setting = [''b'']" "us_pending demo_setting = ''x''" "us_name demo_setting = ''agent''"
    by (simp_all add: demo_setting_def)
  have dirs: "is_dir_at (w_root ?w1) q" if "prefix q [''b'', ''updates'']" for q
    unfolding tree using that by (auto simp: prefix_Cons is_dir_at_def)
  have ready: "rollback_ready (\<lambda>_. ''S'') ''now'' demo_setting (w_root ?w1)"
    using dirs unfolding rollback_ready_def real_dirs_def sel tree by (simp add: child_def)
  have m: "child (w_root ?w1) (us_dir demo_setting) marker_name = Some (RegFile ''/b/updates/x'')"
    "child (w_root ?w1) (us_dir demo_setting) (us_pending demo_setting) = None"
    unfolding tree sel by (simp_all add: child_def)
  have tr: "trim ''/b/updates/x'' = path_string (abs_path (in_updates (us_dir demo_setting) (us_pending demo_setting)))"
    unfolding sel by code_simp
  have "\<exists>e. fst (activate_at (\<lambda>_. ''S'') (\<lambda>_. Err (Ext [])) ''now'' ''t'' ?exe ?w1) = Inl e"
    using activation_wedged_by_stale_marker [OF demo_ok ready m(1) tr m(2),
        where dec = "\<lambda>_. Err (Ext [])" and now' = "''now''" and stamp = "''t''"] by (simp add: sel)
  moreover have "lookup (w_root ?w1) [''b'', ''agent''] = Some (RegFile ''new'')" unfolding tree by simp
  ultimately show ?thesis by (auto simp: Let_def is_ok_iff)
qed

end
