(* ===== verification/Certificate.thy ===== *)
theory Certificate
  imports Filesystem
begin

text \<open>
  @core/config.rs@, @security/certificate.rs@ and @grpc/services/authorization.rs@: the agent's
  configuration with its first-run provisioning, the mTLS bundle's validation, installation
  and rollback, and the check of the master's client certificate.  X.509 parsing, signature
  verification, SHA-256, the TLS library, HTTP, JSON and the terminal are parameters.
\<close>

subsection \<open>Configuration\<close>

record crowd_sec_config =
  cs_enabled :: bool
  cscli_path :: string
  max_alerts :: nat

record daemon_config =
  node_id :: string
  agent_cert_path :: path
  agent_key_path :: path
  ca_cert_path :: path
  crowd_sec_telemetry :: crowd_sec_config

definition default_cscli :: string where "default_cscli = ''cscli''"
definition default_max_alerts :: nat where "default_max_alerts = 100"

text \<open>The derived @Default@ (every field's own default) and the defaults of deserialisation.\<close>

definition crowd_sec_derived_default :: crowd_sec_config where
  "crowd_sec_derived_default = \<lparr> cs_enabled = False, cscli_path = [], max_alerts = 0 \<rparr>"

definition crowd_sec_serde_default :: crowd_sec_config where
  "crowd_sec_serde_default =
     \<lparr> cs_enabled = False, cscli_path = default_cscli, max_alerts = default_max_alerts \<rparr>"

definition default_agent_cert :: path where "default_agent_cert = components ''certs/agent.crt''"
definition default_agent_key :: path where "default_agent_key = components ''certs/agent.key''"
definition default_ca_cert :: path where "default_ca_cert = components ''certs/ca.crt''"

text \<open>@read_line@ on the terminal gives the next line; a missing line reads as empty.\<close>

definition prompt_line :: "string list \<Rightarrow> (string \<times> string list) res" where
  "prompt_line input =
     (let value = trim (case input of l # _ \<Rightarrow> l | [] \<Rightarrow> []) in
      if value = [] then Err (Bail ''value cannot be empty'') else Ok (value, tl input))"

definition required :: "(string \<Rightarrow> string option) \<Rightarrow> string \<Rightarrow> string res" where
  "required payload key =
     (case payload key of Some v \<Rightarrow> Ok v
      | None \<Rightarrow> Err (Bail (''provisioning response omitted '' @ key)))"

definition absolute :: "string \<Rightarrow> world \<Rightarrow> path" where
  "absolute value w = path_join (abs_path (w_cwd w)) (components value)"

definition write_secret :: "string \<Rightarrow> string \<Rightarrow> unit io" where
  "write_secret p value =
     io_bind (fs_write (components p) value) (\<lambda>_. fs_set_permissions (components p))"

definition master_url_allowed :: "string \<Rightarrow> bool" where
  "master_url_allowed master \<longleftrightarrow>
     starts_with ''https://'' master \<or> starts_with ''http://127.0.0.1'' master \<or>
     starts_with ''http://localhost'' master"

text \<open>
  @setup@: the master's answer to the request (URL, node id, token) is the JSON object's
  string members, or the error of the request.
\<close>

definition setup_config ::
  "(string \<Rightarrow> string \<Rightarrow> string \<Rightarrow> (string \<Rightarrow> string option) res) \<Rightarrow> (daemon_config \<Rightarrow> string) \<Rightarrow>
   string list \<Rightarrow> daemon_config io" where
  "setup_config provision enc input =
     io_bind (io_lift (prompt_line input)) (\<lambda>(m, input).
       let master = trim_end_matches (CHR ''/'') m in
       if \<not> master_url_allowed master
       then io_fail (Bail ''remote provisioning requires HTTPS (plain HTTP is only allowed for loopback)'')
       else
       io_bind (io_lift (prompt_line input)) (\<lambda>(node, input).
       io_bind (io_lift (prompt_line input)) (\<lambda>(token, input).
       io_bind (io_lift (provision (master @ ''/api/provision/agent'') node token)) (\<lambda>payload.
       io_bind (fs_create_dir_all (components ''certs'')) (\<lambda>_.
       io_bind (io_lift (required payload ''key'')) (\<lambda>key.
       io_bind (write_secret ''certs/agent.key'' key) (\<lambda>_.
       io_bind (io_lift (required payload ''cert'')) (\<lambda>cert.
       io_bind (write_secret ''certs/agent.crt'' cert) (\<lambda>_.
       io_bind (io_lift (required payload ''ca'')) (\<lambda>ca.
       io_bind (write_secret ''certs/ca.crt'' ca) (\<lambda>_ w.
         let config = \<lparr> node_id = node, agent_cert_path = absolute ''certs/agent.crt'' w,
               agent_key_path = absolute ''certs/agent.key'' w,
               ca_cert_path = absolute ''certs/ca.crt'' w,
               crowd_sec_telemetry = crowd_sec_derived_default \<rparr> in
         io_bind (fs_write (components ''config.json'') (enc config)) (\<lambda>_. io_return config) w)))))))))))"

definition load_or_setup ::
  "(string \<Rightarrow> daemon_config res) \<Rightarrow> (string \<Rightarrow> string \<Rightarrow> string \<Rightarrow> (string \<Rightarrow> string option) res) \<Rightarrow>
   (daemon_config \<Rightarrow> string) \<Rightarrow> string list \<Rightarrow> daemon_config io" where
  "load_or_setup dec provision enc input w =
     (if fs_exists (components ''config.json'') w
      then io_bind (io_ctx ''read config.json'' (fs_read (components ''config.json''))) (\<lambda>bytes.
             io_lift (res_context ''parse config.json'' (dec bytes))) w
      else setup_config provision enc input w)"

subsection \<open>Certificates\<close>

text \<open>
  What the code reads of a parsed certificate: validity in seconds, the first common name if
  it is text, and of each extended-key-usage extension the two flags.
\<close>

record x509 =
  not_before :: int
  not_after :: int
  common_name :: "string option"
  key_usages :: "(bool \<times> bool) list"

text \<open>The library functions: PEM contents, DER parsing, signature check, SHA-256 in hex.\<close>

record x509_lib =
  pem_contents :: "string \<Rightarrow> string option"
  parse_der :: "string \<Rightarrow> x509 option"
  verify_signature :: "string \<Rightarrow> string \<Rightarrow> bool"
  sha256_hex :: "string \<Rightarrow> string"
  tls_identity :: "string \<Rightarrow> string \<Rightarrow> string \<Rightarrow> unit res"

definition DEFAULT_CERTIFICATE_CLOCK_SKEW_SECONDS :: int where
  "DEFAULT_CERTIFICATE_CLOCK_SKEW_SECONDS = 300"

definition i64_max :: nat where "i64_max = 9223372036854775807"

definition clock_skew :: "environment \<Rightarrow> int" where
  "clock_skew env =
     (case Option.bind (env ''AGAPORNIS_CERTIFICATE_CLOCK_SKEW_SECONDS'') (parse_signed i64_max) of
        Some v \<Rightarrow> if 0 \<le> v \<and> v \<le> 3600 then v else DEFAULT_CERTIFICATE_CLOCK_SKEW_SECONDS
      | None \<Rightarrow> DEFAULT_CERTIFICATE_CLOCK_SKEW_SECONDS)"

definition opt_err :: "string \<Rightarrow> 'a option \<Rightarrow> 'a res" where
  "opt_err m x = (case x of None \<Rightarrow> Err (Bail m) | Some v \<Rightarrow> Ok v)"

text \<open>The loop over the extensions keeps the flag of the last one.\<close>

definition last_server_auth :: "(bool \<times> bool) list \<Rightarrow> bool" where
  "last_server_auth us = fold (\<lambda>(server, client) _. server) us False"

definition last_client_auth :: "(bool \<times> bool) list \<Rightarrow> bool" where
  "last_client_auth us = fold (\<lambda>(server, client) _. client) us False"

definition validate_certificate ::
  "x509_lib \<Rightarrow> environment \<Rightarrow> int \<Rightarrow> string \<Rightarrow> string \<Rightarrow> string \<Rightarrow> string res" where
  "validate_certificate lib env now pem ca_pem node =
     res_bind (opt_err ''invalid certificate PEM'' (pem_contents lib pem)) (\<lambda>der.
     res_bind (opt_err ''invalid X.509 certificate'' (parse_der lib der)) (\<lambda>cert.
     res_bind (opt_err ''invalid CA certificate PEM'' (pem_contents lib ca_pem)) (\<lambda>ca_der.
     res_bind (opt_err ''invalid CA certificate'' (parse_der lib ca_der)) (\<lambda>ca.
     if \<not> verify_signature lib der ca_der
     then Err (Bail ''certificate is not signed by the configured Agapornis CA'')
     else
       let skew = clock_skew env in
       if now + skew < not_before cert \<or> now - skew > not_after cert
       then Err (Bail ''certificate is not currently valid'')
       else
         let cn = (case common_name cert of Some n \<Rightarrow> n | None \<Rightarrow> []) in
         if node \<noteq> [] \<and> cn \<noteq> node
         then Err (Bail (''agent certificate common name must equal node id '' @ [CHR 0x27] @ node @ [CHR 0x27]))
         else if \<not> last_server_auth (key_usages cert)
         then Err (Bail ''agent certificate does not permit TLS server authentication'')
         else Ok (sha256_hex lib der)))))"

definition clean_fingerprint :: "string \<Rightarrow> string" where
  "clean_fingerprint v = to_ascii_lowercase (trim (replace_char (CHR '':'') [] v))"

definition constant_fingerprint :: "string \<Rightarrow> string \<Rightarrow> bool" where
  "constant_fingerprint a b \<longleftrightarrow> clean_fingerprint a = clean_fingerprint b"

text \<open>@PathBuf::from(format!("{}.previous", path.display()))@.\<close>

definition with_suffix :: "path \<Rightarrow> string \<Rightarrow> path" where
  "with_suffix p s = components (path_string p @ s)"

definition previous_of :: "path \<Rightarrow> path" where "previous_of p = with_suffix p ''.previous''"

definition replace_with_previous :: "path \<Rightarrow> string \<Rightarrow> unit io" where
  "replace_with_previous p bytes =
     io_bind (case path_parent p of Some d \<Rightarrow> fs_create_dir_all d | None \<Rightarrow> io_return ()) (\<lambda>_.
     io_bind (\<lambda>w. if fs_exists p w
                  then io_ctx ''preserve previous certificate'' (fs_copy p (previous_of p)) w
                  else (Ok (), w)) (\<lambda>_.
     io_bind (fs_write (with_suffix p ''.new'') bytes) (\<lambda>_.
       fs_rename (with_suffix p ''.new'') p)))"

text \<open>The result is the fingerprint; a reload is scheduled exactly when it succeeds.\<close>

definition install ::
  "x509_lib \<Rightarrow> environment \<Rightarrow> int \<Rightarrow> daemon_config \<Rightarrow> string \<Rightarrow> string \<Rightarrow> string \<Rightarrow> string \<Rightarrow> string io" where
  "install lib env now config cert key ca expected =
     io_bind (io_lift (validate_certificate lib env now cert ca (node_id config))) (\<lambda>fp.
     if \<not> constant_fingerprint fp expected
     then io_fail (Bail ''certificate fingerprint did not match expected fingerprint'')
     else
     io_bind (io_lift (res_context ''certificate and private key did not form a valid TLS identity''
       (tls_identity lib cert key ca))) (\<lambda>_.
     io_bind (replace_with_previous (agent_cert_path config) cert) (\<lambda>_.
     io_bind (replace_with_previous (agent_key_path config) key) (\<lambda>_.
     io_bind (replace_with_previous (ca_cert_path config) ca) (\<lambda>_.
       io_return fp)))))"

fun check_previous :: "path list \<Rightarrow> world \<Rightarrow> bool" where
  "check_previous [] w = True"
| "check_previous (p # ps) w = (fs_exists (previous_of p) w \<and> check_previous ps w)"

fun swap_previous :: "path list \<Rightarrow> unit io" where
  "swap_previous [] = io_return ()"
| "swap_previous (p # ps) =
     io_bind (fs_read p) (\<lambda>current.
     io_bind (fs_read (previous_of p)) (\<lambda>old.
     io_bind (fs_write p old) (\<lambda>_.
     io_bind (fs_write (previous_of p) current) (\<lambda>_.
       swap_previous ps))))"

definition rollback_bundle ::
  "x509_lib \<Rightarrow> environment \<Rightarrow> int \<Rightarrow> daemon_config \<Rightarrow> string io" where
  "rollback_bundle lib env now config w =
     (let ps = [agent_cert_path config, agent_key_path config, ca_cert_path config] in
      if \<not> check_previous ps w
      then (Err (Bail ''previous certificate bundle is not available''), w)
      else io_bind (swap_previous ps) (\<lambda>_.
           io_bind (fs_read_to_string (agent_cert_path config)) (\<lambda>cert.
           io_bind (fs_read_to_string (ca_cert_path config)) (\<lambda>ca.
             io_lift (validate_certificate lib env now cert ca (node_id config))))) w)"

definition load_tls :: "daemon_config \<Rightarrow> (string \<times> string \<times> string) io" where
  "load_tls config =
     io_bind (io_ctx (''read agent certificate '' @ path_string (agent_cert_path config))
                (fs_read (agent_cert_path config))) (\<lambda>cert.
     io_bind (io_ctx (''read agent private key '' @ path_string (agent_key_path config))
                (fs_read (agent_key_path config))) (\<lambda>key.
     io_bind (io_ctx (''read master CA certificate '' @ path_string (ca_cert_path config))
                (fs_read (ca_cert_path config))) (\<lambda>ca.
       io_return (cert, key, ca))))"

subsection \<open>The master's client certificate\<close>

datatype status_code =
    Unauthenticated | PermissionDenied | InvalidArgument | FailedPrecondition | ResourceExhausted | DataLoss | Internal

text \<open>The peer's certificate chain as the transport hands it over, in DER.\<close>

definition authorize_master ::
  "(string \<Rightarrow> x509 option) \<Rightarrow> string list option \<Rightarrow> (status_code \<times> string) + unit" where
  "authorize_master parse peer =
     (case peer of
        None \<Rightarrow> Inl (Unauthenticated, ''mTLS client certificate is required'')
      | Some [] \<Rightarrow> Inl (Unauthenticated, ''mTLS client certificate is required'')
      | Some (der # _) \<Rightarrow>
          (case parse der of
             None \<Rightarrow> Inl (Unauthenticated, ''invalid client certificate'')
           | Some cert \<Rightarrow>
               if (case common_name cert of Some n \<Rightarrow> n | None \<Rightarrow> []) \<noteq> ''agapornis-master''
               then Inl (PermissionDenied, ''client certificate is not authorized'')
               else if \<not> last_client_auth (key_usages cert)
               then Inl (PermissionDenied, ''client certificate is missing clientAuth usage'')
               else Inr ()))"

subsection \<open>Lemmas and properties\<close>

lemma opt_err_Ok [res_simps]: "opt_err m x = Inr v \<longleftrightarrow> x = Some v"
  by (cases x) (auto simp: opt_err_def)

lemma clock_skew_range: "0 \<le> clock_skew env \<and> clock_skew env \<le> 3600"
  by (auto simp: clock_skew_def DEFAULT_CERTIFICATE_CLOCK_SKEW_SECONDS_def split: option.splits)

lemma last_server_auth_snoc: "last_server_auth (us @ [u]) = fst u"
  by (cases u) (simp add: last_server_auth_def)

lemma validate_certificate_Ok:
  "validate_certificate lib env now pem ca_pem node = Ok fp \<longleftrightarrow>
   (\<exists>der cert ca_der ca. pem_contents lib pem = Some der \<and> parse_der lib der = Some cert \<and>
      pem_contents lib ca_pem = Some ca_der \<and> parse_der lib ca_der = Some ca \<and>
      verify_signature lib der ca_der \<and>
      not_before cert \<le> now + clock_skew env \<and> now - clock_skew env \<le> not_after cert \<and>
      (node = [] \<or> (case common_name cert of Some n \<Rightarrow> n | None \<Rightarrow> []) = node) \<and>
      last_server_auth (key_usages cert) \<and> fp = sha256_hex lib der)"
proof (cases "\<exists>der cert ca_der ca. pem_contents lib pem = Some der \<and> parse_der lib der = Some cert \<and>
      pem_contents lib ca_pem = Some ca_der \<and> parse_der lib ca_der = Some ca")
  case True
  then obtain der cert ca_der ca where "pem_contents lib pem = Some der" "parse_der lib der = Some cert"
      "pem_contents lib ca_pem = Some ca_der" "parse_der lib ca_der = Some ca" by blast
  then show ?thesis by (auto simp: validate_certificate_def opt_err_def Let_def)
next
  case False
  then show ?thesis by (auto simp: validate_certificate_def res_simps)
qed

lemma io_bind_lift_Err: "r = Inl e \<Longrightarrow> io_bind (io_lift r) f w = (Inl e, w)"
  by (simp add: io_bind_def io_lift_def)

text \<open>When a bundle may be installed.\<close>

definition bundle_valid ::
  "x509_lib \<Rightarrow> int \<Rightarrow> daemon_config \<Rightarrow> string \<Rightarrow> string \<Rightarrow> string \<Rightarrow> string \<Rightarrow> bool" where
  "bundle_valid lib now config cert key ca expected \<longleftrightarrow>
     (\<exists>der x ca_der. pem_contents lib cert = Some der \<and> parse_der lib der = Some x \<and>
        pem_contents lib ca = Some ca_der \<and> verify_signature lib der ca_der \<and>
        not_before x \<le> now + 3600 \<and> now - 3600 \<le> not_after x \<and>
        (node_id config = [] \<or> common_name x = Some (node_id config)) \<and>
        last_server_auth (key_usages x) \<and>
        clean_fingerprint (sha256_hex lib der) = clean_fingerprint expected \<and>
        is_ok (tls_identity lib cert key ca))"

text \<open>C8: a bundle is installed only if its certificate is signed by the given CA, within its
  validity up to a skew of at most an hour, names the node (when one is configured), permits
  server authentication and has the expected fingerprint; otherwise the call fails and no
  file is touched.\<close>

theorem install_only_valid:
  "case install lib env now config cert key ca expected w of (r, w') \<Rightarrow>
     if bundle_valid lib now config cert key ca expected then True else is_ok r = False \<and> w' = w"
proof (cases "validate_certificate lib env now cert ca (node_id config)")
  case (Inl e)
  then show ?thesis by (simp add: install_def io_bind_lift_Err)
next
  case (Inr fp)
  show ?thesis
  proof (cases "constant_fingerprint fp expected \<and> is_ok (tls_identity lib cert key ca)")
    case True
    obtain der x ca_der ca' where v: "pem_contents lib cert = Some der" "parse_der lib der = Some x"
      "pem_contents lib ca = Some ca_der" "verify_signature lib der ca_der"
      "not_before x \<le> now + clock_skew env" "now - clock_skew env \<le> not_after x"
      "node_id config = [] \<or> (case common_name x of Some n \<Rightarrow> n | None \<Rightarrow> []) = node_id config"
      "last_server_auth (key_usages x)" "fp = sha256_hex lib der"
      using Inr unfolding validate_certificate_Ok by blast
    have "not_before x \<le> now + 3600" "now - 3600 \<le> not_after x"
      using v(5,6) clock_skew_range [of env] by auto
    moreover have "node_id config = [] \<or> common_name x = Some (node_id config)"
      using v(7) by (auto split: option.splits)
    ultimately have "bundle_valid lib now config cert key ca expected"
      using v True unfolding constant_fingerprint_def bundle_valid_def by blast
    then show ?thesis by (simp split: prod.splits)
  next
    case False
    then show ?thesis
      using Inr by (cases "tls_identity lib cert key ca")
        (auto simp: install_def io_bind_def io_lift_def io_fail_def)
  qed
qed

text \<open>Lemma: only a peer whose first certificate parses, is named @agapornis-master@ and permits
  client authentication is authorised; without a readable certificate the request is
  unauthenticated, and permission is denied only to a readable one.\<close>

theorem authorize_master_iff:
  "(authorize_master parse peer = Inr ()) =
      (\<exists>der rest cert. peer = Some (der # rest) \<and> parse der = Some cert \<and>
         common_name cert = Some ''agapornis-master'' \<and> last_client_auth (key_usages cert)) \<and>
   (case authorize_master parse peer of
      Inl (PermissionDenied, m) \<Rightarrow> (\<exists>der rest cert. peer = Some (der # rest) \<and> parse der = Some cert)
    | Inl (Unauthenticated, m) \<Rightarrow> Option.bind peer (\<lambda>ds. if ds = [] then None else parse (hd ds)) = None
    | Inr _ \<Rightarrow> True)"
  by (auto simp: authorize_master_def split: option.splits list.splits if_splits)

subsection \<open>What the code does and does not check\<close>

text \<open>The loopback exception compares prefixes of the URL, not its host.\<close>

lemma loopback_prefix_admits_other_hosts:
  "master_url_allowed ''http://localhost.example.org'' \<and> master_url_allowed ''http://127.0.0.1.example.org''"
  by (simp add: master_url_allowed_def)

text \<open>First-run provisioning stores the derived defaults, deserialisation would give others.\<close>

lemma derived_defaults_differ: "crowd_sec_derived_default \<noteq> crowd_sec_serde_default"
  by (simp add: crowd_sec_derived_default_def crowd_sec_serde_default_def default_cscli_def)

end
