(* ===== verification/Config_Line.thy ===== *)
theory Config_Line
  imports Json Rust_Utf8
begin

text \<open>
  @configuration/line.rs@: the parsers for line-oriented configuration files (@file@,
  @properties@, @ini@), which replace or append one line per entry of the descriptor.
\<close>

subsection \<open>Lines\<close>

text \<open>
  The loop over @&mut lines@: the visitor may carry state (the current section) and answers
  the new line when it counts as replaced.
\<close>

fun visit_lines :: "('s \<Rightarrow> string \<Rightarrow> 's \<times> string option) \<Rightarrow> 's \<Rightarrow> string list \<Rightarrow> string list \<times> bool" where
  "visit_lines f s [] = ([], False)"
| "visit_lines f s (l # ls) =
     (case f s l of (s', r) \<Rightarrow>
      case visit_lines f s' ls of (ls', b) \<Rightarrow>
        ((case r of Some l' \<Rightarrow> l' | None \<Rightarrow> l) # ls', r \<noteq> None \<or> b))"

definition config_text :: "string \<Rightarrow> string" where
  "config_text bytes = str_replace [CHR 0x0D, CHR 0x0A] [CHR 0x0A] (from_utf8_lossy bytes)"

definition finish_lines :: "string list \<Rightarrow> bool \<Rightarrow> string" where
  "finish_lines ls trailing =
     (let out = join_with [CHR 0x0A] ls in
      if trailing \<and> \<not> ends_with [CHR 0x0A] out then out @ [CHR 0x0A] else out)"

fun find_index :: "('a \<Rightarrow> bool) \<Rightarrow> 'a list \<Rightarrow> nat option" where
  "find_index P [] = None"
| "find_index P (x # xs) = (if P x then Some 0 else map_option Suc (find_index P xs))"

definition insert_at :: "nat \<Rightarrow> 'a \<Rightarrow> 'a list \<Rightarrow> 'a list" where
  "insert_at i x xs = take i xs @ x # drop i xs"

definition assignment :: "string \<Rightarrow> json \<Rightarrow> string" where
  "assignment key v = key @ ''='' @ scalar_text v"

text \<open>Decoding, one pass per entry, and the line feed at the end.\<close>

definition apply_line_parser ::
  "(string \<times> json \<Rightarrow> string list \<Rightarrow> string list) \<Rightarrow> string \<Rightarrow> (string \<times> json) list \<Rightarrow> string" where
  "apply_line_parser step bytes finds =
     (let text = config_text bytes in
      finish_lines (fold step finds (str_lines text)) (ends_with [CHR 0x0A] text))"

subsection \<open>The three parsers\<close>

fun file_step :: "string \<times> json \<Rightarrow> string list \<Rightarrow> string list" where
  "file_step (needle, v) ls =
     (let rep = scalar_text v in
      case visit_lines (\<lambda>s l. (s, if starts_with needle l then Some rep else None)) () ls of
        (ls', replaced) \<Rightarrow> if replaced then ls' else ls' @ [rep])"

definition apply_file_parser :: "string \<Rightarrow> (string \<times> json) list \<Rightarrow> string" where
  "apply_file_parser = apply_line_parser file_step"

text \<open>The first separator of a line, and the length of a run of separators.\<close>

definition key_separator :: "char \<Rightarrow> bool" where
  "key_separator c \<longleftrightarrow> c = CHR ''='' \<or> c = CHR '':''"

fun key_split :: "string \<Rightarrow> nat option" where
  "key_split [] = None"
| "key_split (c # cs) =
     (if key_separator c \<or> ws_head (c # cs) \<noteq> 0 then Some 0 else map_option Suc (key_split cs))"

function separator_run :: "string \<Rightarrow> nat" where
  "separator_run s =
     (case s of
        [] \<Rightarrow> 0
      | c # cs \<Rightarrow>
          if key_separator c then 1 + separator_run cs
          else if ws_head s \<noteq> 0 then ws_head s + separator_run (drop (ws_head s) s)
          else 0)"
  by pat_completeness auto
termination
  by (relation "measure length") (auto intro: ws_head_shorter simp del: ws_head.simps(2))

declare separator_run.simps [simp del]

definition properties_key :: "string \<Rightarrow> (string \<times> nat) option" where
  "properties_key line =
     (let trimmed = trim_start line; leading = length line - length trimmed in
      if trimmed = [] \<or> starts_with ''#'' trimmed \<or> starts_with ''!'' trimmed then None
      else case key_split trimmed of
        Some i \<Rightarrow> Some (take i trimmed, leading + i + separator_run (drop (leading + i) line))
      | None \<Rightarrow> Some (trimmed, length line))"

definition properties_visit :: "string \<Rightarrow> json \<Rightarrow> string \<Rightarrow> string option" where
  "properties_visit key rep line =
     (case properties_key line of
        None \<Rightarrow> None
      | Some (line_key, value_start) \<Rightarrow>
          if line_key \<noteq> key then None
          else Some (case replacement_for_current rep (trim (drop value_start line)) of
                       Some v \<Rightarrow> assignment key v
                     | None \<Rightarrow> line))"

fun properties_step :: "string \<times> json \<Rightarrow> string list \<Rightarrow> string list" where
  "properties_step (key, rep) ls =
     (case visit_lines (\<lambda>s l. (s, properties_visit key rep l)) () ls of
        (ls', replaced) \<Rightarrow>
          if \<not> replaced \<and> \<not> is_object rep then ls' @ [assignment key rep] else ls')"

definition apply_properties_parser :: "string \<Rightarrow> (string \<times> json) list \<Rightarrow> string" where
  "apply_properties_parser = apply_line_parser properties_step"

definition is_header :: "string \<Rightarrow> bool" where
  "is_header line \<longleftrightarrow> starts_with ''['' (trim line) \<and> ends_with '']'' (trim line)"

definition header_name :: "string \<Rightarrow> string" where
  "header_name line = butlast (tl (trim line))"

definition split_once_separator :: "string \<Rightarrow> (string \<times> string) option" where
  "split_once_separator s =
     (if list_ex key_separator s
      then Some (takeWhile (\<lambda>c. \<not> key_separator c) s, tl (dropWhile (\<lambda>c. \<not> key_separator c) s))
      else None)"

definition ini_visit :: "string \<Rightarrow> string \<Rightarrow> json \<Rightarrow> string \<Rightarrow> string \<Rightarrow> string \<times> string option" where
  "ini_visit wanted_section wanted_key rep sec line =
     (if is_header line then (header_name line, None)
      else if sec \<noteq> wanted_section then (sec, None)
      else case split_once_separator (trim line) of
        None \<Rightarrow> (sec, None)
      | Some (key, current) \<Rightarrow>
          if trim key \<noteq> wanted_key then (sec, None)
          else (sec, Some (case replacement_for_current rep (trim current) of
                             Some v \<Rightarrow> assignment wanted_key v
                           | None \<Rightarrow> line)))"

definition ini_append :: "string \<Rightarrow> string \<Rightarrow> json \<Rightarrow> string list \<Rightarrow> string list" where
  "ini_append wanted_section wanted_key rep ls =
     (if wanted_section = []
      then insert_at (case find_index is_header ls of Some i \<Rightarrow> i | None \<Rightarrow> length ls)
             (assignment wanted_key rep) ls
      else
        (let header = ''['' @ wanted_section @ '']'' in
         case find_index (\<lambda>l. trim l = header) ls of
           Some start \<Rightarrow>
             insert_at (case find_index is_header (drop (start + 1) ls) of
                          Some offset \<Rightarrow> start + 1 + offset
                        | None \<Rightarrow> length ls)
               (assignment wanted_key rep) ls
         | None \<Rightarrow>
             ls @ (if ls \<noteq> [] \<and> last ls \<noteq> [] then [[]] else [])
                @ [header, assignment wanted_key rep]))"

definition ini_target :: "string \<Rightarrow> string \<times> string" where
  "ini_target p = (case split_once (CHR ''.'') p of Some (sec, key) \<Rightarrow> (sec, key) | None \<Rightarrow> ([], p))"

fun ini_step :: "string \<times> json \<Rightarrow> string list \<Rightarrow> string list" where
  "ini_step (p, rep) ls =
     (case ini_target p of
        (wanted_section, wanted_key) \<Rightarrow>
        (case visit_lines (ini_visit wanted_section wanted_key rep) [] ls of
           (ls', replaced) \<Rightarrow>
             if \<not> replaced \<and> \<not> is_object rep
             then ini_append wanted_section wanted_key rep ls' else ls'))"

definition apply_ini_parser :: "string \<Rightarrow> (string \<times> json) list \<Rightarrow> string" where
  "apply_ini_parser = apply_line_parser ini_step"

subsection \<open>Reading the output back\<close>

definition clean_line :: "string \<Rightarrow> bool" where
  "clean_line l \<longleftrightarrow> CHR 0x0A \<notin> set l \<and> CHR 0x0D \<notin> set l"

lemma strip_cr_clean: "CHR 0x0D \<notin> set l \<Longrightarrow> strip_cr l = l"
  by (auto simp: strip_cr_def dest: last_in_set)

lemma str_lines_no_cr:
  assumes "CHR 0x0D \<notin> set s"
  shows "str_lines s =
    (let ps = split_on (CHR 0x0A) s in if last ps = [] then butlast ps else ps)"
proof -
  define ps where "ps = split_on (CHR 0x0A) s"
  have "\<forall>p \<in> set ps. CHR 0x0D \<notin> set p" using assms set_split_on [of _ "CHR 0x0A" s] unfolding ps_def by auto
  then have "map strip_cr (butlast ps) = butlast ps"
    by (intro map_idI strip_cr_clean) (auto dest: in_set_butlastD)
  moreover have "last ps \<noteq> [] \<Longrightarrow> butlast ps @ [last ps] = ps"
    by (rule append_butlast_last_id) (simp add: ps_def)
  ultimately show ?thesis unfolding str_lines_def ps_def [symmetric] Let_def by auto
qed

lemma str_lines_cleanD: "CHR 0x0D \<notin> set s \<Longrightarrow> l \<in> set (str_lines s) \<Longrightarrow> clean_line l"
proof -
  assume s: "CHR 0x0D \<notin> set s" and "l \<in> set (str_lines s)"
  then have "l \<in> set (split_on (CHR 0x0A) s)"
    unfolding str_lines_no_cr [OF s] Let_def by (metis in_set_butlastD)
  from set_split_on [OF this] s show ?thesis unfolding clean_line_def by auto
qed

lemma last_str_lines:
  assumes s: "CHR 0x0D \<notin> set s" and e: "\<not> ends_with [CHR 0x0A, CHR 0x0A] s"
    and n: "str_lines s \<noteq> []" "str_lines s \<noteq> [[]]"
  shows "last (str_lines s) \<noteq> []"
proof
  assume l: "last (str_lines s) = []"
  define ps where "ps = split_on (CHR 0x0A) s"
  have ps: "last ps = []" "str_lines s = butlast ps"
    using l s by (auto simp: str_lines_no_cr Let_def ps_def split: if_splits)
  define qs where "qs = butlast (butlast ps)"
  have "ps \<noteq> []" by (simp add: ps_def)
  then have q: "ps = (qs @ [[]]) @ [[]]"
    using ps l n(1) append_butlast_last_id unfolding qs_def by metis
  have "qs \<noteq> []" using n(2) ps(2) q by auto
  then have "join_with [CHR 0x0A] ps = join_with [CHR 0x0A] qs @ [CHR 0x0A, CHR 0x0A]"
    unfolding q by (simp add: join_with_append)
  then have "s = join_with [CHR 0x0A] qs @ [CHR 0x0A, CHR 0x0A]" by (simp add: ps_def)
  with e show False by (auto simp: ends_with_iff)
qed

lemma ends_with_last: "ends_with [c] s \<longleftrightarrow> s \<noteq> [] \<and> last s = c"
  by (auto simp: ends_with_iff) (metis append_butlast_last_id)

lemma last_join: "ls \<noteq> [] \<Longrightarrow> last ls \<noteq> [] \<Longrightarrow> last (join_with sep ls) = last (last ls) \<and> join_with sep ls \<noteq> []"
proof (induction ls)
  case (Cons l ls)
  then show ?case by (cases ls) (auto simp: join_with_Cons)
qed simp

lemma str_lines_finish:
  assumes c: "list_all clean_line ls" and n: "ls \<noteq> []" "last ls \<noteq> []"
  shows "str_lines (finish_lines ls b) = ls"
proof -
  let ?j = "join_with [CHR 0x0A] ls"
  have nl: "\<forall>p \<in> set ls. CHR 0x0A \<notin> set p" using c by (auto simp: list_all_iff clean_line_def)
  have "set ?j \<subseteq> {CHR 0x0A} \<union> \<Union> (set ` set ls)" using join_with_set [of "[CHR 0x0A]" ls] by simp
  then have cr: "CHR 0x0D \<notin> set ?j" using c by (auto simp: list_all_iff clean_line_def)
  have "last (last ls) \<in> set (last ls)" using n by simp
  moreover have "CHR 0x0A \<notin> set (last ls)" using nl n by simp
  ultimately have e: "\<not> ends_with [CHR 0x0A] ?j"
    using last_join [OF n] by (auto simp: ends_with_last)
  have 1: "str_lines ?j = ls"
    using cr n split_on_join [of ls] nl by (simp add: str_lines_no_cr Let_def list_all_iff)
  have "?j @ [CHR 0x0A] = join_with [CHR 0x0A] (ls @ [[]])"
    using n by (simp add: join_with_append)
  then have "split_on (CHR 0x0A) (?j @ [CHR 0x0A]) = ls @ [[]]"
    using split_on_join [of "ls @ [[]]"] nl by (simp add: list_all_iff)
  then have 2: "str_lines (?j @ [CHR 0x0A]) = ls"
    using cr by (simp add: str_lines_no_cr Let_def)
  show ?thesis using 1 2 e by (simp add: finish_lines_def Let_def)
qed

lemma visit_stateless:
  "visit_lines (\<lambda>s l. ((), g l)) () ls =
     (map (\<lambda>l. case g l of Some l' \<Rightarrow> l' | None \<Rightarrow> l) ls, list_ex (\<lambda>l. g l \<noteq> None) ls)"
  by (induction ls) auto

text \<open>A text that ends in two line feeds loses one of them.\<close>

lemma blank_last_line_lost:
  "apply_file_parser [CHR ''a'', CHR 0x0A, CHR 0x0A] [] = [CHR ''a'', CHR 0x0A]"
  by code_simp

subsection \<open>What the properties parser leaves\<close>

definition is_property :: "string \<Rightarrow> string \<Rightarrow> bool" where
  "is_property key l = (case properties_key l of Some (k, _) \<Rightarrow> k = key | None \<Rightarrow> False)"

text \<open>A key that a line can carry: no separator in it, and no comment sign at its head.\<close>

definition plain_key :: "string \<Rightarrow> bool" where
  "plain_key key \<longleftrightarrow> key \<noteq> [] \<and> key_split key = None \<and> hd key \<noteq> CHR ''#'' \<and> hd key \<noteq> CHR ''!''
     \<and> clean_line key"

lemma ws_head_equals:
  assumes "ws_head k = 0" "k \<noteq> []"
  shows "ws_head (k @ CHR ''='' # v) = 0"
proof -
  consider a where "k = [a]" | a b where "k = [a, b]" | a b c r where "k = a # b # c # r"
    using assms(2) by (metis list.exhaust)
  then show ?thesis
    using assms(1) by cases (auto split: if_splits list.splits simp: in_range_def)
qed

lemma key_split_None_ws: "key_split k = None \<Longrightarrow> ws_head k = 0"
  by (cases k) (auto split: if_splits simp del: ws_head.simps(2))

lemma key_split_assign:
  "key_split k = None \<Longrightarrow> key_split (k @ CHR ''='' # v) = Some (length k)"
proof (induction k)
  case (Cons c k)
  have "ws_head (c # k) = 0" using key_split_None_ws [OF Cons.prems] .
  then have "ws_head ((c # k) @ CHR ''='' # v) = 0" by (rule ws_head_equals) simp
  with Cons show ?case by (auto split: if_splits simp del: ws_head.simps(2))
qed (simp add: key_separator_def)

lemma trim_start_no_ws: "ws_head s = 0 \<Longrightarrow> trim_start s = s"
  by (subst trim_start.simps) simp

lemma starts_hd: "s \<noteq> [] \<Longrightarrow> starts_with [c] s \<longleftrightarrow> hd s = c"
  by (cases s) auto

lemma is_property_assignment:
  assumes "plain_key key"
  shows "is_property key (assignment key v)"
proof -
  let ?l = "key @ CHR ''='' # scalar_text v"
  have k: "key \<noteq> []" "key_split key = None" "hd ?l \<noteq> CHR ''#''" "hd ?l \<noteq> CHR ''!''"
    using assms by (auto simp: plain_key_def)
  have "trim_start ?l = ?l"
    using key_split_None_ws [OF k(2)] k(1) by (intro trim_start_no_ws ws_head_equals)
  moreover have "\<not> starts_with ''#'' ?l \<and> \<not> starts_with ''!'' ?l"
    using k starts_hd [of ?l] by blast
  ultimately show ?thesis
    using key_split_assign [OF k(2)]
    by (simp add: is_property_def assignment_def properties_key_def Let_def)
qed

lemma properties_visit_plain:
  "\<not> is_object rep \<Longrightarrow>
   properties_visit key rep l = (if is_property key l then Some (assignment key rep) else None)"
  by (simp add: properties_visit_def is_property_def replacement_plain split: option.splits prod.splits)

lemma properties_step_plain:
  assumes "\<not> is_object rep"
  shows "properties_step (key, rep) ls =
    map (\<lambda>l. if is_property key l then assignment key rep else l) ls
    @ (if list_ex (is_property key) ls then [] else [assignment key rep])"
proof -
  have "(\<lambda>l. properties_visit key rep l) = (\<lambda>l. if is_property key l then Some (assignment key rep) else None)"
    by (simp add: properties_visit_plain [OF assms])
  moreover have "(case if c then Some a else None of None \<Rightarrow> b | Some x \<Rightarrow> x) = (if c then a else b)"
    for c and a b :: string by simp
  moreover have "list_ex (\<lambda>l. (if is_property key l then Some (assignment key rep) else None) \<noteq> None) ls =
      list_ex (is_property key) ls" by (rule list_ex_cong) auto
  ultimately show ?thesis using assms by (simp add: visit_stateless)
qed

lemma filter_replaced:
  assumes "P a"
  shows "filter P (map (\<lambda>l. if P l then a else l) ls) = replicate (length (filter P ls)) a \<and>
    filter (\<lambda>l. \<not> P l) (map (\<lambda>l. if P l then a else l) ls) = filter (\<lambda>l. \<not> P l) ls"
  using assms by (induction ls) auto

text \<open>Lemma: after the properties parser has set a plain key to a value, reading the file back
  gives at least one line for the key, every one of them is exactly @key=value@, and all
  other lines are the ones the file had, in their order.\<close>

theorem properties_replacement:
  assumes "plain_key key" "\<not> is_object rep" "clean_line (scalar_text rep)"
    and "CHR 0x0D \<notin> set (config_text bytes)" "\<not> ends_with [CHR 0x0A, CHR 0x0A] (config_text bytes)"
  shows "\<exists>n. filter (is_property key) (str_lines (apply_properties_parser bytes [(key, rep)]))
      = replicate (Suc n) (assignment key rep) \<and>
    filter (\<lambda>l. \<not> is_property key l) (str_lines (apply_properties_parser bytes [(key, rep)]))
      = filter (\<lambda>l. \<not> is_property key l) (str_lines (config_text bytes))"
proof -
  let ?a = "assignment key rep" and ?P = "is_property key"
  define ls where "ls = str_lines (config_text bytes)"
  define new where "new = map (\<lambda>l. if ?P l then ?a else l) ls @ (if list_ex ?P ls then [] else [?a])"
  have a: "?P ?a" "clean_line ?a" "?a \<noteq> []"
    using assms(1,3) is_property_assignment by (auto simp: assignment_def clean_line_def plain_key_def)
  have c: "list_all clean_line ls"
    using str_lines_cleanD [OF assms(4)] by (simp add: ls_def list_all_iff)
  then have cn: "list_all clean_line new" using a by (auto simp: new_def list_all_iff)
  have "\<not> ?P []" by (simp add: is_property_def properties_key_def trim_start_no_ws)
  then have "list_ex ?P ls \<Longrightarrow> ls \<noteq> [] \<and> last ls \<noteq> []"
    using last_str_lines [OF assms(4,5)] by (cases "ls = []"; cases "ls = [[]]") (simp_all add: ls_def)
  then have n: "new \<noteq> []" "last new \<noteq> []"
    using a(3) by (auto simp: new_def last_map split: if_splits)
  have "str_lines (apply_properties_parser bytes [(key, rep)]) = new"
    using str_lines_finish [OF cn n]
    by (simp add: apply_properties_parser_def apply_line_parser_def Let_def properties_step_plain [OF assms(2)]
        del: properties_step.simps flip: ls_def new_def)
  moreover have "\<exists>n. filter ?P new = replicate (Suc n) ?a"
  proof (cases "list_ex ?P ls")
    case True
    then obtain n where "length (filter ?P ls) = Suc n"
      by (auto simp: list_ex_iff filter_empty_conv dest!: not0_implies_Suc [rotated])
        (metis filter_empty_conv length_0_conv not0_implies_Suc)
    then show ?thesis using True filter_replaced [of ?P ?a ls] a(1) by (auto simp: new_def)
  next
    case False
    then have "filter ?P ls = []" by (simp add: list_ex_iff filter_empty_conv)
    then show ?thesis using False filter_replaced [of ?P ?a ls] a(1)
      by (auto simp: new_def intro: exI [of _ 0])
  qed
  moreover have "filter (\<lambda>l. \<not> ?P l) new = filter (\<lambda>l. \<not> ?P l) ls"
    using filter_replaced [of ?P ?a ls] a(1) by (simp add: new_def)
  ultimately show ?thesis by (simp add: ls_def)
qed

theorem properties_replacement_witness:
  "\<exists>n. filter (is_property ''port'') (str_lines (apply_properties_parser ''port=1'' [(''port'', JString ''25565'')]))
      = replicate (Suc n) ''port=25565''"
proof -
  have a: "assignment ''port'' (JString ''25565'') = ''port=25565''"
    by (simp add: assignment_def)
  have c: "config_text ''port=1'' = ''port=1''" by code_simp
  have h: "plain_key ''port''" "clean_line (scalar_text (JString ''25565''))"
    "CHR 0x0D \<notin> set (config_text ''port=1'')" "\<not> ends_with [CHR 0x0A, CHR 0x0A] (config_text ''port=1'')"
    unfolding c
    by (simp_all add: plain_key_def clean_line_def key_separator_def in_range_def ends_with_def)
  have o: "\<not> is_object (JString ''25565'')" by (simp add: is_object_def)
  show ?thesis using properties_replacement [OF h(1) o h(2-4)] unfolding a by blast
qed

subsection \<open>What the ini parser leaves\<close>

definition entry_key :: "string \<Rightarrow> string option" where
  "entry_key l = map_option (\<lambda>(k, _). trim k) (split_once_separator (trim l))"

text \<open>The lines of a section that set a key, reading from inside a section.\<close>

fun entries_from :: "string \<Rightarrow> string \<Rightarrow> string \<Rightarrow> string list \<Rightarrow> string list" where
  "entries_from cur sec key [] = []"
| "entries_from cur sec key (l # ls) =
     (if is_header l then entries_from (header_name l) sec key ls
      else (if cur = sec \<and> entry_key l = Some key then [l] else []) @ entries_from cur sec key ls)"

definition ini_entries :: "string \<Rightarrow> string \<Rightarrow> string list \<Rightarrow> string list" where
  "ini_entries = entries_from []"

fun section_after :: "string \<Rightarrow> string list \<Rightarrow> string" where
  "section_after cur [] = cur"
| "section_after cur (l # ls) = section_after (if is_header l then header_name l else cur) ls"

lemma entries_append:
  "entries_from cur sec key (xs @ ys) =
     entries_from cur sec key xs @ entries_from (section_after cur xs) sec key ys"
  by (induction xs arbitrary: cur) auto

lemma section_after_append: "section_after cur (xs @ ys) = section_after (section_after cur xs) ys"
  by (induction xs arbitrary: cur) auto

lemma section_after_plain: "list_all (\<lambda>l. \<not> is_header l) xs \<Longrightarrow> section_after cur xs = cur"
  by (induction xs) auto

definition plain_ini_key :: "string \<Rightarrow> bool" where
  "plain_ini_key k \<longleftrightarrow>
     k \<noteq> [] \<and> \<not> list_ex key_separator k \<and> ws_head k = 0 \<and> ws_last (rev k) = 0 \<and> hd k \<noteq> CHR ''[''"

lemma ws_head_stop:
  assumes "c = CHR ''='' \<or> c = CHR '']''"
  shows "ws_head (c # r) = 0" "ws_head [a, c] \<noteq> 2" "ws_head [a, c, b] \<noteq> 3" "ws_head [a, b, c] \<noteq> 3"
  by (rule disjE [OF assms]; simp add: in_range_def split: list.split)+

lemma ws_last_stop: "c = CHR ''='' \<or> c = CHR '']'' \<Longrightarrow> ws_last (c # r) = 0"
  by (simp add: ws_head_stop del: ws_head.simps split: list.split)

lemma ws_last_le: "ws_last (a @ c # r) \<le> length a" if c: "c = CHR ''='' \<or> c = CHR '']''"
proof -
  consider "a = []" | x where "a = [x]" | x y where "a = [x, y]" | "3 \<le> length a"
    by (cases a; cases "tl a"; cases "tl (tl a)") auto
  then show ?thesis
  proof cases
    case 1
    then show ?thesis using ws_last_stop [OF c] by simp
  next
    case 4
    have "ws_last s \<le> 3" for s
      by (cases s) (simp_all del: ws_head.simps split: list.split)
    with 4 show ?thesis by (meson le_trans)
  qed (simp_all add: ws_head_stop [OF c] del: ws_head.simps split: list.split)
qed

lemma trim_end_rev_stop:
  assumes "c = CHR ''='' \<or> c = CHR '']''"
  shows "\<exists>a'. trim_end_rev (a @ c # r) = a' @ c # r"
proof (induction "length a" arbitrary: a rule: less_induct)
  case less
  show ?case
  proof (cases "ws_last (a @ c # r) = 0")
    case True
    then show ?thesis by (subst trim_end_rev.simps) auto
  next
    case False
    let ?n = "ws_last (a @ c # r)"
    have n: "?n \<le> length a" using ws_last_le [OF assms] .
    then have "drop ?n (a @ c # r) = drop ?n a @ c # r" by simp
    moreover have "length (drop ?n a) < length a" using False n by simp
    ultimately show ?thesis using less [of "drop ?n a"] False by (subst trim_end_rev.simps) auto
  qed
qed

lemma trim_assignment:
  assumes "ws_head k = 0" "k \<noteq> []"
  shows "\<exists>v'. trim (k @ CHR ''='' # v) = k @ CHR ''='' # v'"
proof -
  have "trim_start (k @ CHR ''='' # v) = k @ CHR ''='' # v"
    using ws_head_equals [OF assms] by (rule trim_start_no_ws)
  moreover obtain a' where "trim_end_rev (rev v @ CHR ''='' # rev k) = a' @ CHR ''='' # rev k"
    using trim_end_rev_stop by blast
  ultimately show ?thesis by (auto simp: trim_def trim_end_def)
qed

lemma trim_bracket: "trim (''['' @ s @ '']'') = ''['' @ s @ '']''"
proof -
  have "ws_head (''['' @ s @ '']'') = 0"
    by (auto simp: in_range_def split: list.splits)
  then have "trim_start (''['' @ s @ '']'') = ''['' @ s @ '']''" by (rule trim_start_no_ws)
  moreover have "trim_end_rev (CHR '']'' # r) = CHR '']'' # r" for r
    by (subst trim_end_rev.simps) (simp add: ws_last_stop del: ws_last.simps)
  ultimately show ?thesis by (simp add: trim_def trim_end_def)
qed

lemma trim_plain: "ws_head k = 0 \<Longrightarrow> ws_last (rev k) = 0 \<Longrightarrow> trim k = k"
  by (simp add: trim_def trim_end_def trim_start_no_ws trim_end_rev.simps)

lemma takeWhile_key:
  "\<not> list_ex P k \<Longrightarrow> P c \<Longrightarrow> takeWhile (\<lambda>x. \<not> P x) (k @ c # v) = k \<and> dropWhile (\<lambda>x. \<not> P x) (k @ c # v) = c # v"
  by (induction k) auto

lemma assignment_entry:
  assumes "plain_ini_key k"
  shows "entry_key (assignment k rep) = Some k \<and> \<not> is_header (assignment k rep)"
proof -
  obtain v' where v: "trim (assignment k rep) = k @ CHR ''='' # v'"
    using trim_assignment assms unfolding plain_ini_key_def assignment_def by fastforce
  have h: "hd (k @ CHR ''='' # v') \<noteq> CHR ''[''" using assms by (simp add: plain_ini_key_def)
  have "split_once_separator (k @ CHR ''='' # v') = Some (k, v')"
    using takeWhile_key [of key_separator k "CHR ''=''" v'] assms
    by (simp add: split_once_separator_def plain_ini_key_def key_separator_def)
  moreover have "trim k = k" using assms by (simp add: plain_ini_key_def trim_plain)
  ultimately show ?thesis
    using h starts_hd [of "k @ CHR ''='' # v'" "CHR ''[''"] by (simp add: entry_key_def is_header_def v)
qed

lemma ini_visit_plain:
  assumes "\<not> is_object rep"
  shows "ini_visit sec key rep cur l =
    (if is_header l then (header_name l, None)
     else (cur, if cur = sec \<and> entry_key l = Some key then Some (assignment key rep) else None))"
  by (auto simp: ini_visit_def entry_key_def replacement_plain [OF assms] split: option.splits)

lemma visit_entries:
  assumes r: "\<not> is_object rep" and k: "plain_ini_key key"
    and v: "visit_lines (ini_visit sec key rep) cur ls = (ls', b)"
  shows "b = (entries_from cur sec key ls \<noteq> []) \<and>
    entries_from cur sec key ls' = replicate (length (entries_from cur sec key ls)) (assignment key rep) \<and>
    ((sec', key') \<noteq> (sec, key) \<longrightarrow> entries_from cur sec' key' ls' = entries_from cur sec' key' ls)"
  using v
proof (induction ls arbitrary: cur ls' b)
  case (Cons l ls)
  note a = assignment_entry [OF k, of rep]
  note vs = ini_visit_plain [OF r, of sec key cur l]
  obtain ls1 b1 where 1: "visit_lines (ini_visit sec key rep) (if is_header l then header_name l else cur) ls = (ls1, b1)"
    by fastforce
  note IH = Cons.IH [OF 1]
  have e: "ls' = (if \<not> is_header l \<and> cur = sec \<and> entry_key l = Some key then assignment key rep else l) # ls1"
    "b = (\<not> is_header l \<and> cur = sec \<and> entry_key l = Some key \<or> b1)"
    using Cons.prems 1 by (auto simp: vs split: if_splits)
  show ?case unfolding e using IH a by auto
qed auto

lemma find_index_SomeD:
  "find_index P xs = Some i \<Longrightarrow> i < length xs \<and> P (xs ! i) \<and> list_all (\<lambda>x. \<not> P x) (take i xs)"
  by (induction xs arbitrary: i) (auto split: if_splits)

lemma find_index_None: "find_index P xs = None \<longleftrightarrow> list_all (\<lambda>x. \<not> P x) xs"
  by (induction xs) auto

lemma entries_insert:
  assumes k: "plain_ini_key key" and s: "section_after cur (take i ls) = sec"
  shows "entries_from cur sec' key' (insert_at i (assignment key rep) ls) =
    entries_from cur sec' key' (take i ls) @
    (if sec' = sec \<and> key' = key then [assignment key rep] else []) @
    entries_from sec sec' key' (drop i ls)"
  using assignment_entry [OF k, of rep] s by (simp add: insert_at_def entries_append)

lemma entries_take_drop:
  "section_after cur (take i ls) = sec \<Longrightarrow>
   entries_from cur sec' key' ls = entries_from cur sec' key' (take i ls) @ entries_from sec sec' key' (drop i ls)"
  by (metis append_take_drop_id entries_append)

lemma append_entries:
  assumes k: "plain_ini_key key" and none: "entries_from [] sec key ls = []"
  shows "entries_from [] sec key (ini_append sec key rep ls) = [assignment key rep] \<and>
    ((sec', key') \<noteq> (sec, key) \<longrightarrow>
      entries_from [] sec' key' (ini_append sec key rep ls) = entries_from [] sec' key' ls)"
proof -
  have ins: ?thesis if "section_after [] (take i ls) = sec"
    "ini_append sec key rep ls = insert_at i (assignment key rep) ls" for i
    using none entries_take_drop [OF that(1)] unfolding that(2) entries_insert [OF k that(1)]
    by auto
  show ?thesis
  proof (cases "sec = []")
    case True
    define i where "i = (case find_index is_header ls of Some i \<Rightarrow> i | None \<Rightarrow> length ls)"
    have "list_all (\<lambda>l. \<not> is_header l) (take i ls)"
      by (auto simp: i_def find_index_None dest: find_index_SomeD split: option.splits)
    then have "section_after [] (take i ls) = sec" using True by (simp add: section_after_plain)
    then show ?thesis by (rule ins) (simp add: ini_append_def True i_def)
  next
    case False
    define h where "h = ''['' @ sec @ '']''"
    have hd: "is_header l \<and> header_name l = sec" if "trim l = h" for l
      using that by (simp add: is_header_def header_name_def h_def ends_with_iff)
    show ?thesis
    proof (cases "find_index (\<lambda>l. trim l = h) ls")
      case (Some start)
      define i where "i = (case find_index is_header (drop (start + 1) ls) of
          Some offset \<Rightarrow> start + 1 + offset | None \<Rightarrow> length ls)"
      have st: "start < length ls" "trim (ls ! start) = h" using find_index_SomeD [OF Some] by auto
      obtain n where n: "take i ls = take start ls @ [ls ! start] @ take n (drop (start + 1) ls)"
        "list_all (\<lambda>l. \<not> is_header l) (take n (drop (start + 1) ls))"
      proof (cases "find_index is_header (drop (start + 1) ls)")
        case None
        then have "take i ls = take start ls @ [ls ! start] @ drop (start + 1) ls"
          using st(1) by (simp add: i_def id_take_nth_drop [symmetric])
        then show thesis using that [of "length ls"] None by (simp add: find_index_None)
      next
        case (Some n)
        then have "take i ls = take (start + 1) ls @ take n (drop (start + 1) ls)"
          using take_add [of "start + 1" n ls] by (simp add: i_def)
        then show thesis using that [of n] find_index_SomeD [OF Some] st(1)
          by (simp add: take_Suc_conv_app_nth)
      qed
      have "section_after [] (take i ls) = sec"
        unfolding n(1) using hd [OF st(2)] n(2) by (simp add: section_after_append section_after_plain)
      then show ?thesis by (rule ins) (simp only: ini_append_def False if_False Let_def h_def [symmetric] Some option.case i_def)
    next
      case None
      define pad where "pad = (if ls \<noteq> [] \<and> last ls \<noteq> [] then [[]] else ([] :: string list))"
      have e: "\<not> is_header []" "entry_key [] = None"
        by (simp_all add: is_header_def entry_key_def trim_plain split_once_separator_def)
      have "ini_append sec key rep ls = ls @ pad @ [h, assignment key rep]"
        by (simp only: ini_append_def False if_False Let_def h_def [symmetric] None option.case pad_def)
      moreover have "is_header h \<and> header_name h = sec" by (rule hd) (simp only: h_def trim_bracket)
      ultimately show ?thesis
        using none assignment_entry [OF k, of rep] e by (auto simp: entries_append pad_def)
    qed
  qed
qed

text \<open>Lemma: after the ini parser has set a plain key of a section to a value, the section sets
  the key at least once and every such line is exactly @key=value@, and every other key of
  every section has the lines it had, whether the line was replaced, inserted into the
  section, or appended with a new section header.\<close>

theorem ini_replacement:
  assumes "ini_target p = (sec, key)" "plain_ini_key key" "\<not> is_object rep" "(sec', key') \<noteq> (sec, key)"
  shows "\<exists>n. ini_entries sec key (ini_step (p, rep) ls) = replicate (Suc n) (assignment key rep) \<and>
    ini_entries sec' key' (ini_step (p, rep) ls) = ini_entries sec' key' ls"
proof -
  obtain ls' b where v: "visit_lines (ini_visit sec key rep) [] ls = (ls', b)" by fastforce
  note e = visit_entries [OF assms(3,2) v]
  show ?thesis
  proof (cases b)
    case True
    then obtain n where "length (entries_from [] sec key ls) = Suc n"
      using e by (metis length_0_conv not0_implies_Suc)
    then show ?thesis using True e [of sec' key'] assms(1,4) v by (auto simp: ini_entries_def)
  next
    case False
    then have "entries_from [] sec key ls' = []" using e by auto
    from append_entries [OF assms(2) this, of rep sec' key'] show ?thesis
      using False e [of sec' key'] assms(1,3,4) v
      by (auto simp: ini_entries_def intro: exI [of _ 0])
  qed
qed

theorem ini_replacement_witness:
  "\<exists>n. ini_entries ''s'' ''k'' (ini_step (''s.k'', JString ''v'') [''j=1'', ''[s]'', ''j=2'']) =
      replicate (Suc n) (assignment ''k'' (JString ''v'')) \<and>
    ini_entries ''s'' ''j'' (ini_step (''s.k'', JString ''v'') [''j=1'', ''[s]'', ''j=2'']) =
      ini_entries ''s'' ''j'' [''j=1'', ''[s]'', ''j=2'']"
  by (rule ini_replacement)
    (simp_all add: ini_target_def split_once_def plain_ini_key_def key_separator_def in_range_def is_object_def)

end
