(* ===== verification/Config_Structured.thy ===== *)
theory Config_Structured
  imports Json
begin

text \<open>
  @configuration/structured.rs@: replacing the value a dotted path names inside a JSON or
  YAML document, creating the objects and arrays on the way.  The readers and printers of
  the two formats and of floating point text are parameters.
\<close>

datatype path_segment = Key string | Index nat | Wildcard

text \<open>The loop over @[..]@ suffixes of one part; text that is no number adds no index.\<close>

function bracket_indices :: "string \<Rightarrow> path_segment list" where
  "bracket_indices rest =
     (case strip_prefix ''['' rest of
        None \<Rightarrow> []
      | Some tail \<Rightarrow>
          (case split_once (CHR '']'') tail of
             None \<Rightarrow> []
           | Some (inner, after) \<Rightarrow>
               (case parse_unsigned usize_max inner of Some i \<Rightarrow> [Index i] | None \<Rightarrow> [])
               @ bracket_indices after))"
  by pat_completeness auto
termination
proof (relation "measure length", goal_cases)
  case (2 rest tail p inner after)
  then have "rest = CHR ''['' # tail" by (simp add: strip_prefix_Some)
  moreover have "tail = inner @ CHR '']'' # after" using 2 split_once_Some by metis
  ultimately show ?case by simp
qed simp

declare bracket_indices.simps [simp del]

definition parse_part :: "string \<Rightarrow> path_segment list" where
  "parse_part part =
     (if part = ''*'' then [Wildcard]
      else case str_find ''['' part of
        Some i \<Rightarrow> (if i > 0 then [Key (take i part)] else []) @ bracket_indices (drop i part)
      | None \<Rightarrow> [Key part])"

definition parse_path :: "string \<Rightarrow> path_segment list" where
  "parse_path p = concat (map parse_part (filter (\<lambda>s. s \<noteq> []) (split_on (CHR ''.'') p)))"

definition initial_value :: "path_segment list \<Rightarrow> json" where
  "initial_value rest = (case rest of Index _ # _ \<Rightarrow> JArray [] | _ \<Rightarrow> JObject [])"

definition i64_range :: "int \<Rightarrow> bool" where
  "i64_range i \<longleftrightarrow> - 9223372036854775808 \<le> i \<and> i \<le> 9223372036854775807"

text \<open>@text.parse::<i64>@, then @u64@, then a finite @f64@ given as its printed text.\<close>

fun structured_value :: "(string \<Rightarrow> string option) \<Rightarrow> json \<Rightarrow> json" where
  "structured_value f64 (JString text) =
     (case parse_signed 9223372036854775807 text of
        Some i \<Rightarrow> JInt i
      | None \<Rightarrow>
          (case parse_unsigned usize_max text of
             Some n \<Rightarrow> JInt (int n)
           | None \<Rightarrow> (case f64 text of Some t \<Rightarrow> JFloat t | None \<Rightarrow> JString text)))"
| "structured_value f64 v = v"

fun set_structured_path :: "(string \<Rightarrow> string option) \<Rightarrow> json \<Rightarrow> path_segment list \<Rightarrow> json \<Rightarrow> json" where
  "set_structured_path f64 replacement [] node =
     (case replacement_for_current replacement (scalar_text node) of
        Some v \<Rightarrow> structured_value f64 v
      | None \<Rightarrow> node)"
| "set_structured_path f64 replacement (Wildcard # rest) node =
     (case node of
        JObject kvs \<Rightarrow> JObject (map (\<lambda>(k, child). (k, set_structured_path f64 replacement rest child)) kvs)
      | JArray xs \<Rightarrow> JArray (map (set_structured_path f64 replacement rest) xs)
      | _ \<Rightarrow> node)"
| "set_structured_path f64 replacement (Key key # rest) node =
     (let kvs = (case as_object node of Some kvs \<Rightarrow> kvs | None \<Rightarrow> []);
          child = (case map_of kvs key of Some c \<Rightarrow> c | None \<Rightarrow> initial_value rest)
      in JObject (obj_put key (set_structured_path f64 replacement rest child) kvs))"
| "set_structured_path f64 replacement (Index i # rest) node =
     (let xs = (case as_array node of Some xs \<Rightarrow> xs | None \<Rightarrow> []);
          padded = xs @ replicate (Suc i - length xs) (initial_value rest)
      in JArray (padded[i := set_structured_path f64 replacement rest (padded ! i)]))"

definition apply_structured_replacements :: "(string \<Rightarrow> string option) \<Rightarrow> (string \<times> json) list \<Rightarrow> json \<Rightarrow> json" where
  "apply_structured_replacements f64 finds document =
     fold (\<lambda>(path, replacement). set_structured_path f64 replacement (parse_path path)) finds document"

definition apply_json_parser ::
  "(string \<Rightarrow> json res) \<Rightarrow> (json \<Rightarrow> string res) \<Rightarrow> (string \<Rightarrow> string option) \<Rightarrow> string \<Rightarrow> (string \<times> json) list \<Rightarrow> string res" where
  "apply_json_parser dec enc f64 bytes finds =
     res_bind (res_context ''parse JSON configuration'' (dec bytes)) (\<lambda>document.
       enc (apply_structured_replacements f64 finds document))"

definition apply_yaml_parser ::
  "(string \<Rightarrow> json res) \<Rightarrow> (json \<Rightarrow> string res) \<Rightarrow> (string \<Rightarrow> string option) \<Rightarrow> string \<Rightarrow> (string \<times> json) list \<Rightarrow> string res" where
  "apply_yaml_parser dec enc f64 bytes finds =
     res_bind (res_context ''parse YAML configuration'' (dec bytes)) (\<lambda>document.
       enc (apply_structured_replacements f64 finds document))"

subsection \<open>Reading a path\<close>

text \<open>The value a path without wildcards names.\<close>

fun get_path :: "path_segment list \<Rightarrow> json \<Rightarrow> json option" where
  "get_path [] v = Some v"
| "get_path (Key k # p) (JObject kvs) = Option.bind (map_of kvs k) (get_path p)"
| "get_path (Index i # p) (JArray xs) = (if i < length xs then get_path p (xs ! i) else None)"
| "get_path (s # p) v = None"

definition wildcard_free :: "path_segment list \<Rightarrow> bool" where
  "wildcard_free p \<longleftrightarrow> Wildcard \<notin> set p"

lemma wildcard_free_Cons [simp]: "wildcard_free (s # p) \<longleftrightarrow> s \<noteq> Wildcard \<and> wildcard_free p"
  by (auto simp: wildcard_free_def)

lemma initial_value_cases: "initial_value p = JArray [] \<or> initial_value p = JObject []"
  by (simp add: initial_value_def split: list.splits path_segment.splits)

lemma wf_structured_value: "wf_json v \<Longrightarrow> wf_json (structured_value f v)"
  by (cases v) (auto split: option.splits)

lemma wf_replacement: "wf_json r \<Longrightarrow> replacement_for_current r c = Some v \<Longrightarrow> wf_json v"
proof (cases r)
  case (JObject kvs)
  assume "wf_json r" "replacement_for_current r c = Some v"
  then show ?thesis using JObject by (auto intro: map_of_values)
qed auto

lemma wf_initial: "wf_json (initial_value p)"
  using initial_value_cases [of p] by auto

lemma wf_set_path: "wf_json r \<Longrightarrow> wf_json node \<Longrightarrow> wf_json (set_structured_path f r p node)"
proof (induction p arbitrary: node)
  case Nil
  then show ?case by (auto simp: wf_structured_value wf_replacement split: option.splits)
next
  case (Cons s p)
  have IH: "wf_json n \<Longrightarrow> wf_json (set_structured_path f r p n)" for n using Cons by simp
  show ?case
  proof (cases s)
    case (Key k)
    define kvs where "kvs = (case as_object node of Some kvs \<Rightarrow> kvs | None \<Rightarrow> [])"
    have o: "sorted_keys (map fst kvs)" "list_all wf_json (map snd kvs)"
      using Cons.prems(2) by (cases node; simp add: kvs_def)+
    have "wf_json (case map_of kvs k of Some c \<Rightarrow> c | None \<Rightarrow> initial_value p)"
      using o(2) by (auto simp: wf_initial split: option.splits intro: map_of_values)
    from IH [OF this] o show ?thesis
      unfolding Key by (simp add: Let_def flip: kvs_def) (simp add: sorted_obj_put values_obj_put)
  next
    case (Index i)
    have a: "list_all wf_json ((case as_array node of Some xs \<Rightarrow> xs | None \<Rightarrow> []) @
        replicate n (initial_value p))" for n
      using Cons.prems(2) by (cases node) (auto simp: list_all_iff wf_initial)
    have u: "list_all wf_json xs \<Longrightarrow> wf_json x \<Longrightarrow> list_all wf_json (xs[i := x])" for xs x
      by (auto simp: list_all_iff dest: set_update_subset_insert [THEN subsetD])
    have "wf_json (((case as_array node of Some xs \<Rightarrow> xs | None \<Rightarrow> []) @
        replicate (Suc i - length (case as_array node of Some xs \<Rightarrow> xs | None \<Rightarrow> [])) (initial_value p)) ! i)"
      using a [of "Suc i - length (case as_array node of Some xs \<Rightarrow> xs | None \<Rightarrow> [])"]
      by (simp add: list_all_length del: list_all_append)
    then show ?thesis using a u IH Index by (simp add: Let_def del: list_all_append)
  next
    case Wildcard
    show ?thesis
    proof (cases node)
      case (JObject kvs)
      have "map fst (map (\<lambda>(k, c). (k, g k c)) kvs) = map fst kvs" for g by (induction kvs) auto
      then show ?thesis using Cons.prems(2) JObject Wildcard IH
        by (auto simp: list_all_iff o_def case_prod_beta)
    qed (use Cons.prems(2) Wildcard IH in \<open>auto simp: list_all_iff\<close>)
  qed
qed

lemma get_set_path:
  assumes "wildcard_free p" "\<not> is_object r"
  shows "get_path p (set_structured_path f r p node) = Some (structured_value f r)"
  using assms(1)
proof (induction p arbitrary: node)
  case Nil
  then show ?case using assms(2) by (simp add: replacement_plain)
next
  case (Cons s p)
  then show ?case by (cases s) (auto simp: Let_def)
qed

text \<open>A step beside a path: another key of the same object, another index of the same array.\<close>

fun beside :: "path_segment \<Rightarrow> path_segment \<Rightarrow> bool" where
  "beside (Key a) (Key b) = (a \<noteq> b)"
| "beside (Index i) (Index j) = (i \<noteq> j)"
| "beside _ _ = False"

fun accepts_segment :: "path_segment \<Rightarrow> json \<Rightarrow> bool" where
  "accepts_segment (Key k) v = is_object v"
| "accepts_segment (Index i) v = (case v of JArray xs \<Rightarrow> i < length xs | _ \<Rightarrow> False)"
| "accepts_segment Wildcard v = False"

lemma get_set_beside:
  assumes "wildcard_free pre" "beside a b" "get_path pre doc = Some v" "accepts_segment b v"
  shows "get_path (pre @ b # q) (set_structured_path f r (pre @ a # p) doc) = get_path (pre @ b # q) doc"
  using assms(1,3)
proof (induction pre arbitrary: doc)
  case Nil
  then show ?case using assms(2,4)
    by (cases a; cases b; cases v) (auto simp: Let_def is_object_def nth_append)
next
  case (Cons s pre)
  then show ?case
    by (cases s; cases doc) (auto simp: Let_def nth_append bind_eq_Some_conv split: if_splits)
qed

text \<open>C9: replacing what a path without wildcards names by a value that is not a choice
  object makes the path name that value (a numeric string becomes its number), leaves every
  place beside the path in an object or array the document already has as it was, and keeps
  the document's objects ordered without duplicate keys.\<close>

theorem structured_replacement:
  assumes "wildcard_free (parse_path path)" "\<not> is_object replacement" "wf_json replacement" "wf_json doc"
    and "parse_path path = pre @ a # p" "beside a b" "get_path pre doc = Some v" "accepts_segment b v"
  shows "get_path (parse_path path) (apply_structured_replacements f64 [(path, replacement)] doc) =
      Some (structured_value f64 replacement) \<and>
    get_path (pre @ b # q) (apply_structured_replacements f64 [(path, replacement)] doc) =
      get_path (pre @ b # q) doc \<and>
    wf_json (apply_structured_replacements f64 [(path, replacement)] doc)"
proof -
  have pre: "wildcard_free pre" using assms(1,5) by (simp add: wildcard_free_def)
  show ?thesis
    using get_set_path [OF assms(1,2)] wf_set_path [OF assms(3,4)]
      get_set_beside [OF pre assms(6-8)]
    by (simp add: apply_structured_replacements_def assms(5))
qed

theorem structured_replacement_witness:
  "get_path [Key ''a'', Index 1] (apply_structured_replacements (\<lambda>_. None) [(''a[1]'', JString ''25565'')]
      (JObject [(''a'', JArray [JBool True])])) = Some (JInt 25565) \<and>
   get_path [Key ''a'', Index 0] (apply_structured_replacements (\<lambda>_. None) [(''a[1]'', JString ''25565'')]
      (JObject [(''a'', JArray [JBool True])])) = Some (JBool True)"
proof -
  have p: "parse_path ''a[1]'' = [Key ''a''] @ Index 1 # []"
    by (simp add: parse_path_def parse_part_def bracket_indices.simps strip_prefix_def split_once_def
        parse_unsigned_def parse_digits_def is_digit_def digit_val_def usize_max_def)
  have s: "structured_value (\<lambda>_. None) (JString ''25565'') = JInt 25565"
    by (simp add: parse_signed_def parse_digits_def is_digit_def digit_val_def)
  have w: "wildcard_free (parse_path ''a[1]'')" "\<not> is_object (JString ''25565'')" "wf_json (JString ''25565'')"
    "wf_json (JObject [(''a'', JArray [JBool True])])"
    by (simp_all add: p is_object_def wildcard_free_def)
  have g: "get_path [Key ''a''] (JObject [(''a'', JArray [JBool True])]) = Some (JArray [JBool True])" by simp
  have b: "beside (Index 1) (Index 0)" "accepts_segment (Index 0) (JArray [JBool True])" by simp_all
  show ?thesis
    using structured_replacement [OF w p b(1) g b(2), of "\<lambda>_. None" "[]"] unfolding p s by simp
qed

text \<open>
  A choice object that has no entry for the current value still creates the place the path
  names, as an empty object.
\<close>

lemma choice_creates_empty_object:
  assumes "map_of options ''{}'' = None"
  shows "get_path [Key k] (set_structured_path f (JObject options) [Key k] (JObject [])) = Some (JObject [])"
  using assms by (simp add: Let_def initial_value_def)

end
