(* ===== verification/Config_Xml.thy ===== *)
theory Config_Xml
  imports Json "HOL-Library.AList"
begin

text \<open>
  @configuration/xml.rs@: replacing text or attributes of the elements a dotted path names.
  An @Element@ has the fields the code reads or sets; parsing, printing and @get_text@ of
  the @xmltree@ library are parameters.
\<close>

datatype xml_element = Element string "(string \<times> string) list" "xml_node list"
  and xml_node =
      XElement xml_element
    | XText string
    | XCData string
    | XComment string
    | XProcessing string "string option"

fun element_name :: "xml_element \<Rightarrow> string" where "element_name (Element n as cs) = n"
fun element_attributes :: "xml_element \<Rightarrow> (string \<times> string) list" where "element_attributes (Element n as cs) = as"
fun element_children :: "xml_element \<Rightarrow> xml_node list" where "element_children (Element n as cs) = cs"

definition element_new :: "string \<Rightarrow> xml_element" where "element_new n = Element n [] []"

definition xml_attribute_replacement :: "string \<Rightarrow> (string \<times> string) option" where
  "xml_attribute_replacement val =
     Option.bind (strip_prefix ''['' val) (\<lambda>v.
     Option.bind (strip_suffix '']'' v) (\<lambda>inner.
     Option.bind (split_once (CHR ''='') inner) (\<lambda>(key, v).
     Option.bind (strip_prefix [CHR 0x27] v) (\<lambda>v.
     Option.bind (strip_suffix [CHR 0x27] v) (\<lambda>v. Some (key, v))))))"

fun is_text_node :: "xml_node \<Rightarrow> bool" where
  "is_text_node (XText s) = True"
| "is_text_node (XCData s) = True"
| "is_text_node _ = False"

fun set_xml_value :: "(xml_element \<Rightarrow> string option) \<Rightarrow> json \<Rightarrow> xml_element \<Rightarrow> xml_element" where
  "set_xml_value get_text rep (Element n as cs) =
     (let current = (case get_text (Element n as cs) of Some t \<Rightarrow> t | None \<Rightarrow> []) in
      case replacement_for_current rep current of
        None \<Rightarrow> Element n as cs
      | Some v \<Rightarrow>
          (case xml_attribute_replacement (scalar_text v) of
             Some (attr, v') \<Rightarrow> Element n (AList.update attr v' as) cs
           | None \<Rightarrow> Element n as (filter (\<lambda>c. \<not> is_text_node c) cs @ [XText (scalar_text v)])))"

text \<open>An element child with the given name.\<close>

fun is_element :: "string \<Rightarrow> xml_node \<Rightarrow> bool" where
  "is_element part (XElement e) = (element_name e = part)"
| "is_element part _ = False"

fun map_element :: "(xml_element \<Rightarrow> xml_element) \<Rightarrow> xml_node \<Rightarrow> xml_node" where
  "map_element f (XElement e) = XElement (f e)"
| "map_element f n = n"

fun set_xml_path :: "(xml_element \<Rightarrow> string option) \<Rightarrow> json \<Rightarrow> string list \<Rightarrow> xml_element \<Rightarrow> xml_element" where
  "set_xml_path gt rep [] e = set_xml_value gt rep e"
| "set_xml_path gt rep (part # rest) e =
     (case e of Element n as cs \<Rightarrow>
        if part = ''*'' then Element n as (map (map_element (set_xml_path gt rep rest)) cs)
        else if \<not> list_ex (is_element part) cs
        then Element n as (cs @ [XElement (set_xml_path gt rep rest (element_new part))])
        else Element n as
          (map (\<lambda>c. if is_element part c then map_element (set_xml_path gt rep rest) c else c) cs))"

definition xml_replace :: "(xml_element \<Rightarrow> string option) \<Rightarrow> string \<times> json \<Rightarrow> xml_element \<Rightarrow> xml_element" where
  "xml_replace gt pr root =
     (let parts = filter (\<lambda>p. p \<noteq> []) (split_on (CHR ''.'') (fst pr)) in
      case parts of
        [] \<Rightarrow> root
      | p # ps \<Rightarrow> set_xml_path gt (snd pr) (if p = element_name root then ps else parts) root)"

definition apply_xml_parser ::
  "(string \<Rightarrow> xml_element res) \<Rightarrow> (xml_element \<Rightarrow> string res) \<Rightarrow> (xml_element \<Rightarrow> string option) \<Rightarrow>
   string \<Rightarrow> (string \<times> json) list \<Rightarrow> string res" where
  "apply_xml_parser parse write gt bytes finds =
     res_bind (res_context ''parse XML configuration'' (parse bytes)) (\<lambda>root.
       write (fold (xml_replace gt) finds root))"

subsection \<open>What a path names afterwards\<close>

fun element_of :: "xml_node \<Rightarrow> xml_element list" where
  "element_of (XElement e) = [e]"
| "element_of _ = []"

definition children_named :: "string \<Rightarrow> xml_element \<Rightarrow> xml_element list" where
  "children_named part e = concat (map element_of (filter (is_element part) (element_children e)))"

fun elements_at :: "string list \<Rightarrow> xml_element \<Rightarrow> xml_element list" where
  "elements_at [] e = [e]"
| "elements_at (p # ps) e = concat (map (elements_at ps) (children_named p e))"

lemma element_name_set [simp]: "element_name (set_xml_path gt rep path e) = element_name e"
  by (cases path; cases e) (auto simp: Let_def split: option.splits)

lemma children_set_path:
  assumes "part \<noteq> ''*''"
  shows "children_named part (set_xml_path gt rep (part # rest) e) =
    map (set_xml_path gt rep rest)
      (if children_named part e = [] then [element_new part] else children_named part e)"
proof -
  obtain n as cs where e: "e = Element n as cs" by (cases e)
  let ?f = "set_xml_path gt rep rest"
  have 1: "concat (map element_of (filter (is_element part)
      (map (\<lambda>c. if is_element part c then map_element ?f c else c) cs))) =
    map ?f (concat (map element_of (filter (is_element part) cs)))"
  proof (induction cs)
    case (Cons c cs)
    then show ?case by (cases c) auto
  qed simp
  have 2: "list_ex (is_element part) cs \<longleftrightarrow> concat (map element_of (filter (is_element part) cs)) \<noteq> []"
  proof (induction cs)
    case (Cons c cs)
    then show ?case by (cases c) auto
  qed simp
  show ?thesis
    using assms 1 2 by (auto simp: e children_named_def element_new_def)
qed

text \<open>The tree with the elements of a path appended where they are missing.\<close>

fun grown :: "string list \<Rightarrow> xml_element \<Rightarrow> xml_element" where
  "grown [] e = e"
| "grown (p # ps) (Element n as cs) =
     (if list_ex (is_element p) cs
      then Element n as (map (\<lambda>c. if is_element p c then map_element (grown ps) c else c) cs)
      else Element n as (cs @ [XElement (grown ps (Element p [] []))]))"

text \<open>Everything but the elements that a path names, which are blanked.\<close>

fun surroundings :: "string list \<Rightarrow> xml_element \<Rightarrow> xml_element" where
  "surroundings [] e = Element [] [] []"
| "surroundings (p # ps) (Element n as cs) =
     Element n as (map (\<lambda>c. if is_element p c then map_element (surroundings ps) c else c) cs)"

lemma element_name_grown [simp]: "element_name (grown path e) = element_name e"
  by (cases path; cases e) auto

lemma named_map:
  assumes "\<And>x. element_name (f x) = element_name x"
  shows "concat (map element_of (filter (is_element p) (map (\<lambda>c. if is_element p c then map_element f c else c) cs))) =
    map f (concat (map element_of (filter (is_element p) cs)))"
proof (induction cs)
  case (Cons c cs)
  then show ?case by (cases c) (auto simp: assms)
qed simp

lemma named_ex: "list_ex (is_element p) cs \<longleftrightarrow> concat (map element_of (filter (is_element p) cs)) \<noteq> []"
proof (induction cs)
  case (Cons c cs)
  then show ?case by (cases c) auto
qed simp

lemma children_grown:
  "children_named p (grown (p # path) e) =
    map (grown path) (if children_named p e = [] then [element_new p] else children_named p e)"
  by (cases e) (auto simp: children_named_def named_map named_ex element_new_def)

lemma map_surroundings:
  assumes "\<And>x. surroundings ps (f x) = surroundings ps (g x)"
    and "\<And>x. element_name (f x) = element_name x" "\<And>x. element_name (g x) = element_name x"
  shows "map (\<lambda>c. if is_element p c then map_element (surroundings ps) c else c)
      (map (\<lambda>c. if is_element p c then map_element f c else c) cs) =
    map (\<lambda>c. if is_element p c then map_element (surroundings ps) c else c)
      (map (\<lambda>c. if is_element p c then map_element g c else c) cs)"
proof (induction cs)
  case (Cons c cs)
  then show ?case by (cases c) (auto simp: assms)
qed simp

lemma surroundings_set_path:
  assumes "''*'' \<notin> set path"
  shows "surroundings path (set_xml_path gt rep path e) = surroundings path (grown path e)"
  using assms
proof (induction path arbitrary: e)
  case (Cons p path)
  obtain n as cs where e: "e = Element n as cs" by (cases e)
  have IH: "surroundings path (set_xml_path gt rep path x) = surroundings path (grown path x)" for x
    using Cons by simp
  note m = map_surroundings [of path "set_xml_path gt rep path" "grown path", OF IH element_name_set element_name_grown]
  show ?case using Cons.prems m IH by (auto simp: e element_new_def)
qed simp

lemma elements_set_path:
  assumes "''*'' \<notin> set path"
  shows "elements_at path (set_xml_path gt rep path e) = map (set_xml_value gt rep) (elements_at path (grown path e))"
  using assms
proof (induction path arbitrary: e)
  case (Cons p path)
  define es where "es = (if children_named p e = [] then [element_new p] else children_named p e)"
  have "elements_at path (set_xml_path gt rep path x) = map (set_xml_value gt rep) (elements_at path (grown path x))" for x
    using Cons by simp
  moreover have "children_named p (set_xml_path gt rep (p # path) e) = map (set_xml_path gt rep path) es"
    using children_set_path [of p gt rep path e] Cons.prems unfolding es_def by auto
  ultimately show ?case
    unfolding elements_at.simps children_grown es_def [symmetric] by (simp add: map_concat o_def)
qed simp

lemma elements_grown: "elements_at path (grown path e) \<noteq> []"
proof (induction path arbitrary: e)
  case (Cons p path)
  then show ?case unfolding elements_at.simps children_grown by (auto simp: neq_Nil_conv)
qed simp

text \<open>A value of the form @[a='v']@, where the name has no equals sign.\<close>

definition attribute_form :: "string \<Rightarrow> string \<Rightarrow> string \<Rightarrow> bool" where
  "attribute_form s a v \<longleftrightarrow> CHR ''='' \<notin> set a \<and> s = ''['' @ a @ ''='' @ [CHR 0x27] @ v @ [CHR 0x27] @ '']''"

lemma attribute_replacement_iff: "xml_attribute_replacement s = Some (a, v) \<longleftrightarrow> attribute_form s a v"
  by (auto simp: xml_attribute_replacement_def attribute_form_def bind_eq_Some_conv strip_prefix_Some strip_suffix_Some
      split_once_Some)

text \<open>
  What becomes of a named element: its attribute is set and all else kept, or the value takes the
  place of its texts, behind its other children, and its attributes are kept.
\<close>

definition replaced_element :: "json \<Rightarrow> xml_element \<Rightarrow> xml_element \<Rightarrow> bool" where
  "replaced_element rep e e' \<longleftrightarrow> element_name e' = element_name e \<and>
     (\<forall>a v. attribute_form (scalar_text rep) a v \<longrightarrow> element_children e' = element_children e \<and>
        map_of (element_attributes e') = (map_of (element_attributes e))(a \<mapsto> v)) \<and>
     ((\<nexists>a v. attribute_form (scalar_text rep) a v) \<longrightarrow> element_attributes e' = element_attributes e \<and>
        element_children e' =
          filter (\<lambda>c. case c of XText t \<Rightarrow> False | XCData t \<Rightarrow> False | _ \<Rightarrow> True) (element_children e) @
          [XText (scalar_text rep)])"

lemma set_value_replaced:
  assumes "\<not> is_object rep"
  shows "replaced_element rep e (set_xml_value gt rep e)"
proof -
  have texts: "(\<lambda>c. \<not> is_text_node c) = (\<lambda>c. case c of XText t \<Rightarrow> False | XCData t \<Rightarrow> False | _ \<Rightarrow> True)"
    by (rule ext) (simp split: xml_node.split)
  show ?thesis
  proof (cases "xml_attribute_replacement (scalar_text rep)")
    case None
    then have "\<not> attribute_form (scalar_text rep) a v" for a v by (metis attribute_replacement_iff option.distinct(1))
    then show ?thesis using assms None by (cases e) (simp add: replaced_element_def texts replacement_plain Let_def)
  next
    case (Some av)
    obtain a v where av: "av = (a, v)" by (cases av)
    then have "attribute_form (scalar_text rep) a' v' \<longleftrightarrow> a' = a \<and> v' = v" for a' v'
      using Some by (auto simp: attribute_replacement_iff [symmetric])
    then show ?thesis
      using assms Some av by (cases e) (auto simp: replaced_element_def replacement_plain Let_def update_conv')
  qed
qed

text \<open>C10: replacing the elements that a path without wildcards names, by a value that is not a
  choice, first appends the elements that are missing, and then changes exactly the named
  elements.  A text takes the place of their texts, behind all their other children, which
  stay; their names and attributes stay too.  A value of the form [a='v'] sets an attribute
  instead and keeps everything else.  The rest of the tree is untouched.\<close>

theorem xml_replacement:
  assumes "''*'' \<notin> set (part # path)" "\<not> is_object rep"
  shows "surroundings (part # path) (set_xml_path gt rep (part # path) root) =
      surroundings (part # path) (grown (part # path) root) \<and>
    elements_at (part # path) (grown (part # path) root) \<noteq> [] \<and>
    list_all2 (replaced_element rep) (elements_at (part # path) (grown (part # path) root))
      (elements_at (part # path) (set_xml_path gt rep (part # path) root))"
  unfolding surroundings_set_path [OF assms(1)] elements_set_path [OF assms(1)] list_all2_map2
  using set_value_replaced [OF assms(2)] elements_grown by (simp add: list_all2_same del: elements_at.simps grown.simps)

theorem xml_replacement_witness:
  "let root = Element ''r'' [(''k'', ''0'')] [XElement (Element ''a'' [(''m'', ''2'')] [XText ''old'', XComment ''c'']), XComment ''d'']
   in element_children (hd (elements_at [''a''] (set_xml_path (\<lambda>_. None) (JString ''1'') [''a''] root))) = [XComment ''c'', XText ''1'']"
proof -
  define root where "root = Element ''r'' [(''k'', ''0'')] [XElement (Element ''a'' [(''m'', ''2'')] [XText ''old'', XComment ''c'']), XComment ''d'']"
  have "''*'' \<notin> set [''a'']" "\<not> is_object (JString ''1'')" by (simp_all add: is_object_def)
  from xml_replacement [OF this, of "\<lambda>_. None" root]
  have "list_all2 (\<lambda>e e'. element_children e' =
      filter (\<lambda>c. case c of XText t \<Rightarrow> False | XCData t \<Rightarrow> False | _ \<Rightarrow> True) (element_children e) @ [XText ''1''])
    (elements_at [''a''] (grown [''a''] root)) (elements_at [''a''] (set_xml_path (\<lambda>_. None) (JString ''1'') [''a''] root))"
    by (auto simp: replaced_element_def attribute_form_def elim!: list_all2_mono
        simp del: elements_at.simps grown.simps set_xml_path.simps)
  moreover have "elements_at [''a''] (grown [''a''] root) = [Element ''a'' [(''m'', ''2'')] [XText ''old'', XComment ''c'']]"
    by (simp add: root_def children_named_def)
  ultimately show ?thesis unfolding root_def [symmetric] Let_def by (auto simp: list_all2_Cons1 simp del: elements_at.simps set_xml_path.simps)
qed

end
