(* ===== verification/Process.thy ===== *)
theory Process
  imports Filesystem
begin

text \<open>
  @core/process.rs@: running another program and turning its end into a result.  The programs
  are a parameter, which sees all earlier requests and the file tree and may change the
  tree; the same goes for a command the Docker engine runs inside a container and for the
  calls of the engine's API.
\<close>

record proc =
  exit_code :: "int option"
  proc_stdout :: string
  proc_stderr :: string

record host =
  h_spawn :: "request list \<Rightarrow> request \<Rightarrow> node \<Rightarrow> (io_kind + proc) \<times> node"
  h_exec :: "request list \<Rightarrow> string \<Rightarrow> string \<Rightarrow> node \<Rightarrow> string res \<times> node"
  h_api :: "request list \<Rightarrow> api_call \<Rightarrow> node \<Rightarrow> (docker_error + unit) \<times> node"
  h_inspect :: "request list \<Rightarrow> string \<Rightarrow> docker_error + container_info"

definition proc_success :: "proc \<Rightarrow> bool" where
  "proc_success p \<longleftrightarrow> exit_code p = Some 0"

text \<open>@output.status.code().unwrap_or(-1)@: a process ended by a signal has no code.\<close>

definition status_text :: "proc \<Rightarrow> string" where
  "status_text p = int_to_string (case exit_code p of Some c \<Rightarrow> c | None \<Rightarrow> - 1)"

definition exit_error :: "string \<Rightarrow> proc \<Rightarrow> error" where
  "exit_error program p =
     Bail (program @ '' exited with '' @ status_text p @ '': '' @ trim (from_utf8_lossy (proc_stderr p)))"

definition perform :: "(request list \<Rightarrow> request \<Rightarrow> node \<Rightarrow> 'a \<times> node) \<Rightarrow> request \<Rightarrow> world \<Rightarrow> 'a \<times> world" where
  "perform answer req w =
     (case answer (w_requests w) req (w_root w) of
        (x, t) \<Rightarrow> (x, set_root t (w\<lparr> w_requests := w_requests w @ [req] \<rparr>)))"

definition spawn :: "host \<Rightarrow> string \<Rightarrow> string list \<Rightarrow> (string \<times> string) list \<Rightarrow> string \<Rightarrow> string \<Rightarrow> proc io" where
  "spawn h program args env input start_message w =
     (case perform (h_spawn h) (Spawn (program # args) env input) w of
        (Inl k, w') \<Rightarrow> (Err (Ctx start_message (Io k)), w')
      | (Inr p, w') \<Rightarrow> (Ok p, w'))"

definition process_run :: "host \<Rightarrow> string \<Rightarrow> string list \<Rightarrow> string io" where
  "process_run h program args =
     io_bind (spawn h program args [] [] (''start '' @ program)) (\<lambda>p.
       if \<not> proc_success p then io_fail (exit_error program p)
       else io_return
         (if proc_stderr p = [] then from_utf8_lossy (proc_stdout p)
          else from_utf8_lossy (proc_stdout p) @ from_utf8_lossy (proc_stderr p)))"

definition process_docker :: "host \<Rightarrow> string list \<Rightarrow> string io" where
  "process_docker h args = process_run h ''docker'' args"

definition process_docker_with_env :: "host \<Rightarrow> string list \<Rightarrow> string \<Rightarrow> string \<Rightarrow> string io" where
  "process_docker_with_env h args key val =
     io_bind (spawn h ''docker'' args [(key, val)] [] ''start docker'') (\<lambda>p.
       if \<not> proc_success p then io_fail (exit_error ''docker'' p)
       else io_return (from_utf8_lossy (proc_stdout p)))"

definition process_docker_with_input :: "host \<Rightarrow> string list \<Rightarrow> string \<Rightarrow> string io" where
  "process_docker_with_input h args input =
     io_bind (spawn h ''docker'' args [] input ''start docker'') (\<lambda>p.
       if \<not> proc_success p then io_fail (exit_error ''docker'' p)
       else io_return (from_utf8_lossy (proc_stdout p)))"

text \<open>@DockerManager::exec@, the command line of a shell in the container.\<close>

definition container_exec :: "host \<Rightarrow> string \<Rightarrow> string \<Rightarrow> string io" where
  "container_exec h sid command w =
     perform (\<lambda>rs _ t. h_exec h rs sid command t) (ContainerExec sid command) w"

text \<open>One call of the Docker Engine API that answers nothing but success, and an inspection.\<close>

definition api :: "host \<Rightarrow> api_call \<Rightarrow> (docker_error + unit) io" where
  "api h call w =
     (case perform (\<lambda>rs _ t. h_api h rs call t) (Api call) w of (r, w') \<Rightarrow> (Ok r, w'))"

definition api_inspect :: "host \<Rightarrow> string \<Rightarrow> (docker_error + container_info) io" where
  "api_inspect h name w =
     (case perform (\<lambda>rs _ t. (h_inspect h rs name, t)) (Api (InspectContainer name)) w of
        (r, w') \<Rightarrow> (Ok r, w'))"

text \<open>The outcome of an API call as a result with a context.\<close>

definition api_result :: "string \<Rightarrow> docker_error + 'a \<Rightarrow> 'a res" where
  "api_result message r = (case r of Inl e \<Rightarrow> Err (Ctx message (docker_error_value e)) | Inr x \<Rightarrow> Ok x)"

subsection \<open>What was asked\<close>

text \<open>The requests a sequence of calls adds, whatever fails.\<close>

definition asks :: "(request \<Rightarrow> bool) \<Rightarrow> 'a io \<Rightarrow> bool" where
  "asks R m \<longleftrightarrow> (\<forall>w. \<exists>rs. w_requests (snd (m w)) = w_requests w @ rs \<and> list_all R rs)"

named_theorems asks_rules \<open>the requests of composed calls\<close>

lemma asks_bind [asks_rules]: "asks R m \<Longrightarrow> (\<And>x. asks R (f x)) \<Longrightarrow> asks R (io_bind m f)"
  unfolding asks_def
proof
  fix w
  assume m: "\<forall>w. \<exists>rs. w_requests (snd (m w)) = w_requests w @ rs \<and> list_all R rs"
    and f: "\<And>x. \<forall>w. \<exists>rs. w_requests (snd (f x w)) = w_requests w @ rs \<and> list_all R rs"
  obtain r w1 where 1: "m w = (r, w1)" by (metis surj_pair)
  obtain rs where rs: "w_requests w1 = w_requests w @ rs" "list_all R rs" using m 1 by (metis snd_conv)
  show "\<exists>rs. w_requests (snd (io_bind m f w)) = w_requests w @ rs \<and> list_all R rs"
  proof (cases r)
    case (Inr x)
    obtain rs' where "w_requests (snd (f x w1)) = w_requests w1 @ rs'" "list_all R rs'" using f by blast
    with rs show ?thesis by (auto simp: io_bind_def 1 Inr intro: exI [of _ "rs @ rs'"])
  qed (use rs 1 in \<open>auto simp: io_bind_def\<close>)
qed

lemma asks_mono: "asks R m \<Longrightarrow> (\<And>r. R r \<Longrightarrow> S r) \<Longrightarrow> asks S m"
  unfolding asks_def by (metis list.pred_mono_strong)

lemma take_fault_requests: "take_fault w = (f, w1) \<Longrightarrow> w_requests w1 = w_requests w"
  by (auto simp: take_fault_def split: list.splits)

lemma set_root_requests [simp]: "w_requests (set_root t w) = w_requests w"
  by (simp add: set_root_def)

lemma io_query_requests [simp]: "w_requests (snd (io_query f w)) = w_requests w"
proof -
  obtain k w1 where t: "take_fault w = (k, w1)" by (metis surj_pair)
  show ?thesis using take_fault_requests [OF t] by (cases k) (auto simp: io_query_def t)
qed

lemma io_tree_requests [simp]: "w_requests (snd (io_tree f w)) = w_requests w"
proof -
  obtain k w1 where t: "take_fault w = (k, w1)" by (metis surj_pair)
  show ?thesis using take_fault_requests [OF t]
    by (cases k; cases "f (w_root w1) (w_cwd w1)") (auto simp: io_tree_def t)
qed

lemma fs_write_requests [simp]: "w_requests (snd (fs_write p c w)) = w_requests w"
proof -
  obtain k w1 where t: "take_fault w = (k, w1)" by (metis surj_pair)
  show ?thesis using take_fault_requests [OF t]
    by (cases k; cases "write_place p (w_root w1) (w_cwd w1)") (auto simp: fs_write_def t Let_def)
qed

lemma asks_simple [asks_rules]:
  "asks R (io_return x)" "asks R (io_fail e)" "asks R (io_lift r)" "asks R (io_query f)" "asks R (io_tree t)"
  "asks R (fs_write p c)"
  by (simp_all add: asks_def io_return_def io_fail_def io_lift_def)

lemma asks_copy [asks_rules]: "asks R (fs_copy a b)"
proof -
  have "asks R (\<lambda>w. fs_write b (F w) w)" for F
    unfolding asks_def using asks_simple(6) [unfolded asks_def] by simp
  then show ?thesis unfolding fs_copy_def fs_read_def by (intro asks_bind asks_simple)
qed

lemma asks_calls [asks_rules]:
  "asks R (fs_read a)" "asks R (fs_canonicalize a)" "asks R (fs_symlink_metadata a)"
  "asks R (fs_metadata a)"
  "asks R (fs_read_dir a)" "asks R (fs_rename a b)" "asks R (fs_remove_file a)"
  "asks R (fs_remove_dir_all a)" "asks R (fs_create_dir_all a)"
  unfolding fs_read_def fs_canonicalize_def fs_symlink_metadata_def fs_metadata_def fs_read_dir_def
    fs_rename_def fs_remove_file_def fs_remove_dir_all_def fs_create_dir_all_def
  by (rule asks_simple)+

lemma asks_wrap [asks_rules]:
  "asks R m \<Longrightarrow> asks R (io_ctx c m)" "asks R m \<Longrightarrow> asks R (io_ignore m)"
  "asks R m \<Longrightarrow> (\<And>e. asks R (h e)) \<Longrightarrow> asks R (io_catch m h)"
proof -
  show "asks R m \<Longrightarrow> asks R (io_ctx c m)" "asks R m \<Longrightarrow> asks R (io_ignore m)"
    by (auto simp: asks_def io_ctx_def io_ignore_def split: prod.splits) (metis snd_conv)
next
  assume m: "asks R m" and h: "\<And>e. asks R (h e)"
  have "asks R (io_bind (\<lambda>w. (Ok (), w)) (\<lambda>_. io_catch m h))"
    unfolding asks_def
  proof
    fix w
    obtain r w1 where 1: "m w = (r, w1)" by (metis surj_pair)
    obtain rs where rs: "w_requests w1 = w_requests w @ rs" "list_all R rs"
      using m 1 unfolding asks_def by (metis snd_conv)
    show "\<exists>rs. w_requests (snd (io_bind (\<lambda>w. (Ok (), w)) (\<lambda>_. io_catch m h) w)) = w_requests w @ rs \<and> list_all R rs"
    proof (cases r)
      case (Inl e)
      obtain rs' where "w_requests (snd (h e w1)) = w_requests w1 @ rs'" "list_all R rs'"
        using h unfolding asks_def by blast
      with rs show ?thesis by (auto simp: io_bind_def io_catch_def 1 Inl intro: exI [of _ "rs @ rs'"])
    qed (use rs 1 in \<open>auto simp: io_bind_def io_catch_def\<close>)
  qed
  then show "asks R (io_catch m h)" by (simp add: asks_def io_bind_def)
qed

lemma asks_try [asks_rules]: "asks R m \<Longrightarrow> asks R (io_try m)"
  by (auto simp: asks_def io_try_def split: prod.splits) (metis snd_conv)

lemma asks_if [asks_rules]: "(c \<Longrightarrow> asks R a) \<Longrightarrow> (\<not> c \<Longrightarrow> asks R b) \<Longrightarrow> asks R (if c then a else b)"
  by simp

lemma perform_requests: "w_requests (snd (perform a r w)) = w_requests w @ [r]"
  by (simp add: perform_def split: prod.splits)

lemma spawn_requests:
  "w_requests (snd (spawn h p args env inp m w)) = w_requests w @ [Spawn (p # args) env inp]"
  using perform_requests [of "h_spawn h" "Spawn (p # args) env inp" w]
  by (cases "perform (h_spawn h) (Spawn (p # args) env inp) w") (auto simp: spawn_def split: sum.split)

lemma asks_spawn [asks_rules]: "R (Spawn (program # args) env input) \<Longrightarrow> asks R (spawn h program args env input m)"
  unfolding asks_def
proof
  fix w assume R: "R (Spawn (program # args) env input)"
  show "\<exists>rs. w_requests (snd (spawn h program args env input m w)) = w_requests w @ rs \<and> list_all R rs"
    using R perform_requests [of "h_spawn h" "Spawn (program # args) env input" w]
    by (auto simp: spawn_def split: prod.splits sum.splits)
qed

lemma asks_exec [asks_rules]: "R (ContainerExec sid command) \<Longrightarrow> asks R (container_exec h sid command)"
  by (simp add: asks_def container_exec_def perform_requests)

lemma asks_api [asks_rules]:
  "R (Api call) \<Longrightarrow> asks R (api h call)" "R (Api (InspectContainer name)) \<Longrightarrow> asks R (api_inspect h name)"
proof -
  have p: "w_requests w' = w_requests w @ [r]" if "perform a r w = (x, w')" for a r w x w'
    using perform_requests [of a r w] that by simp
  show "R (Api call) \<Longrightarrow> asks R (api h call)" "R (Api (InspectContainer name)) \<Longrightarrow> asks R (api_inspect h name)"
    by (auto simp: asks_def api_def api_inspect_def dest!: p split: prod.split)
qed

lemma asks_run [asks_rules]:
  "R (Spawn (program # args) [] []) \<Longrightarrow> asks R (process_run h program args)"
  "R (Spawn (''docker'' # args) [] []) \<Longrightarrow> asks R (process_docker h args)"
  "R (Spawn (''docker'' # args) [(k, v)] []) \<Longrightarrow> asks R (process_docker_with_env h args k v)"
  "R (Spawn (''docker'' # args) [] input) \<Longrightarrow> asks R (process_docker_with_input h args input)"
  unfolding process_run_def process_docker_def process_docker_with_env_def process_docker_with_input_def
  by (intro asks_rules; assumption)+

end
