(* ===== verification/Configuration.thy ===== *)
theory Configuration
  imports Config_Line Config_Structured Config_Xml Process
begin

text \<open>
  @runtime/docker/configuration.rs@: the environment and command line of a server container,
  CPU pinning and disk limits, the check of the startup target and the application of
  configuration descriptors to the server's files.
\<close>

subsection \<open>The runtime directory in the environment\<close>

definition XDG_RUNTIME_DIR_KEY :: string where "XDG_RUNTIME_DIR_KEY = ''XDG_RUNTIME_DIR''"
definition MANAGED_XDG_RUNTIME_DIR :: string where "MANAGED_XDG_RUNTIME_DIR = ''/tmp/agapornis-runtime''"
definition MANAGED_XDG_RUNTIME_TMPFS_OPTIONS :: string where
  "MANAGED_XDG_RUNTIME_TMPFS_OPTIONS =
     ''rw,nosuid,nodev,noexec,size=16m,mode=0700,uid=999,gid=999''"

text \<open>@Iterator::find_map@.\<close>

fun find_map :: "('a \<Rightarrow> 'b option) \<Rightarrow> 'a list \<Rightarrow> 'b option" where
  "find_map f [] = None"
| "find_map f (x # xs) = (case f x of Some y \<Rightarrow> Some y | None \<Rightarrow> find_map f xs)"

definition xdg_entry :: "string \<Rightarrow> string option" where
  "xdg_entry entry =
     (case split_once (CHR ''='') entry of
        Some (key, v) \<Rightarrow> if key = XDG_RUNTIME_DIR_KEY then Some v else None
      | None \<Rightarrow> None)"

definition runtime_environment_value :: "string list \<Rightarrow> string option" where
  "runtime_environment_value vals = find_map xdg_entry (rev vals)"

definition runtime_environment :: "string list \<Rightarrow> string list" where
  "runtime_environment vals =
     (let configured =
        (case map_option trim (runtime_environment_value vals) of
           Some v \<Rightarrow> if v \<noteq> [] then v else MANAGED_XDG_RUNTIME_DIR
         | None \<Rightarrow> MANAGED_XDG_RUNTIME_DIR)
      in filter (\<lambda>entry. case split_once (CHR ''='') entry of
                           None \<Rightarrow> True | Some (key, _) \<Rightarrow> key \<noteq> XDG_RUNTIME_DIR_KEY) vals
         @ [XDG_RUNTIME_DIR_KEY @ ''='' @ configured])"

definition ensure_runtime_tmpfs :: "host_config \<Rightarrow> string list \<Rightarrow> host_config" where
  "ensure_runtime_tmpfs hc environment =
     (if runtime_environment_value environment \<noteq> Some MANAGED_XDG_RUNTIME_DIR then hc
      else hc\<lparr> tmpfs := Some (AList.update MANAGED_XDG_RUNTIME_DIR MANAGED_XDG_RUNTIME_TMPFS_OPTIONS
                 (case tmpfs hc of Some m \<Rightarrow> m | None \<Rightarrow> [])) \<rparr>)"

definition runtime_tmpfs_ready :: "host_config option \<Rightarrow> string list \<Rightarrow> bool" where
  "runtime_tmpfs_ready hc environment =
     (if runtime_environment_value environment \<noteq> Some MANAGED_XDG_RUNTIME_DIR then True
      else Option.bind (Option.bind hc tmpfs) (\<lambda>m. map_of m MANAGED_XDG_RUNTIME_DIR)
             = Some MANAGED_XDG_RUNTIME_TMPFS_OPTIONS)"

definition inspect_environment :: "json \<Rightarrow> string list" where
  "inspect_environment inspect =
     (case Option.bind (pointer [''Config'', ''Env''] inspect) as_array of
        Some xs \<Rightarrow> List.map_filter as_str xs
      | None \<Rightarrow> [])"

definition runtime_configuration_ready :: "json \<Rightarrow> bool" where
  "runtime_configuration_ready inspect =
     (case runtime_environment_value (inspect_environment inspect) of
        Some v \<Rightarrow>
          if trim v \<noteq> [] \<and> v \<noteq> MANAGED_XDG_RUNTIME_DIR then True
          else if v = MANAGED_XDG_RUNTIME_DIR
          then Option.bind (Option.bind (Option.bind (pointer [''HostConfig'', ''Tmpfs''] inspect) as_object)
                 (\<lambda>kvs. map_of kvs MANAGED_XDG_RUNTIME_DIR)) as_str
                 = Some MANAGED_XDG_RUNTIME_TMPFS_OPTIONS
          else False
      | None \<Rightarrow> False)"

subsection \<open>The command line\<close>

text \<open>The launcher script is text the shell in the container runs; only its identity matters here.\<close>

definition RUNTIME_LAUNCHER :: string where
  "RUNTIME_LAUNCHER =
     ''case '' @ [CHR 0x22] @ ''${XVFB:-0}'' @ [CHR 0x22] @ '' in'' @ [CHR 0x0A] @
     ''    1|true|TRUE|yes|YES)'' @ [CHR 0x0A] @
     ''        if command -v xvfb-run >/dev/null 2>&1; then'' @ [CHR 0x0A] @
     ''            exec xvfb-run --auto-servernum '' @ [CHR 0x5C, CHR 0x0A] @
     ''                --server-args='' @ [CHR 0x22] @
     ''-screen 0 ${DISPLAY_WIDTH:-1024}x${DISPLAY_HEIGHT:-768}x${DISPLAY_DEPTH:-16} -nolisten tcp'' @
     [CHR 0x22] @ '' '' @ [CHR 0x5C, CHR 0x0A] @
     ''                /bin/sh -lc '' @ [CHR 0x22] @ ''$1'' @ [CHR 0x22, CHR 0x0A] @
     ''        fi'' @ [CHR 0x0A] @
     ''        ;;'' @ [CHR 0x0A] @
     ''esac'' @ [CHR 0x0A] @
     ''exec /bin/sh -lc '' @ [CHR 0x22] @ ''$1'' @ [CHR 0x22]"

definition runtime_server_command :: "string \<Rightarrow> string list option" where
  "runtime_server_command startup =
     (if trim startup \<noteq> []
      then Some [''/bin/sh'', ''-lc'', RUNTIME_LAUNCHER, ''agapornis-runtime'', ''exec '' @ startup]
      else None)"

fun legacy_runtime_command :: "string list \<Rightarrow> string option" where
  "legacy_runtime_command [shell, opt, startup] =
     (if shell = ''/bin/sh'' \<and> opt = ''-lc''
      then (case strip_prefix ''exec '' startup of
              Some s \<Rightarrow> if trim s \<noteq> [] then Some s else None
            | None \<Rightarrow> None)
      else None)"
| "legacy_runtime_command _ = None"

definition runtime_launcher_repair_needed :: "json \<Rightarrow> bool" where
  "runtime_launcher_repair_needed inspect =
     (case Option.bind (pointer [''Config'', ''Cmd''] inspect) as_array of
        None \<Rightarrow> False
      | Some xs \<Rightarrow> legacy_runtime_command (List.map_filter as_str xs) \<noteq> None)"

text \<open>The answer and the new value of the command.\<close>

definition repair_legacy_runtime_command :: "string list option \<Rightarrow> bool \<times> string list option" where
  "repair_legacy_runtime_command command =
     (case Option.bind command legacy_runtime_command of
        None \<Rightarrow> (False, command)
      | Some startup \<Rightarrow> (True, runtime_server_command startup))"

subsection \<open>The node network\<close>

definition network_labels :: "(string \<times> string) list" where
  "network_labels = [(''agapornis.managed'', ''true''), (''agapornis.network_type'', ''node'')]"

text \<open>The answers of the daemon to the two calls are arguments; 409 is a lost race.\<close>

definition ensure_network ::
  "(string \<Rightarrow> docker_error + unit) \<Rightarrow> (string \<Rightarrow> string \<Rightarrow> (string \<times> string) list \<Rightarrow> docker_error + unit) \<Rightarrow>
   string \<Rightarrow> unit res" where
  "ensure_network inspect create name =
     (case inspect name of
        Inr _ \<Rightarrow> Ok ()
      | Inl (DockerStatus code text) \<Rightarrow>
          if code = 404 then
            (case create name ''bridge'' network_labels of
               Inr _ \<Rightarrow> Ok ()
             | Inl (DockerStatus code2 text2) \<Rightarrow>
                 if code2 = 409 then Ok () else Err (Ctx (''create Docker network '' @ name) (Ext text2))
             | Inl e \<Rightarrow> Err (Ctx (''create Docker network '' @ name) (docker_error_value e)))
          else Err (Ctx (''inspect Docker network '' @ name) (Ext text))
      | Inl e \<Rightarrow> Err (Ctx (''inspect Docker network '' @ name) (docker_error_value e)))"

subsection \<open>CPU pinning and disk limits\<close>

definition parse_usize :: "string \<Rightarrow> nat res" where
  "parse_usize s = (case parse_unsigned usize_max s of Some n \<Rightarrow> Ok n | None \<Rightarrow> Err (Ext ''ParseIntError''))"

text \<open>The inner loop inserts each thread of a range, the outer one takes the segments.\<close>

fun pin_threads :: "nat list \<Rightarrow> nat list \<Rightarrow> nat list res" where
  "pin_threads [] selected = Ok selected"
| "pin_threads (t # ts) selected =
     (if t \<in> set selected
      then Err (Bail (''pinned CPU thread '' @ nat_digits t @ '' is listed more than once''))
      else pin_threads ts (t # selected))"

definition segment_range :: "string \<Rightarrow> (nat \<times> nat) res" where
  "segment_range seg =
     (case split_once (CHR ''-'') seg of
        Some (a, b) \<Rightarrow> res_bind (parse_usize a) (\<lambda>s. res_bind (parse_usize b) (\<lambda>e. Ok (s, e)))
      | None \<Rightarrow> res_bind (parse_usize seg) (\<lambda>t. Ok (t, t)))"

fun pin_segments :: "nat \<Rightarrow> string list \<Rightarrow> nat list \<Rightarrow> nat list res" where
  "pin_segments available [] selected = Ok selected"
| "pin_segments available (seg # segs) selected =
     res_bind (segment_range seg) (\<lambda>(s, e).
       if e < s then Err (Bail (''invalid pinned CPU thread range '' @ [CHR 0x27] @ seg @ [CHR 0x27]))
       else if e \<ge> available
       then Err (Bail (''pinned CPU thread '' @ nat_digits e @
              '' does not exist; this node has threads 0-'' @ nat_digits (available - 1)))
       else res_bind (pin_threads [s..<Suc e] selected) (\<lambda>sel. pin_segments available segs sel))"

definition pinned_cpu_set :: "nat \<Rightarrow> string \<Rightarrow> string option res" where
  "pinned_cpu_set available val =
     (let v = concat (split_whitespace val) in
      if v = [] then Ok None
      else res_bind (pin_segments available (split_on (CHR '','') v) []) (\<lambda>selected.
             if selected = [] then Ok None else Ok (Some v)))"

definition effective_disk_limit :: "int \<Rightarrow> int \<Rightarrow> string \<Rightarrow> int res" where
  "effective_disk_limit disk swap storage =
     (if swap < 0 then Err (Bail ''swap memory cannot be negative'')
      else if storage = ''server'' \<and> swap > 0
      then (if disk \<le> swap then Err (Bail ''server storage must be larger than swap memory'')
            else Ok (disk - swap))
      else Ok disk)"

subsection \<open>The startup target\<close>

definition STARTUP_TARGET_CHECK_ATTEMPTS :: nat where "STARTUP_TARGET_CHECK_ATTEMPTS = 10"

definition is_quote :: "char \<Rightarrow> bool" where "is_quote c \<longleftrightarrow> c = CHR 0x27 \<or> c = CHR 0x22"

definition trim_quotes :: "string \<Rightarrow> string" where
  "trim_quotes s = rev (dropWhile is_quote (rev (dropWhile is_quote s)))"

text \<open>@trim_start_matches@ of the pattern @./@.\<close>

fun trim_dot_slash :: "string \<Rightarrow> string" where
  "trim_dot_slash (a # b # s) = (if a = CHR ''.'' \<and> b = CHR ''/'' then trim_dot_slash s else a # b # s)"
| "trim_dot_slash s = s"

definition startup_target :: "string \<Rightarrow> path option" where
  "startup_target command =
     map_option (\<lambda>v. components (trim_dot_slash v))
       (find (\<lambda>v. ends_with ''.jar'' v \<or> starts_with ''./'' v) (map trim_quotes (split_whitespace command)))"

record missing_startup =
  ms_target :: path
  ms_resolved :: path

definition missing_startup_text :: "missing_startup \<Rightarrow> string" where
  "missing_startup_text m =
     ''Startup target '' @ [CHR 0x27] @ path_string (ms_target m) @ [CHR 0x27] @
     '' was not found at '' @ [CHR 0x27] @ path_string (ms_resolved m) @ [CHR 0x27] @ ''.''"

text \<open>Up to ten looks; others may change the tree while the check sleeps (@pause@).\<close>

fun startup_attempts :: "unit io \<Rightarrow> path \<Rightarrow> path \<Rightarrow> nat \<Rightarrow> missing_startup option io" where
  "startup_attempts pause target resolved 0 = io_return None"
| "startup_attempts pause target resolved (Suc k) =
     io_bind (io_try (fs_metadata resolved)) (\<lambda>r.
       case r of
         Inr (RegFile _) \<Rightarrow> io_return None
       | Inr _ \<Rightarrow> io_fail (Bail (''Startup target '' @ [CHR 0x27] @ path_string target @ [CHR 0x27] @
           '' exists at '' @ [CHR 0x27] @ path_string resolved @ [CHR 0x27] @ '', but is not a regular file.''))
       | Inl e \<Rightarrow>
           if e = Io NotFound then
             (if k = 0 then io_return (Some \<lparr> ms_target = target, ms_resolved = resolved \<rparr>)
              else io_bind pause (\<lambda>_. startup_attempts pause target resolved k))
           else io_fail (Ctx (''inspect startup target '' @ [CHR 0x27] @ path_string target @ [CHR 0x27] @
                  '' at '' @ [CHR 0x27] @ path_string resolved @ [CHR 0x27]) e))"

definition missing_startup_target :: "unit io \<Rightarrow> path \<Rightarrow> string \<Rightarrow> missing_startup option io" where
  "missing_startup_target pause root command =
     (case startup_target command of
        None \<Rightarrow> io_return None
      | Some target \<Rightarrow>
          startup_attempts pause target (path_join root target) STARTUP_TARGET_CHECK_ATTEMPTS)"

definition validate_startup :: "unit io \<Rightarrow> path \<Rightarrow> string \<Rightarrow> unit io" where
  "validate_startup pause root command =
     io_bind (missing_startup_target pause root command) (\<lambda>m.
       case m of Some missing \<Rightarrow> io_fail (Bail (missing_startup_text missing)) | None \<Rightarrow> io_return ())"

subsection \<open>Configuration descriptors\<close>

fun resolve_daemon_placeholders :: "string \<Rightarrow> json \<Rightarrow> json" where
  "resolve_daemon_placeholders iface (JString text) =
     JString (str_replace ''{{config.docker.network.interface}}'' iface
       (str_replace ''{{config.docker.interface}}'' iface text))"
| "resolve_daemon_placeholders iface (JArray xs) = JArray (map (resolve_daemon_placeholders iface) xs)"
| "resolve_daemon_placeholders iface (JObject kvs) =
     JObject (map (\<lambda>(k, v). (k, resolve_daemon_placeholders iface v)) kvs)"
| "resolve_daemon_placeholders iface v = v"

fun first_some :: "'a option list \<Rightarrow> 'a option" where
  "first_some [] = None"
| "first_some (x # xs) = (case x of Some v \<Rightarrow> Some v | None \<Rightarrow> first_some xs)"

fun find_named_string :: "string \<Rightarrow> json \<Rightarrow> string option" where
  "find_named_string name (JObject kvs) =
     (case Option.bind (map_of kvs name) as_str of
        Some (c # s) \<Rightarrow> Some (c # s)
      | _ \<Rightarrow> first_some (map (\<lambda>(k, v). find_named_string name v) kvs))"
| "find_named_string name (JArray xs) = first_some (map (find_named_string name) xs)"
| "find_named_string name v = None"

definition docker_network_interface :: "(string \<Rightarrow> json res) \<Rightarrow> string \<Rightarrow> string res" where
  "docker_network_interface inspect_network network =
     res_bind (res_context (''inspect Docker network '' @ network) (inspect_network network)) (\<lambda>document.
       case find_named_string ''Gateway'' document of
         Some g \<Rightarrow> Ok g
       | None \<Rightarrow>
           (case find_named_string ''gateway'' document of
              Some g \<Rightarrow> Ok g
            | None \<Rightarrow> Err (Bail ''Docker network does not define an IPAM gateway'')))"

text \<open>The readers and printers of the formats.\<close>

record config_lib =
  lib_json_read :: "string \<Rightarrow> json res"
  lib_json_pretty :: "json \<Rightarrow> string res"
  lib_yaml_read :: "string \<Rightarrow> json res"
  lib_yaml_print :: "json \<Rightarrow> string res"
  lib_f64 :: "string \<Rightarrow> string option"
  lib_xml_read :: "string \<Rightarrow> xml_element res"
  lib_xml_print :: "xml_element \<Rightarrow> string res"
  lib_xml_text :: "xml_element \<Rightarrow> string option"

definition MAX_CONFIG_FILE_SIZE :: nat where "MAX_CONFIG_FILE_SIZE = 8388608"

definition run_parser :: "config_lib \<Rightarrow> string \<Rightarrow> string \<Rightarrow> (string \<times> json) list \<Rightarrow> string res" where
  "run_parser lib parser bytes finds =
     (let p = to_ascii_lowercase parser in
      if p = ''file'' then Ok (apply_file_parser bytes finds)
      else if p = ''properties'' then Ok (apply_properties_parser bytes finds)
      else if p = ''ini'' then Ok (apply_ini_parser bytes finds)
      else if p = ''json'' then apply_json_parser (lib_json_read lib) (lib_json_pretty lib) (lib_f64 lib) bytes finds
      else if p = ''yaml'' \<or> p = ''yml''
      then apply_yaml_parser (lib_yaml_read lib) (lib_yaml_print lib) (lib_f64 lib) bytes finds
      else if p = ''xml'' then apply_xml_parser (lib_xml_read lib) (lib_xml_print lib) (lib_xml_text lib) bytes finds
      else if p = [] then Err (Bail ''configuration parser is required'')
      else Err (Bail (''unsupported configuration parser '' @ [CHR 0x27] @ p @ [CHR 0x27])))"

definition apply_config_file :: "config_lib \<Rightarrow> nat \<Rightarrow> path \<Rightarrow> json \<Rightarrow> unit io" where
  "apply_config_file lib dir_len target config =
     io_bind (io_try (fs_metadata target)) (\<lambda>r.
       case r of
         Inl e \<Rightarrow> if e = Io NotFound then io_return () else io_fail e
       | Inr n \<Rightarrow>
           if node_len dir_len n > MAX_CONFIG_FILE_SIZE
           then io_fail (Bail (''configuration file is '' @ nat_digits (node_len dir_len n) @
                  '' bytes; maximum is '' @ nat_digits MAX_CONFIG_FILE_SIZE @ '' bytes''))
           else
             (let parser = (case Option.bind (json_get ''parser'' config) as_str of Some p \<Rightarrow> p | None \<Rightarrow> []) in
              case Option.bind (json_get ''find'' config) as_object of
                None \<Rightarrow> io_return ()
              | Some finds \<Rightarrow>
                  io_bind (fs_read target) (\<lambda>bytes.
                  io_bind (io_lift (run_parser lib parser bytes finds)) (\<lambda>out.
                  fs_write target out))))"

fun apply_each :: "config_lib \<Rightarrow> nat \<Rightarrow> path \<Rightarrow> (string \<times> json) list \<Rightarrow> unit io" where
  "apply_each lib dir_len root [] = io_return ()"
| "apply_each lib dir_len root ((name, config) # rest) =
     io_bind (io_lift (relative name)) (\<lambda>rel.
       let target = path_join root rel in
       io_bind (io_ctx (''apply configuration descriptor to '' @ path_string target)
                 (apply_config_file lib dir_len target config)) (\<lambda>_.
       apply_each lib dir_len root rest))"

text \<open>
  The descriptor is read as a @HashMap@, whose order is arbitrary: @arrange@ is the order
  of this run.
\<close>

definition apply_config_files ::
  "config_lib \<Rightarrow> nat \<Rightarrow> ((string \<times> json) list \<Rightarrow> (string \<times> json) list) \<Rightarrow> path \<Rightarrow> string \<Rightarrow> string \<Rightarrow> unit io" where
  "apply_config_files lib dir_len arrange root text iface =
     (if trim text = [] \<or> trim text = ''{}'' then io_return ()
      else
        io_bind (io_lift (res_context ''parse configuration-files descriptor'' (lib_json_read lib text))) (\<lambda>descriptor.
          case as_object (resolve_daemon_placeholders iface descriptor) of
            None \<Rightarrow> io_fail (Ext ''invalid type'')
          | Some kvs \<Rightarrow> apply_each lib dir_len root (arrange kvs)))"

subsection \<open>The environment is ready\<close>

lemma find_map_append: "find_map f (xs @ ys) = (case find_map f xs of Some y \<Rightarrow> Some y | None \<Rightarrow> find_map f ys)"
  by (induction xs) (auto split: option.splits)

lemma split_once_key: "CHR ''='' \<notin> set k \<Longrightarrow> split_once (CHR ''='') (k @ CHR ''='' # v) = Some (k, v)"
  unfolding split_once_def by (induction k) auto

lemma xdg_entry_own: "xdg_entry (XDG_RUNTIME_DIR_KEY @ CHR ''='' # v) = Some v"
  using split_once_key [of XDG_RUNTIME_DIR_KEY v] by (simp add: xdg_entry_def XDG_RUNTIME_DIR_KEY_def)

definition configured_dir :: "string list \<Rightarrow> string" where
  "configured_dir vals =
     (case map_option trim (runtime_environment_value vals) of
        Some v \<Rightarrow> if v \<noteq> [] then v else MANAGED_XDG_RUNTIME_DIR
      | None \<Rightarrow> MANAGED_XDG_RUNTIME_DIR)"

lemma runtime_environment_eq:
  "runtime_environment vals =
     filter (\<lambda>e. xdg_entry e = None) vals @ [XDG_RUNTIME_DIR_KEY @ CHR ''='' # configured_dir vals]"
proof -
  have "(\<lambda>entry. case split_once (CHR ''='') entry of None \<Rightarrow> True | Some (key, _) \<Rightarrow> key \<noteq> XDG_RUNTIME_DIR_KEY)
      = (\<lambda>e. xdg_entry e = None)"
    by (rule ext) (simp add: xdg_entry_def split: option.splits)
  then show ?thesis by (simp add: runtime_environment_def configured_dir_def Let_def)
qed

lemma runtime_environment_value_set:
  "runtime_environment_value (runtime_environment vals) = Some (configured_dir vals)"
  unfolding runtime_environment_value_def runtime_environment_eq rev_append
  by (simp add: xdg_entry_own)

lemma configured_dir_trimmed: "trim (configured_dir vals) = configured_dir vals \<and> configured_dir vals \<noteq> []"
proof -
  have "trim MANAGED_XDG_RUNTIME_DIR = MANAGED_XDG_RUNTIME_DIR" "MANAGED_XDG_RUNTIME_DIR \<noteq> []"
    unfolding MANAGED_XDG_RUNTIME_DIR_def by (intro trim_fixed) (simp_all add: in_range_def)
  then show ?thesis by (simp add: configured_dir_def split: option.splits)
qed

lemma runtime_environment_idem: "runtime_environment (runtime_environment vals) = runtime_environment vals"
proof -
  have "configured_dir (runtime_environment vals) = configured_dir vals"
    using configured_dir_trimmed [of vals]
    by (simp add: configured_dir_def [of "runtime_environment vals"] runtime_environment_value_set)
  then show ?thesis
    unfolding runtime_environment_eq [of "runtime_environment vals"]
    by (simp add: runtime_environment_eq [of vals] filter_append xdg_entry_own)
qed

text \<open>What Docker reports of a container created with an environment and tmpfs mounts.\<close>

definition inspect_of :: "string list \<Rightarrow> (string \<times> json) list \<Rightarrow> json" where
  "inspect_of env mounts =
     JObject [(''Config'', JObject [(''Env'', JArray (map JString env))]),
              (''HostConfig'', JObject [(''Tmpfs'', JObject mounts)])]"

lemma map_filter_as_str: "List.map_filter as_str (map JString xs) = xs"
  by (induction xs) (simp_all add: List.map_filter_simps)

lemma inspect_of_sel:
  "inspect_environment (inspect_of env mounts) = env"
  "Option.bind (pointer [''HostConfig'', ''Tmpfs''] (inspect_of env mounts)) as_object = Some mounts"
  by (simp_all add: inspect_environment_def inspect_of_def map_filter_as_str)

text \<open>Lemma: whatever environment a server asks for, the one the agent gives the container keeps
  the other entries in order, has a single non-empty runtime directory, is not changed by
  being computed again, and with the tmpfs mount the agent adds both readiness tests, on the
  request and on Docker's report, succeed.\<close>

theorem runtime_environment_ready:
  "filter (\<lambda>e. xdg_entry e = None) (runtime_environment vals) = filter (\<lambda>e. xdg_entry e = None) vals \<and>
   List.map_filter xdg_entry (runtime_environment vals) = [configured_dir vals] \<and>
   configured_dir vals \<noteq> [] \<and>
   runtime_environment (runtime_environment vals) = runtime_environment vals \<and>
   runtime_tmpfs_ready (Some (ensure_runtime_tmpfs hc (runtime_environment vals))) (runtime_environment vals) \<and>
   runtime_configuration_ready (inspect_of (runtime_environment vals)
     [(MANAGED_XDG_RUNTIME_DIR, JString MANAGED_XDG_RUNTIME_TMPFS_OPTIONS)])"
proof (intro conjI)
  show "filter (\<lambda>e. xdg_entry e = None) (runtime_environment vals) = filter (\<lambda>e. xdg_entry e = None) vals"
    by (simp add: runtime_environment_eq xdg_entry_own)
  have "List.map_filter xdg_entry (filter (\<lambda>e. xdg_entry e = None) vals) = []"
    by (induction vals) (simp_all add: List.map_filter_simps)
  then show "List.map_filter xdg_entry (runtime_environment vals) = [configured_dir vals]"
    unfolding runtime_environment_eq by (simp add: List.map_filter_def xdg_entry_own)
  show "configured_dir vals \<noteq> []" using configured_dir_trimmed by blast
  show "runtime_environment (runtime_environment vals) = runtime_environment vals"
    by (rule runtime_environment_idem)
  show "runtime_tmpfs_ready (Some (ensure_runtime_tmpfs hc (runtime_environment vals))) (runtime_environment vals)"
    by (simp add: runtime_tmpfs_ready_def ensure_runtime_tmpfs_def update_conv')
  show "runtime_configuration_ready (inspect_of (runtime_environment vals)
     [(MANAGED_XDG_RUNTIME_DIR, JString MANAGED_XDG_RUNTIME_TMPFS_OPTIONS)])"
    using configured_dir_trimmed [of vals]
    by (simp add: runtime_configuration_ready_def inspect_of_sel runtime_environment_value_set)
qed

subsection \<open>Repairing the launcher\<close>

lemma repair_once:
  "repair_legacy_runtime_command command = (b, command') \<Longrightarrow>
   repair_legacy_runtime_command command' = (False, command')"
  by (auto simp: repair_legacy_runtime_command_def runtime_server_command_def split: option.splits if_splits)

text \<open>Lemma: the launcher repair touches exactly the old three-word commands, keeps their startup
  line behind the new launcher, and is done after one repair.\<close>

theorem launcher_repair:
  "repair_legacy_runtime_command command =
     (case Option.bind command legacy_runtime_command of
        None \<Rightarrow> (False, command)
      | Some startup \<Rightarrow>
          (True, Some [''/bin/sh'', ''-lc'', RUNTIME_LAUNCHER, ''agapornis-runtime'', ''exec '' @ startup])) \<and>
   fst (repair_legacy_runtime_command (snd (repair_legacy_runtime_command command))) = False \<and>
   runtime_launcher_repair_needed (JObject [(''Config'', JObject [(''Cmd'', JArray (map JString cmd))])])
     = fst (repair_legacy_runtime_command (Some cmd))"
proof (intro conjI)
  have ne: "legacy_runtime_command cs = Some s \<Longrightarrow> trim s \<noteq> []" for cs s
    by (induction cs rule: legacy_runtime_command.induct) (auto split: option.splits if_splits)
  show "repair_legacy_runtime_command command =
     (case Option.bind command legacy_runtime_command of
        None \<Rightarrow> (False, command)
      | Some startup \<Rightarrow>
          (True, Some [''/bin/sh'', ''-lc'', RUNTIME_LAUNCHER, ''agapornis-runtime'', ''exec '' @ startup]))"
    by (auto simp: repair_legacy_runtime_command_def runtime_server_command_def bind_eq_Some_conv dest: ne
        split: option.splits)
  show "fst (repair_legacy_runtime_command (snd (repair_legacy_runtime_command command))) = False"
    using repair_once [of command] by (metis fst_conv prod.collapse)
  show "runtime_launcher_repair_needed (JObject [(''Config'', JObject [(''Cmd'', JArray (map JString cmd))])])
     = fst (repair_legacy_runtime_command (Some cmd))"
    by (simp add: runtime_launcher_repair_needed_def repair_legacy_runtime_command_def map_filter_as_str
        split: option.splits)
qed

subsection \<open>Pinned threads\<close>

text \<open>The threads a list of segments names.\<close>

fun segment_threads :: "string list \<Rightarrow> nat list" where
  "segment_threads [] = []"
| "segment_threads (seg # segs) =
     (case segment_range seg of Inr (s, e) \<Rightarrow> [s..<Suc e] | Inl _ \<Rightarrow> []) @ segment_threads segs"

lemma pin_threads_Ok:
  "pin_threads ts sel = Ok sel' \<longleftrightarrow> sel' = rev ts @ sel \<and> distinct ts \<and> set ts \<inter> set sel = {}"
  by (induction ts sel arbitrary: sel' rule: pin_threads.induct) auto

lemma pin_segments_Ok:
  "pin_segments av segs sel = Ok sel' \<Longrightarrow> distinct sel \<Longrightarrow>
   sel' = rev (segment_threads segs) @ sel \<and> distinct sel' \<and> list_all (\<lambda>t. t < av) (segment_threads segs)"
proof (induction segs arbitrary: sel sel')
  case (Cons seg segs)
  then obtain s e where r: "segment_range seg = Inr (s, e)" by (auto simp: res_simps)
  then obtain sel1 where 1: "s \<le> e" "e < av" "pin_threads [s..<Suc e] sel = Ok sel1"
    "pin_segments av segs sel1 = Ok sel'"
    using Cons.prems(1) by (auto simp: res_simps simp del: upt_Suc split: if_splits)
  then have sel1: "sel1 = rev [s..<Suc e] @ sel" "distinct sel1"
    using Cons.prems(2) unfolding pin_threads_Ok by auto
  have "sel' = rev (segment_threads segs) @ sel1 \<and> distinct sel' \<and> list_all (\<lambda>t. t < av) (segment_threads segs)"
    by (rule Cons.IH [OF 1(4) sel1(2)])
  then show ?case using r sel1(1) 1(2) by (auto simp: list_all_iff disjoint_iff simp del: upt_Suc)
qed simp

text \<open>Lemma: a pinning that is accepted is the request without its white space, and the threads
  its ranges name are distinct, at least one, and all exist on the node.\<close>

theorem pinned_cpu_set_sound:
  assumes "pinned_cpu_set available val = Ok (Some v)"
  shows "v = concat (split_whitespace val) \<and> segment_threads (split_on (CHR '','') v) \<noteq> [] \<and>
    distinct (segment_threads (split_on (CHR '','') v)) \<and>
    list_all (\<lambda>t. t < available) (segment_threads (split_on (CHR '','') v))"
proof -
  have v: "v = concat (split_whitespace val)" and
    sel: "\<exists>sel. pin_segments available (split_on (CHR '','') v) [] = Ok sel \<and> sel \<noteq> []"
    using assms by (auto simp: pinned_cpu_set_def Let_def res_simps split: if_splits)
  then show ?thesis using pin_segments_Ok [of available "split_on (CHR '','') v" "[]"] by auto
qed

theorem pinned_cpu_set_sound_witness:
  "list_all (\<lambda>t. t < 4) (segment_threads (split_on (CHR '','') ''0-1,3''))"
proof -
  have "split_whitespace ''0-1,3'' = [''0-1,3'']" by code_simp
  then have "pinned_cpu_set 4 ''0-1,3'' = Ok (Some ''0-1,3'')"
    by (simp add: pinned_cpu_set_def segment_range_def split_once_def parse_usize_def
        parse_unsigned_def parse_digits_def is_digit_def digit_val_def usize_max_def upt_rec)
  from pinned_cpu_set_sound [OF this] show ?thesis by blast
qed

text \<open>Blanks inside a number vanish: two threads separated by a blank read as one.\<close>

lemma blank_joins_threads: "concat (split_whitespace ''1 2'') = ''12''"
  by code_simp

subsection \<open>Waiting for the startup target\<close>

lemma fs_metadata_calm:
  "w_faults w = [] \<Longrightarrow> fs_metadata p w =
     (res_bind (existing (w_root w) (w_cwd w) p True) (\<lambda>(_, n). Ok n), w)"
  by (simp add: fs_metadata_def io_query_def take_fault_def)

lemma io_try_bind: "io_bind (io_try m) f w = (case m w of (r, w') \<Rightarrow> f r w')"
  by (simp add: io_bind_def io_try_def split: prod.splits)

lemma startup_appears:
  assumes p: "\<And>w. pause w = (Ok (), g w)"
    and calm: "\<And>i. i \<le> n \<Longrightarrow> w_faults ((g ^^ i) w) = []"
    and miss: "\<And>i. i < n \<Longrightarrow>
      existing (w_root ((g ^^ i) w)) (w_cwd ((g ^^ i) w)) resolved True = Err (Io NotFound)"
    and hit: "existing (w_root ((g ^^ n) w)) (w_cwd ((g ^^ n) w)) resolved True = Ok (q, RegFile c)"
    and k: "n < k"
  shows "startup_attempts pause target resolved k w = (Ok None, (g ^^ n) w)"
  using calm miss hit k
proof (induction n arbitrary: w k)
  case 0
  then obtain m where "k = Suc m" by (cases k) auto
  then show ?case using "0.prems"(1) [of 0] "0.prems"(3)
    by (simp add: io_try_bind fs_metadata_calm io_return_def)
next
  case (Suc n)
  then obtain m where k: "k = Suc m" "n < m" by (cases k) auto
  have "w_faults w = []" "existing (w_root w) (w_cwd w) resolved True = Err (Io NotFound)"
    using Suc.prems(1,2) [of 0] by auto
  then have "startup_attempts pause target resolved k w = startup_attempts pause target resolved m (g w)"
    using k by (simp add: io_try_bind fs_metadata_calm) (simp add: io_bind_def p)
  also have "\<dots> = (Ok None, (g ^^ n) (g w))"
  proof (rule Suc.IH [OF _ _ _ k(2)])
    show "w_faults ((g ^^ i) (g w)) = []" if "i \<le> n" for i
      using Suc.prems(1) [of "Suc i"] that by (simp add: funpow_swap1)
    show "existing (w_root ((g ^^ i) (g w))) (w_cwd ((g ^^ i) (g w))) resolved True = Err (Io NotFound)"
      if "i < n" for i
      using Suc.prems(2) [of "Suc i"] that by (simp add: funpow_swap1)
    show "existing (w_root ((g ^^ n) (g w))) (w_cwd ((g ^^ n) (g w))) resolved True = Ok (q, RegFile c)"
      using Suc.prems(3) by (simp add: funpow_swap1)
  qed
  finally show ?case by (simp add: funpow_swap1)
qed

text \<open>C11: a startup target that shows up as a regular file after at most nine pauses, while
  every earlier look found nothing, is accepted, at that very look.\<close>

theorem startup_target_awaited:
  assumes "startup_target command = Some target" "\<And>w. pause w = (Ok (), g w)"
    and "\<And>i. i \<le> n \<Longrightarrow> w_faults ((g ^^ i) w) = []"
    and "\<And>i. i < n \<Longrightarrow>
      existing (w_root ((g ^^ i) w)) (w_cwd ((g ^^ i) w)) (path_join root target) True = Err (Io NotFound)"
    and "existing (w_root ((g ^^ n) w)) (w_cwd ((g ^^ n) w)) (path_join root target) True = Ok (q, RegFile c)"
    and "n \<le> 9"
  shows "validate_startup pause root command w = (Ok (), (g ^^ n) w)"
proof -
  have "n < STARTUP_TARGET_CHECK_ATTEMPTS" using assms(6) by (simp add: STARTUP_TARGET_CHECK_ATTEMPTS_def)
  from startup_appears [OF assms(2-5) this] show ?thesis
    by (simp add: validate_startup_def missing_startup_target_def assms(1) io_bind_def io_return_def)
qed

text \<open>A pause in which the file is written.\<close>

definition late_world :: "node \<Rightarrow> world" where
  "late_world t = \<lparr> w_root = t, w_cwd = [], w_faults = [], w_trace = [], w_requests = [], w_objects = [] \<rparr>"

theorem startup_target_awaited_witness:
  "validate_startup (\<lambda>w. (Ok (), late_world (Dir [(''a.jar'', RegFile ''x'')]))) [RootDir] ''java a.jar''
     (late_world (Dir [])) = (Ok (), late_world (Dir [(''a.jar'', RegFile ''x'')]))"
proof -
  let ?g = "\<lambda>w. late_world (Dir [(''a.jar'', RegFile ''x'')])"
  have t: "startup_target ''java a.jar'' = Some [Normal ''a.jar'']" by code_simp
  have j: "path_join [RootDir] [Normal ''a.jar''] = [RootDir, Normal ''a.jar'']"
    by (simp add: path_join_def is_absolute_def)
  have f: "w_faults ((?g ^^ i) (late_world (Dir []))) = []" for i by (cases i) (simp_all add: late_world_def)
  have m: "existing (w_root ((?g ^^ i) (late_world (Dir [])))) (w_cwd ((?g ^^ i) (late_world (Dir []))))
      (path_join [RootDir] [Normal ''a.jar'']) True = Err (Io NotFound)" if "i < 1" for i
    using that by (simp add: late_world_def j existing_def resolve_def)
  have h: "existing (w_root ((?g ^^ 1) (late_world (Dir [])))) (w_cwd ((?g ^^ 1) (late_world (Dir []))))
      (path_join [RootDir] [Normal ''a.jar'']) True = Ok ([''a.jar''], RegFile ''x'')"
    by (simp add: late_world_def j existing_def resolve_def)
  have "validate_startup (\<lambda>w. (Ok (), ?g w)) [RootDir] ''java a.jar'' (late_world (Dir [])) =
      (Ok (), (?g ^^ 1) (late_world (Dir [])))"
    by (rule startup_target_awaited [OF t, where n = 1]) (use f m h in auto)
  then show ?thesis by simp
qed

text \<open>An absolute target is looked up on the host as it stands, not below the server's root.\<close>

lemma absolute_target_leaves_root:
  "map_option (path_join root) (startup_target ''java -jar /data/server.jar'') =
     Some [RootDir, Normal ''data'', Normal ''server.jar'']"
proof -
  have "startup_target ''java -jar /data/server.jar'' = Some [RootDir, Normal ''data'', Normal ''server.jar'']"
    by code_simp
  then show ?thesis by (simp add: path_join_def is_absolute_def)
qed

subsection \<open>Where a descriptor writes\<close>

lemma fs_read_calm:
  "w_faults w = [] \<Longrightarrow> fs_read p w = (read_tree p (w_root w) (w_cwd w), w)"
  by (simp add: fs_read_def io_query_def take_fault_def)

definition descriptor :: "string \<Rightarrow> (string \<times> json) list \<Rightarrow> json" where
  "descriptor parser finds = JObject [(''find'', JObject finds), (''parser'', JString parser)]"

lemma descriptor_sel:
  "Option.bind (json_get ''parser'' (descriptor parser finds)) as_str = Some parser"
  "Option.bind (json_get ''find'' (descriptor parser finds)) as_object = Some finds"
  by (simp_all add: descriptor_def)

lemma apply_config_calm:
  assumes "w_faults w = []"
  shows "apply_config_file lib dl target (descriptor parser finds) w =
    (case existing (w_root w) (w_cwd w) target True of
       Inl e \<Rightarrow> (if e = Io NotFound then Ok () else Inl e, w)
     | Inr (q, n) \<Rightarrow>
         if node_len dl n > MAX_CONFIG_FILE_SIZE
         then (Err (Bail (''configuration file is '' @ nat_digits (node_len dl n) @
                  '' bytes; maximum is '' @ nat_digits MAX_CONFIG_FILE_SIZE @ '' bytes'')), w)
         else (case read_tree target (w_root w) (w_cwd w) of
             Inl e \<Rightarrow> (Inl e, w)
           | Inr c \<Rightarrow> (case run_parser lib parser c finds of
                 Inl e \<Rightarrow> (Inl e, w) | Inr out \<Rightarrow> fs_write target out w)))"
proof -
  have b: "io_bind (fs_read target) (\<lambda>bytes. io_bind (io_lift (run_parser lib parser bytes finds)) (fs_write target)) w
    = (case read_tree target (w_root w) (w_cwd w) of
             Inl e \<Rightarrow> (Inl e, w)
           | Inr c \<Rightarrow> (case run_parser lib parser c finds of
                 Inl e \<Rightarrow> (Inl e, w) | Inr out \<Rightarrow> fs_write target out w))"
    by (simp add: io_bind_def fs_read_calm [OF assms] io_lift_def split: sum.split)
  show ?thesis
    unfolding apply_config_file_def io_try_bind fs_metadata_calm [OF assms] descriptor_sel Let_def
    by (cases "existing (w_root w) (w_cwd w) target True")
      (auto simp: io_return_def io_fail_def b)
qed

text \<open>Lemma: a descriptor whose target, with every symbolic link followed, is a regular file of at
  most 8 MiB replaces exactly the bytes of that file by what its parser makes of them; a
  target that does not exist is left alone, and a parser error changes nothing.\<close>

theorem config_file_written:
  assumes "w_faults w = []"
  shows "(case existing (w_root w) (w_cwd w) target True of
      Inl e \<Rightarrow> apply_config_file lib dl target (descriptor parser finds) w
        = (if e = Io NotFound then Ok () else Inl e, w)
    | Inr (q, RegFile c) \<Rightarrow>
        if length c > MAX_CONFIG_FILE_SIZE
        then snd (apply_config_file lib dl target (descriptor parser finds) w) = w
        else (case run_parser lib parser c finds of
            Inl e \<Rightarrow> apply_config_file lib dl target (descriptor parser finds) w = (Inl e, w)
          | Inr out \<Rightarrow>
              fst (apply_config_file lib dl target (descriptor parser finds) w) = Ok () \<and>
              w_root (snd (apply_config_file lib dl target (descriptor parser finds) w))
                = put q (Some (RegFile out)) (put q (Some (RegFile [])) (w_root w)))
    | Inr (q, _) \<Rightarrow> snd (apply_config_file lib dl target (descriptor parser finds) w) = w)"
proof (cases "existing (w_root w) (w_cwd w) target True")
  case (Inl e)
  then show ?thesis by (simp add: apply_config_calm [OF assms])
next
  case (Inr qn)
  obtain q n where qn: "qn = (q, n)" by (cases qn)
  have r: "resolve (w_root w) (w_cwd w) target True = Ok q" "lookup (w_root w) q = Some n"
    using Inr qn by (auto simp: existing_def res_simps split: option.splits)
  show ?thesis
  proof (cases n)
    case (RegFile c)
    have wr: "fst (fs_write target out w) = Ok () \<and> w_root (snd (fs_write target out w)) =
        put q (Some (RegFile out)) (put q (Some (RegFile [])) (w_root w))" for out
      using assms r RegFile by (simp add: fs_write_def take_fault_def write_place_def Let_def)
    show ?thesis
      using Inr qn RegFile wr
      by (simp add: apply_config_calm [OF assms] read_tree_def split: sum.split)
  qed (use Inr qn in \<open>simp_all add: apply_config_calm [OF assms] read_tree_def\<close>)
qed

text \<open>Readers that refuse everything, enough for the line formats.\<close>

definition line_formats_only :: config_lib where
  "line_formats_only =
     \<lparr> lib_json_read = \<lambda>_. Err (Ext []), lib_json_pretty = \<lambda>_. Err (Ext []),
       lib_yaml_read = \<lambda>_. Err (Ext []), lib_yaml_print = \<lambda>_. Err (Ext []), lib_f64 = \<lambda>_. None,
       lib_xml_read = \<lambda>_. Err (Ext []), lib_xml_print = \<lambda>_. Err (Ext []), lib_xml_text = \<lambda>_. None \<rparr>"

theorem config_file_written_witness:
  "w_root (snd (apply_config_file line_formats_only 0 [RootDir, Normal ''a''] (descriptor ''FILE'' [(''k'', JString ''k=2'')])
     (late_world (Dir [(''a'', Symlink [RootDir, Normal ''b'']), (''b'', RegFile ''k=1'')]))))
   = Dir [(''a'', Symlink [RootDir, Normal ''b'']), (''b'', RegFile ''k=2'')]"
proof -
  let ?t = "Dir [(''a'', Symlink [RootDir, Normal ''b'']), (''b'', RegFile ''k=1'')]"
  have f: "w_faults (late_world ?t) = []" by (simp add: late_world_def)
  have e: "existing (w_root (late_world ?t)) (w_cwd (late_world ?t)) [RootDir, Normal ''a''] True
      = Ok ([''b''], RegFile ''k=1'')" by code_simp
  have p: "run_parser line_formats_only ''FILE'' ''k=1'' [(''k'', JString ''k=2'')] = Ok ''k=2''"
  proof -
    have "to_ascii_lowercase ''FILE'' = ''file''" by code_simp
    moreover have "apply_file_parser ''k=1'' [(''k'', JString ''k=2'')] = ''k=2''" by code_simp
    ultimately show ?thesis by (simp add: run_parser_def Let_def)
  qed
  have u: "put [''b''] (Some (RegFile ''k=2'')) (put [''b''] (Some (RegFile [])) (w_root (late_world ?t))) =
      Dir [(''a'', Symlink [RootDir, Normal ''b'']), (''b'', RegFile ''k=2'')]" by code_simp
  show ?thesis
    using config_file_written [OF f, where target = "[RootDir, Normal ''a'']" and lib = line_formats_only and dl = 0
        and parser = "''FILE''" and finds = "[(''k'', JString ''k=2'')]"]
    unfolding e by (simp add: MAX_CONFIG_FILE_SIZE_def p u)
qed

end
