(* ===== verification/Docker_Root.thy ===== *)
theory Docker_Root
  imports Json Paths
begin

text \<open>
  @DockerManager::inspect@ and @DockerManager::root@ of @runtime/docker/inspection.rs@: which
  directory of the host and which path of the container hold a server's files.  Docker's
  answer is a JSON document or an error, as a parameter.
\<close>

definition docker_inspect :: "(string \<Rightarrow> json res) \<Rightarrow> string \<Rightarrow> json res" where
  "docker_inspect answer sid =
     res_bind (validate_id sid) (\<lambda>_.
       res_context (''inspect Docker container '' @ sid) (answer sid))"

text \<open>The source of the first mount whose destination is accepted.\<close>

definition mount_destination :: "json \<Rightarrow> string option" where
  "mount_destination m = Option.bind (json_get ''Destination'' m) as_str"

definition mount_source :: "(string option \<Rightarrow> bool) \<Rightarrow> json list option \<Rightarrow> path option" where
  "mount_source ok mounts =
     map_option components
       (Option.bind (Option.bind (Option.bind mounts (find (\<lambda>m. ok (mount_destination m))))
          (json_get ''Source'')) as_str)"

definition docker_root :: "environment \<Rightarrow> (string \<Rightarrow> json res) \<Rightarrow> string \<Rightarrow> (path \<times> string \<times> bool \<times> bool) res" where
  "docker_root env answer sid =
     res_bind (validate_id sid) (\<lambda>_.
     res_bind (server_dir env sid) (\<lambda>fallback.
       case docker_inspect answer sid of
         Inl _ \<Rightarrow> Ok (fallback, HOME_CONTAINER_PATH, False, True)
       | Inr inspect \<Rightarrow>
           let data = (case Option.bind (pointer [''Config'', ''Labels'', ''agapornis.data_path''] inspect) as_str of
                         Some d \<Rightarrow> d | None \<Rightarrow> HOME_CONTAINER_PATH);
               running = (case Option.bind (pointer [''State'', ''Running''] inspect) as_bool of
                            Some b \<Rightarrow> b | None \<Rightarrow> False);
               mounts = Option.bind (json_get ''Mounts'' inspect) as_array;
               exact = mount_source (\<lambda>d. d = Some data) mounts;
               known = mount_source (\<lambda>d. d = Some ''/data'' \<or> d = Some ''/home/container'') mounts
           in Ok (case exact of Some p \<Rightarrow> p | None \<Rightarrow> (case known of Some p \<Rightarrow> p | None \<Rightarrow> fallback),
                  data, running, exact \<noteq> None)))"

end
