(* ===== verification/Files.thy ===== *)
theory Files
  imports Docker_Root Process
begin

text \<open>
  @storage/files.rs@: the file operations of a server, on the host directory when the container
  is stopped or its data mount is known, otherwise by shell commands inside the container.
\<close>

subsection \<open>Roots and items\<close>

definition MAX_IN_MEMORY_FILE_BYTES :: nat where "MAX_IN_MEMORY_FILE_BYTES = 8388608"
definition MAX_DIRECTORY_ENTRIES :: nat where "MAX_DIRECTORY_ENTRIES = 10000"

record item =
  item_name :: string
  item_directory :: bool
  item_size :: int
  item_modified :: string

datatype read_source = HostSource path | ContainerSource string string

record file_root =
  fr_host :: path
  fr_container :: string
  fr_use_host :: bool

text \<open>What the operations depend on: the environment, Docker, other programs, file times, base64.\<close>

record files_ctx =
  fx_env :: environment
  fx_inspect :: "string \<Rightarrow> json res"
  fx_host_programs :: host
  fx_modified :: "path \<Rightarrow> string"
  fx_base64_decode :: "string \<Rightarrow> string res"
  fx_uuid :: string

definition files_root :: "files_ctx \<Rightarrow> string \<Rightarrow> file_root res" where
  "files_root fx sid =
     res_bind (docker_root (fx_env fx) (fx_inspect fx) sid) (\<lambda>(host, container, running, exact).
       Ok \<lparr> fr_host = host, fr_container = container, fr_use_host = \<not> running \<or> exact \<rparr>)"

definition is_slash :: "char \<Rightarrow> bool" where "is_slash c \<longleftrightarrow> c = CHR ''/'' \<or> c = CHR 0x5C"

definition clean_request :: "string \<Rightarrow> string" where "clean_request p = dropWhile is_slash p"

definition unslash :: "string \<Rightarrow> string" where "unslash s = replace_char (CHR 0x5C) ''/'' s"

definition container_target :: "file_root \<Rightarrow> string \<Rightarrow> string res" where
  "container_target root r = res_bind (container_path (fr_container root) r) (\<lambda>p. Ok (unslash p))"

definition parent_of :: "file_root \<Rightarrow> string \<Rightarrow> string" where
  "parent_of root target =
     (case rsplit_once (CHR ''/'') target of Some (p, _) \<Rightarrow> p | None \<Rightarrow> fr_container root)"

text \<open>A value that is at hand or an error of a pure step.\<close>

abbreviation (input) from_res :: "'a res \<Rightarrow> ('a \<Rightarrow> ('s, 'b) act) \<Rightarrow> ('s, 'b) act" where
  "from_res r f \<equiv> io_bind (io_lift r) f"

abbreviation (input) then_io :: "('s, unit) act \<Rightarrow> ('s, 'b) act \<Rightarrow> ('s, 'b) act" where
  "then_io m n \<equiv> io_bind m (\<lambda>_. n)"

definition guard_io :: "bool \<Rightarrow> string \<Rightarrow> ('s, unit) act" where
  "guard_io ok message = (if ok then io_return () else io_fail (Bail message))"

lemma asks_guard [asks_rules]: "asks R (guard_io ok m)"
  by (simp add: guard_io_def asks_rules)

definition io_unit :: "('s, 'a) act \<Rightarrow> ('s, unit) act" where "io_unit m = io_bind m (\<lambda>_. io_return ())"

subsection \<open>Confinement\<close>

function nearest_canonical :: "path \<Rightarrow> path io" where
  "nearest_canonical p w =
     (case path_parent p of
        None \<Rightarrow> (Err (Bail ''Path has no confined parent.''), w)
      | Some candidate \<Rightarrow>
          (case fs_canonicalize candidate w of
             (Inr q, w1) \<Rightarrow> (Ok q, w1)
           | (Inl e, w1) \<Rightarrow> if e = Io NotFound then nearest_canonical candidate w1 else (Err e, w1)))"
  by pat_completeness auto
termination
  by (relation "measure (\<lambda>(p, w). length p)") (auto simp: path_parent_def split: if_splits)

declare nearest_canonical.simps [simp del]

definition confined_host_path :: "path \<Rightarrow> string \<Rightarrow> bool \<Rightarrow> path io" where
  "confined_host_path root requested must_exist =
     from_res (safe_host_path root requested) (\<lambda>lexical.
     io_bind (fs_canonicalize root) (\<lambda>canonical_root.
     io_bind (io_try (fs_canonicalize lexical)) (\<lambda>r.
     io_bind (case r of
         Inr p \<Rightarrow> io_return p
       | Inl e \<Rightarrow> if e = Io NotFound \<and> \<not> must_exist then nearest_canonical lexical else io_fail e)
       (\<lambda>canonical_target.
     then_io (guard_io (prefix canonical_root canonical_target) ''Path escapes the server root.'')
       (io_return lexical)))))"

text \<open>@required_relative_path@, @validated_sources@ and @validate_file_name@.\<close>

definition required_relative_path :: "string \<Rightarrow> string \<Rightarrow> path res" where
  "required_relative_path p message =
     res_bind (relative p) (\<lambda>r. if path_string r = [] then Err (Bail message) else Ok r)"

fun sources_loop :: "string list \<Rightarrow> path list \<Rightarrow> path list res" where
  "sources_loop [] sources = Ok sources"
| "sources_loop (p # ps) sources =
     res_bind (required_relative_path p ''The server root cannot be selected.'') (\<lambda>r.
       if r \<in> set sources then Err (Bail ''Duplicate source paths are not allowed.'')
       else sources_loop ps (sources @ [r]))"

definition validated_sources :: "string list \<Rightarrow> path list res" where
  "validated_sources ps =
     (if ps = [] then Err (Bail ''At least one source path is required.'')
      else if length ps > 100 then Err (Bail ''No more than 100 items can be processed at once.'')
      else sources_loop ps [])"

text \<open>Control characters: C0 and DEL, and C1 as the two bytes C2 80 to C2 9F.\<close>

fun has_control :: "string \<Rightarrow> bool" where
  "has_control [] = False"
| "has_control (c # cs) =
     (in_range 0x00 0x1F c \<or> c = CHR 0x7F \<or>
      (c = CHR 0xC2 \<and> (case cs of d # _ \<Rightarrow> in_range 0x80 0x9F d | [] \<Rightarrow> False)) \<or> has_control cs)"

definition forbidden_name_char :: "char \<Rightarrow> bool" where
  "forbidden_name_char c \<longleftrightarrow> c \<in> set (''<>:'' @ [CHR 0x22] @ ''|?*'')"

definition validate_file_name :: "string \<Rightarrow> unit res" where
  "validate_file_name name =
     (if name = [] \<or> name = ''.'' \<or> name = ''..'' \<or> CHR ''/'' \<in> set name \<or> CHR 0x5C \<in> set name
         \<or> CHR 0x00 \<in> set name \<or> has_control name \<or> list_ex forbidden_name_char name
      then Err (Bail ''New name must be a single file or directory name.'') else Ok ())"

subsection \<open>Ownership\<close>

function ownership_paths :: "path \<Rightarrow> path \<Rightarrow> path list" where
  "ownership_paths root p =
     (if \<not> prefix root p then []
      else p # (if p = root then []
                else (case path_parent p of None \<Rightarrow> [] | Some q \<Rightarrow> ownership_paths root q)))"
  by pat_completeness auto
termination
  by (relation "measure (\<lambda>(r, p). length p)") (auto simp: path_parent_def split: if_splits)

declare ownership_paths.simps [simp del]

definition normalize_host_ownership :: "host \<Rightarrow> path \<Rightarrow> path \<Rightarrow> unit io" where
  "normalize_host_ownership h root target =
     io_ctx ''assign file operation output to the server runtime user''
       (io_unit (process_run h ''chown'' (SERVER_RUNTIME_USER # map path_string (ownership_paths root target))))"

definition fs_create_dir :: "path \<Rightarrow> unit io" where "fs_create_dir p = io_tree (mkdir_tree p)"

definition fs_try_exists :: "path \<Rightarrow> bool io" where
  "fs_try_exists p = io_query (\<lambda>t cwd.
     case existing t cwd p True of
       Inr _ \<Rightarrow> Ok True
     | Inl e \<Rightarrow> if e = Io NotFound then Ok False else Err e)"

subsection \<open>Listing\<close>

definition as_i64 :: "nat \<Rightarrow> int" where
  "as_i64 n = (let v = int (n mod 18446744073709551616) in
     if v < 9223372036854775808 then v else v - 18446744073709551616)"

fun item_insert :: "item \<Rightarrow> item list \<Rightarrow> item list" where
  "item_insert x [] = [x]"
| "item_insert x (y # ys) =
     (if str_less (item_name y) (item_name x) \<or> item_name y = item_name x then y # item_insert x ys
      else x # y # ys)"

definition sort_items :: "item list \<Rightarrow> item list" where
  "sort_items xs = foldl (\<lambda>acc x. item_insert x acc) [] xs"

definition too_many_entries :: string where
  "too_many_entries = ''Directory contains more than '' @ nat_digits MAX_DIRECTORY_ENTRIES @ '' entries.''"

fun list_entries :: "files_ctx \<Rightarrow> path \<Rightarrow> string list \<Rightarrow> item list \<Rightarrow> item list io" where
  "list_entries fx target [] acc = io_return acc"
| "list_entries fx target (name # names) acc =
     io_bind (fs_symlink_metadata (path_join target [Normal name])) (\<lambda>n.
       case n of
         Symlink _ \<Rightarrow> list_entries fx target names acc
       | _ \<Rightarrow>
           let it = \<lparr> item_name = from_utf8_lossy name,
                      item_directory = (case n of Dir _ \<Rightarrow> True | _ \<Rightarrow> False),
                      item_size = (case n of RegFile c \<Rightarrow> as_i64 (length c) | _ \<Rightarrow> 0),
                      item_modified = fx_modified fx (path_join target [Normal name]) \<rparr>;
               acc' = acc @ [it]
           in if length acc' > MAX_DIRECTORY_ENTRIES then io_fail (Bail too_many_entries)
              else list_entries fx target names acc')"

text \<open>
  The listing script, written with caret, tilde and at sign for the double quote, the single
  quote and the backslash, which a HOL string literal cannot hold.
\<close>

definition quoted_script :: "string \<Rightarrow> string" where
  "quoted_script s = map (\<lambda>c. if c = CHR ''^'' then CHR 0x22 else if c = CHR ''~'' then CHR 0x27
     else if c = CHR ''@'' then CHR 0x5C else c) s"

definition LIST_SCRIPT :: string where
  "LIST_SCRIPT = quoted_script
     (''; [ -d ^$target^ ] || exit 44; for f in ^$target^/* ^$target^/.[!.]* ^$target^/..?*; do '' @
      ''[ -e ^$f^ ] || continue; name=${f##*/}; if [ -d ^$f^ ]; then type=d; size=0; else type=f; '' @
      ''size=$(wc -c < ^$f^ 2>/dev/null || echo 0); fi; '' @
      ''mod=$(date -r ^$f^ -u +%Y-%m-%dT%H:%M:%SZ 2>/dev/null || echo ^^); '' @
      ''printf ~%s@t%s@t%s@t%s@n~ ^$name^ ^$type^ ^$size^ ^$mod^; done'')"

definition parse_item :: "string \<Rightarrow> item option" where
  "parse_item line =
     (let p = split_on (CHR 0x09) line in
      if length p < 4 then None
      else Some \<lparr> item_name = p ! 0, item_directory = (p ! 1 = ''d''),
                  item_size = (case parse_signed 9223372036854775807 (p ! 2) of Some i \<Rightarrow> i | None \<Rightarrow> 0),
                  item_modified = p ! 3 \<rparr>)"

definition list_files :: "files_ctx \<Rightarrow> string \<Rightarrow> string \<Rightarrow> item list io" where
  "list_files fx sid p =
     (let clean = (if clean_request p = [] then ''.'' else clean_request p) in
      from_res (files_root fx sid) (\<lambda>root.
        if fr_use_host root then
          then_io (fs_create_dir_all (fr_host root))
          (io_bind (confined_host_path (fr_host root) clean True) (\<lambda>target.
           io_bind (io_try (fs_read_dir target)) (\<lambda>r.
             case r of
               Inr names \<Rightarrow> io_bind (list_entries fx target names []) (\<lambda>out. io_return (sort_items out))
             | Inl e \<Rightarrow> if e = Io NotFound then io_return [] else io_fail e)))
        else
          from_res (container_target root clean) (\<lambda>target.
          io_bind (container_exec (fx_host_programs fx) sid (''target='' @ shell_quote target @ LIST_SCRIPT)) (\<lambda>raw.
            let items = List.map_filter parse_item (str_lines raw) in
            then_io (guard_io (length items \<le> MAX_DIRECTORY_ENTRIES) too_many_entries)
              (io_return items)))))"

subsection \<open>Reading\<close>

definition read_source_of :: "files_ctx \<Rightarrow> string \<Rightarrow> string \<Rightarrow> read_source io" where
  "read_source_of fx sid p =
     (let clean = (if clean_request p = [] then ''.'' else clean_request p) in
      from_res (files_root fx sid) (\<lambda>root.
        if fr_use_host root
        then io_bind (confined_host_path (fr_host root) clean True) (\<lambda>target. io_return (HostSource target))
        else from_res (container_target root clean) (\<lambda>target. io_return (ContainerSource sid target))))"

definition read_limited :: "files_ctx \<Rightarrow> nat \<Rightarrow> string \<Rightarrow> string \<Rightarrow> nat \<Rightarrow> string io" where
  "read_limited fx dir_len sid p maximum =
     io_bind (read_source_of fx sid p) (\<lambda>src.
       case src of
         HostSource path \<Rightarrow>
           io_bind (fs_metadata path) (\<lambda>n.
           then_io (guard_io (node_len dir_len n \<le> maximum) ''File is too large to read into memory.'')
             (fs_read path))
       | ContainerSource sid path \<Rightarrow>
           io_bind (container_exec (fx_host_programs fx) sid
             (''head -c '' @ nat_digits (saturating_add maximum 1) @ '' -- '' @ shell_quote path @ '' | base64''))
             (\<lambda>raw. from_res (fx_base64_decode fx (concat (split_whitespace raw))) (\<lambda>decoded.
               then_io (guard_io (length decoded \<le> maximum) ''File is too large to read into memory.'')
                 (io_return decoded))))"

definition read_file :: "files_ctx \<Rightarrow> nat \<Rightarrow> string \<Rightarrow> string \<Rightarrow> string io" where
  "read_file fx dir_len sid p = read_limited fx dir_len sid p MAX_IN_MEMORY_FILE_BYTES"

subsection \<open>Writing\<close>

definition create_parent :: "path \<Rightarrow> unit io" where
  "create_parent target = (case path_parent target of Some d \<Rightarrow> fs_create_dir_all d | None \<Rightarrow> io_return ())"

definition write_command :: "file_root \<Rightarrow> string \<Rightarrow> string" where
  "write_command root target =
     ''mkdir -p -- '' @ shell_quote (parent_of root target) @ '' && cat > '' @ shell_quote target"

definition write_file :: "files_ctx \<Rightarrow> string \<Rightarrow> string \<Rightarrow> string \<Rightarrow> unit io" where
  "write_file fx sid p bytes =
     (let clean = clean_request p in
      then_io (guard_io (clean \<noteq> []) ''A file path is required.'')
      (from_res (files_root fx sid) (\<lambda>root.
        if fr_use_host root then
          then_io (fs_create_dir_all (fr_host root))
          (io_bind (confined_host_path (fr_host root) clean False) (\<lambda>target.
           then_io (create_parent target)
           (then_io (fs_write target bytes)
             (normalize_host_ownership (fx_host_programs fx) (fr_host root) target))))
        else
          from_res (container_target root clean) (\<lambda>target.
            io_unit (process_docker_with_input (fx_host_programs fx)
              [''exec'', ''-i'', sid, ''/bin/sh'', ''-lc'', write_command root target] bytes)))))"

text \<open>The upload stream: the child runs first, then the source is opened and copied into it.\<close>

definition upload_stream :: "host \<Rightarrow> string list \<Rightarrow> path \<Rightarrow> unit io" where
  "upload_stream h args source =
     io_bind (io_try (fs_read source)) (\<lambda>r.
     io_bind (spawn h ''docker'' args [] (case r of Inr c \<Rightarrow> c | Inl _ \<Rightarrow> []) ''start Docker upload stream'') (\<lambda>proc.
       case r of
         Inl e \<Rightarrow> io_fail e
       | Inr _ \<Rightarrow> guard_io (proc_success proc)
           (''docker upload stream exited with status '' @ status_text proc)))"

definition write_from_path :: "files_ctx \<Rightarrow> string \<Rightarrow> string \<Rightarrow> path \<Rightarrow> unit io" where
  "write_from_path fx sid p source =
     (let clean = clean_request p in
      then_io (guard_io (clean \<noteq> []) ''A file path is required.'')
      (from_res (files_root fx sid) (\<lambda>root.
        if fr_use_host root then
          then_io (fs_create_dir_all (fr_host root))
          (io_bind (confined_host_path (fr_host root) clean False) (\<lambda>target.
           then_io (create_parent target)
           (then_io (fs_copy source target)
             (normalize_host_ownership (fx_host_programs fx) (fr_host root) target))))
        else
          from_res (container_target root clean) (\<lambda>target.
            upload_stream (fx_host_programs fx)
              [''exec'', ''-i'', sid, ''/bin/sh'', ''-lc'', write_command root target] source))))"

end
