(* ===== verification/Files_Manage.thy ===== *)
theory Files_Manage
  imports Files
begin

text \<open>
  The second half of @storage/files.rs@: deleting, renaming, creating directories, moving,
  archiving and extracting.
\<close>

subsection \<open>Delete, rename, create\<close>

definition remove_target :: "path \<Rightarrow> unit io" where
  "remove_target target =
     io_bind (fs_symlink_metadata target) (\<lambda>n.
       case n of Dir _ \<Rightarrow> fs_remove_dir_all target | _ \<Rightarrow> fs_remove_file target)"

definition delete_file :: "files_ctx \<Rightarrow> string \<Rightarrow> string \<Rightarrow> unit io" where
  "delete_file fx sid p =
     (let clean = clean_request p in
      then_io (guard_io (clean \<noteq> [] \<and> clean \<noteq> ''.'') ''Deleting the server root is not allowed.'')
      (from_res (files_root fx sid) (\<lambda>root.
        if fr_use_host root
        then io_bind (confined_host_path (fr_host root) clean True) remove_target
        else from_res (container_target root clean) (\<lambda>target.
          io_unit (container_exec (fx_host_programs fx) sid (''rm -rf -- '' @ shell_quote target))))))"

definition rename_to :: "path \<Rightarrow> string \<Rightarrow> unit io" where
  "rename_to source new_name =
     (case path_parent source of
        None \<Rightarrow> io_fail (Bail ''invalid source path'')
      | Some d \<Rightarrow>
          let destination = path_join d (components new_name) in
          io_bind (fs_try_exists destination) (\<lambda>e.
          then_io (guard_io (\<not> e) ''A file or directory with that name already exists.'')
            (fs_rename source destination)))"

definition rename_command :: "file_root \<Rightarrow> string \<Rightarrow> string \<Rightarrow> string" where
  "rename_command root source new_name =
     (let destination = shell_quote (parent_of root source @ ''/'' @ new_name) in
      ''[ ! -e '' @ destination @ '' ] || exit 45; mv -- '' @ shell_quote source @ '' '' @ destination)"

definition rename_file :: "files_ctx \<Rightarrow> string \<Rightarrow> string \<Rightarrow> string \<Rightarrow> unit io" where
  "rename_file fx sid p new_name =
     (let clean = clean_request p in
      from_res (validate_file_name new_name) (\<lambda>_.
      then_io (guard_io (clean \<noteq> [] \<and> clean \<noteq> ''.'') ''Renaming the server root is not allowed.'')
      (from_res (files_root fx sid) (\<lambda>root.
        if fr_use_host root
        then io_bind (confined_host_path (fr_host root) clean True) (\<lambda>source. rename_to source new_name)
        else from_res (container_target root clean) (\<lambda>source.
          io_unit (container_exec (fx_host_programs fx) sid (rename_command root source new_name)))))))"

definition create_directory :: "files_ctx \<Rightarrow> string \<Rightarrow> string \<Rightarrow> unit io" where
  "create_directory fx sid p =
     from_res (required_relative_path p ''A directory path is required.'') (\<lambda>rel.
     from_res (files_root fx sid) (\<lambda>root.
       if fr_use_host root then
         then_io (fs_create_dir_all (fr_host root))
         (io_bind (confined_host_path (fr_host root) (path_string rel) False) (\<lambda>target.
          then_io (fs_create_dir target)
            (normalize_host_ownership (fx_host_programs fx) (fr_host root) target)))
       else from_res (container_target root (path_string rel)) (\<lambda>target.
         io_unit (container_exec (fx_host_programs fx) sid (''mkdir -- '' @ shell_quote target)))))"

subsection \<open>Move\<close>

text \<open>The checks of one source; the moves are only collected here.\<close>

definition plan_move :: "path \<Rightarrow> path \<Rightarrow> path \<Rightarrow> (path \<times> path) io" where
  "plan_move host destination rel =
     io_bind (confined_host_path host (path_string rel) True) (\<lambda>source.
     io_bind (fs_symlink_metadata source) (\<lambda>n.
     then_io (guard_io (case n of Symlink _ \<Rightarrow> False | _ \<Rightarrow> True) ''Symbolic links cannot be moved.'')
     (case file_name source of
        None \<Rightarrow> io_fail (Bail ''invalid source path'')
      | Some name \<Rightarrow>
          let target = path_join destination [Normal name] in
          then_io (guard_io (source \<noteq> target) ''An item is already in the selected destination.'')
          (io_bind (fs_try_exists target) (\<lambda>e.
           then_io (guard_io (\<not> e) ''A file or directory with that name already exists in the destination.'')
           (io_bind (fs_metadata source) (\<lambda>m.
            then_io (guard_io (\<not> ((case m of Dir _ \<Rightarrow> True | _ \<Rightarrow> False) \<and> prefix source destination))
                      ''A directory cannot be moved inside itself.'')
              (io_return (source, target)))))))))"

fun plan_moves :: "path \<Rightarrow> path \<Rightarrow> path list \<Rightarrow> (path \<times> path) list io" where
  "plan_moves host destination [] = io_return []"
| "plan_moves host destination (rel # rels) =
     io_bind (plan_move host destination rel) (\<lambda>m.
     io_bind (plan_moves host destination rels) (\<lambda>ms. io_return (m # ms)))"

fun perform_moves :: "(path \<times> path) list \<Rightarrow> unit io" where
  "perform_moves [] = io_return ()"
| "perform_moves ((source, target) # ms) = then_io (fs_rename source target) (perform_moves ms)"

text \<open>The shell form: all checks, then all moves, as one command line.\<close>

definition fail_with :: "string \<Rightarrow> string \<Rightarrow> string" where
  "fail_with message code =
     '' || { echo '' @ [CHR 0x27] @ message @ [CHR 0x27] @ '' >&2; exit '' @ code @ ''; }''"

definition case_inside :: "string \<Rightarrow> string \<Rightarrow> string \<Rightarrow> string \<Rightarrow> string" where
  "case_inside destination source message code =
     ''case '' @ destination @ ''/ in '' @ source @ ''/*) echo '' @ [CHR 0x27] @ message @ [CHR 0x27] @
     '' >&2; exit '' @ code @ '';; esac''"

definition move_check :: "string \<Rightarrow> string \<Rightarrow> string \<Rightarrow> string" where
  "move_check source target destination =
     ''[ -e '' @ source @ '' ] && [ ! -L '' @ source @ '' ]'' @ fail_with ''Move source is unavailable.'' ''45'' @
     ''; [ '' @ source @ '' != '' @ target @ '' ]'' @
     fail_with ''An item is already in the selected destination.'' ''46'' @
     ''; [ ! -e '' @ target @ '' ]'' @ fail_with ''An item with that name already exists.'' ''47'' @
     ''; '' @ case_inside destination source ''A directory cannot be moved inside itself.'' ''48''"

fun move_commands :: "file_root \<Rightarrow> string \<Rightarrow> path list \<Rightarrow> (string list \<times> string list) res" where
  "move_commands root destination [] = Ok ([], [])"
| "move_commands root destination (rel # rels) =
     res_bind (container_target root (path_string rel)) (\<lambda>source.
     case file_name rel of
       None \<Rightarrow> Err (Bail ''invalid source path'')
     | Some name \<Rightarrow>
         let target = trim_end_matches (CHR ''/'') destination @ ''/'' @ name in
         res_bind (move_commands root destination rels) (\<lambda>(checks, moves).
           Ok (move_check (shell_quote source) (shell_quote target) (shell_quote destination) # checks,
               (''mv -- '' @ shell_quote source @ '' '' @ shell_quote target) # moves)))"

definition move_files :: "files_ctx \<Rightarrow> string \<Rightarrow> string list \<Rightarrow> string \<Rightarrow> unit io" where
  "move_files fx sid source_paths destination_path =
     from_res (validated_sources source_paths) (\<lambda>sources.
     from_res (relative destination_path) (\<lambda>destination_relative.
     from_res (files_root fx sid) (\<lambda>root.
       if fr_use_host root then
         io_bind (confined_host_path (fr_host root) (path_string destination_relative) True) (\<lambda>destination.
         io_bind (fs_metadata destination) (\<lambda>n.
         then_io (guard_io (case n of Dir _ \<Rightarrow> True | _ \<Rightarrow> False) ''Move destination must be a directory.'')
         (io_bind (plan_moves (fr_host root) destination sources) perform_moves)))
       else
         from_res (container_target root (path_string destination_relative)) (\<lambda>destination.
         from_res (move_commands root destination sources) (\<lambda>(checks, moves).
           io_unit (container_exec (fx_host_programs fx) sid
             (join_with ''; ''
               ((''[ -d '' @ shell_quote destination @ '' ]'' @
                   fail_with ''Move destination must be a directory.'' ''44'') # checks @ moves))))))))"

subsection \<open>Archives\<close>

fun check_archive_sources :: "path \<Rightarrow> path \<Rightarrow> path list \<Rightarrow> unit io" where
  "check_archive_sources host destination [] = io_return ()"
| "check_archive_sources host destination (rel # rels) =
     io_bind (confined_host_path host (path_string rel) True) (\<lambda>source.
     io_bind (fs_symlink_metadata source) (\<lambda>n.
     then_io (guard_io (case n of Symlink _ \<Rightarrow> False | _ \<Rightarrow> True) ''Symbolic links cannot be archived.'')
     (then_io (guard_io (\<not> ((case n of Dir _ \<Rightarrow> True | _ \<Rightarrow> False) \<and> prefix source destination))
        ''An archive cannot be created inside a selected directory.'')
       (check_archive_sources host destination rels))))"

definition archive_on_host :: "files_ctx \<Rightarrow> path \<Rightarrow> path list \<Rightarrow> path \<Rightarrow> unit io" where
  "archive_on_host fx host sources destination_relative =
     then_io (fs_create_dir_all host)
     (io_bind (confined_host_path host (path_string destination_relative) False) (\<lambda>destination.
      io_bind (fs_try_exists destination) (\<lambda>e.
      then_io (guard_io (\<not> e) ''A file or directory with the archive name already exists.'')
      (case path_parent destination of
         None \<Rightarrow> io_fail (Bail ''invalid archive path'')
       | Some parent \<Rightarrow>
           io_bind (fs_metadata parent) (\<lambda>n.
           then_io (guard_io (case n of Dir _ \<Rightarrow> True | _ \<Rightarrow> False) ''Archive destination directory does not exist.'')
           (then_io (check_archive_sources host destination sources)
           (then_io
             (io_catch (io_unit (process_run (fx_host_programs fx) ''tar''
                 ([''-czf'', path_string destination, ''-C'', path_string host, ''--''] @ map path_string sources)))
               (\<lambda>error. then_io (io_ignore (fs_remove_file destination)) (io_fail error)))
             (normalize_host_ownership (fx_host_programs fx) host destination))))))))"

fun archive_checks :: "file_root \<Rightarrow> string \<Rightarrow> path list \<Rightarrow> string list res" where
  "archive_checks root destination [] = Ok []"
| "archive_checks root destination (rel # rels) =
     res_bind (container_target root (path_string rel)) (\<lambda>source.
     res_bind (archive_checks root destination rels) (\<lambda>checks.
       Ok ((''[ -e '' @ shell_quote source @ '' ] && [ ! -L '' @ shell_quote source @ '' ]'' @
              fail_with ''Archive source is unavailable.'' ''46'') #
           case_inside (shell_quote destination) (shell_quote source)
              ''An archive cannot be created inside a selected directory.'' ''47'' # checks)))"

text \<open>The clean-up of the temporary archive, with the already quoted name put between quotes again.\<close>

definition archive_trap :: "string \<Rightarrow> string" where
  "archive_trap temporary = ''trap '' @ [CHR 0x27] @ ''rm -f -- '' @ temporary @ [CHR 0x27] @ '' EXIT''"

definition archive_in_container :: "files_ctx \<Rightarrow> string \<Rightarrow> file_root \<Rightarrow> path list \<Rightarrow> path \<Rightarrow> unit io" where
  "archive_in_container fx sid root sources destination_relative =
     from_res (container_target root (path_string destination_relative)) (\<lambda>destination.
     let temporary = shell_quote (destination @ ''.agapornis-'' @ fx_uuid fx) in
     from_res (archive_checks root destination sources) (\<lambda>checks.
       io_unit (container_exec (fx_host_programs fx) sid
         (join_with ''; ''
           ([''[ -d '' @ shell_quote (parent_of root destination) @ '' ]'' @
               fail_with ''Archive destination directory does not exist.'' ''44'',
             ''[ ! -e '' @ shell_quote destination @ '' ]'' @
               fail_with ''An item with the archive name already exists.'' ''45''] @ checks @
            [archive_trap temporary @ ''; cd '' @
               shell_quote (fr_container root) @ ''; tar -czf '' @ temporary @ '' -- '' @
               join_with '' '' (map (\<lambda>r. shell_quote (path_string r)) sources) @
               ''; mv -- '' @ temporary @ '' '' @ shell_quote destination @ ''; trap - EXIT''])))))"

definition create_archive :: "files_ctx \<Rightarrow> string \<Rightarrow> string list \<Rightarrow> string \<Rightarrow> unit io" where
  "create_archive fx sid source_paths destination_path =
     from_res (validated_sources source_paths) (\<lambda>sources.
     from_res (required_relative_path destination_path ''An archive destination path is required.'')
       (\<lambda>destination_relative.
     then_io (guard_io (ends_with ''.tar.gz'' (to_ascii_lowercase (path_string destination_relative)))
       ''Archive name must end with .tar.gz.'')
     (from_res (files_root fx sid) (\<lambda>root.
       if fr_use_host root then archive_on_host fx (fr_host root) sources destination_relative
       else archive_in_container fx sid root sources destination_relative))))"

subsection \<open>Extraction\<close>

definition extract_command :: "string \<Rightarrow> string res" where
  "extract_command clean =
     (let n = to_ascii_lowercase clean in
      if ends_with ''.tar.gz'' n \<or> ends_with ''.tgz'' n
      then Ok ''tar --no-same-owner --no-same-permissions -xzf /archive -C /extract''
      else if ends_with ''.tar'' n
      then Ok ''tar --no-same-owner --no-same-permissions -xf /archive -C /extract''
      else if ends_with ''.zip'' n then Ok ''unzip -o /archive -d /extract''
      else Err (Bail ''Only .zip, .tar, .tar.gz, and .tgz archives can be extracted.''))"

definition archive_mount :: "path \<Rightarrow> string" where
  "archive_mount archive = ''type=bind,src='' @ path_string archive @ '',dst=/archive,readonly''"

definition destination_mount :: "path \<Rightarrow> string" where
  "destination_mount destination = ''type=bind,src='' @ path_string destination @ '',dst=/extract''"

definition extract_arguments :: "path \<Rightarrow> path \<Rightarrow> string \<Rightarrow> string \<Rightarrow> string list" where
  "extract_arguments archive destination img command =
     [''run'', ''--rm'', ''--pull'', ''never'', ''--network'', ''none'', ''--read-only'',
      ''--cap-drop'', ''ALL'', ''--security-opt'', ''no-new-privileges'', ''--pids-limit'', ''128'',
      ''--memory'', ''256m'', ''--cpus'', ''0.5'', ''--user'', SERVER_RUNTIME_USER,
      ''--mount'', archive_mount archive, ''--mount'', destination_mount destination,
      ''--entrypoint'', ''/bin/sh'', img, ''-lc'', command]"

definition extract_archive :: "files_ctx \<Rightarrow> string \<Rightarrow> string \<Rightarrow> string \<Rightarrow> unit io" where
  "extract_archive fx sid archive_path destination_path =
     (let clean = clean_request archive_path in
      then_io (guard_io (clean \<noteq> []) ''An archive path is required.'')
      (from_res (extract_command clean) (\<lambda>command.
       from_res (docker_root (fx_env fx) (fx_inspect fx) sid) (\<lambda>(host_root, _, _, _).
       io_bind (confined_host_path host_root clean True) (\<lambda>archive.
       io_bind (fs_metadata archive) (\<lambda>n.
       then_io (guard_io (case n of RegFile _ \<Rightarrow> True | _ \<Rightarrow> False) ''Archive path is not a file.'')
       (io_bind (confined_host_path host_root destination_path False) (\<lambda>destination.
       then_io (fs_create_dir_all destination)
       (then_io (normalize_host_ownership (fx_host_programs fx) host_root destination)
       (io_bind (confined_host_path host_root destination_path True) (\<lambda>destination.
        from_res (docker_inspect (fx_inspect fx) sid) (\<lambda>inspect.
        from_res (case Option.bind (pointer [''Config'', ''Image''] inspect) as_str of
                    Some img \<Rightarrow> if trim img \<noteq> [] then Ok img else Err (Bail ''server image is unavailable'')
                  | None \<Rightarrow> Err (Bail ''server image is unavailable'')) (\<lambda>img.
        io_unit (process_docker (fx_host_programs fx) (extract_arguments archive destination img command)))))))))))))))"

end
