(* ===== verification/Files_Safety.thy ===== *)
theory Files_Safety
  imports Files_Manage
begin

text \<open>
  What the file operations promise: confinement to the server's directory, bounds on what is
  read, validated lists of sources, ownership of what is created, quoting of what a container
  shell runs; and the places where the code does less than it means to.
\<close>

subsection \<open>Confinement\<close>

lemma io_try_Ok: "io_try m w = (Inr r, w') \<longleftrightarrow> m w = (r, w')"
  by (auto simp: io_try_def split: prod.splits)

lemma guard_io_Ok: "guard_io ok m w = (Inr y, w') \<longleftrightarrow> ok \<and> w' = w"
  by (auto simp: guard_io_def io_return_def io_fail_def)

lemma io_unit_Ok: "io_unit m w = (Inr y, w') \<longleftrightarrow> (\<exists>x. m w = (Inr x, w'))"
  by (auto simp: io_unit_def io_bind_Ok io_simple_Ok)

lemmas io_Ok = io_bind_Ok io_simple_Ok io_try_Ok guard_io_Ok io_unit_Ok io_ctx_Ok

definition same_tree :: "world \<Rightarrow> world \<Rightarrow> bool" where
  "same_tree w w' \<longleftrightarrow> w_root w' = w_root w \<and> w_cwd w' = w_cwd w \<and> w_trace w' = w_trace w \<and>
     w_requests w' = w_requests w"

lemma same_tree_refl [simp]: "same_tree w w"
  by (simp add: same_tree_def)

lemma same_tree_trans: "same_tree a b \<Longrightarrow> same_tree b c \<Longrightarrow> same_tree a c"
  by (simp add: same_tree_def)

lemma io_query_same: "io_query f w = (r, w') \<Longrightarrow> same_tree w w'"
  using io_query_spec [of f w r w'] io_query_requests [of f w] by (simp add: same_tree_def)

lemma canonicalize_same: "fs_canonicalize p w = (r, w') \<Longrightarrow> same_tree w w'"
  unfolding fs_canonicalize_def by (rule io_query_same)

lemma canonicalize_Ok:
  "fs_canonicalize p w = (Inr q, w') \<Longrightarrow>
   same_tree w w' \<and> (\<exists>r n. existing (w_root w) (w_cwd w) p True = Ok (r, n) \<and> q = abs_path r)"
  using io_query_Ok canonicalize_same unfolding fs_canonicalize_def
  by (fastforce simp: res_simps split: prod.splits)

lemma prefix_abs_path [simp]: "prefix (abs_path a) (abs_path b) \<longleftrightarrow> prefix a b"
proof
  assume "prefix (abs_path a) (abs_path b)"
  then obtain zs where "map Normal b = map Normal a @ zs" by (auto simp: abs_path_def prefix_def)
  then have "map Normal (take (length a) b) = map Normal a"
    by (metis append_eq_conv_conj length_map take_map)
  then have "take (length a) b = a" by (metis component.inject inj_map_eq_map injI)
  then show "prefix a b" by (metis take_is_prefix)
qed (auto simp: abs_path_def prefix_def)

lemma safe_host_path_Ok:
  "safe_host_path root r = Ok p \<Longrightarrow> \<exists>names. p = root @ map Normal names \<and> list_all plain_name names"
  using relative_names by (fastforce simp: safe_host_path_def res_simps path_join_normals)

text \<open>C12: whenever an existing path is accepted for a file operation it is the server's
  directory followed by plain names, it exists, and with every symbolic link on the way
  followed it lies in the canonical server directory; deciding this touches no file and
  runs no program.\<close>

theorem confined_existing:
  assumes "confined_host_path root requested True w = (Ok p, w')"
  shows "same_tree w w' \<and> (\<exists>names rq q n m.
      p = root @ map Normal names \<and> list_all plain_name names \<and>
      existing (w_root w) (w_cwd w) root True = Ok (rq, m) \<and>
      existing (w_root w) (w_cwd w) p True = Ok (q, n) \<and> prefix rq q)"
proof -
  from assms obtain cr w1 r w2 ct w3 where
    s: "safe_host_path root requested = Inr p" and
    1: "fs_canonicalize root w = (Inr cr, w1)" and
    2: "fs_canonicalize p w1 = (r, w2)" and
    3: "(case r of Inr p \<Rightarrow> io_return p
        | Inl e \<Rightarrow> if e = Io NotFound \<and> \<not> True then nearest_canonical p else io_fail e) w2 = (Inr ct, w3)" and
    4: "prefix cr ct" "w' = w3"
    unfolding confined_host_path_def by (auto simp only: io_Ok)
  have r: "r = Inr ct" "w3 = w2"
    using 3 by (cases r; auto simp: io_Ok io_fail_def)+
  note c1 = canonicalize_Ok [OF 1] and c2 = canonicalize_Ok [OF 2 [unfolded r]]
  have "same_tree w w'" using c1 c2 4 r same_tree_trans by blast
  then show ?thesis
    using c1 c2 4 safe_host_path_Ok [OF s] by (fastforce simp: same_tree_def)
qed

definition calm_world :: "node \<Rightarrow> world" where
  "calm_world t = \<lparr> w_root = t, w_cwd = [], w_faults = [], w_trace = [], w_requests = [], w_objects = [] \<rparr>"

theorem confined_existing_witness:
  "\<exists>names. [RootDir, Normal ''s'', Normal ''a''] = [RootDir, Normal ''s''] @ map Normal names \<and>
     list_all plain_name names"
proof -
  have "confined_host_path [RootDir, Normal ''s''] ''/a'' True (calm_world (Dir [(''s'', Dir [(''a'', RegFile [])])]))
      = (Ok [RootDir, Normal ''s'', Normal ''a''], calm_world (Dir [(''s'', Dir [(''a'', RegFile [])])]))"
    by code_simp
  from confined_existing [OF this] show ?thesis by blast
qed

subsection \<open>Reading\<close>

lemma fs_read_Ok:
  "fs_read p w = (Inr c, w') \<Longrightarrow> \<exists>q. existing (w_root w) (w_cwd w) p True = Ok (q, RegFile c)"
proof -
  assume "fs_read p w = (Inr c, w')"
  then have "read_tree p (w_root w) (w_cwd w) = Inr c"
    using io_query_Ok [of "read_tree p" w c w'] by (simp add: fs_read_def)
  then obtain q n where "existing (w_root w) (w_cwd w) p True = Inr (q, n)"
    "(case n of RegFile c \<Rightarrow> Ok c | Dir _ \<Rightarrow> Err (Io IsADirectory) | Symlink _ \<Rightarrow> Err (Io OtherIo)) = Inr c"
    by (auto simp: read_tree_def res_simps)
  then show ?thesis by (cases n) auto
qed

lemma fs_metadata_Ok:
  "fs_metadata p w = (Inr n, w') \<Longrightarrow>
   same_tree w w' \<and> (\<exists>q. existing (w_root w) (w_cwd w) p True = Ok (q, n))"
  using io_query_Ok io_query_same unfolding fs_metadata_def
  by (fastforce simp: res_simps split: prod.splits)

text \<open>Lemma: a file that is read into memory never exceeds the limit the caller set, on the host
  and in the container alike.\<close>

theorem read_limited_bound:
  assumes "read_limited fx dl sid p maximum w = (Ok bytes, w')"
  shows "length bytes \<le> maximum"
proof -
  from assms obtain src w1 where src: "(case src of
         HostSource path \<Rightarrow>
           io_bind (fs_metadata path) (\<lambda>n.
           io_bind (guard_io (node_len dl n \<le> maximum) ''File is too large to read into memory.'')
             (\<lambda>_. fs_read path))
       | ContainerSource sid path \<Rightarrow>
           io_bind (container_exec (fx_host_programs fx) sid
             (''head -c '' @ nat_digits (saturating_add maximum 1) @ '' -- '' @ shell_quote path @ '' | base64''))
             (\<lambda>raw. io_bind (io_lift (fx_base64_decode fx (concat (split_whitespace raw)))) (\<lambda>decoded.
               io_bind (guard_io (length decoded \<le> maximum) ''File is too large to read into memory.'')
                 (\<lambda>_. io_return decoded)))) w1 = (Inr bytes, w')"
    unfolding read_limited_def by (auto simp only: io_bind_Ok)
  show ?thesis
  proof (cases src)
    case (HostSource path)
    then obtain n w2 where 1: "fs_metadata path w1 = (Inr n, w2)" "node_len dl n \<le> maximum"
      "fs_read path w2 = (Inr bytes, w')"
      using src by (auto simp: io_Ok)
    then show ?thesis using fs_metadata_Ok [OF 1(1)] fs_read_Ok [OF 1(3)] by (auto simp: same_tree_def)
  next
    case (ContainerSource sid' path)
    then show ?thesis using src by (auto simp: io_Ok)
  qed
qed

subsection \<open>Lists of sources\<close>

lemma sources_loop_Ok:
  "sources_loop ps acc = Ok rs \<Longrightarrow> distinct acc \<Longrightarrow>
   \<exists>new. rs = acc @ new \<and> distinct rs \<and> length new = length ps \<and>
     list_all2 (\<lambda>p r. relative p = Ok r \<and> r \<noteq> []) ps new"
proof (induction ps arbitrary: acc)
  case (Cons p ps)
  then obtain r where r: "relative p = Ok r" "path_string r \<noteq> []" "r \<notin> set acc"
    "sources_loop ps (acc @ [r]) = Ok rs"
    by (auto simp: required_relative_path_def res_simps split: if_splits)
  from Cons.IH [OF r(4)] Cons.prems(2) r(3) obtain new where
    "rs = (acc @ [r]) @ new" "distinct rs" "length new = length ps"
    "list_all2 (\<lambda>p r. relative p = Ok r \<and> r \<noteq> []) ps new" by auto
  moreover have "r \<noteq> []" using r(2) by (auto simp: path_string_def)
  ultimately show ?case using r(1) by (intro exI [of _ "r # new"]) simp
qed simp

text \<open>Lemma: an accepted list of sources has between 1 and 100 entries, each request became a
  non-empty path of plain names below the root, and no path occurs twice.\<close>

theorem validated_sources_sound:
  assumes "validated_sources ps = Ok rs"
  shows "1 \<le> length rs \<and> length rs \<le> 100 \<and> distinct rs \<and>
    list_all2 (\<lambda>p r. relative p = Ok r) ps rs \<and>
    list_all (\<lambda>r. \<exists>names. r = map Normal names \<and> names \<noteq> [] \<and> list_all plain_name names) rs"
proof -
  have l: "ps \<noteq> []" "length ps \<le> 100" "sources_loop ps [] = Ok rs"
    using assms by (auto simp: validated_sources_def split: if_splits)
  then have rs: "distinct rs" "length rs = length ps" "list_all2 (\<lambda>p r. relative p = Ok r \<and> r \<noteq> []) ps rs"
    using sources_loop_Ok [OF l(3)] by auto
  have n: "\<exists>names. r = map Normal names \<and> names \<noteq> [] \<and> list_all plain_name names"
    if "relative p = Ok r" "r \<noteq> []" for p r
    using relative_names [OF that(1)] that(2) by auto
  have "list_all (\<lambda>r. \<exists>names. r = map Normal names \<and> names \<noteq> [] \<and> list_all plain_name names) rs"
    using rs(3) by (induction rule: list_all2_induct) (use n in auto)
  moreover have "list_all2 (\<lambda>p r. relative p = Ok r) ps rs"
    using rs(3) by (rule list_all2_mono) simp
  ultimately show ?thesis using rs l by (cases ps) auto
qed

theorem validated_sources_sound_witness:
  "list_all2 (\<lambda>p r. relative p = Ok r) [''/safe/file.txt''] [[Normal ''safe'', Normal ''file.txt'']]"
proof -
  have "validated_sources [''/safe/file.txt''] = Ok [[Normal ''safe'', Normal ''file.txt'']]"
    by code_simp
  from validated_sources_sound [OF this] show ?thesis by blast
qed

subsection \<open>Ownership\<close>

lemma ownership_chain:
  "root \<noteq> [] \<Longrightarrow> (if prefix root target
    then ownership_paths root target = map (\<lambda>i. take (length target - i) target) [0..<Suc (length target - length root)]
    else ownership_paths root target = [])"
proof (induction root target rule: ownership_paths.induct)
  case (1 root p)
  show ?case
  proof (cases "prefix root p")
    case False
    then show ?thesis by (subst ownership_paths.simps) simp
  next
    case pre: True
    show ?thesis
    proof (cases "p = root")
      case True
      then show ?thesis by (subst ownership_paths.simps) simp
    next
      case False
      then have l: "length root < length p" using pre
        by (metis prefix_length_less strict_prefixI)
      show ?thesis
      proof (cases "path_parent p")
        case None
        then show ?thesis using l 1(2) by (cases root) (auto simp: path_parent_def split: if_splits)
      next
        case (Some q)
        then have q: "q = butlast p" by (auto simp: path_parent_def split: if_splits)
        have "prefix root q"
          using pre l by (auto simp: q prefix_def butlast_append)
        then have "ownership_paths root q =
            map (\<lambda>i. take (length q - i) q) [0..<Suc (length q - length root)]"
          using 1(1) [OF _ False Some] 1(2) pre by simp
        moreover have "take (length q - i) q = take (length p - Suc i) p" for i
          by (simp add: q butlast_conv_take min_def)
        ultimately have "ownership_paths root q =
            map (\<lambda>i. take (length p - i) p) (map Suc [0..<Suc (length q - length root)])"
          by simp
        moreover have "length p - length root = Suc (length q - length root)" using l by (simp add: q)
        moreover have "[0..<Suc (Suc n)] = 0 # map Suc [0..<Suc n]" for n
          by (subst upt_conv_Cons) (simp_all only: map_Suc_upt zero_less_Suc)
        ultimately show ?thesis
          using pre False Some by (subst ownership_paths.simps) simp
      qed
    qed
  qed
qed

text \<open>Lemma: after an operation the ownership of exactly the target, its parents below the server's
  directory and that directory itself is set, from the target upwards; a target outside gets
  none.\<close>

theorem ownership_paths_chain:
  "(if prefix (RootDir # r) target
    then ownership_paths (RootDir # r) target =
      map (\<lambda>i. take (length target - i) target) [0..<length target - length r]
    else ownership_paths (RootDir # r) target = [])"
proof (cases "prefix (RootDir # r) target")
  case True
  then have "Suc (length r) \<le> length target" using prefix_length_le by fastforce
  then have "Suc (length target - length (RootDir # r)) = length target - length r" by simp
  then show ?thesis using ownership_chain [of "RootDir # r" target] True by (simp del: upt_Suc)
qed (use ownership_chain [of "RootDir # r" target] in simp)




text \<open>A server without a container, on a host with nothing but its directory.\<close>

definition bare_fx :: files_ctx where
  "bare_fx = \<lparr> fx_env = (\<lambda>_. None), fx_inspect = (\<lambda>_. Err (Ext [])),
    fx_host_programs = \<lparr> h_spawn = (\<lambda>_ _ t. (Inr \<lparr> exit_code = Some 0, proc_stdout = [], proc_stderr = [] \<rparr>, t)),
      h_exec = (\<lambda>_ _ _ t. (Err (Ext []), t)), h_api = (\<lambda>_ _ t. (Inr (), t)), h_inspect = (\<lambda>_ _. Inl (DockerOther [])) \<rparr>,
    fx_modified = (\<lambda>_. []), fx_base64_decode = (\<lambda>_. Err (Ext [])), fx_uuid = [] \<rparr>"

definition servers_world :: "(string \<times> node) list \<Rightarrow> world" where
  "servers_world es = calm_world (Dir [(''var'', Dir [(''lib'', Dir [(''agapornis'', Dir [(''servers'', Dir es)])])])])"

definition servers_path :: "string list \<Rightarrow> path" where
  "servers_path names = abs_path ([''var'', ''lib'', ''agapornis'', ''servers''] @ names)"

theorem read_limited_bound_witness: "length ''ab'' \<le> (2 :: nat)"
proof -
  define w where "w = servers_world [(''s'', Dir [(''a'', RegFile ''ab'')])]"
  define p where "p = servers_path [''s'', ''a'']"
  have "read_source_of bare_fx ''s'' ''a'' w = (Ok (HostSource p), w)"
    unfolding w_def p_def by code_simp
  moreover have "fs_metadata p w = (Ok (RegFile ''ab''), w)" "fs_read p w = (Ok ''ab'', w)"
    unfolding w_def p_def by code_simp+
  ultimately have "read_limited bare_fx 0 ''s'' ''a'' 2 w = (Ok ''ab'', w)"
    by (simp add: read_limited_def io_bind_def guard_io_def io_return_def)
  from read_limited_bound [OF this] show ?thesis .
qed

subsection \<open>Where the checks are passed by\<close>

text \<open>The guard of @delete@ looks at the text of the request, the deletion at its meaning.\<close>

lemma delete_guard_text:
  "clean_request ''./'' = ''./'' \<and> safe_host_path root ''./'' = Ok root"
proof -
  have "clean_request ''./'' = ''./''" "relative ''./'' = Ok []" by code_simp+
  then show ?thesis by (simp add: safe_host_path_def path_join_def is_absolute_def)
qed

lemma take_fault_calm: "w_faults w = [] \<Longrightarrow> take_fault w = (NoFault, w)"
  by (simp add: take_fault_def)

text \<open>Lemma: the request @./@ is not refused: on a host without faults it deletes the server's
  directory with everything in it.\<close>

theorem delete_root_by_dot_slash:
  assumes "files_root fx sid = Ok root" "fr_use_host root" "fr_host root = abs_path h"
    and "w_faults w = []" "real_parent (w_root w) h" "lookup (w_root w) h = Some (Dir es)" "h \<noteq> []"
  shows "\<exists>w'. delete_file fx sid ''./'' w = (Ok (), w') \<and> lookup (w_root w') h = None"
proof -
  have ex: "existing (w_root w) (w_cwd w) (abs_path h) b = Ok (h, Dir es)" for b
    using resolve_abs [OF assms(5), of b max_links "w_cwd w"] assms(6)
    by (simp add: existing_def resolve_def abs_path_def)
  have can: "fs_canonicalize (abs_path h) w = (Ok (abs_path h), w)"
    using assms(4) ex by (simp add: fs_canonicalize_def io_query_def take_fault_calm)
  have "confined_host_path (abs_path h) ''./'' True w = (Ok (abs_path h), w)"
    by (simp add: confined_host_path_def delete_guard_text io_bind_def io_lift_def can io_try_def
        io_return_def guard_io_def)
  moreover have "fs_symlink_metadata (abs_path h) w = (Ok (Dir es), w)"
    using assms(4) ex by (simp add: fs_symlink_metadata_def io_query_def take_fault_calm)
  moreover have "fs_remove_dir_all (abs_path h) w = (Ok (), set_root (put h None (w_root w)) w)"
    using assms(4) ex by (simp add: fs_remove_dir_all_def io_tree_def take_fault_calm)
  ultimately have "delete_file fx sid ''./'' w = (Ok (), set_root (put h None (w_root w)) w)"
    by (simp add: delete_file_def Let_def conjunct1 [OF delete_guard_text] guard_io_def io_bind_def
        io_return_def io_lift_def assms(1-3) remove_target_def)
  moreover have "lookup (put h None (w_root w)) h = None"
    using lookup_put_same real_parent_ok assms(5,7) by blast
  ultimately show ?thesis by simp
qed

theorem delete_root_by_dot_slash_witness:
  "\<exists>w'. delete_file bare_fx ''s'' ''./'' (servers_world [(''s'', Dir [(''a'', RegFile ''ab'')])]) = (Ok (), w') \<and>
     lookup (w_root w') [''var'', ''lib'', ''agapornis'', ''servers'', ''s''] = None"
proof (rule delete_root_by_dot_slash)
  show "files_root bare_fx ''s'' =
      Ok \<lparr> fr_host = servers_path [''s''], fr_container = ''/home/container'', fr_use_host = True \<rparr>"
    by code_simp
  show "real_parent (w_root (servers_world [(''s'', Dir [(''a'', RegFile ''ab'')])]))
      [''var'', ''lib'', ''agapornis'', ''servers'', ''s'']"
    by (simp add: real_parent_def servers_world_def calm_world_def is_dir_at_def less_Suc_eq numeral_nat
        split: option.splits)
qed (simp_all add: servers_path_def servers_world_def calm_world_def)

subsection \<open>Writing through a dangling link\<close>

lemma resolve_link:
  assumes "real_parent t (cur @ names @ [x])" "lookup t (cur @ names @ [x]) = Some (Symlink target)"
  shows "resolve_from (Suc k) t cur (map Normal (names @ [x])) True = resolve_from k t (cur @ names) target True"
  using assms
proof (induction names arbitrary: cur)
  case Nil
  then have "is_dir_at t cur" using real_parentD [of t "cur @ [x]" cur] by simp
  then obtain es where "lookup t cur = Some (Dir es)"
    by (auto simp: is_dir_at_def split: option.splits node.splits)
  moreover from this have "map_of es x = Some (Symlink target)"
    using Nil(2) by (simp add: lookup_append split: option.splits)
  ultimately show ?case by simp
next
  case (Cons s names)
  have "is_dir_at t cur" "is_dir_at t (cur @ [s])"
    using real_parentD [OF Cons.prems(1), of cur] real_parentD [OF Cons.prems(1), of "cur @ [s]"] by auto
  then obtain es es' where es: "lookup t cur = Some (Dir es)" "map_of es s = Some (Dir es')"
    by (auto simp: is_dir_at_def lookup_append split: option.splits node.splits)
  have "resolve_from (Suc k) t (cur @ [s]) (map Normal (names @ [x])) True =
      resolve_from k t ((cur @ [s]) @ names) target True"
    by (rule Cons.IH) (use Cons.prems in auto)
  then show ?case using es by simp
qed

lemma normalize_trace:
  "\<exists>ts. w_trace (snd (normalize_host_ownership h root target w)) = w_trace w @ ts"
  by (simp add: normalize_host_ownership_def io_ctx_def io_unit_def process_run_def spawn_def perform_def
      io_bind_def io_return_def io_fail_def split: prod.splits sum.splits)

lemma path_string_normal: "path_string [Normal s] = s"
  by (simp add: path_string_def)

lemma clean_plain: "plain_name s \<Longrightarrow> clean_request s = s"
  by (cases s) (auto simp: clean_request_def is_slash_def plain_name_def)

lemma components_plain_name: "plain_name s \<Longrightarrow> components s = [Normal s]"
  using components_path_string [of "[s]"]
  by (simp add: components_def seg_components_def plain_name_def split_on_no_sep)

lemma create_dir_all_existing:
  assumes "w_faults w = []" "p \<noteq> []" "resolve (w_root w) (w_cwd w) p False = Ok q"
    "lookup (w_root w) q = Some (Dir es)" "existing (w_root w) (w_cwd w) p True = Ok (q', Dir es')"
  shows "fs_create_dir_all p w = (Ok (), set_root (w_root w) w)"
  using assms by (simp add: fs_create_dir_all_def io_tree_def take_fault_calm mkdirs_tree.simps
      mkdir_tree_def is_dir_tree_def)

text \<open>Lemma: a symbolic link in the server's directory whose target does not exist yet passes the
  confinement check of a write, and the write creates the target, wherever it is.\<close>

theorem write_through_dangling_link:
  assumes "files_root fx sid = Ok root" "fr_use_host root" "fr_host root = abs_path h"
    and "w_faults w = []" "real_parent (w_root w) (h @ [name])" "plain_name name"
    and "lookup (w_root w) (h @ [name]) = Some (Symlink (abs_path out))"
    and "real_parent (w_root w) out" "out \<noteq> []" "lookup (w_root w) out = None"
  shows "\<exists>t \<in> set (w_trace (snd (write_file fx sid name bytes w))). lookup t out = Some (RegFile bytes)"
proof -
  let ?t = "w_root w"
  have h: "real_parent ?t h" using assms(5) by (auto simp: real_parent_def less_Suc_eq)
  obtain es where es: "lookup ?t h = Some (Dir es)"
    using real_parentD [OF assms(5), of h] by (auto simp: is_dir_at_def split: option.splits node.splits)
  have rh: "resolve ?t cwd (abs_path h) b = Ok h" for b cwd
    using resolve_abs [OF h] es by (simp add: resolve_def abs_path_def)
  have eh: "existing ?t cwd (abs_path h) b = Ok (h, Dir es)" for b cwd
    using rh es by (simp add: existing_def)
  have rl: "resolve ?t cwd (abs_path (h @ [name])) True = Ok out" for cwd
  proof -
    have "resolve_from (Suc 39) ?t [] (map Normal (h @ [name])) True = resolve_from 39 ?t h (abs_path out) True"
      using resolve_link [of ?t "[]" h name "abs_path out" 39] assms(5,7)
      unfolding append_Nil by blast
    also have "\<dots> = Ok out" using resolve_abs [OF assms(8), of True] assms(10) by simp
    finally show ?thesis by (simp add: resolve_def abs_path_def max_links_def)
  qed
  define w1 where "w1 = set_root ?t w"
  have w1: "w_root w1 = ?t" "w_faults w1 = []" using assms(4) by (simp_all add: w1_def)
  have mk: "fs_create_dir_all (abs_path h) w = (Ok (), w1)"
    unfolding w1_def using create_dir_all_existing [OF assms(4) _ rh es eh] by (simp add: abs_path_def)
  have can: "fs_canonicalize (abs_path h) w1 = (Ok (abs_path h), w1)"
    using w1 eh by (simp add: fs_canonicalize_def io_query_def take_fault_calm)
  have canl: "fs_canonicalize (abs_path (h @ [name])) w1 = (Err (Io NotFound), w1)"
    using w1 rl assms(10) by (simp add: fs_canonicalize_def io_query_def take_fault_calm existing_def)
  have par: "path_parent (abs_path (h @ [name])) = Some (abs_path h)"
    by (simp add: path_parent_def abs_path_def butlast_append)
  have near: "nearest_canonical (abs_path (h @ [name])) w1 = (Ok (abs_path h), w1)"
    by (subst nearest_canonical.simps) (simp add: par can)
  have safe: "safe_host_path (abs_path h) name = Ok (abs_path (h @ [name]))"
  proof -
    have "CHR 0x5C \<notin> set name" using assms(6) by (simp add: plain_name_def)
    then have "relative name = Ok [Normal name]"
      using relative_path_string [of "[name]"] assms(6) by (simp add: path_string_normal)
    then show ?thesis by (simp add: safe_host_path_def path_join_def is_absolute_def abs_path_def)
  qed
  have conf: "confined_host_path (abs_path h) name False w1 = (Ok (abs_path (h @ [name])), w1)"
    by (simp add: confined_host_path_def safe io_bind_def io_lift_def can io_try_def canl near
        io_return_def guard_io_def)
  define w2 where "w2 = set_root ?t w1"
  have mk2: "create_parent (abs_path (h @ [name])) w1 = (Ok (), w2)"
  proof -
    have "fs_create_dir_all (abs_path h) w1 = (Ok (), w2)"
      unfolding w2_def using create_dir_all_existing [of w1 "abs_path h"] w1 rh es eh
      by (simp add: abs_path_def)
    then show ?thesis by (simp add: create_parent_def par)
  qed
  define w3 where "w3 = snd (fs_write (abs_path (h @ [name])) bytes w2)"
  have fw: "fs_write (abs_path (h @ [name])) bytes w2 = (Ok (), w3)"
    "w_trace w3 = w_trace w2 @ [put out (Some (RegFile [])) ?t, put out (Some (RegFile bytes)) (put out (Some (RegFile [])) ?t)]"
    using w1 rl assms(10)
    by (simp_all add: w3_def w2_def fs_write_def take_fault_calm write_place_def Let_def)
  have "write_file fx sid name bytes w =
      normalize_host_ownership (fx_host_programs fx) (abs_path h) (abs_path (h @ [name])) w3"
    using assms(6) by (simp add: write_file_def Let_def clean_plain plain_name_def guard_io_def io_bind_def
        io_return_def io_lift_def assms(1-3) mk conf mk2 fw(1))
  then obtain ts where "w_trace (snd (write_file fx sid name bytes w)) = w_trace w3 @ ts"
    using normalize_trace by metis
  moreover have "lookup (put out (Some (RegFile bytes)) (put out (Some (RegFile [])) ?t)) out = Some (RegFile bytes)"
  proof (rule lookup_put_same)
    have "real_parent (put out (Some (RegFile [])) ?t) out"
      unfolding real_parent_def
    proof (intro allI impI)
      fix i assume i: "i < length out"
      have "is_dir_at ?t (take i out)" using assms(8) i by (simp add: real_parent_def)
      then show "is_dir_at (put out (Some (RegFile [])) ?t) (take i out)"
        by (intro lookup_put_above) (use i in \<open>auto simp: take_is_prefix\<close>)
    qed
    then show "parent_ok (put out (Some (RegFile [])) ?t) out" using assms(9) real_parent_ok by blast
  qed
  ultimately show ?thesis using fw(2) by simp
qed

theorem write_through_dangling_link_witness:
  "\<exists>t \<in> set (w_trace (snd (write_file bare_fx ''s'' ''l'' ''x''
     (servers_world [(''s'', Dir [(''l'', Symlink [RootDir, Normal ''new''])])])))).
     lookup t [''new''] = Some (RegFile ''x'')"
proof (rule write_through_dangling_link)
  show "files_root bare_fx ''s'' =
      Ok \<lparr> fr_host = servers_path [''s''], fr_container = ''/home/container'', fr_use_host = True \<rparr>"
    by code_simp
  show "real_parent (w_root (servers_world [(''s'', Dir [(''l'', Symlink [RootDir, Normal ''new''])])]))
      ([''var'', ''lib'', ''agapornis'', ''servers'', ''s''] @ [''l''])"
    by (simp add: real_parent_def servers_world_def calm_world_def is_dir_at_def less_Suc_eq numeral_nat
        split: option.splits)
qed (simp_all add: servers_path_def servers_world_def calm_world_def plain_name_def abs_path_def
      real_parent_def is_dir_at_def)

subsection \<open>Moving and archiving\<close>

text \<open>Lemma: moving two items of the same name from different directories passes every check, and
  the second move replaces the first: one of the two contents is gone.\<close>

theorem move_collision_loses_file:
  "fst (move_files bare_fx ''s'' [''a/n'', ''b/n''] ''d'' (servers_world
      [(''s'', Dir [(''a'', Dir [(''n'', RegFile c1)]), (''b'', Dir [(''n'', RegFile c2)]), (''d'', Dir [])])])) = Ok () \<and>
   w_root (snd (move_files bare_fx ''s'' [''a/n'', ''b/n''] ''d'' (servers_world
      [(''s'', Dir [(''a'', Dir [(''n'', RegFile c1)]), (''b'', Dir [(''n'', RegFile c2)]), (''d'', Dir [])])])))
     = w_root (servers_world [(''s'', Dir [(''a'', Dir []), (''b'', Dir []), (''d'', Dir [(''n'', RegFile c2)])])])"
  by code_simp

text \<open>Shell words of the clean-up trap: the name stands outside of the quotes.\<close>

lemma sh_words_trap:
  assumes "CHR 0x27 \<notin> set t"
  shows "sh_words Gap (archive_trap (shell_quote t)) =
    map_option (\<lambda>ws. ''trap'' # ws) (sh_words (Word ''rm -f -- '') (t @ [CHR 0x27, CHR 0x27] @ '' EXIT''))"
  using assms by (simp add: archive_trap_def shell_quote_def replace_char_id sh_special_def)

text \<open>Lemma: in the clean-up trap of an archive the name of the temporary file is not quoted: a
  blank in it splits it into two words, and a semicolon in it ends the command.\<close>

theorem archive_trap_unquoted:
  "sh_words Gap (archive_trap (shell_quote ''/home/container/a b.tar.gz.agapornis-u'')) =
     Some [''trap'', ''rm -f -- /home/container/a'', ''b.tar.gz.agapornis-u'', ''EXIT''] \<and>
   (\<exists>rest. archive_trap (shell_quote (''/home/container/x;'' @ command)) =
      ''trap '' @ [CHR 0x27] @ ''rm -f -- '' @ [CHR 0x27] @ ''/home/container/x;'' @ rest) \<and>
   sh_words Gap (archive_trap (shell_quote ''/home/container/x;y'')) = None"
proof (intro conjI)
  show "sh_words Gap (archive_trap (shell_quote ''/home/container/a b.tar.gz.agapornis-u'')) =
     Some [''trap'', ''rm -f -- /home/container/a'', ''b.tar.gz.agapornis-u'', ''EXIT'']"
    by (subst sh_words_trap) (simp_all add: sh_special_def)
  show "\<exists>rest. archive_trap (shell_quote (''/home/container/x;'' @ command)) =
      ''trap '' @ [CHR 0x27] @ ''rm -f -- '' @ [CHR 0x27] @ ''/home/container/x;'' @ rest"
    by (simp add: archive_trap_def shell_quote_def)
  show "sh_words Gap (archive_trap (shell_quote ''/home/container/x;y'')) = None"
    by (subst sh_words_trap) (simp_all add: sh_special_def)
qed

subsection \<open>Commands in the container\<close>


definition running_fx :: files_ctx where
  "running_fx = bare_fx\<lparr> fx_inspect := (\<lambda>_. Ok (JObject [(''State'', JObject [(''Running'', JBool True)])])) \<rparr>"


subsection \<open>Mount options\<close>

text \<open>A mount option list is comma separated: a directory name with a comma adds options.\<close>

lemma split_on_four:
  "c \<notin> set a \<Longrightarrow> c \<notin> set b \<Longrightarrow> c \<notin> set d \<Longrightarrow> c \<notin> set e \<Longrightarrow>
   split_on c (a @ c # b @ c # d @ c # e) = [a, b, d, e]"
  by (simp add: split_on_append split_on_no_sep)

lemma destination_mount_options:
  assumes "CHR '','' \<notin> set s" "s \<noteq> []"
  shows "split_on (CHR '','') (destination_mount [RootDir, Normal s, Normal ''x,src='', Normal ''etc'']) =
    [''type=bind'', ''src=/'' @ s @ ''/x'', ''src=/etc'', ''dst=/extract'']"
proof -
  have "destination_mount [RootDir, Normal s, Normal ''x,src='', Normal ''etc''] =
      ''type=bind'' @ CHR '','' # (''src=/'' @ s @ ''/x'') @ CHR '','' # ''src=/etc'' @ CHR '','' # ''dst=/extract''"
    by (simp add: destination_mount_def path_string_def)
  moreover have "CHR '','' \<notin> set (''src=/'' @ s @ ''/x'')" using assms by simp
  ultimately show ?thesis
    using split_on_four [of "CHR '',''" "''type=bind''" "''src=/'' @ s @ ''/x''" "''src=/etc''" "''dst=/extract''"]
    by simp
qed

end
