(* ===== verification/Backup_Crypto.thy ===== *)
theory Backup_Crypto
  imports Filesystem
begin

text \<open>
  @storage/backup/crypto.rs@: the chunked stream format of encrypted backups.  AES-GCM is a
  pair of library functions of key, nonce, associated data and text; base64, the random
  prefix and the sizes the reads return are parameters too.
\<close>

subsection \<open>Big-endian words\<close>

definition be32 :: "nat \<Rightarrow> string" where
  "be32 n = [char_of (n div 16777216 mod 256), char_of (n div 65536 mod 256),
     char_of (n div 256 mod 256), char_of (n mod 256)]"

fun from_be :: "nat \<Rightarrow> string \<Rightarrow> nat" where
  "from_be acc [] = acc"
| "from_be acc (c # cs) = from_be (acc * 256 + of_char c) cs"

definition u32_max :: nat where "u32_max = 4294967295"

definition chunk_size :: nat where "chunk_size = 4194304"

definition magic :: string where "magic = ''AGPBK01'' @ [CHR 0x00]"

definition tag_len :: nat where "tag_len = 16"

lemma length_be32 [simp]: "length (be32 n) = 4"
  by (simp add: be32_def)

lemma from_be32: "n \<le> u32_max \<Longrightarrow> from_be 0 (be32 n) = n"
proof -
  assume "n \<le> u32_max"
  then have "n < 4294967296" by (simp add: u32_max_def)
  then have "n div 16777216 < 256" by (simp add: div_less_iff_less_mult)
  then have 1: "n div 16777216 mod 256 = n div 256 div 256 div 256" by (simp add: div_mult2_eq [symmetric])
  have 2: "n div 65536 = n div 256 div 256" by (simp add: div_mult2_eq [symmetric])
  have b: "x div 256 * 256 + x mod 256 = x" for x :: nat by (rule div_mult_mod_eq)
  have "from_be 0 (be32 n) =
      ((n div 16777216 mod 256 * 256 + n div 65536 mod 256) * 256 + n div 256 mod 256) * 256 + n mod 256"
    by (simp add: be32_def)
  then show ?thesis unfolding 1 2 b .
qed

subsection \<open>Encryption\<close>

record aead =
  a_encrypt :: "string \<Rightarrow> string \<Rightarrow> string \<Rightarrow> string \<Rightarrow> string option"
  a_decrypt :: "string \<Rightarrow> string \<Rightarrow> string \<Rightarrow> string \<Rightarrow> string option"

definition encryption_key :: "(string \<Rightarrow> string res) \<Rightarrow> environment \<Rightarrow> string res" where
  "encryption_key b64 env =
     (let message = ''AGAPORNIS_BACKUP_ENCRYPTION_KEY must be a base64 encoded 32-byte key.'' in
      res_bind (res_context message
        (b64 (case env ''AGAPORNIS_BACKUP_ENCRYPTION_KEY'' of Some v \<Rightarrow> v | None \<Rightarrow> []))) (\<lambda>bytes.
        if length bytes = 32 then Ok bytes else Err (Bail message)))"

text \<open>@src.read@ returns between one byte and a full buffer while anything is left.\<close>

definition read_len :: "(nat \<Rightarrow> nat) \<Rightarrow> nat \<Rightarrow> string \<Rightarrow> nat" where
  "read_len rd counter data = max 1 (min (rd counter) (min chunk_size (length data)))"

text \<open>The bytes written before the loop ended, and how it ended.\<close>

function encrypt_chunks ::
  "aead \<Rightarrow> (nat \<Rightarrow> nat) \<Rightarrow> string \<Rightarrow> string \<Rightarrow> nat \<Rightarrow> string \<Rightarrow> string \<times> unit res" where
  "encrypt_chunks ae rd key nonce_prefix counter data =
     (if data = [] then ([], Ok ())
      else
        let n = read_len rd counter data in
        case a_encrypt ae key (nonce_prefix @ be32 counter) (be32 counter) (take n data) of
          None \<Rightarrow> ([], Err (Bail ''backup encryption failed''))
        | Some encrypted \<Rightarrow>
            let out = be32 n @ encrypted in
            if counter + 1 > u32_max
            then (out, Err (Bail ''backup is too large for the encrypted chunk format''))
            else (case encrypt_chunks ae rd key nonce_prefix (counter + 1) (drop n data) of
                    (rest, r) \<Rightarrow> (out @ rest, r)))"
  by pat_completeness auto
termination
  by (relation "measure (\<lambda>(ae, rd, key, p, counter, data). length data)") (auto simp: read_len_def)

declare encrypt_chunks.simps [simp del]

definition encrypt_stream :: "aead \<Rightarrow> (nat \<Rightarrow> nat) \<Rightarrow> string \<Rightarrow> string \<Rightarrow> string \<Rightarrow> string \<times> unit res" where
  "encrypt_stream ae rd key nonce_prefix data =
     (case encrypt_chunks ae rd key nonce_prefix 0 data of
        (chunks, Inr _) \<Rightarrow> (magic @ nonce_prefix @ chunks @ be32 0, Ok ())
      | (chunks, Inl e) \<Rightarrow> (magic @ nonce_prefix @ chunks, Err e))"

text \<open>The file is written even when the loop ends early.\<close>

definition encrypt_file ::
  "aead \<Rightarrow> (string \<Rightarrow> string res) \<Rightarrow> environment \<Rightarrow> (nat \<Rightarrow> nat) \<Rightarrow> string \<Rightarrow> path \<Rightarrow> path \<Rightarrow> unit io" where
  "encrypt_file ae b64 env rd nonce_prefix input output =
     io_bind (io_lift (encryption_key b64 env)) (\<lambda>key.
     io_bind (fs_read input) (\<lambda>data.
       case encrypt_stream ae rd key nonce_prefix data of
         (out, r) \<Rightarrow> io_bind (fs_write output out) (\<lambda>_. io_lift r)))"

subsection \<open>Decryption\<close>

definition read_exact :: "nat \<Rightarrow> string \<Rightarrow> (string \<times> string) res" where
  "read_exact n s = (if length s < n then Err (Io OtherIo) else Ok (take n s, drop n s))"

lemma read_exact_length: "read_exact n s = Inr (a, b) \<Longrightarrow> length b = length s - n \<and> length a = n \<and> s = a @ b"
  by (auto simp: read_exact_def split: if_splits)

function decrypt_chunks :: "aead \<Rightarrow> string \<Rightarrow> string \<Rightarrow> nat \<Rightarrow> string \<Rightarrow> string \<times> unit res" where
  "decrypt_chunks ae key nonce_prefix counter s =
     (case read_exact 4 s of
        Inl e \<Rightarrow> ([], Err e)
      | Inr (len, s1) \<Rightarrow>
          let n = from_be 0 len in
          if n = 0 then ([], Ok ())
          else if n > chunk_size then ([], Err (Bail ''Encrypted backup chunk is invalid.''))
          else (case read_exact (n + tag_len) s1 of
            Inl e \<Rightarrow> ([], Err e)
          | Inr (data, s2) \<Rightarrow>
              (case a_decrypt ae key (nonce_prefix @ be32 counter) (be32 counter) data of
                 None \<Rightarrow> ([], Err (Bail ''encrypted backup authentication failed''))
               | Some plain \<Rightarrow>
                   if counter + 1 > u32_max
                   then (plain, Err (Bail ''encrypted backup exceeds the supported chunk count''))
                   else (case decrypt_chunks ae key nonce_prefix (counter + 1) s2 of
                           (rest, r) \<Rightarrow> (plain @ rest, r)))))"
  by pat_completeness auto
termination
proof (relation "measure (\<lambda>(ae, key, p, counter, s). length s)", goal_cases)
  case (2 ae key p counter s x len s1 n x' data s2 plain)
  then have "length s1 = length s - 4" "length s2 \<le> length s1" "4 \<le> length s"
    by (auto simp: read_exact_def split: if_splits)
  then show ?case by simp
qed simp

declare decrypt_chunks.simps [simp del]

definition decrypt_stream :: "aead \<Rightarrow> string \<Rightarrow> string \<Rightarrow> string \<times> unit res" where
  "decrypt_stream ae key s =
     (case read_exact 8 s of
        Inl e \<Rightarrow> ([], Err e)
      | Inr (m, s1) \<Rightarrow>
          if m \<noteq> magic then ([], Err (Bail ''Encrypted backup header is invalid.''))
          else (case read_exact 8 s1 of
            Inl e \<Rightarrow> ([], Err e)
          | Inr (nonce_prefix, s2) \<Rightarrow> decrypt_chunks ae key nonce_prefix 0 s2))"

definition decrypt_file ::
  "aead \<Rightarrow> (string \<Rightarrow> string res) \<Rightarrow> environment \<Rightarrow> path \<Rightarrow> path \<Rightarrow> unit io" where
  "decrypt_file ae b64 env input output =
     io_bind (io_lift (encryption_key b64 env)) (\<lambda>key.
     io_bind (fs_read input) (\<lambda>s.
       case decrypt_stream ae key s of
         (plain, r) \<Rightarrow>
           (if length s < 8 \<or> take 8 s \<noteq> magic \<or> length s < 16 then io_lift r
            else io_bind (fs_write output plain) (\<lambda>_. io_lift r))))"

subsection \<open>Round trip\<close>

text \<open>
  What the documentation of AES-GCM promises: a sealed text is sixteen bytes longer and opens
  under the same key, nonce and associated data.
\<close>

definition aead_seals :: "aead \<Rightarrow> bool" where
  "aead_seals ae \<longleftrightarrow> (\<forall>key nonce aad m c. a_encrypt ae key nonce aad m = Some c \<longrightarrow>
     length c = length m + tag_len \<and> a_decrypt ae key nonce aad c = Some m)"

lemma aead_sealsD:
  "aead_seals ae \<Longrightarrow> a_encrypt ae key nonce aad m = Some c \<Longrightarrow>
   length c = length m + tag_len \<and> a_decrypt ae key nonce aad c = Some m"
  unfolding aead_seals_def by blast

lemma read_len_bounds:
  "data \<noteq> [] \<Longrightarrow> 1 \<le> read_len rd c data \<and> read_len rd c data \<le> length data \<and> read_len rd c data \<le> chunk_size"
  by (cases data) (auto simp: read_len_def chunk_size_def)

lemma read_exact_append: "length a = n \<Longrightarrow> read_exact n (a @ b) = Ok (a, b)"
  by (simp add: read_exact_def)

lemma decrypt_end: "decrypt_chunks ae key p c (be32 0 @ rest) = ([], Ok ())"
  by (subst decrypt_chunks.simps) (simp add: read_exact_append from_be32)

lemma decrypt_one_chunk:
  assumes "aead_seals ae" "a_encrypt ae key (p @ be32 c) (be32 c) m = Some e" "c + 1 \<le> u32_max"
    and "1 \<le> length m" "length m \<le> chunk_size"
  shows "decrypt_chunks ae key p c (be32 (length m) @ e @ rest) =
    (case decrypt_chunks ae key p (c + 1) rest of (x, r) \<Rightarrow> (m @ x, r))"
proof -
  have "length m \<le> u32_max" using assms(5) by (simp add: chunk_size_def u32_max_def)
  then have "from_be 0 (be32 (length m)) = length m" by (rule from_be32)
  then show ?thesis
    using assms aead_sealsD [OF assms(1,2)]
    by (subst decrypt_chunks.simps) (auto simp: read_exact_append Let_def not_less)
qed

lemma decrypt_encrypt_chunks:
  assumes "aead_seals ae" "encrypt_chunks ae rd key p c data = (out, Ok ())"
  shows "decrypt_chunks ae key p c (out @ be32 0 @ rest) = (data, Ok ())"
  using assms(2,1)
proof (induction ae rd key p c data arbitrary: out rule: encrypt_chunks.induct)
  case (1 ae rd key p c data)
  show ?case
  proof (cases "data = []")
    case True
    then have "out = []" using "1.prems"(1) by (subst (asm) encrypt_chunks.simps) simp
    then show ?thesis using True decrypt_end by simp
  next
    case False
    define n where "n = read_len rd c data"
    obtain e where e: "a_encrypt ae key (p @ be32 c) (be32 c) (take n data) = Some e"
      and c: "c + 1 \<le> u32_max"
      and out: "\<exists>out'. out = be32 n @ e @ out' \<and> encrypt_chunks ae rd key p (c + 1) (drop n data) = (out', Ok ())"
      using "1.prems"(1) False
      by (subst (asm) encrypt_chunks.simps) (auto simp: Let_def n_def split: option.splits if_splits prod.splits)
    then obtain out' where o: "out = be32 n @ e @ out'"
      "encrypt_chunks ae rd key p (c + 1) (drop n data) = (out', Ok ())" by blast
    have n: "1 \<le> n" "n \<le> length data" "n \<le> chunk_size"
      using read_len_bounds [OF False, of rd c] by (auto simp: n_def)
    have "decrypt_chunks ae key p (c + 1) (out' @ be32 0 @ rest) = (drop n data, Ok ())"
      using 1(1) [OF False n_def, of e "be32 n @ e"] e c o(2) "1.prems"(2) by simp
    then show ?thesis
      using decrypt_one_chunk [OF "1.prems"(2) e c] n o(1) by simp
  qed
qed

text \<open>Unsealing succeeds only on what sealing under the same parameters gives.\<close>

definition aead_authentic :: "aead \<Rightarrow> bool" where
  "aead_authentic ae \<longleftrightarrow> (\<forall>key nonce aad m c. a_decrypt ae key nonce aad c = Some m \<longrightarrow>
     length c = length m + tag_len \<and> a_encrypt ae key nonce aad m = Some c)"

lemma encrypt_chunks_cong:
  "(\<And>i. c \<le> i \<Longrightarrow> rd i = rd' i) \<Longrightarrow>
   encrypt_chunks ae rd key p c data = encrypt_chunks ae rd' key p c data"
proof (induction ae rd key p c data rule: encrypt_chunks.induct)
  case (1 ae rd key p c data)
  show ?case
  proof (cases "data = []")
    case False
    have r: "read_len rd' c data = read_len rd c data" using "1.prems" by (simp add: read_len_def)
    have "encrypt_chunks ae rd key p (c + 1) (drop (read_len rd c data) data) =
        encrypt_chunks ae rd' key p (c + 1) (drop (read_len rd c data) data)"
      if "a_encrypt ae key (p @ be32 c) (be32 c) (take (read_len rd c data) data) = Some e" "c + 1 \<le> u32_max" for e
      using 1(1) [OF False refl that(1) refl] that(2) "1.prems" by simp
    then show ?thesis
      by (subst (1 2) encrypt_chunks.simps) (auto simp: r Let_def False split: option.split)
  qed (simp add: encrypt_chunks.simps)
qed

lemma from_be_be32: "length s = 4 \<Longrightarrow> be32 (from_be 0 s) = s"
proof -
  assume "length s = 4"
  then obtain a b c d where s: "s = [a, b, c, d]"
    by (auto simp: numeral_eq_Suc length_Suc_conv)
  define A B C D where "A = (of_char a :: nat)" "B = (of_char b :: nat)" "C = (of_char c :: nat)" "D = (of_char d :: nat)"
  have lt: "A < 256" "B < 256" "C < 256" "D < 256" by (simp_all add: A_B_C_D_def)
  define n where "n = ((A * 256 + B) * 256 + C) * 256 + D"
  have q: "(x * 256 + y) div 256 = x" "(x * 256 + y) mod 256 = y" if "y < 256" for x y :: nat
    using that by simp_all
  have d1: "n div 256 = (A * 256 + B) * 256 + C" "n mod 256 = D"
    unfolding n_def using q [OF lt(4)] by blast+
  have d2: "n div 256 div 256 = A * 256 + B" "n div 256 mod 256 = C"
    unfolding d1 using q [OF lt(3)] by blast+
  have d3: "n div 256 div 256 div 256 = A" "n div 256 div 256 mod 256 = B"
    unfolding d2 using q [OF lt(2)] by blast+
  have e: "n div 65536 = n div 256 div 256" "n div 16777216 = n div 256 div 256 div 256"
    by (simp_all add: div_mult2_eq [symmetric])
  have "be32 n = [char_of A, char_of B, char_of C, char_of D]"
    unfolding be32_def e d1(2) d2(2) d3 using lt by simp
  moreover have "from_be 0 s = n" by (simp add: s n_def A_B_C_D_def)
  ultimately show ?thesis by (simp add: s A_B_C_D_def)
qed

lemma decrypt_chunks_authentic:
  assumes "aead_authentic ae" "decrypt_chunks ae key p c s = (data, Ok ())"
  shows "\<exists>rd out rest. s = out @ be32 0 @ rest \<and> encrypt_chunks ae rd key p c data = (out, Ok ())"
  using assms(2,1)
proof (induction ae key p c s arbitrary: data rule: decrypt_chunks.induct)
  case (1 ae key p c s)
  obtain len s1 where l: "read_exact 4 s = Inr (len, s1)"
    using "1.prems"(1) by (subst (asm) decrypt_chunks.simps) (auto split: sum.splits)
  have s: "s = len @ s1" "length len = 4" using read_exact_length [OF l] by auto
  define n where "n = from_be 0 len"
  have len: "len = be32 n" using from_be_be32 [OF s(2)] by (simp add: n_def)
  show ?case
  proof (cases "n = 0")
    case True
    then have "data = []" using "1.prems"(1) l by (subst (asm) decrypt_chunks.simps) (simp add: n_def)
    then have "s = [] @ be32 0 @ s1 \<and> encrypt_chunks ae (\<lambda>_. 0) key p c data = ([], Ok ())"
      using s len True by (simp add: encrypt_chunks.simps)
    then show ?thesis by blast
  next
    case False
    obtain e s2 m where d: "n \<le> chunk_size" "read_exact (n + tag_len) s1 = Inr (e, s2)"
      "a_decrypt ae key (p @ be32 c) (be32 c) e = Some m" "c + 1 \<le> u32_max"
      "\<exists>x. data = m @ x \<and> decrypt_chunks ae key p (c + 1) s2 = (x, Ok ())"
      using "1.prems"(1) l False
      by (subst (asm) decrypt_chunks.simps)
        (auto simp: Let_def not_less n_def split: sum.splits option.splits if_splits prod.splits)
    then obtain x where x: "data = m @ x" "decrypt_chunks ae key p (c + 1) s2 = (x, Ok ())" by blast
    have m: "length e = length m + tag_len" "a_encrypt ae key (p @ be32 c) (be32 c) m = Some e"
      using "1.prems"(2) d(3) unfolding aead_authentic_def by blast+
    have e: "s1 = e @ s2" "length m = n" using read_exact_length [OF d(2)] m(1) by auto
    obtain rd out rest where o: "s2 = out @ be32 0 @ rest" "encrypt_chunks ae rd key p (c + 1) x = (out, Ok ())"
      using 1(1) [OF l refl n_def False _ d(2) refl d(3)] d(1,4) x(2) "1.prems"(2) by fastforce
    let ?rd = "rd(c := n)"
    have "encrypt_chunks ae ?rd key p (c + 1) x = (out, Ok ())"
      using encrypt_chunks_cong [of "c + 1" ?rd rd] o(2) by simp
    moreover have "read_len ?rd c data = n"
      using False d(1) e(2) by (simp add: read_len_def x(1))
    moreover have "m \<noteq> []" using False e(2) by auto
    ultimately have "encrypt_chunks ae ?rd key p c data = (be32 n @ e @ out, Ok ())"
      using m(2) d(4) e(2) by (subst encrypt_chunks.simps) (simp add: x(1))
    moreover have "s = (be32 n @ e @ out) @ be32 0 @ rest" using s len e(1) o(1) by simp
    ultimately show ?thesis by blast
  qed
qed

text \<open>C14: with a cipher that opens what it sealed, decrypting an encrypted backup gives the
  data back, whatever sizes the reads had.\<close>

theorem encrypted_backup_roundtrip:
  assumes "aead_seals ae" "length nonce_prefix = 8"
    and "encrypt_stream ae rd key nonce_prefix data = (stream, Ok ())"
  shows "decrypt_stream ae key stream = (data, Ok ())"
proof -
  obtain out where o: "encrypt_chunks ae rd key nonce_prefix 0 data = (out, Ok ())"
    and s: "stream = magic @ nonce_prefix @ out @ be32 0"
    using assms(3) by (auto simp: encrypt_stream_def split: prod.splits sum.splits)
  have "decrypt_chunks ae key nonce_prefix 0 (out @ be32 0) = (data, Ok ())"
    using decrypt_encrypt_chunks [OF assms(1) o, of "[]"] by simp
  moreover have "length magic = 8" by (simp add: magic_def)
  ultimately show ?thesis
    using assms(2) by (simp add: decrypt_stream_def s read_exact_append)
qed

text \<open>A transparent cipher for examples: the tag is sixteen zero bytes.\<close>

definition zero_tag :: aead where
  "zero_tag = \<lparr> a_encrypt = (\<lambda>_ _ _ m. Some (m @ replicate tag_len (CHR 0x00))),
     a_decrypt = (\<lambda>_ _ _ c. if tag_len \<le> length c \<and> drop (length c - tag_len) c = replicate tag_len (CHR 0x00)
                             then Some (take (length c - tag_len) c) else None) \<rparr>"

lemma zero_tag_ok: "aead_seals zero_tag" "aead_authentic zero_tag"
  by (auto simp: aead_seals_def aead_authentic_def zero_tag_def)
    (metis append_take_drop_id)

lemma zero_tag_abc:
  "encrypt_stream zero_tag (\<lambda>_. 5) [] ''12345678'' ''abc'' =
     (magic @ ''12345678'' @ be32 3 @ ''abc'' @ replicate 16 (CHR 0x00) @ be32 0, Ok ())"
  by (simp add: encrypt_stream_def encrypt_chunks.simps read_len_def chunk_size_def zero_tag_def
      tag_len_def u32_max_def flip: numeral_3_eq_3)

theorem encrypted_backup_roundtrip_witness:
  "decrypt_stream zero_tag [] (magic @ ''12345678'' @ be32 3 @ ''abc'' @ replicate 16 (CHR 0x00) @ be32 0)
     = (''abc'', Ok ())"
proof -
  from encrypted_backup_roundtrip [OF zero_tag_ok(1) _ zero_tag_abc] show ?thesis by simp
qed

text \<open>C15: with a cipher that opens only what it sealed, a stream is accepted only if, up to
  bytes after its end mark, it is the encryption of the very data it decrypts to: chunks
  cannot be altered, reordered, repeated or left out in the middle.\<close>

theorem decryption_authentic:
  assumes "aead_authentic ae" "decrypt_stream ae key stream = (data, Ok ())"
  shows "\<exists>rd nonce_prefix s rest. encrypt_stream ae rd key nonce_prefix data = (s, Ok ()) \<and>
    length nonce_prefix = 8 \<and> stream = s @ rest"
proof -
  define np s2 where "np = take 8 (drop 8 stream)" "s2 = drop 8 (drop 8 stream)"
  have l: "8 \<le> length stream" "take 8 stream = magic" "8 \<le> length (drop 8 stream)"
    "decrypt_chunks ae key np 0 s2 = (data, Ok ())"
    using assms(2) by (auto simp: decrypt_stream_def read_exact_def np_s2_def split: if_splits)
  have h: "stream = magic @ np @ s2" unfolding np_s2_def l(2) [symmetric] by (simp only: append_take_drop_id)
  have np: "length np = 8" using l(3) by (simp add: np_s2_def min_def)
  obtain rd out rest where "s2 = out @ be32 0 @ rest" "encrypt_chunks ae rd key np 0 data = (out, Ok ())"
    using decrypt_chunks_authentic [OF assms(1) l(4)] by blast
  then have "encrypt_stream ae rd key np data = (magic @ np @ out @ be32 0, Ok ())"
    "stream = (magic @ np @ out @ be32 0) @ rest"
    by (simp_all add: encrypt_stream_def h)
  then show ?thesis using np by blast
qed

theorem decryption_authentic_witness:
  "\<exists>rd np s rest. encrypt_stream zero_tag rd [] np ''abc'' = (s, Ok ()) \<and> length np = 8 \<and>
     magic @ ''12345678'' @ be32 3 @ ''abc'' @ replicate 16 (CHR 0x00) @ be32 0 = s @ rest"
  using decryption_authentic [OF zero_tag_ok(2)] encrypted_backup_roundtrip_witness by blast

text \<open>Lemma: the end mark is not authenticated: cutting an encrypted backup after its header, or
  after its first chunk, and adding four zero bytes gives a stream that is accepted, without
  the key, as an empty or a shorter backup.\<close>

theorem truncated_backup_accepted:
  assumes "aead_seals ae" "length nonce_prefix = 8" "data \<noteq> []"
    and "encrypt_stream ae rd key nonce_prefix data = (stream, Ok ())"
  shows "decrypt_stream ae key (take 16 stream @ be32 0) = ([], Ok ()) \<and>
    decrypt_stream ae key (take (16 + 4 + read_len rd 0 data + tag_len) stream @ be32 0) =
      (take (read_len rd 0 data) data, Ok ())"
proof -
  let ?n = "read_len rd 0 data"
  have m: "length magic = 8" by (simp add: magic_def)
  obtain out where o: "encrypt_chunks ae rd key nonce_prefix 0 data = (out, Ok ())"
    and s: "stream = magic @ nonce_prefix @ out @ be32 0"
    using assms(4) by (auto simp: encrypt_stream_def split: prod.splits sum.splits)
  obtain e out' where e: "a_encrypt ae key (nonce_prefix @ be32 0) (be32 0) (take ?n data) = Some e"
    "0 + 1 \<le> u32_max" "out = be32 ?n @ e @ out'"
    using o assms(3)
    by (subst (asm) encrypt_chunks.simps) (auto simp: Let_def split: option.splits if_splits prod.splits)
  have n: "1 \<le> ?n" "?n \<le> length data" "?n \<le> chunk_size" using read_len_bounds [OF assms(3), of rd 0] by auto
  have le: "length e = ?n + tag_len" using aead_sealsD [OF assms(1) e(1)] n(2) by simp
  have "take 16 stream = magic @ nonce_prefix" using m assms(2) by (simp add: s)
  moreover have "take (16 + 4 + ?n + tag_len) stream = magic @ nonce_prefix @ be32 ?n @ e"
    using m assms(2) le by (simp add: s e(3))
  moreover have "decrypt_chunks ae key nonce_prefix 0 (be32 ?n @ e @ be32 0) = (take ?n data, Ok ())"
    using decrypt_one_chunk [OF assms(1) e(1,2), of "be32 0"] n decrypt_end [of ae key nonce_prefix "0 + 1" "[]"]
    by simp
  ultimately show ?thesis
    using m assms(2) decrypt_end [of ae key nonce_prefix 0 "[]"]
    by (simp add: decrypt_stream_def read_exact_append)
qed

theorem truncated_backup_accepted_witness:
  "decrypt_stream zero_tag [] (magic @ ''12345678'' @ be32 0) = ([], Ok ())"
proof -
  let ?s = "magic @ ''12345678'' @ be32 3 @ ''abc'' @ replicate 16 (CHR 0x00) @ be32 0"
  have t: "take 16 ?s @ be32 0 = magic @ ''12345678'' @ be32 0" by (simp add: magic_def)
  have h: "length ''12345678'' = 8" "''abc'' \<noteq> ([] :: string)" by simp_all
  show ?thesis
    using conjunct1 [OF truncated_backup_accepted [OF zero_tag_ok(1) h zero_tag_abc]] unfolding t .
qed

end
