(* ===== verification/Backup_Archive.thy ===== *)
theory Backup_Archive
  imports Files_Manage Backup_Crypto
begin

text \<open>
  @storage/backup/archive.rs@ and @s3.rs@: where backups are kept, their metadata, the tar and
  checksum steps, the transactional restore, and the objects of an S3 bucket.  JSON, SHA-256,
  hex, UUIDs, times and the AWS client are parameters.
\<close>

record backup_info =
  bi_backup_id :: string
  bi_server_id :: string
  bi_archive_name :: string
  bi_size_bytes :: int
  bi_created_at :: string
  bi_checksum_sha256 :: string
  bi_checksum_type :: string
  bi_storage :: string
  bi_encrypted :: bool
  bi_last_verified_at :: "string option"
  bi_expires_at :: "string option"

definition CHECKSUM :: string where "CHECKSUM = ''sha256''"

record backup_lib =
  bx_env :: environment
  bx_host :: host
  bx_temp :: path
  bx_info_enc :: "backup_info \<Rightarrow> string res"
  bx_info_dec :: "string \<Rightarrow> backup_info option"
  bx_sha256 :: "string \<Rightarrow> string"
  bx_hex_decode :: "string \<Rightarrow> string option"
  bx_created :: "path \<Rightarrow> string"
  bx_error_text :: "error \<Rightarrow> string"
  bx_aead :: aead
  bx_base64 :: "string \<Rightarrow> string res"
  bx_dir_len :: nat
  bx_reads :: "nat \<Rightarrow> nat"

subsection \<open>Places\<close>

definition backups_base :: "environment \<Rightarrow> path" where
  "backups_base env =
     (case env ''AGAPORNIS_BACKUPS_DIR'' of
        Some v \<Rightarrow> components v
      | None \<Rightarrow> components ''/var/lib/agapornis/backups'')"

definition local_backup_dir :: "environment \<Rightarrow> string \<Rightarrow> path res" where
  "local_backup_dir env sid =
     res_bind (validate_id sid) (\<lambda>_. Ok (path_join (backups_base env) (components sid)))"

definition validate_backup_id :: "string \<Rightarrow> unit res" where
  "validate_backup_id bid =
     (if bid = [] \<or> str_contains ''..'' bid \<or> CHR ''/'' \<in> set bid \<or> CHR 0x5C \<in> set bid
      then Err (Bail ''Invalid backup id.'') else Ok ())"

definition validate_storage :: "string \<Rightarrow> unit res" where
  "validate_storage s =
     (if s \<noteq> ''local'' \<and> s \<noteq> ''s3'' then Err (Bail ''Backup storage must be local or s3.'') else Ok ())"

definition archive_path :: "environment \<Rightarrow> string \<Rightarrow> string \<Rightarrow> path res" where
  "archive_path env sid bid =
     res_bind (validate_backup_id bid) (\<lambda>_.
     res_bind (local_backup_dir env sid) (\<lambda>d. Ok (path_join d (components (bid @ ''.tar.gz'')))))"

definition metadata_path :: "environment \<Rightarrow> string \<Rightarrow> string \<Rightarrow> path res" where
  "metadata_path env sid bid =
     res_bind (validate_backup_id bid) (\<lambda>_.
     res_bind (local_backup_dir env sid) (\<lambda>d. Ok (path_join d (components (bid @ ''.json'')))))"

definition temp_dir :: "backup_lib \<Rightarrow> path io" where
  "temp_dir bx =
     (let p = path_join (bx_temp bx) (components ''agapornis-backups'') in
      io_bind (fs_create_dir_all p) (\<lambda>_. io_return p))"

subsection \<open>Metadata and local listing\<close>

definition write_metadata :: "backup_lib \<Rightarrow> string \<Rightarrow> backup_info \<Rightarrow> unit io" where
  "write_metadata bx sid info =
     from_res (metadata_path (bx_env bx) sid (bi_backup_id info)) (\<lambda>p.
     then_io (create_parent p)
     (from_res (bx_info_enc bx info) (\<lambda>bytes. fs_write p bytes)))"

definition read_metadata :: "backup_lib \<Rightarrow> string \<Rightarrow> string \<Rightarrow> backup_info option io" where
  "read_metadata bx sid bid =
     from_res (metadata_path (bx_env bx) sid bid) (\<lambda>p.
     io_bind (io_try (fs_read p)) (\<lambda>r.
       case r of
         Inr v \<Rightarrow> io_return (bx_info_dec bx v)
       | Inl e \<Rightarrow> if e = Io NotFound then io_return None else io_fail e))"

fun list_local_entries :: "backup_lib \<Rightarrow> string \<Rightarrow> path \<Rightarrow> string list \<Rightarrow> backup_info list \<Rightarrow> backup_info list io" where
  "list_local_entries bx sid dir [] acc = io_return acc"
| "list_local_entries bx sid dir (raw # names) acc =
     (let name = from_utf8_lossy raw in
      case strip_suffix ''.tar.gz'' name of
        None \<Rightarrow> list_local_entries bx sid dir names acc
      | Some bid \<Rightarrow>
          io_bind (read_metadata bx sid bid) (\<lambda>m.
            case m of
              Some info \<Rightarrow> list_local_entries bx sid dir names (acc @ [info])
            | None \<Rightarrow>
                io_bind (fs_symlink_metadata (path_join dir [Normal raw])) (\<lambda>n.
                  list_local_entries bx sid dir names (acc @
                    [\<lparr> bi_backup_id = bid, bi_server_id = sid, bi_archive_name = name,
                       bi_size_bytes = as_i64 (node_len (bx_dir_len bx) n), bi_created_at = bx_created bx (path_join dir [Normal raw]),
                       bi_checksum_sha256 = [], bi_checksum_type = CHECKSUM, bi_storage = ''local'',
                       bi_encrypted = False, bi_last_verified_at = None, bi_expires_at = None \<rparr>]))))"

definition list_local :: "backup_lib \<Rightarrow> string \<Rightarrow> backup_info list io" where
  "list_local bx sid =
     from_res (local_backup_dir (bx_env bx) sid) (\<lambda>dir.
     io_bind (io_try (fs_read_dir dir)) (\<lambda>r.
       case r of
         Inr names \<Rightarrow> list_local_entries bx sid dir names []
       | Inl e \<Rightarrow> if e = Io NotFound then io_return [] else io_fail e))"

subsection \<open>Archives and checksums\<close>

definition tar_create :: "backup_lib \<Rightarrow> path \<Rightarrow> path \<Rightarrow> unit io" where
  "tar_create bx source target =
     io_unit (process_run (bx_host bx) ''tar'' [''-czf'', path_string target, ''-C'', path_string source, ''.''])"

definition tar_extract :: "backup_lib \<Rightarrow> path \<Rightarrow> path \<Rightarrow> unit io" where
  "tar_extract bx source target =
     io_unit (process_run (bx_host bx) ''tar'' [''-xzf'', path_string source, ''-C'', path_string target])"

definition unsafe_entry :: "string \<Rightarrow> bool" where
  "unsafe_entry raw =
     (let entry = unslash (trim raw) in starts_with ''/'' entry \<or> ''..'' \<in> set (split_on (CHR ''/'') entry))"

fun check_entries :: "string list \<Rightarrow> unit res" where
  "check_entries [] = Ok ()"
| "check_entries (raw # ls) =
     (if \<not> valid_utf8 raw then Err (Io InvalidData)
      else if unsafe_entry raw then Err (Bail ''Backup contains an unsafe archive path.'')
      else check_entries ls)"

definition validate_archive :: "backup_lib \<Rightarrow> path \<Rightarrow> unit io" where
  "validate_archive bx p =
     io_bind (spawn (bx_host bx) ''tar'' [''-tzf'', path_string p] [] [] ''start archive validation'') (\<lambda>proc.
     from_res (check_entries (str_lines (proc_stdout proc))) (\<lambda>_.
       guard_io (proc_success proc) (''archive validation exited with status '' @ status_text proc)))"

definition sha256_file :: "backup_lib \<Rightarrow> path \<Rightarrow> string io" where
  "sha256_file bx p = io_bind (fs_read p) (\<lambda>bytes. io_return (bx_sha256 bx bytes))"

definition hash_eq :: "backup_lib \<Rightarrow> string \<Rightarrow> string \<Rightarrow> bool" where
  "hash_eq bx a b = (case (bx_hex_decode bx a, bx_hex_decode bx b) of (Some x, Some y) \<Rightarrow> x = y | _ \<Rightarrow> False)"

definition verify_integrity :: "backup_lib \<Rightarrow> path \<Rightarrow> backup_info \<Rightarrow> string option \<Rightarrow> unit io" where
  "verify_integrity bx p info expected =
     io_bind (sha256_file bx p) (\<lambda>actual.
     then_io (guard_io (case expected of Some e \<Rightarrow> hash_eq bx actual e | None \<Rightarrow> True)
       ''Backup checksum did not match the requested restore.'')
     (then_io (guard_io (bi_checksum_sha256 info = [] \<or> hash_eq bx actual (bi_checksum_sha256 info))
       ''Backup checksum did not match its metadata.'')
     (io_bind (fs_metadata p) (\<lambda>n.
       guard_io (as_i64 (node_len (bx_dir_len bx) n) = bi_size_bytes info) ''Backup size did not match its metadata.''))))"

subsection \<open>Restoring\<close>

fun move_entries :: "path \<Rightarrow> path \<Rightarrow> string list \<Rightarrow> unit io" where
  "move_entries source target [] = io_return ()"
| "move_entries source target (name # names) =
     (let from = path_join source [Normal name]; dest = path_join target [Normal name] in
      then_io (io_ctx (''move restored entry '' @ path_string from @ '' to '' @ path_string dest) (fs_rename from dest))
        (move_entries source target names))"

definition move_directory_contents :: "path \<Rightarrow> path \<Rightarrow> unit io" where
  "move_directory_contents source target =
     then_io (fs_create_dir_all target)
     (io_bind (fs_read_dir source) (move_entries source target))"

fun clear_entries :: "path \<Rightarrow> string list \<Rightarrow> unit io" where
  "clear_entries dir [] = io_return ()"
| "clear_entries dir (name # names) =
     then_io (remove_target (path_join dir [Normal name])) (clear_entries dir names)"

definition clear_directory_contents :: "path \<Rightarrow> unit io" where
  "clear_directory_contents dir = io_bind (fs_read_dir dir) (clear_entries dir)"

definition restore_over :: "backup_lib \<Rightarrow> path \<Rightarrow> path \<Rightarrow> path \<Rightarrow> unit io" where
  "restore_over bx staging previous target =
     then_io (fs_create_dir_all previous)
     (io_bind (io_try (move_directory_contents target previous)) (\<lambda>aside.
       case aside of
         Inl error \<Rightarrow>
           io_bind (io_try (move_directory_contents previous target)) (\<lambda>rollback.
           then_io (io_ignore (fs_remove_dir_all previous))
           (then_io (io_ignore (fs_remove_dir_all staging))
             (case rollback of
                Inl e \<Rightarrow> io_fail (Ctx (''move current server data aside before restore; rollback also failed: ''
                          @ bx_error_text bx e) error)
              | Inr _ \<Rightarrow> io_fail (Ctx ''move current server data aside before restore'' error))))
       | Inr _ \<Rightarrow>
           io_bind (io_try (move_directory_contents staging target)) (\<lambda>activate.
             case activate of
               Inl error \<Rightarrow>
                 io_bind (io_try (clear_directory_contents target)) (\<lambda>cleared.
                 io_bind (io_try (move_directory_contents previous target)) (\<lambda>rollback.
                 then_io (io_ignore (fs_remove_dir_all staging))
                 (then_io (io_ignore (fs_remove_dir_all previous))
                   (case (cleared, rollback) of
                      (Inl e, _) \<Rightarrow> io_fail (Ctx (''activate restored server data; clearing the partial restore failed: ''
                          @ bx_error_text bx e) error)
                    | (_, Inl e) \<Rightarrow> io_fail (Ctx (''activate restored server data; rollback also failed: ''
                          @ bx_error_text bx e) error)
                    | _ \<Rightarrow> io_fail (Ctx ''activate restored server data'' error)))))
             | Inr _ \<Rightarrow>
                 then_io (io_ignore (fs_remove_dir_all staging)) (io_ignore (fs_remove_dir_all previous)))))"

definition restore_transactionally :: "backup_lib \<Rightarrow> string \<Rightarrow> path \<Rightarrow> string \<Rightarrow> unit io" where
  "restore_transactionally bx sfx archive sid =
     from_res (server_dir (bx_env bx) sid) (\<lambda>target.
       case path_parent target of
         None \<Rightarrow> io_fail (Bail ''server directory has no parent'')
       | Some parent \<Rightarrow>
           let staging = path_join parent [Normal (''.'' @ sid @ ''.restore-'' @ sfx)];
               previous = path_join parent [Normal (''.'' @ sid @ ''.previous-'' @ sfx)] in
           then_io (fs_create_dir_all parent)
           (then_io (fs_create_dir_all staging)
           (io_bind (io_try (tar_extract bx archive staging)) (\<lambda>r.
             case r of
               Inl error \<Rightarrow> then_io (io_ignore (fs_remove_dir_all staging)) (io_fail error)
             | Inr _ \<Rightarrow>
                 (\<lambda>w. if \<not> fs_exists target w
                      then io_ctx ''activate restored server data'' (fs_rename staging target) w
                      else restore_over bx staging previous target w)))))"

subsection \<open>The bucket\<close>

text \<open>
  The AWS client is a parameter: put, get, list (one page of keys with a prefix) and delete
  (a batch of keys) over whatever state the bucket has.
\<close>

type_synonym bucket = "(string \<times> string) list"

record s3_api =
  sa_put :: "string \<Rightarrow> string \<Rightarrow> bucket \<Rightarrow> unit res \<times> bucket"
  sa_get :: "string \<Rightarrow> bucket \<Rightarrow> string res \<times> bucket"
  sa_list :: "string \<Rightarrow> bucket \<Rightarrow> string list res \<times> bucket"
  sa_delete :: "string list \<Rightarrow> bucket \<Rightarrow> unit res \<times> bucket"

record s3_store =
  s3_client :: "s3_api option"
  s3_bucket :: string
  s3_key_prefix :: string

definition trim_slashes :: "string \<Rightarrow> string" where
  "trim_slashes s = trim_end_matches (CHR ''/'') (trim_start_matches (CHR ''/'') s)"

definition s3_new :: "s3_api \<Rightarrow> environment \<Rightarrow> s3_store" where
  "s3_new client env =
     (let get = (\<lambda>k. case env k of Some v \<Rightarrow> v | None \<Rightarrow> []);
          bucket = get ''S3_BUCKET'' in
      if bucket = [] \<or> get ''S3_ACCESS_KEY_ID'' = [] \<or> get ''S3_SECRET_ACCESS_KEY'' = []
      then \<lparr> s3_client = None, s3_bucket = bucket, s3_key_prefix = ''agapornis'' \<rparr>
      else \<lparr> s3_client = Some client, s3_bucket = bucket,
             s3_key_prefix = trim_slashes (case env ''S3_PREFIX'' of Some v \<Rightarrow> v | None \<Rightarrow> ''agapornis'') \<rparr>)"

definition s3_configured :: "s3_store \<Rightarrow> bool" where
  "s3_configured s \<longleftrightarrow> s3_client s \<noteq> None \<and> s3_bucket s \<noteq> []"

definition s3_prefix :: "s3_store \<Rightarrow> string \<Rightarrow> string" where
  "s3_prefix s sid = s3_key_prefix s @ ''/servers/'' @ sid @ ''/backups/''"

definition s3_archive :: "s3_store \<Rightarrow> string \<Rightarrow> string \<Rightarrow> bool \<Rightarrow> string" where
  "s3_archive s sid bid enc = s3_prefix s sid @ bid @ ''.tar.gz'' @ (if enc then ''.agp'' else [])"

definition s3_metadata :: "s3_store \<Rightarrow> string \<Rightarrow> string \<Rightarrow> string" where
  "s3_metadata s sid bid = s3_prefix s sid @ bid @ ''.metadata.json''"

definition s3_call :: "s3_store \<Rightarrow> (s3_api \<Rightarrow> bucket \<Rightarrow> 'a res \<times> bucket) \<Rightarrow> 'a io" where
  "s3_call s f w =
     (case s3_client s of
        None \<Rightarrow> (Err (Bail ''S3 storage is not configured on this agent.''), w)
      | Some client \<Rightarrow> (case f client (w_objects w) of (r, os) \<Rightarrow> (r, w\<lparr> w_objects := os \<rparr>)))"

definition s3_put_object :: "s3_store \<Rightarrow> string \<Rightarrow> string \<Rightarrow> unit io" where
  "s3_put_object s key bytes = s3_call s (\<lambda>c. sa_put c key bytes)"

definition s3_get_object :: "s3_store \<Rightarrow> string \<Rightarrow> string io" where
  "s3_get_object s key = s3_call s (\<lambda>c. sa_get c key)"

definition s3_list_page :: "s3_store \<Rightarrow> string \<Rightarrow> string list io" where
  "s3_list_page s pre = s3_call s (\<lambda>c. sa_list c pre)"

definition s3_put_metadata :: "backup_lib \<Rightarrow> s3_store \<Rightarrow> string \<Rightarrow> string \<Rightarrow> backup_info \<Rightarrow> unit io" where
  "s3_put_metadata bx s sid bid info =
     from_res (bx_info_enc bx info) (\<lambda>bytes. s3_put_object s (s3_metadata s sid bid) bytes)"

definition s3_upload :: "backup_lib \<Rightarrow> s3_store \<Rightarrow> string \<Rightarrow> string \<Rightarrow> path \<Rightarrow> backup_info \<Rightarrow> bool \<Rightarrow> unit io" where
  "s3_upload bx s sid bid p info enc =
     then_io (guard_io (s3_client s \<noteq> None) ''S3 storage is not configured on this agent.'')
     (io_bind (fs_read p) (\<lambda>bytes.
      then_io (s3_put_object s (s3_archive s sid bid enc) bytes)
        (s3_put_metadata bx s sid bid info)))"

fun s3_read_infos :: "backup_lib \<Rightarrow> s3_store \<Rightarrow> string list \<Rightarrow> backup_info list \<Rightarrow> backup_info list io" where
  "s3_read_infos bx s [] acc = io_return acc"
| "s3_read_infos bx s (key # keys) acc =
     (if ends_with ''.metadata.json'' key
      then io_bind (s3_get_object s key) (\<lambda>data.
             s3_read_infos bx s keys (case bx_info_dec bx data of Some info \<Rightarrow> acc @ [info] | None \<Rightarrow> acc))
      else s3_read_infos bx s keys acc)"

definition s3_list :: "backup_lib \<Rightarrow> s3_store \<Rightarrow> string \<Rightarrow> backup_info list io" where
  "s3_list bx s sid = io_bind (s3_list_page s (s3_prefix s sid)) (\<lambda>keys. s3_read_infos bx s keys [])"

definition s3_download :: "s3_store \<Rightarrow> string \<Rightarrow> string \<Rightarrow> bool \<Rightarrow> path \<Rightarrow> unit io" where
  "s3_download s sid bid enc p =
     io_bind (s3_get_object s (s3_archive s sid bid enc)) (\<lambda>bytes. fs_write p bytes)"

definition s3_delete :: "s3_store \<Rightarrow> string \<Rightarrow> string \<Rightarrow> bool \<Rightarrow> unit io" where
  "s3_delete s sid bid enc =
     s3_call s (\<lambda>c. sa_delete c [s3_archive s sid bid enc, s3_metadata s sid bid])"

end
