(* ===== verification/Backup_Manager.thy ===== *)
theory Backup_Manager
  imports Backup_Archive
begin

text \<open>
  @storage/backup/manager.rs@: creating, listing, verifying, restoring and deleting backups.
  The semaphore only delays operations; its size is modelled, its queue is not.  Times and
  random parts of names are arguments.
\<close>

definition backup_concurrency :: "environment \<Rightarrow> nat" where
  "backup_concurrency env =
     clamp (case Option.bind (env ''AGAPORNIS_BACKUP_CONCURRENCY'') (parse_unsigned usize_max) of
              Some n \<Rightarrow> n | None \<Rightarrow> 1) 1 4"

fun insert_newest :: "backup_info \<Rightarrow> backup_info list \<Rightarrow> backup_info list" where
  "insert_newest x [] = [x]"
| "insert_newest x (y # ys) =
     (if str_less (bi_created_at y) (bi_created_at x) then x # y # ys else y # insert_newest x ys)"

definition sort_newest :: "backup_info list \<Rightarrow> backup_info list" where
  "sort_newest xs = foldl (\<lambda>acc x. insert_newest x acc) [] xs"

text \<open>@Path::with_extension@ on the last component.\<close>

definition with_extension :: "path \<Rightarrow> string \<Rightarrow> path" where
  "with_extension p ext =
     (case file_name p of
        None \<Rightarrow> p
      | Some name \<Rightarrow>
          let stem = (case rsplit_once (CHR ''.'') name of
                        Some (a, _) \<Rightarrow> if a = [] then name else a | None \<Rightarrow> name)
          in butlast p @ [Normal (stem @ ''.'' @ ext)])"

definition find_backup :: "backup_lib \<Rightarrow> s3_store \<Rightarrow> string \<Rightarrow> string \<Rightarrow> string \<Rightarrow> backup_info option io" where
  "find_backup bx s sid bid storage =
     from_res (validate_backup_id bid) (\<lambda>_.
       if storage = ''s3''
       then io_bind (s3_list bx s sid) (\<lambda>infos. io_return (find (\<lambda>v. bi_backup_id v = bid) infos))
       else read_metadata bx sid bid)"

definition existing_backup :: "backup_lib \<Rightarrow> s3_store \<Rightarrow> string \<Rightarrow> string \<Rightarrow> string \<Rightarrow> string \<Rightarrow> backup_info io" where
  "existing_backup bx s sid bid storage message =
     io_bind (find_backup bx s sid bid storage) (\<lambda>m.
       case m of Some info \<Rightarrow> io_return info | None \<Rightarrow> io_fail (Bail message))"

text \<open>The archive to work on, its metadata, and whether it is a temporary copy.\<close>

definition prepare_backup ::
  "backup_lib \<Rightarrow> s3_store \<Rightarrow> string \<Rightarrow> string \<Rightarrow> string \<Rightarrow> string \<Rightarrow> (path \<times> backup_info \<times> bool) io" where
  "prepare_backup bx s uuid sid bid storage =
     from_res (validate_storage storage) (\<lambda>_.
     io_bind (existing_backup bx s sid bid storage ''Backup not found.'') (\<lambda>info.
       if storage = ''local''
       then from_res (archive_path (bx_env bx) sid bid) (\<lambda>p. io_return (p, info, False))
       else
         io_bind (temp_dir bx) (\<lambda>tmp.
         let stored = path_join tmp (components (bid @ ''-'' @ uuid @ ''.stored''));
             plain = with_extension stored ''tar.gz'' in
         then_io (s3_download s sid bid (bi_encrypted info) stored)
           (if bi_encrypted info
            then then_io (decrypt_file (bx_aead bx) (bx_base64 bx) (bx_env bx) stored plain)
                 (then_io (io_ignore (fs_remove_file stored)) (io_return (plain, info, True)))
            else then_io (fs_rename stored plain) (io_return (plain, info, True))))))"

definition verify_inner ::
  "backup_lib \<Rightarrow> s3_store \<Rightarrow> string \<Rightarrow> string \<Rightarrow> string \<Rightarrow> string \<Rightarrow> string \<Rightarrow> string \<Rightarrow> unit io" where
  "verify_inner bx s uuid uuid2 now sid bid storage =
     io_bind (prepare_backup bx s uuid sid bid storage) (\<lambda>(p, info, temp).
     then_io (verify_integrity bx p info None)
     (then_io (validate_archive bx p)
     (io_bind (temp_dir bx) (\<lambda>tmp.
      let test = path_join tmp (components (''verify-'' @ uuid2));
          checked = info\<lparr> bi_last_verified_at := Some now \<rparr> in
      then_io (fs_create_dir_all test)
      (then_io (tar_extract bx p test)
      (then_io (io_ignore (fs_remove_dir_all test))
      (then_io (if storage = ''s3'' then s3_put_metadata bx s sid bid checked
                else write_metadata bx sid checked)
        (if temp then io_ignore (fs_remove_file p) else io_return ()))))))))"

text \<open>The archives beyond the retention limit, oldest last.\<close>

definition retention_victims :: "int \<Rightarrow> backup_info list \<Rightarrow> backup_info list" where
  "retention_victims retention infos = drop (nat (max retention 1)) (sort_newest infos)"

fun delete_remote :: "s3_store \<Rightarrow> string \<Rightarrow> backup_info list \<Rightarrow> unit io" where
  "delete_remote s sid [] = io_return ()"
| "delete_remote s sid (old # olds) =
     then_io (s3_delete s sid (bi_backup_id old) (bi_encrypted old)) (delete_remote s sid olds)"

text \<open>The remote half of a creation: encrypt, upload, verify, clean up, apply the retention.\<close>

definition ship_backup ::
  "backup_lib \<Rightarrow> s3_store \<Rightarrow> string \<Rightarrow> string \<Rightarrow> string \<Rightarrow> string \<Rightarrow> string \<Rightarrow> int \<Rightarrow> bool \<Rightarrow> string \<Rightarrow> path \<Rightarrow>
   backup_info \<Rightarrow> backup_info io" where
  "ship_backup bx s bid now uuid uuid2 sid retention encrypt nonce_prefix plain info =
     io_bind (if encrypt
              then (let p = with_extension plain ''gz.agp'' in
                    then_io (encrypt_file (bx_aead bx) (bx_base64 bx) (bx_env bx) (bx_reads bx) nonce_prefix plain p)
                      (io_return p))
              else io_return plain) (\<lambda>upload.
     then_io (s3_upload bx s sid bid upload info encrypt)
     (then_io (verify_inner bx s uuid uuid2 now sid bid ''s3'')
     (then_io (io_ignore (fs_remove_file upload))
     (then_io (io_ignore (fs_remove_file plain))
     (then_io (if retention > 0
               then io_bind (s3_list bx s sid) (\<lambda>infos. delete_remote s sid (retention_victims retention infos))
               else io_return ())
       (existing_backup bx s sid bid ''s3'' ''new remote backup disappeared''))))))"

definition pack_backup ::
  "backup_lib \<Rightarrow> string \<Rightarrow> string \<Rightarrow> string \<Rightarrow> string \<Rightarrow> bool \<Rightarrow> path \<Rightarrow> (path \<times> backup_info) io" where
  "pack_backup bx bid now sid storage encrypt source =
     io_bind (if storage = ''local'' then io_lift (local_backup_dir (bx_env bx) sid) else temp_dir bx) (\<lambda>dir.
     then_io (fs_create_dir_all dir)
     (let plain = path_join dir (components (bid @ ''.tar.gz'')) in
      then_io (tar_create bx source plain)
      (io_bind (fs_metadata plain) (\<lambda>n.
       io_bind (sha256_file bx plain) (\<lambda>checksum.
         io_return (plain,
           \<lparr> bi_backup_id = bid, bi_server_id = sid, bi_archive_name = bid @ ''.tar.gz'',
             bi_size_bytes = as_i64 (node_len (bx_dir_len bx) n), bi_created_at = now,
             bi_checksum_sha256 = checksum, bi_checksum_type = CHECKSUM, bi_storage = storage,
             bi_encrypted = encrypt, bi_last_verified_at = None, bi_expires_at = None \<rparr>))))))"

definition create_backup ::
  "backup_lib \<Rightarrow> s3_store \<Rightarrow> string \<Rightarrow> string \<Rightarrow> string \<Rightarrow> string \<Rightarrow> string \<Rightarrow> string \<Rightarrow> int \<Rightarrow> bool \<Rightarrow> string \<Rightarrow> backup_info io" where
  "create_backup bx s bid now uuid uuid2 sid storage retention encrypt nonce_prefix =
     from_res (validate_storage storage) (\<lambda>_.
     from_res (validate_id sid) (\<lambda>_.
     then_io (guard_io (storage \<noteq> ''s3'' \<or> s3_configured s) ''S3 storage is not configured on this agent.'')
     (from_res (if encrypt then encryption_key (bx_base64 bx) (bx_env bx) else Ok []) (\<lambda>_.
      from_res (server_dir (bx_env bx) sid) (\<lambda>source w0.
        if \<not> fs_exists source w0 then (Err (Bail (''Server volume not found: '' @ sid)), w0)
        else io_bind (pack_backup bx bid now sid storage encrypt source) (\<lambda>(plain, info).
               if storage = ''local'' then then_io (write_metadata bx sid info) (io_return info)
               else ship_backup bx s bid now uuid uuid2 sid retention encrypt nonce_prefix plain info) w0)))))"

definition list_backups :: "backup_lib \<Rightarrow> s3_store \<Rightarrow> string \<Rightarrow> bool \<Rightarrow> backup_info list io" where
  "list_backups bx s sid remote =
     io_bind (list_local bx sid) (\<lambda>out.
     io_bind (if remote \<and> s3_configured s then s3_list bx s sid else io_return []) (\<lambda>more_infos.
       io_return (sort_newest (out @ more_infos))))"

definition delete_backup :: "backup_lib \<Rightarrow> s3_store \<Rightarrow> string \<Rightarrow> string \<Rightarrow> string \<Rightarrow> unit io" where
  "delete_backup bx s sid bid storage =
     from_res (validate_backup_id bid) (\<lambda>_.
       if storage = ''s3''
       then io_bind (existing_backup bx s sid bid storage ''Backup not found.'') (\<lambda>info.
              s3_delete s sid bid (bi_encrypted info))
       else
         from_res (archive_path (bx_env bx) sid bid) (\<lambda>a.
         then_io (fs_remove_file a)
         (from_res (metadata_path (bx_env bx) sid bid) (\<lambda>m. io_ignore (fs_remove_file m)))))"

definition restore_backup ::
  "backup_lib \<Rightarrow> s3_store \<Rightarrow> string \<Rightarrow> string \<Rightarrow> string \<Rightarrow> string \<Rightarrow> string \<Rightarrow> string option \<Rightarrow> unit io" where
  "restore_backup bx s uuid sfx sid bid storage expected =
     io_bind (prepare_backup bx s uuid sid bid storage) (\<lambda>(p, info, temp).
     then_io (verify_integrity bx p info expected)
     (then_io (validate_archive bx p)
     (then_io (restore_transactionally bx sfx p sid)
       (if temp then io_ignore (fs_remove_file p) else io_return ()))))"

definition prepare_download ::
  "backup_lib \<Rightarrow> s3_store \<Rightarrow> string \<Rightarrow> string \<Rightarrow> string \<Rightarrow> string \<Rightarrow> (path \<times> backup_info \<times> bool) io" where
  "prepare_download bx s uuid sid bid storage =
     io_bind (prepare_backup bx s uuid sid bid storage) (\<lambda>(p, info, temp).
     then_io (verify_integrity bx p info None) (io_return (p, info, temp)))"

definition temporary_server :: "backup_lib \<Rightarrow> string \<Rightarrow> string \<Rightarrow> path io" where
  "temporary_server bx now sid =
     io_bind (temp_dir bx) (\<lambda>tmp.
     let target = path_join tmp (components (sid @ ''-'' @ now @ ''.tar.gz'')) in
     from_res (server_dir (bx_env bx) sid) (\<lambda>source.
       then_io (tar_create bx source target) (io_return target)))"

definition temporary_backups :: "backup_lib \<Rightarrow> string \<Rightarrow> string \<Rightarrow> path option io" where
  "temporary_backups bx now sid =
     from_res (local_backup_dir (bx_env bx) sid) (\<lambda>source w0.
       if \<not> fs_exists source w0 then (Ok None, w0)
       else io_bind (fs_read_dir source) (\<lambda>names.
         if names = [] then io_return None
         else io_bind (temp_dir bx) (\<lambda>tmp.
           let target = path_join tmp (components (sid @ ''-backups-'' @ now @ ''.tar.gz'')) in
           then_io (tar_create bx source target) (io_return (Some target)))) w0)"

definition extract_into :: "backup_lib \<Rightarrow> path \<Rightarrow> path res \<Rightarrow> unit io" where
  "extract_into bx p target =
     then_io (validate_archive bx p)
     (from_res target (\<lambda>d. then_io (fs_create_dir_all d) (tar_extract bx p d)))"

definition extract_server :: "backup_lib \<Rightarrow> path \<Rightarrow> string \<Rightarrow> unit io" where
  "extract_server bx p sid = extract_into bx p (server_dir (bx_env bx) sid)"

definition extract_backups :: "backup_lib \<Rightarrow> path \<Rightarrow> string \<Rightarrow> unit io" where
  "extract_backups bx p sid = extract_into bx p (local_backup_dir (bx_env bx) sid)"

definition delete_local :: "backup_lib \<Rightarrow> string \<Rightarrow> unit io" where
  "delete_local bx sid =
     from_res (local_backup_dir (bx_env bx) sid) (\<lambda>d w0.
       if fs_exists d w0 then fs_remove_dir_all d w0 else (Ok (), w0))"

definition nested_text :: string where "nested_text = ''agapornis backup parity''"

definition backup_self_test :: "backup_lib \<Rightarrow> string \<Rightarrow> string \<Rightarrow> unit io" where
  "backup_self_test bx uuid nonce_prefix =
     (let root = path_join (bx_temp bx) (components (''agapornis-backup-selftest-'' @ uuid));
          source = path_join root [Normal ''source''];
          restored = path_join root [Normal ''restored''];
          archive = path_join root [Normal ''test.tar.gz''];
          encrypted = path_join root [Normal ''test.tar.gz.agp''];
          decrypted = path_join root [Normal ''decrypted.tar.gz''] in
      then_io (fs_create_dir_all (path_join source [Normal ''nested'']))
      (then_io (fs_create_dir_all restored)
      (then_io (fs_write (path_join source (components ''nested/test.txt'')) nested_text)
      (then_io (tar_create bx source archive)
      (then_io (validate_archive bx archive)
      (then_io (encrypt_file (bx_aead bx) (bx_base64 bx) (bx_env bx) (bx_reads bx) nonce_prefix archive encrypted)
      (then_io (decrypt_file (bx_aead bx) (bx_base64 bx) (bx_env bx) encrypted decrypted)
      (io_bind (sha256_file bx archive) (\<lambda>a.
       io_bind (sha256_file bx decrypted) (\<lambda>b.
       then_io (guard_io (hash_eq bx a b) ''backup encryption round trip changed the archive'')
       (then_io (tar_extract bx decrypted restored)
       (io_bind (fs_read (path_join restored (components ''nested/test.txt''))) (\<lambda>c.
        then_io (guard_io (c = nested_text) ''backup archive round trip changed file content'')
         (io_ignore (fs_remove_dir_all root)))))))))))))))"

end
