(* ===== verification/Backup_Safety.thy ===== *)
theory Backup_Safety
  imports Backup_Manager Files_Safety "HOL-Library.Multiset"
begin

text \<open>
  What backups promise: unsafe archives are never unpacked, checked archives have the recorded
  size and checksum, a restore replaces the content of the server's directory; and what a
  restore loses when its rollback fails.
\<close>

subsection \<open>Unsafe archives\<close>

text \<open>A sequence of calls that never succeeds, and asks only for what is allowed.\<close>

definition refuses :: "(request \<Rightarrow> bool) \<Rightarrow> 'a io \<Rightarrow> bool" where
  "refuses R m \<longleftrightarrow> asks R m \<and> (\<forall>w. \<not> is_ok (fst (m w)))"

lemma refuses_fail: "refuses R (io_fail e)"
  by (simp add: refuses_def asks_rules) (simp add: io_fail_def)

lemma refuses_first: "refuses R m \<Longrightarrow> refuses R (io_bind m f)"
  unfolding refuses_def asks_def
proof (intro conjI allI)
  fix w
  assume a: "(\<forall>w. \<exists>rs. w_requests (snd (m w)) = w_requests w @ rs \<and> list_all R rs) \<and> (\<forall>w. \<not> is_ok (fst (m w)))"
  obtain r w1 where m: "m w = (r, w1)" by (metis surj_pair)
  then have "\<not> is_ok r" using a by (metis fst_conv)
  then obtain e where "r = Inl e" by (cases r) auto
  then have b: "io_bind m f w = (Inl e, w1)" by (simp add: io_bind_def m)
  show "\<not> is_ok (fst (io_bind m f w))" by (simp add: b)
  show "\<exists>rs. w_requests (snd (io_bind m f w)) = w_requests w @ rs \<and> list_all R rs"
    using a m b by (metis snd_conv)
qed

lemma refuses_later:
  assumes "asks R m" "\<And>x. refuses R (f x)"
  shows "refuses R (io_bind m f)"
  unfolding refuses_def
proof (intro conjI allI)
  show "asks R (io_bind m f)" using assms by (intro asks_bind) (auto simp: refuses_def)
  fix w
  obtain r w1 where m: "m w = (r, w1)" by (metis surj_pair)
  show "\<not> is_ok (fst (io_bind m f w))"
    using assms(2) by (cases r) (simp_all add: io_bind_def m refuses_def)
qed

lemma asks_s3 [asks_rules]: "asks R (s3_call s f)"
  by (simp add: asks_def s3_call_def split: option.split prod.split)

definition lists_archive :: "request \<Rightarrow> bool" where
  "lists_archive r \<longleftrightarrow> (\<exists>p. r = Spawn [''tar'', ''-tzf'', p] [] [])"

lemma asks_read_metadata [asks_rules]: "asks R (read_metadata bx sid bid)"
  unfolding read_metadata_def
  by (intro asks_rules; simp add: asks_rules split: sum.split)

lemma asks_infos [asks_rules]: "asks R (s3_read_infos bx s keys acc)"
  by (induction bx s keys acc rule: s3_read_infos.induct)
    (auto simp: s3_get_object_def intro!: asks_rules)

lemma asks_existing [asks_rules]: "asks R (existing_backup bx s sid bid storage m)"
  unfolding existing_backup_def find_backup_def s3_list_def s3_list_page_def
  by (intro asks_rules; auto intro!: asks_rules split: option.split)

lemma asks_decrypt [asks_rules]: "asks R (decrypt_file ae b64 env a b)"
  unfolding decrypt_file_def
  by (intro asks_rules) (auto intro!: asks_rules split: prod.split)

lemma asks_prepare [asks_rules]: "asks R (prepare_backup bx s uuid sid bid storage)"
  unfolding prepare_backup_def s3_download_def s3_get_object_def temp_dir_def Let_def
  by (intro asks_rules)

lemma asks_integrity [asks_rules]: "asks R (verify_integrity bx p info expected)"
  unfolding verify_integrity_def sha256_file_def
  by (intro asks_rules)

lemma check_entries_unsafe: "e \<in> set ls \<Longrightarrow> unsafe_entry e \<Longrightarrow> \<exists>x. check_entries ls = Inl x"
  by (induction ls rule: check_entries.induct) auto

text \<open>
  What an unsafe name is, in terms of paths: with backslashes read as separators, the name starts
  at the root or has a component that leads to a parent directory. An archive is bad if every
  attempt to list it fails or prints such a name; the listings of other archives are arbitrary.
\<close>

definition escaping_entry :: "string \<Rightarrow> bool" where
  "escaping_entry raw \<longleftrightarrow>
     (let c = components (map (\<lambda>x. if x = CHR 0x5C then CHR ''/'' else x) (trim raw)) in RootDir \<in> set c \<or> ParentDir \<in> set c)"

definition bad_archive :: "backup_lib \<Rightarrow> string \<Rightarrow> bool" where
  "bad_archive bx a \<longleftrightarrow> (\<forall>rs t. case fst (h_spawn (bx_host bx) rs (Spawn [''tar'', ''-tzf'', a] [] []) t) of
     Inl _ \<Rightarrow> True | Inr proc \<Rightarrow> \<not> proc_success proc \<or> list_ex escaping_entry (str_lines (proc_stdout proc)))"

definition never_unpacks :: "string \<Rightarrow> request \<Rightarrow> bool" where
  "never_unpacks a r \<longleftrightarrow> (\<forall>opts env inp. r \<noteq> Spawn (''tar'' # ''-xzf'' # a # opts) env inp)"

lemma replace_single: "replace_char c [d] s = map (\<lambda>x. if x = c then d else x) s"
  by (induction s) (simp_all add: replace_char_def)

lemma parent_components: "ParentDir \<in> set (seg_components segs) \<longleftrightarrow> ''..'' \<in> set segs"
  by (induction segs) (auto simp: seg_components_def)

lemma root_components: "RootDir \<notin> set (seg_components segs)"
  by (induction segs) (auto simp: seg_components_def)

lemma split_on_hd: "s \<noteq> [] \<Longrightarrow> hd (split_on c s) = [] \<longleftrightarrow> hd s = c"
  by (cases s) (auto split: list.split)

lemma unsafe_iff_escaping: "unsafe_entry raw \<longleftrightarrow> escaping_entry raw"
proof -
  define s where "s = map (\<lambda>x. if x = CHR 0x5C then CHR ''/'' else x) (trim raw)"
  have u: "unsafe_entry raw \<longleftrightarrow> starts_with ''/'' s \<or> ''..'' \<in> set (split_on (CHR ''/'') s)"
    by (simp add: unsafe_entry_def unslash_def replace_single s_def Let_def)
  obtain x xs where sp: "split_on (CHR ''/'') s = x # xs" by (meson neq_Nil_conv split_on_not_Nil)
  have "s \<noteq> [] \<Longrightarrow> x = [] \<longleftrightarrow> starts_with ''/'' s"
    using split_on_hd [of s "CHR ''/''"] sp by (cases s) auto
  moreover have "s = [] \<Longrightarrow> x = [] \<and> xs = []" using sp by auto
  ultimately show ?thesis
    unfolding u escaping_entry_def s_def [symmetric]
    by (cases "s = []") (auto simp: components_def sp root_components parent_components Let_def)
qed

lemma refuses_validate: "bad_archive bx (path_string p) \<Longrightarrow> refuses lists_archive (validate_archive bx p)"
  unfolding refuses_def
proof (intro conjI allI)
  show "asks lists_archive (validate_archive bx p)"
    unfolding validate_archive_def by (intro asks_rules) (simp add: lists_archive_def)
next
  fix w :: world
  assume u: "bad_archive bx (path_string p)"
  obtain r t where h: "h_spawn (bx_host bx) (w_requests w) (Spawn [''tar'', ''-tzf'', path_string p] [] []) (w_root w)
      = (r, t)" by (metis surj_pair)
  show "\<not> is_ok (fst (validate_archive bx p w))"
  proof (cases r)
    case (Inr proc)
    have b: "\<not> proc_success proc \<or> list_ex escaping_entry (str_lines (proc_stdout proc))"
      using spec [OF spec [OF u [unfolded bad_archive_def]], of "w_requests w" "w_root w"] by (simp add: h Inr)
    have v: "validate_archive bx p w = from_res (check_entries (str_lines (proc_stdout proc)))
        (\<lambda>_. guard_io (proc_success proc) (''archive validation exited with status '' @ status_text proc))
        (set_root t (w\<lparr> w_requests := w_requests w @ [Spawn [''tar'', ''-tzf'', path_string p] [] []] \<rparr>))"
      by (simp add: validate_archive_def io_bind_def spawn_def perform_def h Inr)
    show ?thesis
    proof (cases "check_entries (str_lines (proc_stdout proc))")
      case (Inr c)
      have "\<not> list_ex escaping_entry (str_lines (proc_stdout proc))"
      proof
        assume "list_ex escaping_entry (str_lines (proc_stdout proc))"
        then obtain e where "e \<in> set (str_lines (proc_stdout proc))" "unsafe_entry e"
          by (auto simp: list_ex_iff unsafe_iff_escaping)
        then show False using check_entries_unsafe Inr by force
      qed
      then show ?thesis using b by (auto simp: v Inr io_bind_def io_lift_def guard_io_def io_fail_def)
    qed (simp add: v io_bind_def io_lift_def)
  qed (simp add: validate_archive_def io_bind_def spawn_def perform_def h)
qed

lemma asks_validated:
  assumes "bad_archive bx a" "path_string p \<noteq> a \<Longrightarrow> asks (never_unpacks a) m"
  shows "asks (never_unpacks a) (io_bind (validate_archive bx p) (\<lambda>_. m))"
proof (cases "path_string p = a")
  case True
  have "refuses lists_archive (io_bind (validate_archive bx p) (\<lambda>_. m))"
    using refuses_first refuses_validate assms(1) True by blast
  then show ?thesis unfolding refuses_def
    by (rule asks_mono [OF conjunct1]) (auto simp: lists_archive_def never_unpacks_def)
next
  case False
  have "asks (never_unpacks a) (validate_archive bx p)"
    unfolding validate_archive_def by (intro asks_rules) (simp add: never_unpacks_def)
  then show ?thesis using assms(2) False by (intro asks_bind) auto
qed

lemma asks_unpack: "path_string p \<noteq> a \<Longrightarrow> asks (never_unpacks a) (tar_extract bx p d)"
  unfolding tar_extract_def io_unit_def by (intro asks_rules) (simp add: never_unpacks_def)

lemma asks_moves [asks_rules]: "asks R (move_entries a b names)" "asks R (clear_entries a names)"
  by (induction names) (auto simp: Let_def remove_target_def intro!: asks_rules split: node.split)

lemma asks_contents [asks_rules]: "asks R (move_directory_contents a b)" "asks R (clear_directory_contents a)"
  unfolding move_directory_contents_def clear_directory_contents_def by (intro asks_rules)+

lemma asks_over [asks_rules]: "asks R (restore_over bx a b c)"
  unfolding restore_over_def by (intro asks_rules; auto intro!: asks_rules split: sum.split)

lemma asks_exists: "asks R m \<Longrightarrow> asks R n \<Longrightarrow> asks R (\<lambda>w. if b w then m w else n w)"
  by (simp add: asks_def)

lemma asks_restore: "path_string p \<noteq> a \<Longrightarrow> asks (never_unpacks a) (restore_transactionally bx sfx p sid)"
  unfolding restore_transactionally_def Let_def
  by (intro asks_rules; auto intro!: asks_rules asks_exists asks_unpack split: sum.split option.split)

lemma asks_metadata [asks_rules]:
  "asks R (write_metadata bx sid info)" "asks R (s3_put_metadata bx s sid bid info)"
  unfolding write_metadata_def s3_put_metadata_def s3_put_object_def create_parent_def
  by (auto intro!: asks_rules split: option.split)

text \<open>A step that fails at a world, having only listed archives.\<close>

definition only_lists :: "'a io \<Rightarrow> world \<Rightarrow> bool" where
  "only_lists m w \<longleftrightarrow> \<not> is_ok (fst (m w)) \<and>
     (\<exists>rs. w_requests (snd (m w)) = w_requests w @ rs \<and> list_all lists_archive rs)"

lemma only_lists_checked:
  assumes "bad_archive bx (path_string p)" "prepare_backup bx s uuid sid bid storage w = (Ok (p, info, temp), w')"
  shows "only_lists (io_bind (prepare_backup bx s uuid sid bid storage) (\<lambda>(p, info, temp).
     io_bind (verify_integrity bx p info expected) (\<lambda>_. io_bind (validate_archive bx p) (\<lambda>_. f p info temp)))) w"
proof -
  let ?m = "io_bind (verify_integrity bx p info expected) (\<lambda>_. io_bind (validate_archive bx p) (\<lambda>_. f p info temp))"
  have "refuses lists_archive ?m"
    using refuses_validate [OF assms(1)] by (intro refuses_later [OF asks_integrity] refuses_first)
  then obtain rs where m: "\<not> is_ok (fst (?m w'))" "w_requests (snd (?m w')) = w_requests w' @ rs" "list_all lists_archive rs"
    unfolding refuses_def asks_def by blast
  have "asks lists_archive (prepare_backup bx s uuid sid bid storage)" by (rule asks_prepare)
  then obtain rs' where "w_requests w' = w_requests w @ rs'" "list_all lists_archive rs'"
    using assms(2) unfolding asks_def by (metis snd_conv)
  with m show ?thesis
    by (auto simp: only_lists_def io_bind_def [of "prepare_backup bx s uuid sid bid storage"] assms(2)
        intro: exI [of _ "rs' @ rs"])
qed

text \<open>C16: an archive is bad if listing it fails or prints an absolute name or one with a parent
  component. A bad archive is never unpacked by a restore, a verification or an extraction,
  whichever archive they were asked for; and when it is the one they work on they fail, having
  started only programs that list archives: an extraction of it always, a restore and a
  verification whenever the copy they prepare is that archive.\<close>

theorem unsafe_archive_refused:
  assumes "bad_archive bx a"
  shows "asks (never_unpacks a) (restore_backup bx s uuid sfx sid bid storage expected) \<and>
    asks (never_unpacks a) (verify_inner bx s uuid uuid2 now sid bid storage) \<and>
    asks (never_unpacks a) (extract_server bx q sid) \<and> asks (never_unpacks a) (extract_backups bx q sid) \<and>
    (path_string p = a \<longrightarrow> only_lists (extract_server bx p sid) w \<and> only_lists (extract_backups bx p sid) w \<and>
      (prepare_backup bx s uuid sid bid storage w = (Ok (p, info, temp), w') \<longrightarrow>
        only_lists (restore_backup bx s uuid sfx sid bid storage expected) w \<and>
        only_lists (verify_inner bx s uuid uuid2 now sid bid storage) w))"
proof (intro conjI impI)
  show "asks (never_unpacks a) (restore_backup bx s uuid sfx sid bid storage expected)"
    unfolding restore_backup_def
    by (intro asks_bind [OF asks_prepare]) (auto intro!: asks_rules asks_validated [OF assms] asks_restore split: prod.split)
  show "asks (never_unpacks a) (verify_inner bx s uuid uuid2 now sid bid storage)"
    unfolding verify_inner_def Let_def temp_dir_def
    by (intro asks_bind [OF asks_prepare]) (auto intro!: asks_rules asks_validated [OF assms] asks_unpack split: prod.split)
  show "asks (never_unpacks a) (extract_server bx q sid)" "asks (never_unpacks a) (extract_backups bx q sid)"
    unfolding extract_server_def extract_backups_def extract_into_def
    by (intro asks_validated [OF assms] asks_rules asks_unpack; assumption)+
  assume p: "path_string p = a"
  have "refuses lists_archive (extract_into bx p d)" for d
    unfolding extract_into_def using refuses_validate assms p by (intro refuses_first) blast
  then show "only_lists (extract_server bx p sid) w" "only_lists (extract_backups bx p sid) w"
    unfolding extract_server_def extract_backups_def only_lists_def refuses_def asks_def by blast+
  assume "prepare_backup bx s uuid sid bid storage w = (Ok (p, info, temp), w')"
  note c = only_lists_checked [OF _ this, unfolded p, OF assms]
  show "only_lists (restore_backup bx s uuid sfx sid bid storage expected) w"
    unfolding restore_backup_def by (rule c)
  show "only_lists (verify_inner bx s uuid uuid2 now sid bid storage) w"
    unfolding verify_inner_def by (rule c)
qed


text \<open>A library for examples: @tar -xzf@ unpacks a given tree, @tar -tzf@ prints a given listing.\<close>

definition bare_bx :: "string \<Rightarrow> (string \<times> node) list \<Rightarrow> backup_lib" where
  "bare_bx listing unpacked =
     \<lparr> bx_env = (\<lambda>_. None),
       bx_host = \<lparr> h_spawn = (\<lambda>_ req t. case req of
           Spawn [_, flag, _] _ _ \<Rightarrow> (Inr \<lparr> exit_code = Some 0, proc_stdout = listing, proc_stderr = [] \<rparr>, t)
         | Spawn [_, flag, _, _, dir] _ _ \<Rightarrow>
             (Inr \<lparr> exit_code = Some 0, proc_stdout = [], proc_stderr = [] \<rparr>,
              put (map (\<lambda>c. case c of Normal n \<Rightarrow> n | _ \<Rightarrow> []) (tl (components dir))) (Some (Dir unpacked)) t)
         | _ \<Rightarrow> (Inr \<lparr> exit_code = Some 1, proc_stdout = [], proc_stderr = [] \<rparr>, t)),
         h_exec = (\<lambda>_ _ _ t. (Ok [], t)), h_api = (\<lambda>_ _ t. (Inr (), t)), h_inspect = (\<lambda>_ _. Inl (DockerOther [])) \<rparr>,
       bx_temp = [RootDir, Normal ''tmp''], bx_info_enc = (\<lambda>_. Ok ''info''), bx_info_dec = (\<lambda>_. None),
       bx_sha256 = (\<lambda>s. s), bx_hex_decode = Some, bx_created = (\<lambda>_. []), bx_error_text = (\<lambda>_. []),
       bx_aead = zero_tag, bx_base64 = Ok, bx_dir_len = 0, bx_reads = (\<lambda>_. 1) \<rparr>"

text \<open>An archive with the names @./a@ and @../b@ beside one without unsafe names.\<close>

definition two_archives :: backup_lib where
  "two_archives = (bare_bx [] [])\<lparr> bx_host := (bx_host (bare_bx [] []))\<lparr> h_spawn := (\<lambda>_ req t. case req of
     Spawn [_, _, a] _ _ \<Rightarrow> (Inr \<lparr> exit_code = Some 0, proc_stdout = (if a = ''/bad'' then ''./a'' @ [CHR 0x0A] @ ''../b'' else ''./a''),
       proc_stderr = [] \<rparr>, t) | _ \<Rightarrow> (Inr \<lparr> exit_code = Some 0, proc_stdout = [], proc_stderr = [] \<rparr>, t)) \<rparr> \<rparr>"

theorem unsafe_archive_refused_witness:
  "only_lists (extract_server two_archives [RootDir, Normal ''bad''] ''s'') (calm_world (Dir [])) \<and>
   asks (never_unpacks ''/bad'') (extract_server two_archives [RootDir, Normal ''good''] ''s'') \<and>
   \<not> bad_archive two_archives ''/good'' \<and>
   (case extract_server two_archives [RootDir, Normal ''good''] ''s'' (calm_world (Dir [])) of
      (r, w) \<Rightarrow> is_ok r \<and> (\<exists>d. last (w_requests w) = Spawn [''tar'', ''-xzf'', ''/good'', ''-C'', d] [] []))"
proof -
  have "list_ex escaping_entry (str_lines (''./a'' @ [CHR 0x0A] @ ''../b''))" by code_simp
  then have bad: "bad_archive two_archives ''/bad''"
    by (simp add: bad_archive_def two_archives_def)
  have s: "path_string [RootDir, Normal ''bad''] = ''/bad''" by code_simp
  have "\<not> list_ex escaping_entry (str_lines ''./a'')" by code_simp
  then have "\<not> bad_archive two_archives ''/good''"
    by (simp add: bad_archive_def two_archives_def proc_success_def)
  moreover have "case extract_server two_archives [RootDir, Normal ''good''] ''s'' (calm_world (Dir [])) of
      (r, w) \<Rightarrow> is_ok r \<and> last (w_requests w) = Spawn [''tar'', ''-xzf'', ''/good'', ''-C'',
        (case server_dir (\<lambda>_. None) ''s'' of Inr d \<Rightarrow> path_string d)] [] []" by code_simp
  ultimately show ?thesis
    using unsafe_archive_refused [OF bad, where q = "[RootDir, Normal ''good'']" and p = "[RootDir, Normal ''bad'']"] s
    by (auto split: prod.splits)
qed

subsection \<open>What a restore does\<close>

text \<open>The entries of a directory.\<close>

definition entries_at :: "node \<Rightarrow> string list \<Rightarrow> (string \<rightharpoonup> node) option" where
  "entries_at t q = (case lookup t q of Some (Dir es) \<Rightarrow> Some (map_of es) | _ \<Rightarrow> None)"

lemma entries_put: "entries_at t q = Some m \<Longrightarrow> entries_at (put (q @ [x]) v t) q = Some (m(x := v))"
proof (induction q arbitrary: t)
  case Nil
  then obtain es where "t = Dir es" "m = map_of es"
    by (auto simp: entries_at_def split: node.splits)
  then show ?case by (cases v) (auto simp: entries_at_def update_conv' delete_conv' fun_eq_iff)
next
  case (Cons y q)
  then obtain es n where n: "t = Dir es" "map_of es y = Some n" "entries_at n q = Some m"
    by (cases t) (auto simp: entries_at_def split: option.splits)
  obtain z zs where z: "q @ [x] = z # zs" by (cases q) auto
  have "entries_at (put (q @ [x]) v n) q = Some (m(x := v))" using Cons.IH n(3) .
  then have "entries_at (put (z # zs) v n) q = Some (m(x := v))" by (simp only: z)
  then show ?case by (auto simp: n z entries_at_def update_conv' fun_eq_iff split: option.splits node.splits)
qed

lemma entries_other:
  "\<not> prefix p q \<Longrightarrow> \<not> prefix q p \<Longrightarrow> entries_at (put p v t) q = entries_at t q"
  by (simp add: entries_at_def lookup_put_other)

text \<open>
  Below the directory @base@ only the named children change; @base@ and the directories on the
  way to it stay real directories.
\<close>

definition changes_only :: "string list \<Rightarrow> string set \<Rightarrow> node \<Rightarrow> node \<Rightarrow> bool" where
  "changes_only base names t t' \<longleftrightarrow>
     (\<forall>q. (\<forall>a \<in> names. \<not> prefix (base @ [a]) q \<and> \<not> prefix q (base @ [a])) \<longrightarrow> lookup t' q = lookup t q) \<and>
     (\<forall>q. prefix q base \<and> is_dir_at t q \<longrightarrow> is_dir_at t' q)"

lemma changes_refl [simp]: "changes_only base names t t"
  by (simp add: changes_only_def)

lemma changes_trans: "changes_only base names t t' \<Longrightarrow> changes_only base names t' t'' \<Longrightarrow> changes_only base names t t''"
  unfolding changes_only_def by metis

lemma changes_mono: "changes_only base names t t' \<Longrightarrow> names \<subseteq> names' \<Longrightarrow> changes_only base names' t t'"
  unfolding changes_only_def by (meson subsetD)

lemma changes_put:
  assumes "a \<in> names" shows "changes_only base names t (put (base @ a # r) v t)"
  unfolding changes_only_def
proof (intro conjI allI impI)
  fix q assume q: "\<forall>a \<in> names. \<not> prefix (base @ [a]) q \<and> \<not> prefix q (base @ [a])"
  have "\<not> prefix (base @ a # r) q"
    using q assms by (metis append_Cons append_Nil append_assoc append_prefixD)
  moreover have "\<not> prefix q (base @ a # r)"
  proof
    assume "prefix q (base @ a # r)"
    then have "prefix q ((base @ [a]) @ r)" by simp
    then have "prefix q (base @ [a]) \<or> prefix (base @ [a]) q"
      by (metis prefix_append prefix_same_cases prefixI)
    then show False using q assms by blast
  qed
  ultimately show "lookup (put (base @ a # r) v t) q = lookup t q" by (rule lookup_put_other)
next
  fix q assume "prefix q base \<and> is_dir_at t q"
  then show "is_dir_at (put (base @ a # r) v t) q"
    by (intro lookup_put_above) (auto simp: prefix_def)
qed

definition real_dir :: "node \<Rightarrow> string list \<Rightarrow> bool" where
  "real_dir t base \<longleftrightarrow> (\<forall>q. prefix q base \<longrightarrow> is_dir_at t q)"

lemma real_dir_changes: "changes_only base names t t' \<Longrightarrow> real_dir t base \<Longrightarrow> real_dir t' base"
  by (simp add: changes_only_def real_dir_def)

lemma real_dir_parent: "real_dir t base \<Longrightarrow> real_parent t (base @ [a])"
  by (auto simp: real_dir_def real_parent_def less_Suc_eq take_is_prefix)

lemma real_dir_parent2: "real_dir t base \<Longrightarrow> is_dir_at t (base @ [a]) \<Longrightarrow> real_parent t (base @ [a, n])"
  by (auto simp: real_dir_def real_parent_def less_Suc_eq take_is_prefix)

lemma entries_sibling:
  "changes_only base names t t' \<Longrightarrow> c \<notin> names \<Longrightarrow> lookup t' (base @ [c]) = lookup t (base @ [c])"
proof -
  assume c: "changes_only base names t t'" "c \<notin> names"
  then have "\<forall>a \<in> names. \<not> prefix (base @ [a]) (base @ [c]) \<and> \<not> prefix (base @ [c]) (base @ [a])" by auto
  then show ?thesis using c unfolding changes_only_def by blast
qed

lemma entries_sibling':
  "changes_only base names t t' \<Longrightarrow> c \<notin> names \<Longrightarrow> entries_at t' (base @ [c]) = entries_at t (base @ [c])"
  by (simp add: entries_at_def entries_sibling)

lemma entries_is_dir: "entries_at t q = Some m \<Longrightarrow> is_dir_at t q"
  by (auto simp: entries_at_def is_dir_at_def split: option.splits node.splits)

lemma entries_lookup: "entries_at t (base @ [a]) = Some m \<Longrightarrow> lookup t (base @ [a, n]) = m n"
  using lookup_append [of t "base @ [a]" "[n]"]
  by (auto simp: entries_at_def split: option.splits node.splits)

lemma abs_join [simp]: "path_join (abs_path q) [Normal n] = abs_path (q @ [n])"
  by (simp add: path_join_def is_absolute_def abs_path_def)

lemma resolve_abs_path: "real_parent t q \<Longrightarrow> resolve t cwd (abs_path q) False = Ok q"
  using resolve_abs [of t q False] by (simp add: resolve_def abs_path_def)

lemma existing_abs_path: "real_parent t q \<Longrightarrow> lookup t q = Some n \<Longrightarrow> existing t cwd (abs_path q) False = Ok (q, n)"
  by (simp add: existing_def resolve_abs_path)

lemma existing_dir: "real_parent t q \<Longrightarrow> lookup t q = Some (Dir es) \<Longrightarrow> existing t cwd (abs_path q) b = Ok (q, Dir es)"
  using resolve_abs [of t q b] by (simp add: existing_def resolve_def abs_path_def)

text \<open>A call that succeeds without faults and leads to a tree with some property.\<close>

definition calm_step :: "unit io \<Rightarrow> world \<Rightarrow> (node \<Rightarrow> bool) \<Rightarrow> bool" where
  "calm_step m w Q \<longleftrightarrow> (\<exists>w'. m w = (Ok (), w') \<and> w_faults w' = [] \<and> Q (w_root w'))"

lemma calm_step_bind:
  assumes "calm_step m w P" "\<And>w'. w_faults w' = [] \<Longrightarrow> P (w_root w') \<Longrightarrow> calm_step n w' Q"
  shows "calm_step (io_bind m (\<lambda>_. n)) w Q"
  using assms unfolding calm_step_def by (fastforce simp: io_bind_def)

lemma calm_step_try:
  assumes "calm_step m w P" "\<And>w'. w_faults w' = [] \<Longrightarrow> P (w_root w') \<Longrightarrow> calm_step (f (Ok ())) w' Q"
  shows "calm_step (io_bind (io_try m) f) w Q"
  using assms unfolding calm_step_def by (fastforce simp: io_bind_def io_try_def)

lemma calm_step_ignore: "calm_step m w Q \<Longrightarrow> calm_step (io_ignore m) w Q"
  by (auto simp: calm_step_def io_ignore_def)

lemma calm_step_mono: "calm_step m w P \<Longrightarrow> (\<And>t. P t \<Longrightarrow> Q t) \<Longrightarrow> calm_step m w Q"
  by (auto simp: calm_step_def)

lemma calm_tree: "w_faults w = [] \<Longrightarrow> f (w_root w) (w_cwd w) = Ok t \<Longrightarrow> Q t \<Longrightarrow> calm_step (io_tree f) w Q"
  by (simp add: calm_step_def io_tree_def take_fault_calm)

lemma rename_calm:
  assumes "w_faults w = []" "real_dir (w_root w) base" "a \<noteq> b"
    and "entries_at (w_root w) (base @ [a]) = Some ma" "entries_at (w_root w) (base @ [b]) = Some mb"
    and "ma n = Some x" "mb n = None"
  shows "calm_step (fs_rename (abs_path (base @ [a, n])) (abs_path (base @ [b, n]))) w (\<lambda>t.
    changes_only base {a, b} (w_root w) t \<and> entries_at t (base @ [a]) = Some (ma(n := None)) \<and>
    entries_at t (base @ [b]) = Some (mb(n := Some x)))"
  unfolding fs_rename_def
proof (rule calm_tree)
  let ?t = "w_root w"
  let ?t1 = "put (base @ [a, n]) None ?t"
  let ?t2 = "put (base @ [b, n]) (Some x) ?t1"
  have ex: "existing ?t cwd (abs_path (base @ [a, n])) False = Ok (base @ [a, n], x)" for cwd
    using existing_abs_path [OF real_dir_parent2] entries_is_dir entries_lookup assms(2,4,6) by metis
  have re: "resolve ?t cwd (abs_path (base @ [b, n])) False = Ok (base @ [b, n])" for cwd
    using resolve_abs_path [OF real_dir_parent2] entries_is_dir assms(2,5) by metis
  have l: "lookup ?t (base @ [b, n]) = None" using entries_lookup [OF assms(5)] assms(7) by simp
  have np: "\<not> prefix (base @ [a, n]) (base @ [b, n])" using assms(3) by simp
  show "rename_tree (abs_path (base @ [a, n])) (abs_path (base @ [b, n])) ?t (w_cwd w) = Ok ?t2"
    using assms(3) np by (cases x) (simp_all add: rename_tree_def ex re l)
  have a1: "entries_at ?t1 (base @ [a]) = Some (ma(n := None))"
    using entries_put [OF assms(4), of n None] by simp
  have b1: "entries_at ?t1 (base @ [b]) = Some mb"
    using entries_other [of "base @ [a, n]" "base @ [b]"] assms(3,5) by simp
  have "entries_at ?t2 (base @ [b]) = Some (mb(n := Some x))"
    using entries_put [OF b1, of n "Some x"] by simp
  moreover have "entries_at ?t2 (base @ [a]) = Some (ma(n := None))"
    using entries_other [of "base @ [b, n]" "base @ [a]"] assms(3) a1 by simp
  moreover have "changes_only base {a, b} ?t ?t2"
    using changes_put [of a "{a, b}" base ?t "[n]" None] changes_put [of b "{a, b}" base ?t1 "[n]" "Some x"]
      changes_trans by auto
  ultimately show "changes_only base {a, b} ?t ?t2 \<and> entries_at ?t2 (base @ [a]) = Some (ma(n := None)) \<and>
    entries_at ?t2 (base @ [b]) = Some (mb(n := Some x))" by blast
qed (rule assms(1))

lemma calm_ctx: "calm_step m w Q \<Longrightarrow> calm_step (io_ctx c m) w Q"
  by (auto simp: calm_step_def io_ctx_def)

lemma move_entries_calm:
  assumes "w_faults w = []" "real_dir (w_root w) base" "a \<noteq> b"
    and "entries_at (w_root w) (base @ [a]) = Some ma" "entries_at (w_root w) (base @ [b]) = Some mb"
    and "distinct names" "\<forall>n \<in> set names. ma n \<noteq> None \<and> mb n = None"
  shows "calm_step (move_entries (abs_path (base @ [a])) (abs_path (base @ [b])) names) w (\<lambda>t.
    changes_only base {a, b} (w_root w) t \<and> entries_at t (base @ [a]) = Some (ma |` (- set names)) \<and>
    entries_at t (base @ [b]) = Some (mb ++ (ma |` set names)))"
  using assms
proof (induction names arbitrary: w ma mb)
  case Nil
  then show ?case by (simp add: calm_step_def io_return_def)
next
  case (Cons n names)
  then obtain x where x: "ma n = Some x" "mb n = None" by auto
  show ?case
    unfolding move_entries.simps Let_def abs_join append_assoc append.simps
  proof (rule calm_step_bind [OF calm_ctx [OF rename_calm [OF Cons.prems(1-5) x]]])
    fix w' :: world assume f: "w_faults w' = []" and h: "changes_only base {a, b} (w_root w) (w_root w') \<and>
      entries_at (w_root w') (base @ [a]) = Some (ma(n := None)) \<and>
      entries_at (w_root w') (base @ [b]) = Some (mb(n := Some x))"
    have "calm_step (move_entries (abs_path (base @ [a])) (abs_path (base @ [b])) names) w' (\<lambda>t.
      changes_only base {a, b} (w_root w') t \<and> entries_at t (base @ [a]) = Some ((ma(n := None)) |` (- set names)) \<and>
      entries_at t (base @ [b]) = Some (mb(n := Some x) ++ ((ma(n := None)) |` set names)))"
      by (rule Cons.IH) (use f h Cons.prems real_dir_changes in auto)
    moreover have "(ma(n := None)) |` (- set names) = ma |` (- set (n # names))"
      by (auto simp: restrict_map_def)
    moreover have "mb(n := Some x) ++ ((ma(n := None)) |` set names) = mb ++ (ma |` set (n # names))"
      using x Cons.prems(6) by (auto simp: restrict_map_def map_add_def fun_eq_iff split: option.splits)
    ultimately show "calm_step (move_entries (abs_path (base @ [a])) (abs_path (base @ [b])) names) w' (\<lambda>t.
      changes_only base {a, b} (w_root w) t \<and> entries_at t (base @ [a]) = Some (ma |` (- set (n # names))) \<and>
      entries_at t (base @ [b]) = Some (mb ++ (ma |` set (n # names))))"
      using h changes_trans by (elim calm_step_mono) (metis (mono_tags))
  qed
qed

lemma move_contents_calm:
  assumes "w_faults w = []" "real_dir (w_root w) base" "a \<noteq> b"
    and "lookup (w_root w) (base @ [a]) = Some (Dir es)" "lookup (w_root w) (base @ [b]) = Some (Dir fs)"
    and "distinct (map fst es)" "dom (map_of es) \<inter> dom (map_of fs) = {}"
  shows "calm_step (move_directory_contents (abs_path (base @ [a])) (abs_path (base @ [b]))) w (\<lambda>t.
    changes_only base {a, b} (w_root w) t \<and> entries_at t (base @ [a]) = Some Map.empty \<and>
    entries_at t (base @ [b]) = Some (map_of fs ++ map_of es))"
proof -
  let ?w1 = "set_root (w_root w) w"
  have p: "real_parent (w_root w) (base @ [c])" for c using real_dir_parent [OF assms(2)] .
  have mk: "fs_create_dir_all (abs_path (base @ [b])) w = (Ok (), ?w1)"
    using create_dir_all_existing [OF assms(1) _ resolve_abs_path [OF p] assms(5) existing_dir [OF p assms(5)]]
    by (simp add: abs_path_def)
  have rd: "fs_read_dir (abs_path (base @ [a])) ?w1 = (Ok (map fst es), ?w1)"
    using assms(1) existing_dir [OF p assms(4)]
    by (simp add: fs_read_dir_def io_query_def take_fault_calm)
  have "calm_step (move_entries (abs_path (base @ [a])) (abs_path (base @ [b])) (map fst es)) ?w1 (\<lambda>t.
    changes_only base {a, b} (w_root ?w1) t \<and>
    entries_at t (base @ [a]) = Some (map_of es |` (- set (map fst es))) \<and>
    entries_at t (base @ [b]) = Some (map_of fs ++ (map_of es |` set (map fst es))))"
    by (rule move_entries_calm)
      (use assms in \<open>auto simp: entries_at_def map_of_eq_None_iff dom_map_of_conv_image_fst\<close>)
  moreover have "map_of es |` (- set (map fst es)) = Map.empty"
    by (auto simp: restrict_map_def fun_eq_iff map_of_eq_None_iff)
  moreover have "map_of es |` set (map fst es) = map_of es"
    by (auto simp: restrict_map_def fun_eq_iff eq_commute [of None] map_of_eq_None_iff)
  ultimately show ?thesis
    by (simp add: move_directory_contents_def calm_step_def io_bind_def mk rd)
qed

lemma entries_atD: "entries_at t q = Some m \<Longrightarrow> \<exists>es. lookup t q = Some (Dir es) \<and> map_of es = m"
  by (auto simp: entries_at_def split: option.splits node.splits)

lemma remove_dir_calm:
  assumes "w_faults w = []" "real_dir (w_root w) base" "entries_at (w_root w) (base @ [a]) = Some m"
  shows "calm_step (io_ignore (fs_remove_dir_all (abs_path (base @ [a])))) w (\<lambda>t.
    changes_only base {a} (w_root w) t \<and> lookup t (base @ [a]) = None)"
proof (rule calm_step_ignore)
  obtain es where es: "lookup (w_root w) (base @ [a]) = Some (Dir es)" using entries_atD [OF assms(3)] by blast
  have p: "real_parent (w_root w) (base @ [a])" using real_dir_parent [OF assms(2)] .
  have "changes_only base {a} (w_root w) (put (base @ [a]) None (w_root w))"
    using changes_put [of a "{a}" base "w_root w" "[]" None] by simp
  moreover have "lookup (put (base @ [a]) None (w_root w)) (base @ [a]) = None"
    using lookup_put_same real_parent_ok [OF p] by blast
  ultimately show "calm_step (fs_remove_dir_all (abs_path (base @ [a]))) w (\<lambda>t.
    changes_only base {a} (w_root w) t \<and> lookup t (base @ [a]) = None)"
    unfolding fs_remove_dir_all_def
    by (intro calm_tree [OF assms(1), where t = "put (base @ [a]) None (w_root w)"])
      (simp_all add: existing_dir [OF p es])
qed

lemma create_dir_calm:
  assumes "w_faults w = []" "real_dir (w_root w) base" "lookup (w_root w) (base @ [a]) = None"
  shows "calm_step (fs_create_dir_all (abs_path (base @ [a]))) w (\<lambda>t.
    changes_only base {a} (w_root w) t \<and> lookup t (base @ [a]) = Some (Dir []))"
proof -
  have p: "real_parent (w_root w) (base @ [a])" using real_dir_parent [OF assms(2)] .
  have "mkdir_tree (abs_path (base @ [a])) (w_root w) cwd = Ok (put (base @ [a]) (Some (Dir [])) (w_root w))" for cwd
    by (simp add: mkdir_tree_def resolve_abs_path [OF p] assms(3))
  then have "mkdirs_tree (abs_path (base @ [a])) (w_root w) cwd = Ok (put (base @ [a]) (Some (Dir [])) (w_root w))" for cwd
    by (subst mkdirs_tree.simps) (simp add: abs_path_def)
  moreover have "lookup (put (base @ [a]) (Some (Dir [])) (w_root w)) (base @ [a]) = Some (Dir [])"
    using lookup_put_same real_parent_ok [OF p] by blast
  ultimately show ?thesis
    unfolding fs_create_dir_all_def
    using changes_put [of a "{a}" base "w_root w" "[]" "Some (Dir [])"]
    by (intro calm_tree [OF assms(1)]) auto
qed

lemma calm_step_try_case:
  assumes "calm_step m w P" "\<And>w'. w_faults w' = [] \<Longrightarrow> P (w_root w') \<Longrightarrow> calm_step h w' Q"
  shows "calm_step (io_bind (io_try m) (\<lambda>r. case r of Inl e \<Rightarrow> g e | Inr _ \<Rightarrow> h)) w Q"
  using assms unfolding calm_step_def by (fastforce simp: io_bind_def io_try_def)

text \<open>The three directories of a restore differ; the tree @t0@ is the one at its beginning.\<close>

definition restored :: "string list \<Rightarrow> string \<Rightarrow> string \<Rightarrow> string \<Rightarrow> node \<Rightarrow> (string \<rightharpoonup> node) \<Rightarrow> node \<Rightarrow> bool" where
  "restored base server staging previous t0 new t \<longleftrightarrow>
     entries_at t (base @ [server]) = Some new \<and>
     lookup t (base @ [staging]) = None \<and> lookup t (base @ [previous]) = None \<and>
     changes_only base {server, staging, previous} t0 t"

lemma restore_cleanup_calm:
  assumes "w_faults w = []" "real_dir t0 base" "distinct [server, staging, previous]"
    and "changes_only base {server, staging, previous} t0 (w_root w)"
    and "entries_at (w_root w) (base @ [server]) = Some new"
    and "entries_at (w_root w) (base @ [staging]) = Some x" "entries_at (w_root w) (base @ [previous]) = Some y"
  shows "calm_step (then_io (io_ignore (fs_remove_dir_all (abs_path (base @ [staging]))))
    (io_ignore (fs_remove_dir_all (abs_path (base @ [previous]))))) w
    (restored base server staging previous t0 new)"
proof (rule calm_step_bind [OF remove_dir_calm [OF assms(1) real_dir_changes [OF assms(4,2)] assms(6)]])
  fix w1 :: world
  assume f1: "w_faults w1 = []" and
    w1: "changes_only base {staging} (w_root w) (w_root w1) \<and> lookup (w_root w1) (base @ [staging]) = None"
  have c1: "changes_only base {server, staging, previous} t0 (w_root w1)"
    by (rule changes_trans [OF assms(4) changes_mono [OF conjunct1 [OF w1]]]) blast
  have y: "entries_at (w_root w1) (base @ [previous]) = Some y"
    and new: "entries_at (w_root w1) (base @ [server]) = Some new"
    using entries_sibling' [OF conjunct1 [OF w1], of previous] entries_sibling' [OF conjunct1 [OF w1], of server]
      assms(3,5,7) by auto
  show "calm_step (io_ignore (fs_remove_dir_all (abs_path (base @ [previous])))) w1
      (restored base server staging previous t0 new)"
  proof (rule calm_step_mono [OF remove_dir_calm [OF f1 real_dir_changes [OF c1 assms(2)] y]])
    fix t assume t: "changes_only base {previous} (w_root w1) t \<and> lookup t (base @ [previous]) = None"
    have "changes_only base {server, staging, previous} t0 t"
      by (rule changes_trans [OF c1 changes_mono [OF conjunct1 [OF t]]]) blast
    moreover have "entries_at t (base @ [server]) = Some new" "lookup t (base @ [staging]) = None"
      using entries_sibling' [OF conjunct1 [OF t], of server] entries_sibling [OF conjunct1 [OF t], of staging]
        new w1 assms(3) by simp_all
    ultimately show "restored base server staging previous t0 new t" using t by (simp add: restored_def)
  qed
qed

lemma restore_activate_calm:
  assumes "w_faults w = []" "real_dir t0 base" "distinct [server, staging, previous]"
    and "changes_only base {server, staging, previous} t0 (w_root w)"
    and "entries_at (w_root w) (base @ [server]) = Some Map.empty"
    and "lookup (w_root w) (base @ [staging]) = Some (Dir unpacked)" "distinct (map fst unpacked)"
    and "entries_at (w_root w) (base @ [previous]) = Some y"
  shows "calm_step (io_bind (io_try (move_directory_contents (abs_path (base @ [staging])) (abs_path (base @ [server]))))
    (\<lambda>r. case r of Inl e \<Rightarrow> g e | Inr _ \<Rightarrow> then_io (io_ignore (fs_remove_dir_all (abs_path (base @ [staging]))))
    (io_ignore (fs_remove_dir_all (abs_path (base @ [previous])))))) w
    (restored base server staging previous t0 (map_of unpacked))"
proof -
  obtain es where es: "lookup (w_root w) (base @ [server]) = Some (Dir es)" "map_of es = Map.empty"
    using entries_atD [OF assms(5)] by blast
  have m: "calm_step (move_directory_contents (abs_path (base @ [staging])) (abs_path (base @ [server]))) w (\<lambda>t.
    changes_only base {staging, server} (w_root w) t \<and> entries_at t (base @ [staging]) = Some Map.empty \<and>
    entries_at t (base @ [server]) = Some (map_of es ++ map_of unpacked))"
    by (rule move_contents_calm) (use assms es real_dir_changes in auto)
  show ?thesis
  proof (rule calm_step_try_case [OF m])
    fix w1 :: world
    assume f1: "w_faults w1 = []" and w1: "changes_only base {staging, server} (w_root w) (w_root w1) \<and>
      entries_at (w_root w1) (base @ [staging]) = Some Map.empty \<and>
      entries_at (w_root w1) (base @ [server]) = Some (map_of es ++ map_of unpacked)"
    have c1: "changes_only base {server, staging, previous} t0 (w_root w1)"
      by (rule changes_trans [OF assms(4) changes_mono [OF conjunct1 [OF w1]]]) blast
    have "entries_at (w_root w1) (base @ [previous]) = Some y"
      using entries_sibling' [OF conjunct1 [OF w1], of previous] assms(3,8) by auto
    then show "calm_step (then_io (io_ignore (fs_remove_dir_all (abs_path (base @ [staging]))))
        (io_ignore (fs_remove_dir_all (abs_path (base @ [previous]))))) w1
        (restored base server staging previous t0 (map_of unpacked))"
      using restore_cleanup_calm [OF f1 assms(2,3) c1] w1 es(2) by simp
  qed
qed

lemma restore_swap_calm:
  assumes "w_faults w = []" "real_dir t0 base" "distinct [server, staging, previous]"
    and "changes_only base {server, staging, previous} t0 (w_root w)"
    and "lookup (w_root w) (base @ [server]) = Some (Dir old)" "distinct (map fst old)"
    and "lookup (w_root w) (base @ [staging]) = Some (Dir unpacked)" "distinct (map fst unpacked)"
    and "lookup (w_root w) (base @ [previous]) = Some (Dir [])"
  shows "calm_step (io_bind (io_try (move_directory_contents (abs_path (base @ [server])) (abs_path (base @ [previous]))))
    (\<lambda>r. case r of Inl e \<Rightarrow> h e | Inr _ \<Rightarrow>
      io_bind (io_try (move_directory_contents (abs_path (base @ [staging])) (abs_path (base @ [server]))))
      (\<lambda>r. case r of Inl e \<Rightarrow> g e | Inr _ \<Rightarrow> then_io (io_ignore (fs_remove_dir_all (abs_path (base @ [staging]))))
      (io_ignore (fs_remove_dir_all (abs_path (base @ [previous]))))))) w
    (restored base server staging previous t0 (map_of unpacked))"
proof -
  have m: "calm_step (move_directory_contents (abs_path (base @ [server])) (abs_path (base @ [previous]))) w (\<lambda>t.
    changes_only base {server, previous} (w_root w) t \<and> entries_at t (base @ [server]) = Some Map.empty \<and>
    entries_at t (base @ [previous]) = Some (map_of [] ++ map_of old))"
    by (rule move_contents_calm) (use assms real_dir_changes in auto)
  show ?thesis
  proof (rule calm_step_try_case [OF m], elim conjE)
    fix w1 :: world
    assume f1: "w_faults w1 = []" and w1: "changes_only base {server, previous} (w_root w) (w_root w1)"
      "entries_at (w_root w1) (base @ [server]) = Some Map.empty"
      "entries_at (w_root w1) (base @ [previous]) = Some (map_of [] ++ map_of old)"
    have c1: "changes_only base {server, staging, previous} t0 (w_root w1)"
      by (rule changes_trans [OF assms(4) changes_mono [OF w1(1)]]) blast
    have "lookup (w_root w1) (base @ [staging]) = Some (Dir unpacked)"
      using entries_sibling [OF w1(1), of staging] assms(3,7) by auto
    then show "calm_step (io_bind (io_try (move_directory_contents (abs_path (base @ [staging])) (abs_path (base @ [server]))))
      (\<lambda>r. case r of Inl e \<Rightarrow> g e | Inr _ \<Rightarrow> then_io (io_ignore (fs_remove_dir_all (abs_path (base @ [staging]))))
      (io_ignore (fs_remove_dir_all (abs_path (base @ [previous])))))) w1
      (restored base server staging previous t0 (map_of unpacked))"
      by (intro restore_activate_calm [OF f1 assms(2,3) c1 w1(2) _ assms(8) w1(3)])
  qed
qed

text \<open>C17: without faults, restoring over an existing server replaces its content: afterwards the
  server's own directory, which stays in place, has exactly the unpacked entries and none of the
  old ones, the staging directory and the one that kept the old data are gone, and nothing else
  on the host has changed.\<close>

theorem restore_replaces_content:
  assumes "w_faults w = []" "real_dir (w_root w) base" "distinct [server, staging, previous]"
    and "lookup (w_root w) (base @ [server]) = Some (Dir old)" "distinct (map fst old)"
    and "lookup (w_root w) (base @ [staging]) = Some (Dir unpacked)" "distinct (map fst unpacked)"
    and "lookup (w_root w) (base @ [previous]) = None"
  shows "calm_step (restore_over bx (abs_path (base @ [staging])) (abs_path (base @ [previous]))
      (abs_path (base @ [server]))) w 
    (restored base server staging previous (w_root w) (map_of unpacked))"
  unfolding restore_over_def
proof (rule calm_step_bind [OF create_dir_calm [OF assms(1,2,8)]], rule restore_swap_calm)
  fix w1 :: world
  assume w1: "changes_only base {previous} (w_root w) (w_root w1) \<and>
    lookup (w_root w1) (base @ [previous]) = Some (Dir [])"
  show "changes_only base {server, staging, previous} (w_root w) (w_root w1)"
    by (rule changes_mono [OF conjunct1 [OF w1]]) blast
  show "lookup (w_root w1) (base @ [server]) = Some (Dir old)"
    "lookup (w_root w1) (base @ [staging]) = Some (Dir unpacked)"
    using entries_sibling [OF conjunct1 [OF w1], of server] entries_sibling [OF conjunct1 [OF w1], of staging]
      assms(3,4,6) by simp_all
qed (use assms in auto)

theorem restore_replaces_content_witness:
  "calm_step (restore_over (bare_bx [] []) (abs_path ([''d''] @ [''.s.restore-1'']))
      (abs_path ([''d''] @ [''.s.previous-1''])) (abs_path ([''d''] @ [''s''])))
    (calm_world (Dir [(''d'', Dir [(''s'', Dir [(''old'', RegFile ''1'')]), (''.s.restore-1'', Dir [(''new'', RegFile ''2'')])])]))
    (restored [''d''] ''s'' ''.s.restore-1'' ''.s.previous-1''
       (Dir [(''d'', Dir [(''s'', Dir [(''old'', RegFile ''1'')]), (''.s.restore-1'', Dir [(''new'', RegFile ''2'')])])])
       (map_of [(''new'', RegFile ''2'')]))"
proof -
  let ?w = "calm_world (Dir [(''d'', Dir [(''s'', Dir [(''old'', RegFile ''1'')]), (''.s.restore-1'', Dir [(''new'', RegFile ''2'')])])])"
  have "real_dir (w_root ?w) [''d'']"
    by (auto simp: real_dir_def calm_world_def is_dir_at_def prefix_Cons)
  then show ?thesis
    using restore_replaces_content [of ?w "[''d'']" "''s''" "''.s.restore-1''" "''.s.previous-1''"
        "[(''old'', RegFile ''1'')]" "[(''new'', RegFile ''2'')]" "bare_bx [] []"]
    by (simp add: calm_world_def)
qed

text \<open>Lemma: when moving the restored data into place fails and the roll-back fails too, the
  directory that keeps the old data is deleted nevertheless: both are lost.\<close>

theorem failed_rollback_loses_data:
  "let w = (servers_world [(''s'', Dir [(''world'', RegFile c1)])])
        \<lparr> w_faults := replicate 8 NoFault @ [Fail OtherIo] @ replicate 3 NoFault @ [Fail OtherIo] \<rparr>;
       (r, w') = restore_transactionally (bare_bx [] [(''new'', RegFile c2)]) ''1'' [RootDir, Normal ''a''] ''s'' w
   in \<not> is_ok r \<and> w_root w' = w_root (servers_world [(''s'', Dir [])])"
  by code_simp

subsection \<open>Retention\<close>

definition not_older :: "backup_info \<Rightarrow> backup_info \<Rightarrow> bool" where
  "not_older a b \<longleftrightarrow> \<not> str_less (bi_created_at a) (bi_created_at b)"

lemma mset_insert_newest: "mset (insert_newest x ys) = mset (x # ys)"
  by (induction ys) auto

lemma set_insert_newest: "set (insert_newest x ys) = insert x (set ys)"
  using mset_insert_newest by (metis list.simps(15) set_mset_mset)

lemma sorted_insert_newest: "sorted_wrt not_older ys \<Longrightarrow> sorted_wrt not_older (insert_newest x ys)"
proof (induction ys)
  case (Cons y ys)
  have "not_older x z" if "str_less (bi_created_at y) (bi_created_at x)" "z = y \<or> not_older y z" for z
    using that str_less_trans [of "bi_created_at y" "bi_created_at x"] str_less_irrefl
    by (auto simp: not_older_def) (metis str_less_irrefl str_less_trans)
  with Cons show ?case by (auto simp: set_insert_newest) (simp add: not_older_def)
qed simp

lemma sort_newest_props:
  "sorted_wrt not_older acc \<Longrightarrow> sorted_wrt not_older (foldl (\<lambda>acc x. insert_newest x acc) acc xs) \<and>
   mset (foldl (\<lambda>acc x. insert_newest x acc) acc xs) = mset acc + mset xs"
  by (induction xs arbitrary: acc) (auto simp: sorted_insert_newest mset_insert_newest)

text \<open>Lemma: the retention of remote backups deletes all but the given number of archives, and none
  that is newer than one it keeps.\<close>

theorem retention_deletes_oldest:
  assumes "retention > 0"
  shows "\<exists>kept. mset infos = mset kept + mset (retention_victims retention infos) \<and>
    length kept = min (nat retention) (length infos) \<and>
    (\<forall>k \<in> set kept. \<forall>v \<in> set (retention_victims retention infos). not_older k v)"
proof -
  let ?s = "sort_newest infos"
  have s: "sorted_wrt not_older ?s" "mset ?s = mset infos"
    using sort_newest_props [of "[]" infos] by (simp_all add: sort_newest_def)
  define n where "n = nat retention"
  have v: "retention_victims retention infos = drop n ?s"
    using assms by (simp add: retention_victims_def n_def)
  have "sorted_wrt not_older (take n ?s @ drop n ?s)" using s(1) by simp
  then have "\<forall>k \<in> set (take n ?s). \<forall>v \<in> set (drop n ?s). not_older k v" by (simp only: sorted_wrt_append) blast
  moreover have "length ?s = length infos" using s(2) by (metis size_mset)
  moreover have "mset infos = mset (take n ?s) + mset (drop n ?s)"
    using s(2) by (metis append_take_drop_id mset_append)
  ultimately show ?thesis unfolding v n_def [symmetric]
    by (intro exI [of _ "take n ?s"]) (simp add: min.commute)
qed

theorem retention_deletes_oldest_witness:
  "\<exists>kept. mset [] = mset kept + mset (retention_victims 1 []) \<and> length kept = min (nat 1) (length ([] :: backup_info list)) \<and>
    (\<forall>k \<in> set kept. \<forall>v \<in> set (retention_victims 1 []). not_older k v)"
  by (rule retention_deletes_oldest) simp

end
