(* ===== verification/Ports.thy ===== *)
theory Ports
  imports Docker_Api Filesystem
begin

text \<open>
  The description of a server to create (@runtime/docker/mod.rs@), the reservation of host ports
  (@provisioning/ports.rs@) and the ports of database containers (@database.rs@).  Random
  draws and the outcome of binding a socket are parameters.
\<close>

subsection \<open>The description of a server\<close>

text \<open>@cs_cpu_cores@ is the text of the floating-point number, which only becomes a label.\<close>

record create_spec =
  cs_server_id :: string
  cs_image :: string
  cs_internal_port :: string
  cs_env :: "string list"
  cs_memory_bytes :: int
  cs_cpu_limit_percentage :: int
  cs_cpu_cores :: string
  cs_disk_limit_bytes :: int
  cs_cpu_pinning :: bool
  cs_cpu_pinned_threads :: string
  cs_swap_memory_bytes :: int
  cs_swap_memory_storage :: string
  cs_startup_command :: string
  cs_stop_command :: string
  cs_startup_done :: string
  cs_install_image :: string
  cs_install_entrypoint :: string
  cs_install_script :: string
  cs_config_files_json :: string
  cs_host_port :: int
  cs_network_owner_id :: string
  cs_expose_public_port :: bool
  cs_port_mappings :: "(string \<times> int) list"

definition u16_max :: nat where "u16_max = 65535"

definition u16_try_from :: "int \<Rightarrow> nat option" where
  "u16_try_from i = (if 0 \<le> i \<and> i \<le> 65535 then Some (nat i) else None)"

definition parse_u16 :: "string \<Rightarrow> nat option" where
  "parse_u16 s = parse_unsigned u16_max s"

definition ensure_port :: "(nat \<Rightarrow> bool) \<Rightarrow> nat \<Rightarrow> unit res" where
  "ensure_port free port =
     (if free port then Ok ()
      else Err (Ctx (''Requested host port '' @ nat_digits port @ '' is already in use.'') (Io OtherIo)))"

subsection \<open>Reserving a host port\<close>

definition first_random_port :: nat where "first_random_port = 25000"
definition last_random_port :: nat where "last_random_port = 26000"

fun find_port_from :: "(nat \<Rightarrow> nat) \<Rightarrow> (nat \<Rightarrow> nat \<Rightarrow> bool) \<Rightarrow> nat \<Rightarrow> nat \<Rightarrow> nat list \<Rightarrow> nat res \<times> nat list" where
  "find_port_from draw binds i 0 reserved = (Err (Bail ''No open ports found.''), reserved)"
| "find_port_from draw binds i (Suc n) reserved =
     (if binds i (draw i) \<and> draw i \<notin> set reserved then (Ok (draw i), draw i # reserved)
      else find_port_from draw binds (Suc i) n reserved)"

definition find_port :: "(nat \<Rightarrow> nat) \<Rightarrow> (nat \<Rightarrow> nat \<Rightarrow> bool) \<Rightarrow> nat list \<Rightarrow> nat res \<times> nat list" where
  "find_port draw binds reserved = find_port_from draw binds 0 50 reserved"

text \<open>The chosen port (0 for none), the port the reservation holds, and the new set.\<close>

definition reserve_host_port ::
  "(nat \<Rightarrow> nat) \<Rightarrow> (nat \<Rightarrow> nat \<Rightarrow> bool) \<Rightarrow> (nat \<Rightarrow> bool) \<Rightarrow> create_spec \<Rightarrow> nat list \<Rightarrow> (int \<times> nat option) res \<times> nat list" where
  "reserve_host_port draw binds free spec reserved =
     (let reservation = (\<lambda>hp. case u16_try_from hp of Some p \<Rightarrow> if p > 0 then Some p else None | None \<Rightarrow> None) in
      if \<not> cs_expose_public_port spec then (Ok (0, reservation 0), reserved)
      else if cs_host_port spec > 0 then
        (case u16_try_from (cs_host_port spec) of
           None \<Rightarrow> (Err (Ctx ''host port is outside the valid range'' (Ext ''TryFromIntError'')), reserved)
         | Some port \<Rightarrow>
             (case ensure_port free port of
                Inl e \<Rightarrow> (Inl e, reserved)
              | Inr _ \<Rightarrow>
                  if port \<in> set reserved
                  then (Err (Bail (''Requested host port '' @ nat_digits port @ '' is already being allocated.'')), reserved)
                  else (Ok (cs_host_port spec, reservation (cs_host_port spec)), port # reserved)))
      else
        (case find_port draw binds reserved of
           (Inl e, r) \<Rightarrow> (Inl e, r)
         | (Inr p, r) \<Rightarrow> (Ok (int p, reservation (int p)), r)))"

text \<open>Dropping a reservation takes the port out of the set.\<close>

definition release_port :: "nat option \<Rightarrow> nat list \<Rightarrow> nat list" where
  "release_port held reserved = (case held of None \<Rightarrow> reserved | Some p \<Rightarrow> removeAll p reserved)"

subsection \<open>Interleaved reservations\<close>

text \<open>
  The reserved set, the ports of live reservations, and those of dropped reservations whose
  removal still waits for the lock.
\<close>

record port_table =
  pt_reserved :: "nat list"
  pt_live :: "nat list"
  pt_dropped :: "nat list"

definition draws_in_range :: "(nat \<Rightarrow> nat) \<Rightarrow> bool" where
  "draws_in_range draw \<longleftrightarrow> (\<forall>i. first_random_port \<le> draw i \<and> draw i < last_random_port)"

inductive port_step :: "port_table \<Rightarrow> port_table \<Rightarrow> bool" where
  reserve: "draws_in_range draw \<Longrightarrow>
    reserve_host_port draw binds free spec (pt_reserved t) = (Ok (hp, held), r) \<Longrightarrow>
    port_step t (t\<lparr> pt_reserved := r, pt_live := (case held of None \<Rightarrow> pt_live t | Some p \<Rightarrow> p # pt_live t) \<rparr>)"
| refuse: "draws_in_range draw \<Longrightarrow>
    reserve_host_port draw binds free spec (pt_reserved t) = (Err e, r) \<Longrightarrow>
    port_step t (t\<lparr> pt_reserved := r \<rparr>)"
| drop_now: "p \<in> set (pt_live t) \<Longrightarrow>
    port_step t (t\<lparr> pt_reserved := release_port (Some p) (pt_reserved t), pt_live := remove1 p (pt_live t) \<rparr>)"
| drop_later: "p \<in> set (pt_live t) \<Longrightarrow>
    port_step t (t\<lparr> pt_live := remove1 p (pt_live t), pt_dropped := p # pt_dropped t \<rparr>)"
| late_release: "p \<in> set (pt_dropped t) \<Longrightarrow>
    port_step t (t\<lparr> pt_reserved := release_port (Some p) (pt_reserved t), pt_dropped := remove1 p (pt_dropped t) \<rparr>)"

inductive port_reachable :: "port_table \<Rightarrow> bool" where
  start: "port_reachable \<lparr> pt_reserved = [], pt_live = [], pt_dropped = [] \<rparr>"
| step: "port_reachable t \<Longrightarrow> port_step t t' \<Longrightarrow> port_reachable t'"

definition ports_consistent :: "port_table \<Rightarrow> bool" where
  "ports_consistent t \<longleftrightarrow> distinct (pt_live t @ pt_dropped t) \<and> distinct (pt_reserved t) \<and>
     set (pt_reserved t) = set (pt_live t) \<union> set (pt_dropped t)"

lemma find_port_Ok:
  "find_port_from draw binds i n reserved = (r, reserved') \<Longrightarrow>
   (case r of Inl _ \<Rightarrow> reserved' = reserved
    | Inr p \<Rightarrow> p \<notin> set reserved \<and> reserved' = p # reserved \<and> (\<exists>j. p = draw j))"
  by (induction draw binds i n reserved rule: find_port_from.induct) (auto split: if_splits)

lemma reserve_outcome:
  assumes "draws_in_range draw" "reserve_host_port draw binds free spec reserved = (r, reserved')"
  shows "case r of
      Inl _ \<Rightarrow> reserved' = reserved
    | Inr (hp, None) \<Rightarrow> reserved' = reserved \<and> hp = 0
    | Inr (hp, Some p) \<Rightarrow> p \<notin> set reserved \<and> reserved' = p # reserved \<and> hp = int p \<and> 0 < p \<and> p \<le> u16_max"
proof -
  have d: "0 < draw j" "draw j \<le> 65535" for j
    using assms(1) by (auto simp: draws_in_range_def first_random_port_def last_random_port_def intro: less_imp_le
        order.strict_trans2 [of 0 25000] dest: spec [of _ j])
  show ?thesis
    using assms(2) find_port_Ok [of draw binds 0 50 reserved]
    by (fastforce simp: reserve_host_port_def find_port_def Let_def u16_try_from_def u16_max_def ensure_port_def d
        split: if_splits option.splits prod.splits sum.splits)
qed

text \<open>C18: however creations of servers and the release of their ports interleave, even when a
  release has to wait for the lock, the reserved set is exactly the ports of the reservations
  that are live or being released, and no port is held twice.\<close>

theorem reservations_exclusive:
  assumes "port_reachable t"
  shows "ports_consistent t"
  using assms
proof induction
  case start
  then show ?case by (simp add: ports_consistent_def)
next
  case (step t t')
  from step.hyps(2) step.IH show ?case
  proof cases
    case (reserve draw binds free spec hp held r)
    then show ?thesis using reserve_outcome [OF reserve(2,3)] step.IH
      by (cases held) (auto simp: ports_consistent_def)
  next
    case (refuse draw binds free spec e r)
    then show ?thesis using reserve_outcome [OF refuse(2,3)] step.IH by simp
  qed (use step.IH in \<open>auto simp: ports_consistent_def release_port_def distinct_remove1 distinct_removeAll set_remove1_eq\<close>)
qed

definition sample_spec :: create_spec where
  "sample_spec =
     \<lparr> cs_server_id = ''test-server'', cs_image = ''example/server:latest'', cs_internal_port = ''25565'',
       cs_env = [], cs_memory_bytes = 0, cs_cpu_limit_percentage = 0, cs_cpu_cores = ''0'',
       cs_disk_limit_bytes = 0, cs_cpu_pinning = False, cs_cpu_pinned_threads = [],
       cs_swap_memory_bytes = 0, cs_swap_memory_storage = [], cs_startup_command = ''./server'',
       cs_stop_command = [], cs_startup_done = [], cs_install_image = [], cs_install_entrypoint = [],
       cs_install_script = [], cs_config_files_json = [], cs_host_port = 25565, cs_network_owner_id = [],
       cs_expose_public_port = True, cs_port_mappings = [] \<rparr>"

theorem reservations_exclusive_witness:
  "ports_consistent \<lparr> pt_reserved = [25565], pt_live = [25565], pt_dropped = [] \<rparr>"
proof (rule reservations_exclusive)
  let ?t = "\<lparr> pt_reserved = [], pt_live = [], pt_dropped = [] \<rparr>"
  have r: "reserve_host_port (\<lambda>_. 25000) (\<lambda>_ _. True) (\<lambda>_. True) sample_spec (pt_reserved ?t) =
      (Ok (25565, Some 25565), [25565])"
    by (simp add: reserve_host_port_def sample_spec_def u16_try_from_def ensure_port_def Let_def)
  have "port_step ?t (?t\<lparr> pt_reserved := [25565],
      pt_live := (case Some 25565 of None \<Rightarrow> pt_live ?t | Some p \<Rightarrow> p # pt_live ?t) \<rparr>)"
    using port_step.reserve [OF _ r] by (simp add: draws_in_range_def first_random_port_def last_random_port_def)
  then show "port_reachable \<lparr> pt_reserved = [25565], pt_live = [25565], pt_dropped = [] \<rparr>"
    using port_reachable.step [OF port_reachable.start] by simp
qed

subsection \<open>Ports inside the container\<close>

definition normalize_container_port :: "string \<Rightarrow> string res" where
  "normalize_container_port raw =
     (let port = trim raw in
      if port = [] then Err (Bail ''container port cannot be empty'')
      else
        let (number, protocol) = (case rsplit_once (CHR ''/'') port of Some (n, p) \<Rightarrow> (n, p) | None \<Rightarrow> (port, ''tcp'')) in
        case parse_u16 number of
          None \<Rightarrow> Err (Ctx (''invalid container port: '' @ port) (Ext ''ParseIntError''))
        | Some n \<Rightarrow>
            let protocol = to_ascii_lowercase protocol in
            if protocol \<notin> {''tcp'', ''udp'', ''sctp''}
            then Err (Bail (''unsupported port protocol: '' @ protocol))
            else Ok (nat_digits n @ ''/'' @ protocol))"

fun bindings_push :: "string \<Rightarrow> port_binding \<Rightarrow> port_bindings \<Rightarrow> port_bindings" where
  "bindings_push key b [] = [(key, Some [b])]"
| "bindings_push key b ((k, v) # bs) =
     (if k = key then (k, Some ((case v of Some xs \<Rightarrow> xs | None \<Rightarrow> []) @ [b])) # bs
      else (k, v) # bindings_push key b bs)"

definition any_address :: "nat \<Rightarrow> port_binding" where
  "any_address port = \<lparr> pb_host_ip = Some ''0.0.0.0'', pb_host_port = Some (nat_digits port) \<rparr>"

definition add_port_mapping ::
  "(nat \<Rightarrow> bool) \<Rightarrow> string list \<times> port_bindings \<Rightarrow> string \<Rightarrow> int option \<Rightarrow> (string list \<times> port_bindings) res" where
  "add_port_mapping free ports internal host_port =
     (case ports of (exposed, bindings) \<Rightarrow>
      res_bind (normalize_container_port internal) (\<lambda>key.
        let exposed' = (if key \<in> set exposed then exposed else exposed @ [key]) in
        case host_port of
          None \<Rightarrow> Ok (exposed', bindings)
        | Some hp \<Rightarrow>
            (case u16_try_from hp of
               None \<Rightarrow> Err (Ctx ''mapped host port is outside the valid range'' (Ext ''TryFromIntError''))
             | Some port \<Rightarrow>
                 res_bind (ensure_port free port) (\<lambda>_.
                   Ok (exposed', bindings_push key (any_address port) bindings)))))"

definition database_port :: "string list \<Rightarrow> nat option" where
  "database_port env =
     fold (\<lambda>entry found. case found of Some p \<Rightarrow> Some p
       | None \<Rightarrow> Option.bind (strip_prefix ''AGAPORNIS_DATABASE_PORT='' entry) parse_u16) env None"

definition effective_internal_port :: "string \<Rightarrow> string list \<Rightarrow> string option res" where
  "effective_internal_port internal env =
     (case database_port env of
        Some port \<Rightarrow> Ok (Some (nat_digits port @ ''/tcp''))
      | None \<Rightarrow>
          let v = trim internal in
          if v = [] then Ok None
          else
            let (raw, protocol) = (case split_once (CHR ''/'') v of Some (a, b) \<Rightarrow> (a, b) | None \<Rightarrow> (v, ''tcp'')) in
            case parse_u16 raw of
              None \<Rightarrow> Err (Ctx (''Invalid internal port '' @ [CHR 0x27] @ internal @ [CHR 0x27] @ ''.'') (Ext ''ParseIntError''))
            | Some port \<Rightarrow>
                if protocol \<notin> {''tcp'', ''udp'', ''sctp''}
                then Err (Bail (''Invalid internal port protocol '' @ [CHR 0x27] @ protocol @ [CHR 0x27] @ ''.''))
                else Ok (Some (nat_digits port @ ''/'' @ protocol)))"

definition quoted_var :: "string \<Rightarrow> string" where
  "quoted_var name = [CHR 0x22] @ ''$'' @ name @ [CHR 0x22]"

definition database_health_command :: "string list \<Rightarrow> string option" where
  "database_health_command env =
     (let has = (\<lambda>pre. list_ex (starts_with pre) env) in
      if has ''POSTGRES_PASSWORD='' then
        Some (''pg_isready --host=127.0.0.1 --port='' @ quoted_var ''AGAPORNIS_DATABASE_PORT'' @
          '' --username='' @ quoted_var ''POSTGRES_USER'' @ '' --dbname='' @ quoted_var ''POSTGRES_DB'')
      else if has ''MYSQL_ROOT_PASSWORD='' then
        Some (''mysqladmin ping --protocol=tcp --host=127.0.0.1 --port='' @ quoted_var ''AGAPORNIS_DATABASE_PORT'' @
          '' --user=root --password='' @ quoted_var ''MYSQL_ROOT_PASSWORD'' @ '' --silent'')
      else if has ''MARIADB_ROOT_PASSWORD='' then
        Some (''mariadb-admin ping --protocol=tcp --host=127.0.0.1 --port='' @ quoted_var ''AGAPORNIS_DATABASE_PORT'' @
          '' --user=root --password='' @ quoted_var ''MARIADB_ROOT_PASSWORD'' @ '' --silent'')
      else None)"

end
