(* ===== verification/Container.thy ===== *)
theory Container
  imports Configuration Ports
begin

text \<open>
  @provisioning/container.rs@: the container the agent asks Docker to create for a server.  The
  number of available CPU threads, the ports that can be bound and the rounding of the CPU
  limit, a floating-point computation, are parameters.
\<close>

definition i64_max :: int where "i64_max = 9223372036854775807"
definition i64_min :: int where "i64_min = - 9223372036854775808"

definition i64_saturating_add :: "int \<Rightarrow> int \<Rightarrow> int" where
  "i64_saturating_add a b = max i64_min (min i64_max (a + b))"

text \<open>@effective_cpus@ is positive exactly for a positive percentage; @nanos@ is its value in
  billionths of a CPU.\<close>

definition cpu_limit :: "(int \<Rightarrow> int) \<Rightarrow> int \<Rightarrow> int option" where
  "cpu_limit nanos percent = (if percent > 0 then Some (nanos percent) else None)"

definition memory_swap_limit :: "int \<Rightarrow> int \<Rightarrow> int option" where
  "memory_swap_limit memory swap =
     (if memory > 0 then Some (i64_saturating_add memory (max swap 0)) else None)"

fun str_insert :: "string \<Rightarrow> string list \<Rightarrow> string list" where
  "str_insert x [] = [x]"
| "str_insert x (y # ys) = (if str_less y x then y # str_insert x ys else x # y # ys)"

definition str_sort :: "string list \<Rightarrow> string list" where
  "str_sort xs = foldr str_insert xs []"

definition mount_targets :: "string \<Rightarrow> string list" where
  "mount_targets dpath = remdups_adj (str_sort [dpath, HOME_CONTAINER_PATH, DATA_CONTAINER_PATH])"

definition server_mounts :: "path \<Rightarrow> string \<Rightarrow> mount_spec list" where
  "server_mounts host dpath =
     map (\<lambda>target. \<lparr> mount_target = Some target, mount_from = Some (path_string host),
            mount_kind = Some BindMount, mount_read_only = Some False \<rparr>) (mount_targets dpath)"

definition server_labels :: "create_spec \<Rightarrow> string \<Rightarrow> string \<Rightarrow> (string \<times> string) list" where
  "server_labels spec network dpath =
     (let labels =
        [(''agapornis.server_id'', cs_server_id spec),
         (''agapornis.disk_limit_bytes'', int_to_string
            (case effective_disk_limit (cs_disk_limit_bytes spec) (cs_swap_memory_bytes spec) (cs_swap_memory_storage spec) of
               Inr v \<Rightarrow> v | Inl _ \<Rightarrow> cs_disk_limit_bytes spec)),
         (''agapornis.cpu_cores'', cs_cpu_cores spec),
         (''agapornis.cpu_pinning'', bool_text (cs_cpu_pinning spec)),
         (''agapornis.cpu_pinned_threads'', cs_cpu_pinned_threads spec),
         (''agapornis.swap_memory_bytes'', int_to_string (cs_swap_memory_bytes spec)),
         (''agapornis.swap_memory_storage'', cs_swap_memory_storage spec),
         (''agapornis.cpu_limit_percentage'', int_to_string (cs_cpu_limit_percentage spec)),
         (''agapornis.data_path'', dpath),
         (''agapornis.network'', network),
         (''agapornis.stop_command'', cs_stop_command spec),
         (''agapornis.startup_done'', cs_startup_done spec)] in
      if trim (cs_network_owner_id spec) \<noteq> []
      then labels @ [(''agapornis.network_owner_id'', cs_network_owner_id spec)] else labels)"

fun add_port_mappings ::
  "(nat \<Rightarrow> bool) \<Rightarrow> string list \<times> port_bindings \<Rightarrow> (string \<times> int) list \<Rightarrow> (string list \<times> port_bindings) res" where
  "add_port_mappings free ports [] = Ok ports"
| "add_port_mappings free ports ((internal, host_port) # ms) =
     res_bind (add_port_mapping free ports internal (Some host_port)) (\<lambda>ports'.
       add_port_mappings free ports' ms)"

definition server_ports :: "(nat \<Rightarrow> bool) \<Rightarrow> create_spec \<Rightarrow> int \<Rightarrow> (string list \<times> port_bindings) res" where
  "server_ports free spec host_port =
     (if cs_expose_public_port spec \<and> cs_port_mappings spec \<noteq> []
      then add_port_mappings free ([], []) (cs_port_mappings spec)
      else res_bind (effective_internal_port (cs_internal_port spec) (cs_env spec)) (\<lambda>internal.
        case internal of
          None \<Rightarrow> Ok ([], [])
        | Some port \<Rightarrow> add_port_mapping free ([], []) port
            (if cs_expose_public_port spec then Some host_port else None)))"

definition server_command :: "create_spec \<Rightarrow> string list option" where
  "server_command spec =
     (case database_port (cs_env spec) of
        Some port \<Rightarrow> Some [''--port='' @ nat_digits port]
      | None \<Rightarrow> if trim (cs_startup_command spec) \<noteq> [] then runtime_server_command (cs_startup_command spec) else None)"

definition some_unless_empty :: "'a list \<Rightarrow> 'a list option" where
  "some_unless_empty xs = (if xs = [] then None else Some xs)"

definition server_healthcheck :: "string list \<Rightarrow> health_config option" where
  "server_healthcheck env =
     map_option (\<lambda>command. \<lparr> hl_test = [''CMD-SHELL'', command], hl_interval = 10000000000, hl_timeout = 5000000000,
        hl_start_period = 30000000000, hl_retries = 5 \<rparr>) (database_health_command env)"

definition server_host_config ::
  "(int \<Rightarrow> int) \<Rightarrow> create_spec \<Rightarrow> string \<Rightarrow> mount_spec list \<Rightarrow> string option \<Rightarrow> port_bindings \<Rightarrow> host_config" where
  "server_host_config nanos spec network mounts cpuset bindings =
     \<lparr> tmpfs = None, hc_mounts = Some mounts, hc_network_mode = Some network, hc_pids_limit = Some 512,
       hc_restart = Some RestartNo, hc_security_opt = Some [''no-new-privileges''],
       hc_log_config = Some (''local'', [(''max-size'', ''5m''), (''max-file'', ''1''), (''compress'', ''false''),
         (''mode'', ''non-blocking'')]),
       hc_memory = (if cs_memory_bytes spec > 0 then Some (cs_memory_bytes spec) else None),
       hc_memory_swap = memory_swap_limit (cs_memory_bytes spec) (cs_swap_memory_bytes spec),
       hc_cpuset_cpus = cpuset, hc_nano_cpus = cpu_limit nanos (cs_cpu_limit_percentage spec),
       hc_port_bindings = some_unless_empty bindings, hc_auto_remove = None, hc_rest = JNull \<rparr>"

definition build_container ::
  "nat \<Rightarrow> (int \<Rightarrow> int) \<Rightarrow> (nat \<Rightarrow> bool) \<Rightarrow> create_spec \<Rightarrow> path \<Rightarrow> string \<Rightarrow> string \<Rightarrow> int \<Rightarrow> container_body res" where
  "build_container threads nanos free spec host network dpath host_port =
     res_bind (server_ports free spec host_port) (\<lambda>(exposed, bindings).
     res_bind (pinned_cpu_set threads (cs_cpu_pinned_threads spec)) (\<lambda>cpuset.
       let environment = runtime_environment (cs_env spec) in
       Ok \<lparr> cb_config = \<lparr> cc_image = Some (cs_image spec), cc_user = Some SERVER_RUNTIME_USER,
              cc_working_dir = Some dpath, cc_console = True, cc_env = Some environment, cc_entrypoint = None,
              cc_cmd = server_command spec, cc_healthcheck = server_healthcheck (cs_env spec),
              cc_labels = Some (server_labels spec network dpath),
              cc_exposed_ports = some_unless_empty exposed, cc_rest = JNull \<rparr>,
            cb_host = Some (ensure_runtime_tmpfs
              (server_host_config nanos spec network (server_mounts host dpath) cpuset bindings) environment),
            cb_networks = Some [(network, [cs_server_id spec])] \<rparr>))"

subsection \<open>What every server container is confined to\<close>

lemma set_str_insert: "set (str_insert x ys) = insert x (set ys)"
  by (induction ys) auto

lemma set_str_sort [simp]: "set (str_sort xs) = set xs"
  unfolding str_sort_def by (induction xs) (auto simp: set_str_insert)

fun str_sorted :: "string list \<Rightarrow> bool" where
  "str_sorted [] = True"
| "str_sorted (x # xs) = ((\<forall>y \<in> set xs. \<not> str_less y x) \<and> str_sorted xs)"

lemma str_sorted_insert: "str_sorted ys \<Longrightarrow> str_sorted (str_insert x ys)"
proof (induction ys)
  case (Cons y ys)
  have "\<not> str_less z x" if "\<not> str_less y x" "z \<in> set ys" for z
    using that Cons.prems str_less_trans [of z x y] str_less_total [of x y] by auto
  with Cons show ?case
    by (auto simp: set_str_insert) (metis str_less_irrefl str_less_trans)
qed simp

lemma str_sorted_sort: "str_sorted (str_sort xs)"
  unfolding str_sort_def by (induction xs) (auto simp: str_sorted_insert)

lemma distinct_remdups_adj_sorted: "str_sorted xs \<Longrightarrow> distinct (remdups_adj xs)"
proof (induction xs rule: remdups_adj.induct)
  case (3 x y xs)
  show ?case
  proof (cases "x = y")
    case False
    have "x \<notin> set (y # xs)"
    proof
      assume "x \<in> set (y # xs)"
      then have "x \<in> set xs" using False by simp
      then have "\<not> str_less x y" "\<not> str_less y x" using 3(3) by auto
      then show False using False str_less_total by blast
    qed
    then show ?thesis using 3 False by simp
  qed (use 3 in simp)
qed auto

lemma mount_targets_props:
  "distinct (mount_targets dpath) \<and> set (mount_targets dpath) = {dpath, HOME_CONTAINER_PATH, DATA_CONTAINER_PATH}"
  by (simp add: mount_targets_def distinct_remdups_adj_sorted str_sorted_sort)

definition published :: "container_body \<Rightarrow> port_bindings" where
  "published body = (case Option.bind (cb_host body) hc_port_bindings of Some bs \<Rightarrow> bs | None \<Rightarrow> [])"

lemma server_ports_private:
  "server_ports free spec hp = Ok (e, bs) \<Longrightarrow> \<not> cs_expose_public_port spec \<Longrightarrow> bs = []"
  by (auto simp: server_ports_def add_port_mapping_def res_simps split: option.splits)

lemma ensure_runtime_tmpfs_keeps [simp]:
  "hc_mounts (ensure_runtime_tmpfs hc env) = hc_mounts hc"
  "hc_security_opt (ensure_runtime_tmpfs hc env) = hc_security_opt hc"
  "hc_restart (ensure_runtime_tmpfs hc env) = hc_restart hc"
  "hc_pids_limit (ensure_runtime_tmpfs hc env) = hc_pids_limit hc"
  "hc_port_bindings (ensure_runtime_tmpfs hc env) = hc_port_bindings hc"
  "hc_memory (ensure_runtime_tmpfs hc env) = hc_memory hc"
  "hc_memory_swap (ensure_runtime_tmpfs hc env) = hc_memory_swap hc"
  "hc_network_mode (ensure_runtime_tmpfs hc env) = hc_network_mode hc"
  by (simp_all add: ensure_runtime_tmpfs_def)



end
