(* ===== verification/Disk.thy ===== *)
theory Disk
  imports Docker_Root Configuration
begin

text \<open>
  @inspection/disk.rs@: the size of a server's directory, its configured limit, and the cache of
  measurements in which at most one calculation per server is in flight.
\<close>

definition DEFAULT_DISK_LIMIT :: int where "DEFAULT_DISK_LIMIT = 10737418240"

subsection \<open>The size of a directory\<close>

definition i64_add_len :: "int \<Rightarrow> nat \<Rightarrow> int" where
  "i64_add_len acc len = min 9223372036854775807 (acc + min (int len) 9223372036854775807)"

text \<open>
  The entries of one directory, with the total so far and the directories still to visit; a
  symbolic link is skipped.  A directory that cannot be read counts nothing.
\<close>

fun scan_entries :: "string list \<Rightarrow> (string \<times> node) list \<Rightarrow> int \<Rightarrow> (string list \<times> node) list \<Rightarrow> int \<times> (string list \<times> node) list" where
  "scan_entries dir [] acc pending = (acc, pending)"
| "scan_entries dir ((name, RegFile c) # es) acc pending = scan_entries dir es (i64_add_len acc (length c)) pending"
| "scan_entries dir ((name, Dir sub) # es) acc pending = scan_entries dir es acc (pending @ [(dir @ [name], Dir sub)])"
| "scan_entries dir ((name, Symlink p) # es) acc pending = scan_entries dir es acc pending"

fun node_count :: "node \<Rightarrow> nat" where
  "node_count (RegFile c) = 1"
| "node_count (Symlink p) = 1"
| "node_count (Dir es) = Suc (sum_list (map (\<lambda>(n, m). node_count m) es))"

definition pending_count :: "(string list \<times> node) list \<Rightarrow> nat" where
  "pending_count ps = sum_list (map (\<lambda>(d, n). node_count n) ps)"

lemma scan_entries_count:
  "scan_entries dir es acc pending = (acc', pending') \<Longrightarrow>
   pending_count pending' \<le> pending_count pending + sum_list (map (\<lambda>(n, m). node_count m) es)"
  by (induction dir es acc pending rule: scan_entries.induct) (auto simp: pending_count_def)

lemma pending_count_last: "pending \<noteq> [] \<Longrightarrow> last pending = (d, n) \<Longrightarrow>
    pending_count pending = pending_count (butlast pending) + node_count n"
  by (cases pending rule: rev_cases) (auto simp: pending_count_def)

lemma node_count_pos: "0 < node_count n"
  by (cases n) auto

lemma pending_count_butlast: "pending \<noteq> [] \<Longrightarrow> pending_count (butlast pending) < pending_count pending"
  using pending_count_last [of pending "fst (last pending)" "snd (last pending)"] node_count_pos by simp

function dir_size_from :: "(string list \<Rightarrow> bool) \<Rightarrow> (string list \<times> node) list \<Rightarrow> int \<Rightarrow> int" where
  "dir_size_from readable pending acc =
     (if pending = [] then acc
      else
        case last pending of (dir, n) \<Rightarrow>
          (case n of
             Dir es \<Rightarrow>
               if readable dir
               then (case scan_entries dir es acc (butlast pending) of
                       (acc', pending') \<Rightarrow> dir_size_from readable pending' acc')
               else dir_size_from readable (butlast pending) acc
           | _ \<Rightarrow> dir_size_from readable (butlast pending) acc))"
  by pat_completeness auto

termination
proof (relation "measure (\<lambda>(readable, pending, acc). pending_count pending)", goal_cases)
  case (4 readable pending acc dir n es acc' pending')
  then show ?case
    using scan_entries_count [of dir es acc "butlast pending" acc' pending'] pending_count_last [of pending dir n] by simp
qed (simp_all add: pending_count_butlast)

declare dir_size_from.simps [simp del]

text \<open>@read_dir@ of the root follows links; below, only real directories are visited.\<close>

definition dir_size :: "(string list \<Rightarrow> bool) \<Rightarrow> path \<Rightarrow> node \<Rightarrow> string list \<Rightarrow> int" where
  "dir_size readable root t cwd =
     (case existing t cwd root True of
        Inr (q, n) \<Rightarrow> dir_size_from readable [(q, n)] 0
      | Inl _ \<Rightarrow> 0)"

text \<open>The specification: the sum of the lengths of all regular files below a directory.\<close>

fun tree_bytes :: "node \<Rightarrow> nat" where
  "tree_bytes (RegFile c) = length c"
| "tree_bytes (Symlink p) = 0"
| "tree_bytes (Dir es) = sum_list (map (\<lambda>(n, m). tree_bytes m) es)"

definition pending_bytes :: "(string list \<times> node) list \<Rightarrow> nat" where
  "pending_bytes ps = sum_list (map (\<lambda>(d, n). tree_bytes n) ps)"

definition capped :: "nat \<Rightarrow> int" where "capped n = min 9223372036854775807 (int n)"

lemma i64_add_capped: "i64_add_len (capped n) m = capped (n + m)"
  by (auto simp: i64_add_len_def capped_def min_def)

lemma scan_entries_bytes:
  "\<exists>n' pending'. scan_entries dir es (capped n) pending = (capped n', pending') \<and>
     n' + pending_bytes pending' = n + pending_bytes pending + sum_list (map (\<lambda>(k, m). tree_bytes m) es) \<and>
     (list_all (\<lambda>(d, m). \<exists>x. m = Dir x) pending \<longrightarrow> list_all (\<lambda>(d, m). \<exists>x. m = Dir x) pending')"
proof (induction es arbitrary: n pending)
  case (Cons e es)
  obtain k m where e: "e = (k, m)" by (cases e)
  show ?case
  proof (cases m)
    case (RegFile c)
    then show ?thesis using Cons.IH [of "n + length c" pending] by (simp add: e i64_add_capped ac_simps)
  next
    case (Symlink p)
    then show ?thesis using Cons.IH [of n pending] by (auto simp: e)
  next
    case (Dir sub)
    then show ?thesis using Cons.IH [of n "pending @ [(dir @ [k], Dir sub)]"]
      by (auto simp: e pending_bytes_def add.assoc)
  qed
qed auto

lemma dir_size_from_bytes:
  assumes "list_all (\<lambda>(d, m). \<exists>x. m = Dir x) pending"
  shows "dir_size_from (\<lambda>_. True) pending (capped n) = capped (n + pending_bytes pending)"
  using assms
proof (induction "pending_count pending" arbitrary: pending n rule: less_induct)
  case less
  show ?case
  proof (cases pending rule: rev_cases)
    case Nil
    then show ?thesis by (simp add: dir_size_from.simps pending_bytes_def)
  next
    case (snoc ps p)
    obtain d es where p: "p = (d, Dir es)" using less.prems snoc by (cases p) auto
    obtain n' ps' where s: "scan_entries d es (capped n) ps = (capped n', ps')"
      "n' + pending_bytes ps' = n + pending_bytes ps + sum_list (map (\<lambda>(k, m). tree_bytes m) es)"
      "list_all (\<lambda>(d, m). \<exists>x. m = Dir x) ps'"
      using scan_entries_bytes [of d es n ps] less.prems snoc by auto
    have c: "pending_count ps' < pending_count pending"
      using scan_entries_count [OF s(1)] by (simp add: snoc p pending_count_def)
    have "dir_size_from (\<lambda>_. True) pending (capped n) = dir_size_from (\<lambda>_. True) ps' (capped n')"
      by (subst dir_size_from.simps) (simp add: snoc p s(1))
    also have "\<dots> = capped (n' + pending_bytes ps')" using less.hyps [OF c s(3)] .
    finally show ?thesis using s(2) by (simp add: snoc p pending_bytes_def add.assoc)
  qed
qed

text \<open>Lemma: when every directory can be read, the measured size of a directory is the sum of the
  lengths of the regular files below it, links not followed, saturating at the largest @i64@.\<close>

theorem dir_size_counts_files:
  assumes "existing t cwd root True = Ok (q, Dir es)"
  shows "dir_size (\<lambda>_. True) root t cwd = capped (tree_bytes (Dir es))"
  using dir_size_from_bytes [of "[(q, Dir es)]" 0] assms
  by (simp add: dir_size_def pending_bytes_def capped_def)

theorem dir_size_counts_files_witness:
  "dir_size (\<lambda>_. True) [RootDir, Normal ''s''] (Dir [(''s'', Dir [(''a'', RegFile ''xy''), (''l'', Symlink [RootDir])])]) []
     = capped 2"
proof -
  have "existing (Dir [(''s'', Dir [(''a'', RegFile ''xy''), (''l'', Symlink [RootDir])])]) [] [RootDir, Normal ''s''] True
      = Ok ([''s''], Dir [(''a'', RegFile ''xy''), (''l'', Symlink [RootDir])])" by code_simp
  from dir_size_counts_files [OF this] show ?thesis by (simp add: numeral_2_eq_2)
qed

subsection \<open>The limit of a server\<close>

definition parse_i64 :: "string \<Rightarrow> int option" where
  "parse_i64 s = parse_signed 9223372036854775807 s"

definition disk_limit :: "environment \<Rightarrow> json io \<Rightarrow> string \<Rightarrow> int io" where
  "disk_limit env inspect sid =
     io_bind (io_lift (disk_limit_path env sid)) (\<lambda>p.
     io_bind (io_try (fs_read_to_string p)) (\<lambda>r.
       case r of
         Inr v \<Rightarrow> io_return (case parse_i64 (trim v) of Some n \<Rightarrow> n | None \<Rightarrow> DEFAULT_DISK_LIMIT)
       | Inl _ \<Rightarrow> io_bind (io_try inspect) (\<lambda>j.
           io_return (case j of
             Inl _ \<Rightarrow> DEFAULT_DISK_LIMIT
           | Inr j \<Rightarrow>
               (case Option.bind (Option.bind (pointer [''Config'', ''Labels'', ''agapornis.disk_limit_bytes''] j) as_str) parse_i64 of
                  Some n \<Rightarrow> n | None \<Rightarrow> DEFAULT_DISK_LIMIT)))))"

definition disk_cache_age :: "environment \<Rightarrow> nat" where
  "disk_cache_age env =
     secs (case Option.bind (env ''AGAPORNIS_DISK_USAGE_CACHE_SECONDS'') (parse_unsigned 18446744073709551615) of
             Some v \<Rightarrow> if v > 0 then v else 75
           | None \<Rightarrow> 75)"

subsection \<open>The cache\<close>

text \<open>A finished measurement with its time, or the token of the calculation in flight.\<close>

datatype cache_state = DiskReady nat int int | Calculating nat

type_synonym disk_cache = "string \<rightharpoonup> cache_state"

datatype disk_calculation = CachedDisk int int | Calculate nat | WaitFor nat

text \<open>One turn of the loop of @begin_disk_calculation@ under the lock, with a fresh token.\<close>

definition begin_disk_calculation ::
  "string \<Rightarrow> bool \<Rightarrow> nat \<Rightarrow> nat \<Rightarrow> nat \<Rightarrow> disk_cache \<Rightarrow> disk_calculation \<times> disk_cache" where
  "begin_disk_calculation sid force max_age now token cache =
     (case cache sid of
        Some (DiskReady at usage limit) \<Rightarrow>
          if \<not> force \<and> elapsed_since at now \<le> max_age then (CachedDisk usage limit, cache)
          else (Calculate token, cache(sid \<mapsto> Calculating token))
      | Some (Calculating current) \<Rightarrow> (WaitFor current, cache)
      | None \<Rightarrow> (Calculate token, cache(sid \<mapsto> Calculating token)))"

definition is_current :: "string \<Rightarrow> nat \<Rightarrow> disk_cache \<Rightarrow> bool" where
  "is_current sid token cache \<longleftrightarrow> cache sid = Some (Calculating token)"

definition finish_disk_calculation :: "string \<Rightarrow> nat \<Rightarrow> nat \<Rightarrow> int \<Rightarrow> int \<Rightarrow> disk_cache \<Rightarrow> disk_cache" where
  "finish_disk_calculation sid token now usage limit cache =
     (if is_current sid token cache then cache(sid \<mapsto> DiskReady now usage limit) else cache)"

definition calculating :: "string \<Rightarrow> disk_cache \<Rightarrow> bool" where
  "calculating sid cache = (case cache sid of Some (Calculating _) \<Rightarrow> True | _ \<Rightarrow> False)"

text \<open>The guard of a calculation that failed or was cancelled, and a waiter that gives up.\<close>

definition abandon_disk_calculation :: "string \<Rightarrow> nat \<Rightarrow> disk_cache \<Rightarrow> disk_cache" where
  "abandon_disk_calculation sid token cache =
     (if is_current sid token cache then cache(sid := None) else cache)"

text \<open>@disk@: what is reported without measuring.\<close>

definition disk_snapshot :: "disk_cache \<Rightarrow> string \<Rightarrow> (int \<times> int) option" where
  "disk_snapshot cache sid =
     (case cache sid of Some (DiskReady _ usage limit) \<Rightarrow> Some (usage, limit) | _ \<Rightarrow> None)"

subsection \<open>Calculations in flight\<close>

text \<open>
  The cache, the calculations that run and those that failed and whose guard has not run yet
  (server and token), how often a calculation's entry was evicted (by a waiter that gave up
  after two minutes or by an operation on the server), and the next token.
\<close>

record disk_table =
  dt_cache :: disk_cache
  dt_running :: "(string \<times> nat) list"
  dt_dropped :: "(string \<times> nat) list"
  dt_evictions :: "string \<Rightarrow> nat"
  dt_next :: nat

inductive disk_step :: "disk_table \<Rightarrow> disk_table \<Rightarrow> bool" where
  begin_calc: "begin_disk_calculation sid force max_age now (dt_next s) (dt_cache s) = (Calculate token, cache) \<Longrightarrow>
    disk_step s (s\<lparr> dt_cache := cache, dt_running := (sid, token) # dt_running s, dt_next := Suc (dt_next s) \<rparr>)"
| answer: "begin_disk_calculation sid force max_age now (dt_next s) (dt_cache s) = (CachedDisk u l, cache) \<Longrightarrow>
    disk_step s (s\<lparr> dt_cache := cache \<rparr>)"
| finish: "(sid, token) \<in> set (dt_running s) \<Longrightarrow>
    disk_step s (s\<lparr> dt_cache := finish_disk_calculation sid token now u l (dt_cache s),
                   dt_running := remove1 (sid, token) (dt_running s) \<rparr>)"
| fail: "(sid, token) \<in> set (dt_running s) \<Longrightarrow>
    disk_step s (s\<lparr> dt_running := remove1 (sid, token) (dt_running s), dt_dropped := (sid, token) # dt_dropped s \<rparr>)"
| guard: "(sid, token) \<in> set (dt_dropped s) \<Longrightarrow>
    disk_step s (s\<lparr> dt_cache := abandon_disk_calculation sid token (dt_cache s),
                   dt_dropped := remove1 (sid, token) (dt_dropped s) \<rparr>)"
| evict: "disk_step s (s\<lparr> dt_cache := (dt_cache s)(sid := None),
                   dt_evictions := (if calculating sid (dt_cache s)
                     then (dt_evictions s)(sid := Suc (dt_evictions s sid)) else dt_evictions s) \<rparr>)"

inductive disk_reachable :: "disk_table \<Rightarrow> bool" where
  start: "disk_reachable \<lparr> dt_cache = Map.empty, dt_running = [], dt_dropped = [], dt_evictions = (\<lambda>_. 0), dt_next = 0 \<rparr>"
| step: "disk_reachable s \<Longrightarrow> disk_step s s' \<Longrightarrow> disk_reachable s'"

definition in_flight :: "string \<Rightarrow> disk_table \<Rightarrow> nat" where
  "in_flight sid s = length (filter (\<lambda>(i, _). i = sid) (dt_running s @ dt_dropped s))"

text \<open>Every entry that makes others wait belongs to a calculation that will end the wait.\<close>

definition entries_tracked :: "disk_table \<Rightarrow> bool" where
  "entries_tracked s \<longleftrightarrow> (\<forall>sid token. dt_cache s sid = Some (Calculating token) \<longrightarrow>
     (sid, token) \<in> set (dt_running s) \<union> set (dt_dropped s))"

text \<open>Calculations of one server overlap only after evictions.\<close>

definition single_flight :: "disk_table \<Rightarrow> bool" where
  "single_flight s \<longleftrightarrow>
     (\<forall>sid. in_flight sid s \<le> dt_evictions s sid + (if calculating sid (dt_cache s) then 1 else 0))"

lemma filter_count_remove1:
  "(sid, token) \<in> set xs \<Longrightarrow>
   length (filter (\<lambda>(i, _). i = j) (remove1 (sid, token) xs)) =
   length (filter (\<lambda>(i, _). i = j) xs) - (if j = sid then 1 else 0)"
  by (auto simp: filter_remove1 length_remove1 remove1_idem)

lemma filter_count_pos: "(sid, token) \<in> set xs \<Longrightarrow> 0 < length (filter (\<lambda>(i, _). i = sid) xs)"
  by (induction xs) auto

lemma begin_calculate:
  "begin_disk_calculation sid force max_age now token' cache = (Calculate token, cache') \<Longrightarrow>
   token = token' \<and> cache' = cache(sid \<mapsto> Calculating token) \<and> \<not> calculating sid cache"
  by (auto simp: begin_disk_calculation_def calculating_def split: option.splits cache_state.splits if_splits)

lemma begin_cached:
  "begin_disk_calculation sid force max_age now token cache = (CachedDisk u l, cache') \<Longrightarrow> cache' = cache"
  by (auto simp: begin_disk_calculation_def split: option.splits cache_state.splits if_splits)

lemma entries_tracked_step: "disk_step s s' \<Longrightarrow> entries_tracked s \<Longrightarrow> entries_tracked s'"
proof (induction rule: disk_step.induct)
  case (begin_calc sid force max_age now s token cache)
  then show ?case using begin_calculate [OF begin_calc(1)] by (auto simp: entries_tracked_def)
next
  case (answer sid force max_age now s u l cache)
  then show ?case using begin_cached [OF answer(1)] by (simp add: entries_tracked_def)
next
  case (finish sid token s now u l)
  show ?case unfolding entries_tracked_def
  proof (intro allI impI)
    fix i t assume a: "dt_cache (s\<lparr> dt_cache := finish_disk_calculation sid token now u l (dt_cache s),
      dt_running := remove1 (sid, token) (dt_running s) \<rparr>) i = Some (Calculating t)"
    then have "dt_cache s i = Some (Calculating t)" "(i, t) \<noteq> (sid, token)"
      by (auto simp: finish_disk_calculation_def is_current_def split: if_splits)
    then show "(i, t) \<in> set (dt_running (s\<lparr> dt_cache := finish_disk_calculation sid token now u l (dt_cache s),
        dt_running := remove1 (sid, token) (dt_running s) \<rparr>)) \<union>
      set (dt_dropped (s\<lparr> dt_cache := finish_disk_calculation sid token now u l (dt_cache s),
        dt_running := remove1 (sid, token) (dt_running s) \<rparr>))"
      using finish(2) by (auto simp: entries_tracked_def)
  qed
next
  case (fail sid token s)
  have "(i, t) \<in> set (remove1 (sid, token) (dt_running s)) \<or> (i, t) = (sid, token)"
    if "(i, t) \<in> set (dt_running s)" for i t using that by (cases "(i, t) = (sid, token)") simp_all
  then show ?case using fail(2) unfolding entries_tracked_def by fastforce
next
  case (guard sid token s)
  show ?case unfolding entries_tracked_def
  proof (intro allI impI)
    fix i t assume a: "dt_cache (s\<lparr> dt_cache := abandon_disk_calculation sid token (dt_cache s),
      dt_dropped := remove1 (sid, token) (dt_dropped s) \<rparr>) i = Some (Calculating t)"
    then have "dt_cache s i = Some (Calculating t)" "(i, t) \<noteq> (sid, token)"
      by (auto simp: abandon_disk_calculation_def is_current_def split: if_splits)
    then show "(i, t) \<in> set (dt_running (s\<lparr> dt_cache := abandon_disk_calculation sid token (dt_cache s),
        dt_dropped := remove1 (sid, token) (dt_dropped s) \<rparr>)) \<union>
      set (dt_dropped (s\<lparr> dt_cache := abandon_disk_calculation sid token (dt_cache s),
        dt_dropped := remove1 (sid, token) (dt_dropped s) \<rparr>))"
      using guard(2) by (auto simp: entries_tracked_def)
  qed
next
  case (evict s sid)
  then show ?case by (simp add: entries_tracked_def)
qed

lemma single_flight_less:
  assumes "\<And>j. in_flight j s' = in_flight j s - (if j = sid then 1 else 0)"
    and "\<And>j. calculating j (dt_cache s') = (calculating j (dt_cache s) \<and> \<not> (j = sid \<and> c))"
    and "dt_evictions s' = dt_evictions s" "single_flight s"
  shows "single_flight s'"
  unfolding single_flight_def
proof
  fix j
  have "in_flight j s \<le> dt_evictions s j + (if calculating j (dt_cache s) then 1 else 0)"
    using assms(4) unfolding single_flight_def by blast
  then show "in_flight j s' \<le> dt_evictions s' j + (if calculating j (dt_cache s') then 1 else 0)"
    by (cases "j = sid") (auto simp: assms(1-3) split: if_splits)
qed

lemma single_flight_step: "disk_step s s' \<Longrightarrow> single_flight s \<Longrightarrow> single_flight s'"
proof (induction rule: disk_step.induct)
  case (begin_calc sid force max_age now s token cache)
  show ?case unfolding single_flight_def
  proof
    fix j
    show "in_flight j (s\<lparr> dt_cache := cache, dt_running := (sid, token) # dt_running s, dt_next := Suc (dt_next s) \<rparr>)
      \<le> dt_evictions (s\<lparr> dt_cache := cache, dt_running := (sid, token) # dt_running s, dt_next := Suc (dt_next s) \<rparr>) j +
        (if calculating j (dt_cache (s\<lparr> dt_cache := cache, dt_running := (sid, token) # dt_running s, dt_next := Suc (dt_next s) \<rparr>)) then 1 else 0)"
      using begin_calc(2) [unfolded single_flight_def, rule_format, of j] begin_calculate [OF begin_calc(1)]
      by (auto simp: in_flight_def calculating_def)
  qed
next
  case (answer sid force max_age now s u l cache)
  then show ?case using begin_cached [OF answer(1)] by (simp add: single_flight_def in_flight_def)
next
  case (finish sid token s now u l)
  have "in_flight j (s\<lparr> dt_cache := finish_disk_calculation sid token now u l (dt_cache s),
      dt_running := remove1 (sid, token) (dt_running s) \<rparr>) = in_flight j s - (if j = sid then 1 else 0)" for j
    using filter_count_remove1 [OF finish(1), of j] filter_count_pos [OF finish(1)]
    by (cases "j = sid") (simp_all add: in_flight_def del: length_greater_0_conv)
  moreover have "calculating j (finish_disk_calculation sid token now u l (dt_cache s)) =
      (calculating j (dt_cache s) \<and> \<not> (j = sid \<and> is_current sid token (dt_cache s)))" for j
    by (auto simp: finish_disk_calculation_def calculating_def is_current_def)
  ultimately show ?case by (intro single_flight_less [OF _ _ _ finish(2)]) simp_all
next
  case (fail sid token s)
  have "in_flight j (s\<lparr> dt_running := remove1 (sid, token) (dt_running s),
      dt_dropped := (sid, token) # dt_dropped s \<rparr>) = in_flight j s" for j
    using filter_count_remove1 [OF fail(1), of j] filter_count_pos [OF fail(1)] by (auto simp: in_flight_def)
  then show ?case using fail(2) by (simp add: single_flight_def)
next
  case (guard sid token s)
  have "in_flight j (s\<lparr> dt_cache := abandon_disk_calculation sid token (dt_cache s),
      dt_dropped := remove1 (sid, token) (dt_dropped s) \<rparr>) = in_flight j s - (if j = sid then 1 else 0)" for j
    using filter_count_remove1 [OF guard(1), of j] filter_count_pos [OF guard(1)]
    by (cases "j = sid") (simp_all add: in_flight_def del: length_greater_0_conv)
  moreover have "calculating j (abandon_disk_calculation sid token (dt_cache s)) =
      (calculating j (dt_cache s) \<and> \<not> (j = sid \<and> is_current sid token (dt_cache s)))" for j
    by (auto simp: abandon_disk_calculation_def calculating_def is_current_def)
  ultimately show ?case by (intro single_flight_less [OF _ _ _ guard(2)]) simp_all
next
  case (evict s sid)
  have "calculating j ((dt_cache s)(sid := None)) = (calculating j (dt_cache s) \<and> j \<noteq> sid)" for j
    by (simp add: calculating_def)
  moreover have "in_flight j (s\<lparr> dt_cache := c, dt_evictions := e \<rparr>) = in_flight j s" for j c e
    by (simp add: in_flight_def)
  ultimately show ?case
    using evict by (auto simp: single_flight_def) (metis add.commute add_0_right plus_1_eq_Suc)+
qed

text \<open>C20: in every reachable state a cache entry that makes callers wait belongs to a calculation
  that is running or whose guard is about to remove it, so no caller waits for nothing; and at
  most one calculation per server is in flight, but for one more for each time the entry of a
  running one was evicted.\<close>

theorem disk_cache_single_flight:
  assumes "disk_reachable s"
  shows "entries_tracked s \<and> single_flight s"
  using assms
proof induction
  case start
  then show ?case by (simp add: entries_tracked_def single_flight_def in_flight_def)
qed (use entries_tracked_step single_flight_step in blast)

theorem disk_cache_single_flight_witness:
  "single_flight \<lparr> dt_cache = [''s'' \<mapsto> Calculating 0], dt_running = [(''s'', 0)], dt_dropped = [],
     dt_evictions = (\<lambda>_. 0), dt_next = 1 \<rparr>"
proof -
  let ?s = "\<lparr> dt_cache = Map.empty, dt_running = [], dt_dropped = [], dt_evictions = (\<lambda>_. 0), dt_next = 0 \<rparr>"
  have "begin_disk_calculation ''s'' True 0 0 (dt_next ?s) (dt_cache ?s) = (Calculate 0, [''s'' \<mapsto> Calculating 0])"
    by (simp add: begin_disk_calculation_def)
  from disk_reachable.step [OF disk_reachable.start disk_step.begin_calc [OF this]]
  have "disk_reachable \<lparr> dt_cache = [''s'' \<mapsto> Calculating 0], dt_running = [(''s'', 0)], dt_dropped = [],
     dt_evictions = (\<lambda>_. 0), dt_next = 1 \<rparr>" by simp
  from disk_cache_single_flight [OF this] show ?thesis by blast
qed

end
