(* ===== verification/Agent.thy ===== *)
theory Agent
  imports Container Disk Protection Files
begin

text \<open>
  @DockerManager@ of @runtime/docker/mod.rs@: the memory the manager keeps beside the host's
  files and the Docker engine, the parameters of its operations, and inspections.
\<close>

subsection \<open>State and parameters\<close>

text \<open>
  The world outside, the protection state, the cache of disk measurements, the servers whose
  start-up has finished, the time and start of their last log check, the open console
  attachments and the reserved ports.
\<close>

record agent =
  ag_world :: world
  ag_protection :: protection_state
  ag_disk :: disk_cache
  ag_ready :: "string list"
  ag_checks :: "string \<rightharpoonup> nat \<times> int"
  ag_bindings :: "string list"
  ag_reserved :: "nat list"

text \<open>
  Environment variables, other programs and the Docker engine, the document formats, the order
  of hash maps, sleeping (during which others act), the description of a network, the number
  of CPU threads, the rounding of CPU limits, the ports that can be bound, the text of an
  error with its contexts, the directories that can be read, the clock (which depends on what
  was asked so far), and whether the reader of a console attachment has ended.
\<close>

record docker_lib =
  dl_env :: environment
  dl_host :: host
  dl_config :: config_lib
  dl_dir_len :: nat
  dl_arrange :: "(string \<times> json) list \<Rightarrow> (string \<times> json) list"
  dl_pause :: "unit io"
  dl_network :: "string \<Rightarrow> json res"
  dl_threads :: nat
  dl_nanos :: "int \<Rightarrow> int"
  dl_free_tcp :: "nat \<Rightarrow> bool"
  dl_free_udp :: "nat \<Rightarrow> bool"
  dl_error_text :: "error \<Rightarrow> string"
  dl_readable :: "string list \<Rightarrow> bool"
  dl_now :: "request list \<Rightarrow> nat"
  dl_finished :: "request list \<Rightarrow> string \<Rightarrow> bool"

type_synonym 'a dm = "(agent, 'a) act"

definition on_world :: "'a io \<Rightarrow> 'a dm" where
  "on_world m a = (case m (ag_world a) of (r, w) \<Rightarrow> (r, a\<lparr> ag_world := w \<rparr>))"

definition on_memory :: "(agent \<Rightarrow> agent) \<Rightarrow> unit dm" where
  "on_memory f a = (Ok (), f a)"

definition agent_clock :: "docker_lib \<Rightarrow> agent \<Rightarrow> clock" where
  "agent_clock lib a = (\<lambda>_. dl_now lib (w_requests (ag_world a)))"

text \<open>Sequencing without a result.\<close>

abbreviation (input) dm_then :: "unit dm \<Rightarrow> 'a dm \<Rightarrow> 'a dm" where
  "dm_then m n \<equiv> io_bind m (\<lambda>_. n)"

subsection \<open>Inspection\<close>

definition raw_inspect :: "docker_lib \<Rightarrow> string \<Rightarrow> json res io" where
  "raw_inspect lib sid =
     io_bind (api_inspect (dl_host lib) sid) (\<lambda>r. io_return (case r of
       Inl e \<Rightarrow> Err (docker_error_value e) | Inr info \<Rightarrow> Ok (ci_json info)))"

definition dm_inspect :: "docker_lib \<Rightarrow> string \<Rightarrow> json io" where
  "dm_inspect lib sid =
     from_res (validate_id sid) (\<lambda>_.
     io_bind (raw_inspect lib sid) (\<lambda>r. io_lift (docker_inspect (\<lambda>_. r) sid)))"

definition is_running :: "json \<Rightarrow> bool" where
  "is_running inspect \<longleftrightarrow> Option.bind (pointer [''State'', ''Running''] inspect) as_bool = Some True"

definition label_text :: "string \<Rightarrow> json \<Rightarrow> string option" where
  "label_text name inspect = Option.bind (pointer [''Config'', ''Labels'', name] inspect) as_str"

definition dm_root :: "docker_lib \<Rightarrow> string \<Rightarrow> (path \<times> string \<times> bool \<times> bool) io" where
  "dm_root lib sid =
     from_res (validate_id sid) (\<lambda>_.
     from_res (server_dir (dl_env lib) sid) (\<lambda>_.
     io_bind (raw_inspect lib sid) (\<lambda>r. io_lift (docker_root (dl_env lib) (\<lambda>_. r) sid))))"

definition manual_restart_policy :: restart_policy where "manual_restart_policy = RestartNo"

subsection \<open>The disk of a server\<close>

text \<open>
  One operation at a time: an entry of a calculation still in the cache belongs to one that
  ended without storing a result, and the wait for it ends with its removal.
\<close>

definition settled :: "string \<Rightarrow> disk_cache \<Rightarrow> disk_cache" where
  "settled sid cache = (if calculating sid cache then cache(sid := None) else cache)"

definition measure_disk :: "docker_lib \<Rightarrow> string \<Rightarrow> (int \<times> int) io" where
  "measure_disk lib sid =
     io_bind (disk_limit (dl_env lib) (dm_inspect lib sid) sid) (\<lambda>limit.
     io_bind (dm_root lib sid) (\<lambda>(p, _) w.
       (Ok (dir_size (dl_readable lib) p (w_root w) (w_cwd w), limit), w)))"

definition disk_cached :: "docker_lib \<Rightarrow> string \<Rightarrow> bool \<Rightarrow> (int \<times> int) dm" where
  "disk_cached lib sid force =
     from_res (validate_id sid) (\<lambda>_ a.
       case begin_disk_calculation sid force (disk_cache_age (dl_env lib)) (dl_now lib (w_requests (ag_world a)))
              (length (w_requests (ag_world a))) (settled sid (ag_disk a)) of
         (Calculate token, cache) \<Rightarrow>
           io_bind (io_try (on_world (measure_disk lib sid))) (\<lambda>r.
             case r of
               Inr (usage, limit) \<Rightarrow>
                 dm_then (\<lambda>a. on_memory (\<lambda>a. a\<lparr> ag_disk := finish_disk_calculation sid token
                     (dl_now lib (w_requests (ag_world a))) usage limit (ag_disk a) \<rparr>) a)
                   (io_return (usage, limit))
             | Inl e \<Rightarrow>
                 dm_then (on_memory (\<lambda>a. a\<lparr> ag_disk := abandon_disk_calculation sid token (ag_disk a) \<rparr>))
                   (io_fail e)) (a\<lparr> ag_disk := cache \<rparr>)
       | (CachedDisk usage limit, cache) \<Rightarrow> (Ok (usage, limit), a)
       | (WaitFor token, cache) \<Rightarrow> (Ok (0, 0), a))"

definition disk_force :: "docker_lib \<Rightarrow> string \<Rightarrow> (int \<times> int) dm" where
  "disk_force lib sid = disk_cached lib sid True"

lemma begin_settled: "begin_disk_calculation sid force age now token (settled sid cache) \<noteq> (WaitFor t, cache')"
  by (auto simp: begin_disk_calculation_def settled_def calculating_def split: option.splits cache_state.splits)

text \<open>@disk@ answers from the cache, else with the limit and an unknown usage.\<close>

definition disk :: "docker_lib \<Rightarrow> string \<Rightarrow> (int \<times> int) dm" where
  "disk lib sid =
     from_res (validate_id sid) (\<lambda>_ a.
       case disk_snapshot (ag_disk a) sid of
         Some ul \<Rightarrow> (Ok ul, a)
       | None \<Rightarrow> io_bind (on_world (disk_limit (dl_env lib) (dm_inspect lib sid) sid)) (\<lambda>limit. io_return (0, limit)) a)"

end
