(* ===== verification/Recreation.thy ===== *)
theory Recreation
  imports Agent
begin

text \<open>
  @lifecycle/recreation.rs@: replacing a server's container by a new one that reuses its
  configuration, with fresh mounts, ports or environment, and putting the old one back when
  that fails.
\<close>

subsection \<open>Environments and ports\<close>

definition normalized_environment :: "string list option \<Rightarrow> string list" where
  "normalized_environment vals = str_sort (case vals of Some vs \<Rightarrow> vs | None \<Rightarrow> [])"

definition env_key :: "string \<Rightarrow> string option" where
  "env_key entry = map_option fst (split_once (CHR ''='') entry)"

definition merged_environment :: "string list option \<Rightarrow> string list \<Rightarrow> string list" where
  "merged_environment current desired =
     (let desired_keys = set (map the (filter (\<lambda>k. k \<noteq> None) (map env_key desired))) in
      filter (\<lambda>entry. case env_key entry of None \<Rightarrow> True | Some key \<Rightarrow> key \<notin> desired_keys)
        (case current of Some vs \<Rightarrow> vs | None \<Rightarrow> []) @ desired)"

definition binding_ports :: "port_bindings \<Rightarrow> string option list" where
  "binding_ports bindings =
     concat (map (\<lambda>(_, bs). case bs of None \<Rightarrow> [] | Some bs \<Rightarrow> map pb_host_port bs) bindings)"

definition bound_host_ports :: "port_bindings option \<Rightarrow> nat set" where
  "bound_host_ports bindings =
     (case bindings of None \<Rightarrow> {}
      | Some bs \<Rightarrow> {p. Some p \<in> set (map (\<lambda>hp. Option.bind hp parse_u16) (binding_ports bs))})"

text \<open>The ports are looked at in the order of the hash map, here that of the list.\<close>

fun ensure_ports_available :: "docker_lib \<Rightarrow> nat list \<Rightarrow> nat set \<Rightarrow> string option list \<Rightarrow> unit res" where
  "ensure_ports_available lib reserved current [] = Ok ()"
| "ensure_ports_available lib reserved current (hp # hps) =
     (case hp of
        None \<Rightarrow> Err (Bail ''requested host port is missing'')
      | Some text \<Rightarrow>
          (case parse_u16 text of
             None \<Rightarrow> Err (Ctx ''requested host port is invalid'' (Ext ''ParseIntError''))
           | Some port \<Rightarrow>
               if port \<in> current then ensure_ports_available lib reserved current hps
               else if port \<in> set reserved \<or> \<not> dl_free_tcp lib port \<or> \<not> dl_free_udp lib port
               then Err (Bail (''requested host port '' @ nat_digits port @ '' is already in use''))
               else ensure_ports_available lib reserved current hps))"

definition ensure_requested_ports_available :: "docker_lib \<Rightarrow> nat list \<Rightarrow> nat set \<Rightarrow> port_bindings \<Rightarrow> unit res" where
  "ensure_requested_ports_available lib reserved current requested =
     ensure_ports_available lib reserved current (binding_ports requested)"

fun validate_mappings ::
  "(string \<times> int) list \<Rightarrow> string list \<Rightarrow> port_bindings \<Rightarrow> int list \<Rightarrow> (string list \<times> port_bindings) res" where
  "validate_mappings [] exposed bindings host_ports = Ok (exposed, bindings)"
| "validate_mappings ((internal, host_port) # ms) exposed bindings host_ports =
     (if \<not> (1 \<le> host_port \<and> host_port \<le> 65535) \<or> host_port \<in> set host_ports
      then Err (Bail ''host ports must be unique numbers between 1 and 65535'')
      else
        let normalized = (if CHR ''/'' \<in> set internal then internal else internal @ ''/tcp'') in
        case split_once (CHR ''/'') normalized of
          None \<Rightarrow> Err (Bail ''internal port must use the form port/protocol'')
        | Some (text, protocol) \<Rightarrow>
            (case parse_u16 text of
               None \<Rightarrow> Err (Ctx ''internal port is not a valid number'' (Ext ''ParseIntError''))
             | Some port \<Rightarrow>
                 if port = 0 \<or> protocol \<notin> {''tcp'', ''udp''}
                 then Err (Bail ''internal ports must be between 1 and 65535 and use tcp or udp'')
                 else
                   let key = nat_digits port @ ''/'' @ protocol in
                   if key \<in> set (map fst bindings) then Err (Bail ''internal port mappings must be unique'')
                   else validate_mappings ms (exposed @ [key])
                          (bindings @ [(key, Some [any_address (nat host_port)])]) (host_port # host_ports)))"

definition validated_port_bindings :: "(string \<times> int) list \<Rightarrow> (string list \<times> port_bindings) res" where
  "validated_port_bindings mappings =
     (if mappings = [] \<or> length mappings > 32
      then Err (Bail ''a server must have between 1 and 32 port mappings'')
      else validate_mappings mappings [] [] [])"

subsection \<open>The new container\<close>

definition is_managed_mount :: "string list \<Rightarrow> mount_spec \<Rightarrow> bool" where
  "is_managed_mount targets m \<longleftrightarrow>
     mount_kind m = Some BindMount \<and> (case mount_target m of Some t \<Rightarrow> t \<in> set targets | None \<Rightarrow> False)"

text \<open>How many mounts were repaired, and the repaired configuration.\<close>

definition repair_managed_mounts :: "host_config \<Rightarrow> string list \<Rightarrow> string \<Rightarrow> nat \<times> host_config" where
  "repair_managed_mounts hc targets source =
     (let ms = (case hc_mounts hc of Some ms \<Rightarrow> ms | None \<Rightarrow> []) in
      (length (filter (is_managed_mount targets) ms),
       hc\<lparr> hc_mounts := Some (map (\<lambda>m. if is_managed_mount targets m then m\<lparr> mount_from := Some source \<rparr> else m) ms) \<rparr>))"

definition reusable_networks :: "string list option \<Rightarrow> string \<Rightarrow> networking_config" where
  "reusable_networks networks sid = map_option (map (\<lambda>n. (n, [sid]))) networks"

text \<open>
  The document made of the configuration, the host configuration and the networks and read back
  as a creation request has exactly their fields.
\<close>

definition create_body :: "container_config \<Rightarrow> host_config \<Rightarrow> networking_config \<Rightarrow> container_body" where
  "create_body config hc networks =
     (let environment = runtime_environment (case cc_env config of Some e \<Rightarrow> e | None \<Rightarrow> []) in
      \<lparr> cb_config = config\<lparr> cc_cmd := snd (repair_legacy_runtime_command (cc_cmd config)), cc_env := Some environment \<rparr>,
        cb_host = Some ((ensure_runtime_tmpfs hc environment)\<lparr> hc_restart := Some manual_restart_policy \<rparr>),
        cb_networks = networks \<rparr>)"

definition stale_name :: "string \<Rightarrow> string \<Rightarrow> string" where
  "stale_name sid uuid = sid @ ''-stale-'' @ uuid"

definition replace_stale_container :: "docker_lib \<Rightarrow> string \<Rightarrow> string \<Rightarrow> container_body \<Rightarrow> unit io" where
  "replace_stale_container lib uuid sid body =
     (let h = dl_host lib; stale = stale_name sid uuid in
      io_bind (api h (RenameContainer sid stale)) (\<lambda>r.
      from_res (api_result (''rename stale Docker container '' @ sid) r) (\<lambda>_.
      io_bind (api h (CreateContainer sid body)) (\<lambda>c.
        case c of
          Inl create_error \<Rightarrow>
            io_bind (api h (RenameContainer stale sid)) (\<lambda>rollback.
              case rollback of
                Inl rollback_error \<Rightarrow>
                  io_fail (Ctx (''recreate Docker container '' @ sid @ ''; restoring its old name also failed: ''
                    @ dl_error_text lib (docker_error_value rollback_error)) (docker_error_value create_error))
              | Inr _ \<Rightarrow> io_fail (Ctx (''recreate Docker container '' @ sid) (docker_error_value create_error)))
        | Inr _ \<Rightarrow> io_bind (api h (RemoveContainer stale)) (\<lambda>_. io_return ())))))"

definition owned_labels :: "string \<Rightarrow> container_config \<Rightarrow> string \<Rightarrow> string \<Rightarrow> (string \<times> string) list res" where
  "owned_labels sid config missing foreign =
     (case cc_labels config of
        None \<Rightarrow> Err (Bail missing)
      | Some labels \<Rightarrow>
          if map_of labels ''agapornis.server_id'' \<noteq> Some sid then Err (Bail foreign) else Ok labels)"

definition typed_inspect :: "docker_lib \<Rightarrow> string \<Rightarrow> string \<Rightarrow> container_info io" where
  "typed_inspect lib message sid =
     io_bind (api_inspect (dl_host lib) sid) (\<lambda>r. io_lift (api_result message r))"

definition the_config :: "string \<Rightarrow> 'a option \<Rightarrow> 'a res" where
  "the_config message v = (case v of Some x \<Rightarrow> Ok x | None \<Rightarrow> Err (Bail message))"

definition recreate_with_fresh_bind_mounts :: "docker_lib \<Rightarrow> string \<Rightarrow> string \<Rightarrow> unit io" where
  "recreate_with_fresh_bind_mounts lib uuid sid =
     io_bind (typed_inspect lib (''inspect stale Docker container '' @ sid) sid) (\<lambda>info.
     from_res (the_config ''stale Docker container has no reusable configuration'' (ci_config info)) (\<lambda>config.
     from_res (owned_labels sid config
        ''refusing to recreate a container without Agapornis ownership labels''
        ''refusing to recreate a container not owned by this Agapornis server'') (\<lambda>labels.
     let data = (case map_of labels ''agapornis.data_path'' of Some d \<Rightarrow> d | None \<Rightarrow> HOME_CONTAINER_PATH) in
     from_res (server_dir (dl_env lib) sid) (\<lambda>host.
     from_res (the_config ''stale Docker container has no reusable host configuration'' (ci_host info)) (\<lambda>hc.
       case repair_managed_mounts hc [data, HOME_CONTAINER_PATH, DATA_CONTAINER_PATH] (path_string host) of
         (repaired, hc') \<Rightarrow>
           then_io (guard_io (repaired \<noteq> 0) ''stale Docker container has no managed bind mounts to repair'')
             (replace_stale_container lib uuid sid (create_body config hc' (reusable_networks (ci_networks info) sid))))))))"

subsection \<open>Replacing loses no container\<close>

text \<open>
  What Docker documents of its names: a successful rename moves a container to a free name, a
  successful creation adds one, a removal takes one away, and everything else, in particular
  whatever fails, leaves the containers and their names alone.
\<close>

fun names_after :: "api_call \<Rightarrow> (string \<rightharpoonup> container_body) \<Rightarrow> (string \<rightharpoonup> container_body)" where
  "names_after (RenameContainer a b) v = (case v a of Some c \<Rightarrow> (v(a := None))(b \<mapsto> c) | None \<Rightarrow> v)"
| "names_after (CreateContainer n body) v = v(n \<mapsto> body)"
| "names_after (RemoveContainer n) v = v(n := None)"
| "names_after _ v = v"

definition engine_names :: "host \<Rightarrow> (request list \<Rightarrow> node \<Rightarrow> (string \<rightharpoonup> container_body)) \<Rightarrow> bool" where
  "engine_names h view \<longleftrightarrow> (\<forall>rs call t r t'. h_api h rs call t = (r, t') \<longrightarrow>
     view (rs @ [Api call]) t' = (case r of Inl _ \<Rightarrow> view rs t | Inr _ \<Rightarrow> names_after call (view rs t)))"

definition containers :: "(request list \<Rightarrow> node \<Rightarrow> (string \<rightharpoonup> container_body)) \<Rightarrow> world \<Rightarrow> (string \<rightharpoonup> container_body)" where
  "containers view w = view (w_requests w) (w_root w)"

lemma api_containers:
  assumes "engine_names h view" "api h call w = (r, w')"
  shows "\<exists>x. r = Inr x \<and> containers view w' =
    (case x of Inl _ \<Rightarrow> containers view w | Inr _ \<Rightarrow> names_after call (containers view w)) \<and>
    w_requests w' = w_requests w @ [Api call] \<and> h_api h (w_requests w) call (w_root w) = (x, w_root w')"
proof -
  obtain x t where a: "h_api h (w_requests w) call (w_root w) = (x, t)" by (metis surj_pair)
  have "r = Inr x" "w_requests w' = w_requests w @ [Api call]" "w_root w' = t"
    using assms(2) by (auto simp: api_def perform_def a set_root_def)
  then show ?thesis using assms(1) a unfolding engine_names_def containers_def by metis
qed

text \<open>The calls made since a world, and whether the last of them was refused.\<close>

definition refused_last :: "host \<Rightarrow> world \<Rightarrow> api_call list \<Rightarrow> api_call \<Rightarrow> world \<Rightarrow> bool" where
  "refused_last h w calls call w' \<longleftrightarrow> w_requests w' = w_requests w @ map Api (calls @ [call]) \<and>
     (\<exists>e t. h_api h (w_requests w @ map Api calls) call t = (Inl e, w_root w'))"

text \<open>C21: replacing a container keeps exactly one server container. On success the name belongs to
  the new container, and the old one is gone unless its removal was refused. On an error the old
  container has its own name, and no other container of the two exists, except when Docker
  refused both the creation and, as the last call, the renaming back: then the old container is
  still there under the name it was moved to. Containers of other servers are never touched.\<close>

theorem replacement_keeps_container:
  assumes "engine_names (dl_host lib) view" "containers view w sid = Some old"
    and "containers view w (stale_name sid uuid) = None"
    and "replace_stale_container lib uuid sid body w = (r, w')"
  shows "(case r of
      Inr _ \<Rightarrow> containers view w' sid = Some body \<and> (containers view w' (stale_name sid uuid) = None \<or>
        refused_last (dl_host lib) w [RenameContainer sid (stale_name sid uuid), CreateContainer sid body]
          (RemoveContainer (stale_name sid uuid)) w')
    | Inl _ \<Rightarrow> containers view w' sid = Some old \<and> containers view w' (stale_name sid uuid) = None \<or>
        containers view w' sid = None \<and> containers view w' (stale_name sid uuid) = Some old \<and>
        (\<exists>w1. refused_last (dl_host lib) w [RenameContainer sid (stale_name sid uuid)] (CreateContainer sid body) w1) \<and>
        refused_last (dl_host lib) w [RenameContainer sid (stale_name sid uuid), CreateContainer sid body]
          (RenameContainer (stale_name sid uuid) sid) w') \<and>
    (\<forall>other. other \<noteq> sid \<longrightarrow> other \<noteq> stale_name sid uuid \<longrightarrow> containers view w' other = containers view w other)"
proof -
  let ?h = "dl_host lib" and ?stale = "stale_name sid uuid"
  have ne: "?stale \<noteq> sid" by (simp add: stale_name_def)
  note run = replace_stale_container_def Let_def io_bind_def api_result_def io_lift_def io_fail_def io_return_def
  obtain r1 w1 where a1: "api ?h (RenameContainer sid ?stale) w = (r1, w1)" by (metis surj_pair)
  from api_containers [OF assms(1) a1] obtain x1 where x1: "r1 = Inr x1" "containers view w1 = (case x1 of
      Inl _ \<Rightarrow> containers view w | Inr _ \<Rightarrow> names_after (RenameContainer sid ?stale) (containers view w))"
    "w_requests w1 = w_requests w @ [Api (RenameContainer sid ?stale)]" by blast
  show ?thesis
  proof (cases x1)
    case (Inl e)
    then have "w' = w1" "\<exists>e. r = Inl e" using assms(4) by (auto simp: run a1 x1(1))
    then show ?thesis using x1(2) Inl assms(2,3) by auto
  next
    case (Inr u1)
    have v1: "containers view w1 = ((containers view w)(sid := None))(?stale \<mapsto> old)"
      using x1(2) Inr assms(2) by simp
    obtain r2 w2 where a2: "api ?h (CreateContainer sid body) w1 = (r2, w2)" by (metis surj_pair)
    from api_containers [OF assms(1) a2] obtain x2 where x2: "r2 = Inr x2" "containers view w2 = (case x2 of
        Inl _ \<Rightarrow> containers view w1 | Inr _ \<Rightarrow> names_after (CreateContainer sid body) (containers view w1))"
      "w_requests w2 = w_requests w1 @ [Api (CreateContainer sid body)]"
      "h_api ?h (w_requests w1) (CreateContainer sid body) (w_root w1) = (x2, w_root w2)" by blast
    show ?thesis
    proof (cases x2)
      case (Inl e2)
      obtain r3 w3 where a3: "api ?h (RenameContainer ?stale sid) w2 = (r3, w3)" by (metis surj_pair)
      from api_containers [OF assms(1) a3] obtain x3 where x3: "r3 = Inr x3" "containers view w3 = (case x3 of
          Inl _ \<Rightarrow> containers view w2 | Inr _ \<Rightarrow> names_after (RenameContainer ?stale sid) (containers view w2))"
        "w_requests w3 = w_requests w2 @ [Api (RenameContainer ?stale sid)]"
        "h_api ?h (w_requests w2) (RenameContainer ?stale sid) (w_root w2) = (x3, w_root w3)" by blast
      have o: "w' = w3" "\<exists>e. r = Inl e"
        using assms(4) Inr Inl by (auto simp: run a1 x1(1) a2 x2(1) a3 x3(1) split: sum.splits)
      have "refused_last ?h w [RenameContainer sid ?stale] (CreateContainer sid body) w2"
        using x2(3,4) x1(3) Inl by (auto simp: refused_last_def)
      moreover have "refused_last ?h w [RenameContainer sid ?stale, CreateContainer sid body] (RenameContainer ?stale sid) w3"
        if "x3 = Inl e3" for e3
        using x3(3,4) x2(3) x1(3) that by (auto simp: refused_last_def)
      ultimately show ?thesis
        using x3(2) x2(2) Inl v1 ne o by (cases x3) auto
    next
      case (Inr u2)
      obtain r3 w3 where a3: "api ?h (RemoveContainer ?stale) w2 = (r3, w3)" by (metis surj_pair)
      from api_containers [OF assms(1) a3] obtain x3 where x3: "r3 = Inr x3" "containers view w3 = (case x3 of
          Inl _ \<Rightarrow> containers view w2 | Inr _ \<Rightarrow> names_after (RemoveContainer ?stale) (containers view w2))"
        "w_requests w3 = w_requests w2 @ [Api (RemoveContainer ?stale)]"
        "h_api ?h (w_requests w2) (RemoveContainer ?stale) (w_root w2) = (x3, w_root w3)" by blast
      have "w' = w3" "r = Inr ()"
        using assms(4) \<open>x1 = Inr u1\<close> Inr by (auto simp: run a1 x1(1) a2 x2(1) a3 x3(1))
      moreover have "refused_last ?h w [RenameContainer sid ?stale, CreateContainer sid body] (RemoveContainer ?stale) w3"
        if "x3 = Inl e3" for e3
        using x3(3,4) x2(3) x1(3) that by (auto simp: refused_last_def)
      ultimately show ?thesis
        using x3(2) x2(2) Inr v1 ne by (cases x3) auto
    qed
  qed
qed

text \<open>An engine for examples: it refuses every creation, and everything else succeeds.\<close>

definition no_create_host :: host where
  "no_create_host =
     \<lparr> h_spawn = (\<lambda>_ _ t. (Inr \<lparr> exit_code = Some 0, proc_stdout = [], proc_stderr = [] \<rparr>, t)),
       h_exec = (\<lambda>_ _ _ t. (Ok [], t)),
       h_api = (\<lambda>_ call t. (case call of CreateContainer _ _ \<Rightarrow> Inl (DockerStatus 500 []) | _ \<Rightarrow> Inr (), t)),
       h_inspect = (\<lambda>_ _. Inl (DockerOther [])) \<rparr>"

definition no_create_view :: "container_body \<Rightarrow> request list \<Rightarrow> node \<Rightarrow> (string \<rightharpoonup> container_body)" where
  "no_create_view old rs t =
     foldl (\<lambda>v r. case r of Api call \<Rightarrow> (case call of CreateContainer _ _ \<Rightarrow> v | _ \<Rightarrow> names_after call v) | _ \<Rightarrow> v)
       [''s'' \<mapsto> old] rs"

definition bare_lib :: "host \<Rightarrow> docker_lib" where
  "bare_lib h =
     \<lparr> dl_env = (\<lambda>_. None), dl_host = h, dl_config = line_formats_only, dl_dir_len = 0, dl_arrange = (\<lambda>x. x),
       dl_pause = io_return (), dl_network = (\<lambda>_. Err (Ext [])), dl_threads = 4, dl_nanos = (\<lambda>p. p),
       dl_free_tcp = (\<lambda>_. True), dl_free_udp = (\<lambda>_. True), dl_error_text = (\<lambda>_. []), dl_readable = (\<lambda>_. True),
       dl_now = (\<lambda>_. 0), dl_finished = (\<lambda>_ _. False) \<rparr>"

lemma no_create_engine: "engine_names no_create_host (no_create_view old)"
  by (auto simp: engine_names_def no_create_host_def no_create_view_def split: api_call.splits)

theorem replacement_keeps_container_witness:
  "\<forall>old body. case replace_stale_container (bare_lib no_create_host) ''1'' ''s'' body
       \<lparr> w_root = Dir [], w_cwd = [], w_faults = [], w_trace = [], w_requests = [], w_objects = [] \<rparr> of
     (r, w') \<Rightarrow> \<not> is_ok r \<and> containers (no_create_view old) w' ''s'' = Some old \<and>
       containers (no_create_view old) w' ''s-stale-1'' = None"
proof (intro allI)
  fix old body
  let ?w = "\<lparr> w_root = Dir [], w_cwd = [], w_faults = [], w_trace = [], w_requests = [], w_objects = [] \<rparr>"
  obtain r w' where r: "replace_stale_container (bare_lib no_create_host) ''1'' ''s'' body ?w = (r, w')"
    by (metis surj_pair)
  have e: "\<not> is_ok r"
    using arg_cong [OF r, of fst]
    by (auto simp: replace_stale_container_def bare_lib_def Let_def io_bind_def api_def perform_def no_create_host_def
        api_result_def io_lift_def io_fail_def)
  have 1: "engine_names (dl_host (bare_lib no_create_host)) (no_create_view old)"
    by (simp add: bare_lib_def no_create_engine)
  have 2: "containers (no_create_view old) ?w ''s'' = Some old"
    "containers (no_create_view old) ?w (stale_name ''s'' ''1'') = None"
    by (simp_all add: containers_def no_create_view_def stale_name_def)
  have "\<not> refused_last (dl_host (bare_lib no_create_host)) ?w cs (RenameContainer a b) w'" for cs a b
    by (simp add: refused_last_def bare_lib_def no_create_host_def)
  then show "case replace_stale_container (bare_lib no_create_host) ''1'' ''s'' body ?w of
     (r, w') \<Rightarrow> \<not> is_ok r \<and> containers (no_create_view old) w' ''s'' = Some old \<and>
       containers (no_create_view old) w' ''s-stale-1'' = None"
    using replacement_keeps_container [OF 1 2 r] e by (cases r) (simp_all add: r stale_name_def)
qed

subsection \<open>Recreating what was built\<close>

lemma server_command_current: "Option.bind (server_command spec) legacy_runtime_command = None"
  by (auto simp: server_command_def runtime_server_command_def split: option.split)

lemma repair_built_mounts:
  assumes "hc_mounts hc = Some (server_mounts host dpath)"
  shows "\<exists>n. n \<noteq> 0 \<and> repair_managed_mounts hc [dpath, HOME_CONTAINER_PATH, DATA_CONTAINER_PATH] (path_string host') =
    (n, hc\<lparr> hc_mounts := Some (server_mounts host' dpath) \<rparr>)"
proof -
  let ?ts = "[dpath, HOME_CONTAINER_PATH, DATA_CONTAINER_PATH]"
  have t: "set (mount_targets dpath) = set ?ts" using mount_targets_props [of dpath] by simp
  have m: "\<And>m. m \<in> set (server_mounts host dpath) \<Longrightarrow> is_managed_mount ?ts m"
    unfolding server_mounts_def is_managed_mount_def set_map t by auto
  then have "filter (is_managed_mount ?ts) (server_mounts host dpath) = server_mounts host dpath" by simp
  moreover have "server_mounts host dpath \<noteq> []" using t by (auto simp: server_mounts_def)
  moreover have "map (\<lambda>m. if is_managed_mount ?ts m then m\<lparr> mount_from := Some (path_string host') \<rparr> else m)
      (server_mounts host dpath) = map (\<lambda>m. m\<lparr> mount_from := Some (path_string host') \<rparr>) (server_mounts host dpath)"
    using m by simp
  moreover have "map (\<lambda>m. m\<lparr> mount_from := Some (path_string host') \<rparr>) (server_mounts host dpath) = server_mounts host' dpath"
    by (simp add: server_mounts_def)
  ultimately show ?thesis by (simp add: repair_managed_mounts_def assms)
qed

lemma ensure_runtime_tmpfs_again:
  "ensure_runtime_tmpfs ((ensure_runtime_tmpfs hc env)\<lparr> hc_mounts := ms \<rparr>) env =
   ensure_runtime_tmpfs (hc\<lparr> hc_mounts := ms \<rparr>) env"
  by (simp add: ensure_runtime_tmpfs_def update_conv')

text \<open>C19: recreating a container that was built for a server, whose report says what was asked for,
  asks Docker for exactly the container that would be built for the current directory of the
  server: it is recognised as the server's own by its labels, every one of its mounts (at its
  data path and the two standard paths) is led to the current directory, and its user, limits,
  labels, ports, network, command, environment and runtime directory are kept.\<close>

theorem recreation_rebuilds_container:
  assumes "build_container threads nanos free spec host network dpath hp = Ok body"
    and "h_inspect (dl_host lib) (w_requests w) (cs_server_id spec) = Inr info"
    and "ci_config info = Some (cb_config body)" "ci_host info = cb_host body" "ci_networks info = Some [network]"
    and "server_dir (dl_env lib) (cs_server_id spec) = Ok host'"
  shows "\<exists>body'. build_container threads nanos free spec host' network dpath hp = Ok body' \<and>
    recreate_with_fresh_bind_mounts lib uuid (cs_server_id spec) w =
      replace_stale_container lib uuid (cs_server_id spec) body'
        (set_root (w_root w) (w\<lparr> w_requests := w_requests w @ [Api (InspectContainer (cs_server_id spec))] \<rparr>))"
proof -
  obtain e bs c where p: "server_ports free spec hp = Ok (e, bs)"
    "pinned_cpu_set threads (cs_cpu_pinned_threads spec) = Ok c"
    using assms(1) by (auto simp: build_container_def res_simps Let_def)
  let ?env = "runtime_environment (cs_env spec)"
  define config where "config = cb_config body"
  define hc where "hc = ensure_runtime_tmpfs (server_host_config nanos spec network (server_mounts host dpath) c bs) ?env"
  have body: "body = \<lparr> cb_config = config, cb_host = Some hc, cb_networks = Some [(network, [cs_server_id spec])] \<rparr>"
    "cc_cmd config = server_command spec" "cc_env config = Some ?env"
    "cc_labels config = Some (server_labels spec network dpath)"
    using assms(1) by (auto simp: config_def build_container_def p hc_def Let_def)
  have own: "map_of (server_labels spec network dpath) ''agapornis.server_id'' = Some (cs_server_id spec)"
    "map_of (server_labels spec network dpath) ''agapornis.data_path'' = Some dpath"
    by (simp_all add: server_labels_def Let_def)
  have "hc_mounts hc = Some (server_mounts host dpath)" by (simp add: hc_def server_host_config_def)
  then obtain n where n: "n \<noteq> 0"
    "repair_managed_mounts hc [dpath, HOME_CONTAINER_PATH, DATA_CONTAINER_PATH] (path_string host') =
      (n, hc\<lparr> hc_mounts := Some (server_mounts host' dpath) \<rparr>)"
    using repair_built_mounts by blast
  define body' where "body' = create_body config (hc\<lparr> hc_mounts := Some (server_mounts host' dpath) \<rparr>)
    (Some [(network, [cs_server_id spec])])"
  have "config\<lparr> cc_cmd := server_command spec, cc_env := Some ?env \<rparr> = config"
    using body(2,3) by (metis container_config.surjective container_config.update_convs(5,7))
  then have "build_container threads nanos free spec host' network dpath hp = Ok body'"
    using assms(1) body
    by (simp add: body'_def create_body_def hc_def ensure_runtime_tmpfs_again runtime_environment_idem
        repair_legacy_runtime_command_def server_command_current build_container_def p Let_def
        server_host_config_def manual_restart_policy_def ensure_runtime_tmpfs_def)
  moreover have "recreate_with_fresh_bind_mounts lib uuid (cs_server_id spec) w =
      replace_stale_container lib uuid (cs_server_id spec) body'
        (set_root (w_root w) (w\<lparr> w_requests := w_requests w @ [Api (InspectContainer (cs_server_id spec))] \<rparr>))"
    using assms(2-) n(1)
    by (simp add: recreate_with_fresh_bind_mounts_def typed_inspect_def api_inspect_def perform_def io_bind_def
        api_result_def io_lift_def the_config_def owned_labels_def body own n(2) reusable_networks_def guard_io_def
        io_return_def body'_def set_root_def Let_def)
  ultimately show ?thesis by blast
qed

definition moved_spec :: create_spec where
  "moved_spec = sample_spec\<lparr> cs_internal_port := [], cs_env := [''A=1'', ''XDG_RUNTIME_DIR=/run/game''],
     cs_network_owner_id := ''owner'' \<rparr>"

theorem recreation_rebuilds_container_witness:
  "\<exists>body body'. build_container 4 (\<lambda>p. p) (\<lambda>_. True) moved_spec [RootDir, Normal ''old''] ''net'' ''/srv'' 0 = Ok body \<and>
    build_container 4 (\<lambda>p. p) (\<lambda>_. True) moved_spec [RootDir, Normal ''new'', Normal ''test-server''] ''net'' ''/srv'' 0 = Ok body' \<and>
    (\<exists>lib w. recreate_with_fresh_bind_mounts lib ''1'' ''test-server'' w =
      replace_stale_container lib ''1'' ''test-server'' body'
        (set_root (w_root w) (w\<lparr> w_requests := w_requests w @ [Api (InspectContainer ''test-server'')] \<rparr>)))"
proof -
  have t: "trim [] = []" by code_simp
  have "database_port (cs_env moved_spec) = None" by code_simp
  then have "server_ports (\<lambda>_. True) moved_spec 0 = Ok ([], [])"
    by (simp add: server_ports_def moved_spec_def sample_spec_def effective_internal_port_def t)
  moreover have "pinned_cpu_set 4 (cs_cpu_pinned_threads moved_spec) = Ok None" by code_simp
  ultimately obtain body where b: "build_container 4 (\<lambda>p. p) (\<lambda>_. True) moved_spec [RootDir, Normal ''old''] ''net'' ''/srv'' 0 = Ok body"
    by (simp add: build_container_def Let_def)
  let ?info = "\<lparr> ci_config = Some (cb_config body), ci_host = cb_host body, ci_running = Some False,
    ci_networks = Some [''net''], ci_json = JNull \<rparr>"
  let ?lib = "(bare_lib (no_create_host\<lparr> h_inspect := (\<lambda>_ _. Inr ?info) \<rparr>))\<lparr> dl_env := (\<lambda>k. if k = ''AGAPORNIS_SERVERS_DIR'' then Some ''/new'' else None) \<rparr>"
  have sid: "cs_server_id moved_spec = ''test-server''" by (simp add: moved_spec_def sample_spec_def)
  have d: "server_dir (dl_env ?lib) (cs_server_id moved_spec) = Ok [RootDir, Normal ''new'', Normal ''test-server'']"
    unfolding sid by (simp del: One_nat_def) code_simp
  let ?w = "\<lparr> w_root = Dir [], w_cwd = [], w_faults = [], w_trace = [], w_requests = [], w_objects = [] \<rparr>"
  have "h_inspect (dl_host ?lib) (w_requests ?w) (cs_server_id moved_spec) = Inr ?info" by (simp add: bare_lib_def)
  from recreation_rebuilds_container [OF b this _ _ _ d, where uuid = "''1''"]
  obtain body' where "build_container 4 (\<lambda>p. p) (\<lambda>_. True) moved_spec [RootDir, Normal ''new'', Normal ''test-server''] ''net'' ''/srv'' 0 = Ok body'"
    "recreate_with_fresh_bind_mounts ?lib ''1'' ''test-server'' ?w = replace_stale_container ?lib ''1'' ''test-server'' body'
        (set_root (w_root ?w) (?w\<lparr> w_requests := w_requests ?w @ [Api (InspectContainer ''test-server'')] \<rparr>))"
    unfolding sid by auto
  with b show ?thesis by (intro exI conjI)
qed

subsection \<open>Accepted port mappings\<close>

lemma validate_mappings_Ok:
  "validate_mappings ms exposed bindings hps = Ok (e, bs) \<Longrightarrow> exposed = map fst bindings \<Longrightarrow> distinct exposed \<Longrightarrow>
   distinct hps \<Longrightarrow>
   e = map fst bs \<and> distinct e \<and> distinct (map snd ms) \<and> set (map snd ms) \<inter> set hps = {} \<and>
   list_all (\<lambda>(i, hp). 1 \<le> hp \<and> hp \<le> 65535) ms \<and>
   map snd bs = map snd bindings @ map (\<lambda>(i, hp). Some [any_address (nat hp)]) ms"
proof (induction ms exposed bindings hps rule: validate_mappings.induct)
  case (2 internal hp ms exposed bindings hps)
  let ?n = "if CHR ''/'' \<in> set internal then internal else internal @ ''/tcp''"
  from "2.prems"(1) obtain num protocol port where
    h: "1 \<le> hp \<and> hp \<le> 65535" "hp \<notin> set hps" and
    s: "split_once (CHR ''/'') ?n = Some (num, protocol)" "parse_u16 num = Some port" and
    p: "\<not> (port = 0 \<or> protocol \<notin> {''tcp'', ''udp''})" and
    k: "nat_digits port @ ''/'' @ protocol \<notin> set (map fst bindings)" and
    r: "validate_mappings ms (exposed @ [nat_digits port @ ''/'' @ protocol])
      (bindings @ [(nat_digits port @ ''/'' @ protocol, Some [any_address (nat hp)])]) (hp # hps) = Ok (e, bs)"
    by (simp only: validate_mappings.simps Let_def split: if_splits option.splits prod.splits) auto
  show ?case
    using "2.IH" [OF _ refl s(1) refl s(2) p refl k r] "2.prems"(2-) h k by auto
qed auto

text \<open>Lemma: an accepted list of port mappings has 1 to 32 entries with distinct host ports between 1
  and 65535, distinct container ports, and exactly one binding per entry, on that host port.\<close>

theorem port_mappings_sound:
  assumes "validated_port_bindings ms = Ok (exposed, bindings)"
  shows "1 \<le> length ms \<and> length ms \<le> 32 \<and> distinct (map snd ms) \<and> list_all (\<lambda>(i, hp). 1 \<le> hp \<and> hp \<le> 65535) ms \<and>
    exposed = map fst bindings \<and> distinct exposed \<and>
    map snd bindings = map (\<lambda>(i, hp). Some [any_address (nat hp)]) ms"
proof -
  have l: "ms \<noteq> []" "length ms \<le> 32" "validate_mappings ms [] [] [] = Ok (exposed, bindings)"
    using assms by (auto simp: validated_port_bindings_def split: if_splits)
  from validate_mappings_Ok [OF l(3)] l(1,2) show ?thesis by (cases ms) auto
qed

theorem port_mappings_sound_witness:
  "\<exists>e b. validated_port_bindings [(''25565'', 30000), (''19132/udp'', 30001)] = Ok (e, b) \<and> distinct e \<and> length b = 2"
proof -
  have "parse_u16 ''25565'' = Some 25565" "parse_u16 ''19132'' = Some 19132"
    by (simp_all add: parse_u16_def parse_unsigned_def parse_digits_def is_digit_def digit_val_def u16_max_def)
  moreover have "split_once (CHR ''/'') ''25565/tcp'' = Some (''25565'', ''tcp'')"
    "split_once (CHR ''/'') ''19132/udp'' = Some (''19132'', ''udp'')" by code_simp+
  ultimately have "is_ok (validated_port_bindings [(''25565'', 30000), (''19132/udp'', 30001)])"
    by (simp add: validated_port_bindings_def Let_def)
  then obtain e b where eb: "validated_port_bindings [(''25565'', 30000), (''19132/udp'', 30001)] = Ok (e, b)"
    by (metis is_ok.simps(1) obj_sumE surj_pair)
  note p = port_mappings_sound [OF eb]
  have "distinct e" using p by blast
  moreover have "map snd b = [Some [any_address 30000], Some [any_address 30001]]" using p by simp
  then have "length (map snd b) = 2" by (simp only:) simp
  ultimately show ?thesis using eb by auto
qed

end
