(* ===== verification/Console_Attach.thy ===== *)
theory Console_Attach
  imports Agent Console_Decoder
begin

text \<open>
  @runtime/docker/console.rs@: console attachments that carry commands to a container's standard
  input, and commands run inside a container.  The attached stream and whether its reader
  has ended belong to the Docker engine.
\<close>

subsection \<open>Commands inside a container\<close>


definition EXEC_CAPTURE_LIMIT :: nat where "EXEC_CAPTURE_LIMIT = 8388608"

text \<open>The output with what fits appended, and whether anything was cut off.\<close>

definition append_exec_output :: "string \<Rightarrow> string \<Rightarrow> nat \<Rightarrow> bool \<times> string" where
  "append_exec_output output bytes remaining =
     (let len = min (length bytes) remaining in (len \<noteq> length bytes, output @ take len bytes))"

fun collect_exec :: "string \<Rightarrow> log_output res list \<Rightarrow> string \<Rightarrow> string \<Rightarrow> bool \<Rightarrow> (string \<times> string \<times> bool) res" where
  "collect_exec sid [] out err truncated = Ok (out, err, truncated)"
| "collect_exec sid (r # rs) out err truncated =
     (case r of
        Inl e \<Rightarrow> Err (Ctx (''read exec output from Docker container '' @ sid) e)
      | Inr (StdOut m) \<Rightarrow>
          (case append_exec_output out m (EXEC_CAPTURE_LIMIT - length err) of
             (over, out') \<Rightarrow> collect_exec sid rs out' err (truncated \<or> over))
      | Inr (Console m) \<Rightarrow>
          (case append_exec_output out m (EXEC_CAPTURE_LIMIT - length err) of
             (over, out') \<Rightarrow> collect_exec sid rs out' err (truncated \<or> over))
      | Inr (StdErr m) \<Rightarrow>
          (case append_exec_output err m (EXEC_CAPTURE_LIMIT - length out) of
             (over, err') \<Rightarrow> collect_exec sid rs out err' (truncated \<or> over))
      | Inr (StdIn _) \<Rightarrow> collect_exec sid rs out err truncated)"

text \<open>The result of a command from the attached output and the exit code the engine reports.\<close>

definition exec_result :: "string \<Rightarrow> log_output res list \<Rightarrow> int option res \<Rightarrow> string res" where
  "exec_result sid output exit =
     res_bind (collect_exec sid output [] [] False) (\<lambda>(out, err, truncated).
     res_bind (res_context (''inspect exec command in Docker container '' @ sid) exit) (\<lambda>code.
       let exit_code = (case code of Some c \<Rightarrow> c | None \<Rightarrow> - 1) in
       if truncated
       then Err (Bail (''command output exceeded the '' @ nat_digits EXEC_CAPTURE_LIMIT @ '' byte capture limit''))
       else if exit_code \<noteq> 0 then
         (let err_text = trim (from_utf8_lossy err); out_text = trim (from_utf8_lossy out);
              detail = (if err_text \<noteq> [] then err_text else if out_text \<noteq> [] then out_text
                        else ''command returned no output'') in
          Err (Bail (''command exited with status '' @ int_to_string exit_code @ '': '' @ detail)))
       else if valid_utf8 out then Ok out
       else Err (Ctx ''container command returned non-UTF-8 output'' (Io InvalidData))))"

subsection \<open>Attachments\<close>

definition detach_console :: "string \<Rightarrow> unit dm" where
  "detach_console sid = on_memory (\<lambda>a. a\<lparr> ag_bindings := removeAll sid (ag_bindings a) \<rparr>)"

definition create_console_binding :: "docker_lib \<Rightarrow> string \<Rightarrow> unit io" where
  "create_console_binding lib sid =
     io_bind (api (dl_host lib) (AttachContainer sid)) (\<lambda>r.
       io_lift (api_result (''attach to Docker container console '' @ sid) r))"

fun echo_attempts :: "docker_lib \<Rightarrow> string \<Rightarrow> nat \<Rightarrow> unit io" where
  "echo_attempts lib sid 0 = io_return ()"
| "echo_attempts lib sid (Suc n) =
     io_bind (io_try (container_exec (dl_host lib) sid ''stty -echo < /proc/1/fd/0'')) (\<lambda>r.
       case r of
         Inr _ \<Rightarrow> io_return ()
       | Inl _ \<Rightarrow> if n = 0 then io_return ()
                  else then_io (io_ignore (dl_pause lib)) (echo_attempts lib sid n))"

definition MAX_ECHO_ATTEMPTS :: nat where "MAX_ECHO_ATTEMPTS = 5"

definition disable_console_echo :: "docker_lib \<Rightarrow> string \<Rightarrow> unit io" where
  "disable_console_echo lib sid =
     io_bind (io_try (dm_inspect lib sid)) (\<lambda>r.
       if (case r of Inr j \<Rightarrow> Option.bind (pointer [''Config'', ''Tty''] j) as_bool = Some False | Inl _ \<Rightarrow> False)
       then io_return () else echo_attempts lib sid MAX_ECHO_ATTEMPTS)"

definition create_binding_without_echo :: "docker_lib \<Rightarrow> string \<Rightarrow> unit io" where
  "create_binding_without_echo lib sid = then_io (create_console_binding lib sid) (disable_console_echo lib sid)"

definition insert_binding :: "string \<Rightarrow> unit dm" where
  "insert_binding sid = on_memory (\<lambda>a. a\<lparr> ag_bindings := sid # removeAll sid (ag_bindings a) \<rparr>)"

definition get_or_create_console_binding :: "docker_lib \<Rightarrow> string \<Rightarrow> unit dm" where
  "get_or_create_console_binding lib sid a =
     (if sid \<in> set (ag_bindings a) then (Ok (), a)
      else dm_then (on_world (create_binding_without_echo lib sid)) (insert_binding sid) a)"

definition start_with_console :: "docker_lib \<Rightarrow> string \<Rightarrow> unit dm" where
  "start_with_console lib sid =
     from_res (validate_id sid) (\<lambda>_.
     dm_then (detach_console sid)
     (io_bind (on_world (api (dl_host lib) (StartContainer sid))) (\<lambda>r.
      from_res (api_result (''start Docker container '' @ sid) r) (\<lambda>_.
      dm_then (on_world (create_binding_without_echo lib sid)) (insert_binding sid)))))"

subsection \<open>Sending a command\<close>

definition attachment_closed :: "docker_lib \<Rightarrow> string \<Rightarrow> agent \<Rightarrow> bool" where
  "attachment_closed lib sid a = dl_finished lib (w_requests (ag_world a)) sid"

definition write_console_line :: "docker_lib \<Rightarrow> string \<Rightarrow> string \<Rightarrow> unit dm" where
  "write_console_line lib sid line a =
     (if attachment_closed lib sid a then (Err (Bail ''container console attachment is closed''), a)
      else io_bind (on_world (api (dl_host lib) (WriteConsole sid line))) (\<lambda>r.
        io_lift (api_result ''write to container console attachment'' r)) a)"

definition command_line :: "string \<Rightarrow> string" where
  "command_line command = rev (dropWhile (\<lambda>c. c = CHR 0x0D \<or> c = CHR 0x0A) (rev command)) @ [CHR 0x0A]"

definition json_flag :: "string list \<Rightarrow> json \<Rightarrow> bool" where
  "json_flag path j \<longleftrightarrow> Option.bind (pointer path j) as_bool = Some True"

definition send_command :: "docker_lib \<Rightarrow> string \<Rightarrow> string \<Rightarrow> unit dm" where
  "send_command lib sid command =
     from_res (validate_id sid) (\<lambda>_.
     io_bind (on_world (dm_inspect lib sid)) (\<lambda>inspect.
     dm_then (guard_io (is_running inspect) ''server container is not running'')
     (dm_then (guard_io (json_flag [''Config'', ''OpenStdin''] inspect)
        ''server container was created without persistent stdin; recreate it before sending console commands'')
     (dm_then (guard_io (\<not> json_flag [''Config'', ''StdinOnce''] inspect)
        ''legacy container has StdinOnce enabled; recreate it with OpenStdin=true and StdinOnce=false before sending console commands'')
     (dm_then (get_or_create_console_binding lib sid)
     (dm_then (\<lambda>a. if attachment_closed lib sid a
                then io_ctx ''reconnect finished container console attachment''
                  (on_world (create_binding_without_echo lib sid)) a
                else (Ok (), a))
     (io_bind (io_try (write_console_line lib sid (command_line command))) (\<lambda>r.
        case r of
          Inr _ \<Rightarrow> io_return ()
        | Inl first_error \<Rightarrow>
            dm_then (io_ctx (''reconnect console after write failed: '' @ dl_error_text lib first_error)
              (on_world (create_binding_without_echo lib sid)))
            (io_ctx ''write console command after reconnect'' (write_console_line lib sid (command_line command)))))))))))"

subsection \<open>Bounds of captured output\<close>

definition stdout_part :: "log_output res \<Rightarrow> string" where
  "stdout_part r = (case r of Inr (StdOut m) \<Rightarrow> m | Inr (Console m) \<Rightarrow> m | _ \<Rightarrow> [])"

lemma append_exec_outputD:
  "append_exec_output out m n = (over, out') \<Longrightarrow> length out' \<le> length out + n \<and> (\<not> over \<longrightarrow> out' = out @ m)"
  by (auto simp: append_exec_output_def Let_def)

lemma collect_exec_complete:
  "collect_exec sid rs out err tr = Ok (out', err', tr') \<Longrightarrow> \<not> tr' \<Longrightarrow>
   \<not> tr \<and> out' = out @ concat (map stdout_part rs)"
proof (induction sid rs out err tr rule: collect_exec.induct)
  case (2 sid r rs out err tr)
  show ?case
  proof (cases r)
    case (Inl e)
    then show ?thesis using 2 by simp
  next
    case (Inr x)
    show ?thesis
    proof (cases x)
      case (StdOut m)
      obtain over o' where a: "append_exec_output out m (EXEC_CAPTURE_LIMIT - length err) = (over, o')" by (metis surj_pair)
      have "collect_exec sid rs o' err (tr \<or> over) = Ok (out', err', tr')" using 2(5) by (simp add: Inr StdOut a)
      from "2.IH"(1) [OF Inr StdOut a [symmetric] this 2(6)] show ?thesis
        using append_exec_outputD [OF a] by (simp add: Inr StdOut stdout_part_def)
    next
      case (Console m)
      obtain over o' where a: "append_exec_output out m (EXEC_CAPTURE_LIMIT - length err) = (over, o')" by (metis surj_pair)
      have "collect_exec sid rs o' err (tr \<or> over) = Ok (out', err', tr')" using 2(5) by (simp add: Inr Console a)
      from "2.IH"(3) [OF Inr Console a [symmetric] this 2(6)] show ?thesis
        using append_exec_outputD [OF a] by (simp add: Inr Console stdout_part_def)
    next
      case (StdErr m)
      obtain over o' where a: "append_exec_output err m (EXEC_CAPTURE_LIMIT - length out) = (over, o')" by (metis surj_pair)
      have "collect_exec sid rs out o' (tr \<or> over) = Ok (out', err', tr')" using 2(5) by (simp add: Inr StdErr a)
      from "2.IH"(2) [OF Inr StdErr a [symmetric] this 2(6)] show ?thesis
        by (simp add: Inr StdErr stdout_part_def)
    next
      case (StdIn m)
      then have "collect_exec sid rs out err tr = Ok (out', err', tr')" using 2(5) by (simp add: Inr)
      from "2.IH"(4) [OF Inr StdIn this 2(6)] show ?thesis by (simp add: Inr StdIn stdout_part_def)
    qed
  qed
qed simp

text \<open>Lemma: a command run inside a container succeeds only with exit code zero, and then the result
  is its complete standard output and valid UTF-8: a cut output is an error, never a result.\<close>

theorem exec_result_complete:
  assumes "exec_result sid output exit = Ok text"
  shows "exit = Ok (Some 0) \<and> valid_utf8 text \<and> text = concat (map stdout_part output)"
proof -
  obtain out err tr code where c: "collect_exec sid output [] [] False = Ok (out, err, tr)" "exit = Ok code"
    using assms by (auto simp: exec_result_def res_simps)
  have "\<not> tr \<and> (case code of Some c \<Rightarrow> c | None \<Rightarrow> - 1) = 0 \<and> valid_utf8 out \<and> text = out"
    using assms by (auto simp: exec_result_def c Let_def split: if_splits)
  moreover from this have "code = Some 0" by (auto split: option.splits)
  ultimately show ?thesis using collect_exec_complete [OF c(1)] c(2) by auto
qed

lemma exec_two_streams:
  "exec_result ''s'' [Ok (StdOut ''a''), Ok (StdErr ''x''), Ok (Console ''b'')] (Ok (Some 0)) = Ok ''ab''"
proof -
  have "valid_utf8 ''ab''" by code_simp
  then show ?thesis by (simp add: exec_result_def append_exec_output_def EXEC_CAPTURE_LIMIT_def)
qed

theorem exec_result_complete_witness:
  "''ab'' = concat (map stdout_part [Ok (StdOut ''a''), Ok (StdErr ''x''), Ok (Console ''b'')])"
  using exec_result_complete [OF exec_two_streams] by blast

text \<open>Lemma: the capture limit does not bound what is captured: the budget of a stream subtracts only
  what the other one holds, so a command that prints in pieces is captured whole, however much
  it prints.\<close>

theorem exec_capture_unbounded:
  "\<exists>output text. exec_result sid output (Ok (Some 0)) = Ok text \<and> length text = n"
proof (intro exI conjI)
  have c: "collect_exec sid (replicate k (Ok (StdOut ''a''))) out [] False = Ok (out @ replicate k (CHR ''a''), [], False)" for k out
    by (induction k arbitrary: out)
      (simp_all add: append_exec_output_def EXEC_CAPTURE_LIMIT_def replicate_app_Cons_same)
  have v: "valid_utf8 (replicate k (CHR ''a''))" for k
  proof (induction k)
    case (Suc k)
    then show ?case by (subst valid_utf8.simps) simp
  qed simp
  show "exec_result sid (replicate n (Ok (StdOut ''a''))) (Ok (Some 0)) = Ok (replicate n (CHR ''a''))"
    by (simp add: exec_result_def c v)
qed simp

end
