(* ===== verification/Lifecycle.thy ===== *)
theory Lifecycle
  imports Recreation Console_Attach
begin

text \<open>
  @runtime/docker/lifecycle.rs@: starting, stopping, killing, restarting, recreating, deleting and
  resizing a server, and the configuration and port updates of @recreation.rs@, which stop
  and start it around the replacement of its container.
\<close>

subsection \<open>Steps\<close>

definition stale_docker_desktop_bind_message :: "string \<Rightarrow> bool" where
  "stale_docker_desktop_bind_message message =
     (let m = to_ascii_lowercase message in
      str_contains ''docker-desktop-bind-mounts'' m \<and> str_contains ''no such file or directory'' m \<and>
      (str_contains ''error mounting'' m \<or> str_contains ''mount src='' m))"

definition stale_docker_desktop_bind_error :: "docker_lib \<Rightarrow> error \<Rightarrow> bool" where
  "stale_docker_desktop_bind_error lib e = stale_docker_desktop_bind_message (dl_error_text lib e)"

definition apply_manual_restart_policy :: "docker_lib \<Rightarrow> string \<Rightarrow> unit io" where
  "apply_manual_restart_policy lib sid =
     io_bind (api (dl_host lib) (UpdateContainer sid (no_update\<lparr> cu_restart := Some manual_restart_policy \<rparr>))) (\<lambda>r.
       io_lift (api_result (''disable automatic restart for Docker container '' @ sid) r))"

definition default_network :: "environment \<Rightarrow> string" where
  "default_network env = (case env ''AGAPORNIS_DOCKER_NETWORK'' of Some v \<Rightarrow> v | None \<Rightarrow> ''agapornis_ntw'')"

definition apply_server_config :: "docker_lib \<Rightarrow> string \<Rightarrow> unit io" where
  "apply_server_config lib sid =
     from_res (config_files_path (dl_env lib) sid) (\<lambda>metadata.
     io_bind (io_try (fs_read_to_string metadata)) (\<lambda>r.
       case r of
         Inl e \<Rightarrow> if e = Io NotFound then io_return () else io_fail e
       | Inr desc \<Rightarrow>
           if trim desc = [] \<or> trim desc = ''{}'' then io_return ()
           else
             io_bind (dm_inspect lib sid) (\<lambda>inspect.
             let network = (case label_text ''agapornis.network'' inspect of
                              Some n \<Rightarrow> n | None \<Rightarrow> default_network (dl_env lib)) in
             from_res (docker_network_interface (dl_network lib) network) (\<lambda>iface.
             io_bind (dm_root lib sid) (\<lambda>(root, _).
               apply_config_files (dl_config lib) (dl_dir_len lib) (dl_arrange lib) root desc iface)))))"

definition force_graceful_stop :: "docker_lib \<Rightarrow> string \<Rightarrow> unit io" where
  "force_graceful_stop lib sid =
     io_bind (api (dl_host lib) (StopContainer sid 10)) (\<lambda>r.
       case r of
         Inr _ \<Rightarrow> io_return ()
       | Inl e \<Rightarrow> if docker_status e = Some 304 then io_return ()
                  else io_fail (Ctx (''stop Docker container '' @ sid) (docker_error_value e)))"

definition forget_startup :: "string \<Rightarrow> unit dm" where
  "forget_startup sid = on_memory (\<lambda>a. a\<lparr> ag_ready := removeAll sid (ag_ready a),
     ag_checks := (ag_checks a)(sid := None) \<rparr>)"

definition clear_stopped_runtime_state :: "string \<Rightarrow> unit dm" where
  "clear_stopped_runtime_state sid = dm_then (detach_console sid) (forget_startup sid)"

text \<open>
  The loop looks, then sleeps for a tenth of a second, until its deadline; as every sleep brings
  the deadline nearer by at least that much, as many turns as the time left has tenths, and
  one more, are enough.
\<close>

fun wait_loop :: "docker_lib \<Rightarrow> string \<Rightarrow> nat \<Rightarrow> nat \<Rightarrow> bool io" where
  "wait_loop lib sid deadline 0 = io_return False"
| "wait_loop lib sid deadline (Suc n) =
     io_bind (dm_inspect lib sid) (\<lambda>inspect w.
       if \<not> is_running inspect then (Ok True, w)
       else if deadline \<le> dl_now lib (w_requests w) then (Ok False, w)
       else then_io (io_ignore (dl_pause lib)) (wait_loop lib sid deadline n) w)"

definition tenth :: nat where "tenth = 100000000"

definition wait_until_stopped :: "docker_lib \<Rightarrow> string \<Rightarrow> nat \<Rightarrow> bool io" where
  "wait_until_stopped lib sid timeout w =
     wait_loop lib sid (dl_now lib (w_requests w) + timeout) (Suc (Suc (timeout div tenth))) w"

definition ensure_disk :: "docker_lib \<Rightarrow> string \<Rightarrow> unit dm" where
  "ensure_disk lib sid =
     io_bind (disk_force lib sid) (\<lambda>(usage, limit).
       if limit > 0 \<and> usage > limit
       then dm_then (on_memory (\<lambda>a. a\<lparr> ag_protection := mark sid ''disk-limit-exceeded'' (ag_protection a) \<rparr>))
         (io_fail (Bail (''Server disk limit exceeded ('' @ int_to_string usage @ '' / '' @ int_to_string limit @
            '' bytes). Delete files before starting the server.'')))
       else on_memory (\<lambda>a. a\<lparr> ag_protection := clear_disk sid (ag_protection a) \<rparr>))"

definition begin_manual_recovery :: "docker_lib \<Rightarrow> string \<Rightarrow> unit dm" where
  "begin_manual_recovery lib sid = on_memory (\<lambda>a.
     a\<lparr> ag_protection := manual_recovery sid (agent_clock lib a) (ag_protection a) \<rparr>)"

subsection \<open>Starting and stopping\<close>

definition needs_repair :: "json \<Rightarrow> bool" where
  "needs_repair inspect \<longleftrightarrow>
     (case Option.bind (pointer [''State'', ''Error''] inspect) as_str of
        Some m \<Rightarrow> stale_docker_desktop_bind_message m | None \<Rightarrow> False) \<or>
     (\<not> is_running inspect \<and> \<not> runtime_configuration_ready inspect) \<or>
     (\<not> is_running inspect \<and> runtime_launcher_repair_needed inspect)"

definition start_server :: "docker_lib \<Rightarrow> string \<Rightarrow> string \<Rightarrow> string \<Rightarrow> unit dm" where
  "start_server lib uuid uuid2 sid =
     from_res (validate_id sid) (\<lambda>_.
     io_bind (io_try (on_world (dm_inspect lib sid))) (\<lambda>r.
     dm_then (if (case r of Inr inspect \<Rightarrow> needs_repair inspect | Inl _ \<Rightarrow> False)
              then on_world (recreate_with_fresh_bind_mounts lib uuid sid) else io_return ())
     (dm_then (on_world (apply_server_config lib sid))
     (dm_then (ensure_disk lib sid)
     (dm_then (begin_manual_recovery lib sid)
     (dm_then (forget_startup sid)
     (dm_then (on_world (apply_manual_restart_policy lib sid))
     (io_bind (io_try (start_with_console lib sid)) (\<lambda>s.
       case s of
         Inr _ \<Rightarrow> io_return ()
       | Inl e \<Rightarrow>
           if stale_docker_desktop_bind_error lib e
           then dm_then (on_world (recreate_with_fresh_bind_mounts lib uuid2 sid)) (start_with_console lib sid)
           else io_fail e))))))))) "

definition stop_server :: "docker_lib \<Rightarrow> string \<Rightarrow> unit dm" where
  "stop_server lib sid =
     from_res (validate_id sid) (\<lambda>_.
     io_bind (on_world (dm_inspect lib sid)) (\<lambda>inspect.
       if \<not> is_running inspect then clear_stopped_runtime_state sid
       else
         let stop_command = trim (case label_text ''agapornis.stop_command'' inspect of Some c \<Rightarrow> c | None \<Rightarrow> []) in
         dm_then (if stop_command \<noteq> [] then on_world (apply_manual_restart_policy lib sid) else io_return ())
         (dm_then (if stop_command = ''^C'' then on_world (io_ignore (api (dl_host lib) (KillContainer sid ''SIGINT'')))
                   else if stop_command \<noteq> [] then io_ignore (send_command lib sid stop_command)
                   else io_return ())
         (io_bind (if stop_command \<noteq> [] then on_world (wait_until_stopped lib sid (secs 10)) else io_return False) (\<lambda>stopped.
            if stopped then clear_stopped_runtime_state sid
            else dm_then (on_world (force_graceful_stop lib sid)) (clear_stopped_runtime_state sid))))))"

definition kill_server :: "docker_lib \<Rightarrow> string \<Rightarrow> unit dm" where
  "kill_server lib sid =
     from_res (validate_id sid) (\<lambda>_.
     io_bind (on_world (dm_inspect lib sid)) (\<lambda>inspect.
       if \<not> is_running inspect then clear_stopped_runtime_state sid
       else
         dm_then (on_world (apply_manual_restart_policy lib sid))
         (io_bind (on_world (api (dl_host lib) (KillContainer sid ''SIGKILL''))) (\<lambda>r.
           case r of
             Inr _ \<Rightarrow> clear_stopped_runtime_state sid
           | Inl e \<Rightarrow> if docker_status e = Some 409 then clear_stopped_runtime_state sid
                      else io_fail (Ctx (''force kill Docker container '' @ sid) (docker_error_value e))))))"

definition restart_server :: "docker_lib \<Rightarrow> string \<Rightarrow> string \<Rightarrow> string \<Rightarrow> unit dm" where
  "restart_server lib uuid uuid2 sid =
     from_res (validate_id sid) (\<lambda>_. dm_then (stop_server lib sid) (start_server lib uuid uuid2 sid))"

definition forget_runtime_state :: "string \<Rightarrow> unit dm" where
  "forget_runtime_state sid =
     dm_then (detach_console sid)
       (on_memory (\<lambda>a. a\<lparr> ag_disk := (ag_disk a)(sid := None), ag_ready := removeAll sid (ag_ready a),
          ag_checks := (ag_checks a)(sid := None), ag_protection := protection_remove sid (ag_protection a) \<rparr>))"

subsection \<open>Replacing and deleting\<close>

definition image_has_tag_or_digest :: "string \<Rightarrow> bool" where
  "image_has_tag_or_digest img \<longleftrightarrow>
     CHR ''@'' \<in> set img \<or> CHR '':'' \<in> set (last (split_on (CHR ''/'') img))"

definition pull_image :: "docker_lib \<Rightarrow> string \<Rightarrow> unit io" where
  "pull_image lib img =
     io_bind (api (dl_host lib) (PullImage img (if image_has_tag_or_digest img then None else Some ''latest''))) (\<lambda>r.
       io_lift (api_result (''pull Docker image '' @ img) r))"

record container_recreation =
  cr_image :: string
  cr_previous_image_id :: string
  cr_image_id :: string
  cr_image_changed :: bool

definition text_at :: "string list \<Rightarrow> json \<Rightarrow> string" where
  "text_at path j = (case Option.bind (pointer path j) as_str of Some s \<Rightarrow> s | None \<Rightarrow> [])"

definition recreate_server :: "docker_lib \<Rightarrow> string \<Rightarrow> string \<Rightarrow> string \<Rightarrow> string \<Rightarrow> container_recreation dm" where
  "recreate_server lib uuid uuid2 uuid3 sid =
     from_res (validate_id sid) (\<lambda>_.
     io_bind (on_world (dm_inspect lib sid)) (\<lambda>inspect.
     let img = text_at [''Config'', ''Image''] inspect;
         was_running = is_running inspect;
         previous = text_at [''Image''] inspect in
     dm_then (guard_io (trim img \<noteq> []) ''container has no image to update'')
     (dm_then (on_world (pull_image lib img))
     (dm_then (if was_running then stop_server lib sid else io_return ())
     (dm_then (on_world (recreate_with_fresh_bind_mounts lib uuid sid))
     (io_bind (on_world (dm_inspect lib sid)) (\<lambda>updated.
      dm_then (forget_runtime_state sid)
      (dm_then (if was_running then start_server lib uuid2 uuid3 sid else io_return ())
        (io_return \<lparr> cr_image = img, cr_previous_image_id = previous, cr_image_id = text_at [''Image''] updated,
           cr_image_changed = (previous \<noteq> [] \<and> previous \<noteq> text_at [''Image''] updated) \<rparr>))))))))) "

definition remove_if_exists :: "string \<Rightarrow> path \<Rightarrow> unit io" where
  "remove_if_exists message p =
     io_bind (io_try (fs_remove_file p)) (\<lambda>r.
       case r of Inl e \<Rightarrow> if e = Io NotFound then io_return () else io_fail (Ctx message e) | Inr _ \<Rightarrow> io_return ())"

definition delete_server :: "docker_lib \<Rightarrow> string \<Rightarrow> unit dm" where
  "delete_server lib sid =
     from_res (validate_id sid) (\<lambda>_.
     dm_then (detach_console sid)
     (io_bind (on_world (api (dl_host lib) (RemoveContainer sid))) (\<lambda>r.
      dm_then (case r of
          Inr _ \<Rightarrow> io_return ()
        | Inl e \<Rightarrow> if docker_status e = Some 404 then io_return ()
                   else io_fail (Ctx (''remove Docker container '' @ sid) (docker_error_value e)))
      (from_res (server_dir (dl_env lib) sid) (\<lambda>dir.
       dm_then (\<lambda>a. if fs_exists dir (ag_world a)
                 then on_world (io_ctx (''remove server directory '' @ path_string dir) (fs_remove_dir_all dir)) a
                 else (Ok (), a))
       (from_res (disk_limit_path (dl_env lib) sid) (\<lambda>limit.
        dm_then (on_world (remove_if_exists (''remove disk limit metadata '' @ path_string limit) limit))
        (from_res (config_files_path (dl_env lib) sid) (\<lambda>config.
         dm_then (on_world (remove_if_exists (''remove configuration metadata '' @ path_string config) config))
           (on_memory (\<lambda>a. a\<lparr> ag_disk := (ag_disk a)(sid := None), ag_ready := removeAll sid (ag_ready a),
              ag_checks := (ag_checks a)(sid := None), ag_protection := protection_remove sid (ag_protection a) \<rparr>)))))))))))"

subsection \<open>Resources\<close>

record resource_update =
  ru_server_id :: string
  ru_memory_bytes :: int
  ru_cpu_limit_percentage :: int
  ru_disk_limit_bytes :: int
  ru_cpu_pinning :: bool
  ru_cpu_pinned_threads :: string
  ru_swap_memory_bytes :: int
  ru_swap_memory_storage :: string

definition as_i64 :: "json \<Rightarrow> int option" where
  "as_i64 j = (case j of JInt i \<Rightarrow> if i64_min \<le> i \<and> i \<le> i64_max then Some i else None | _ \<Rightarrow> None)"

text \<open>The debug form of an optional number.\<close>

definition option_debug :: "int option \<Rightarrow> string" where
  "option_debug v = (case v of Some i \<Rightarrow> ''Some('' @ int_to_string i @ '')'' | None \<Rightarrow> ''None'')"

definition reported_limit :: "string list \<Rightarrow> string \<Rightarrow> int option \<Rightarrow> json \<Rightarrow> unit res" where
  "reported_limit path what expected inspect =
     (case expected of
        None \<Rightarrow> Ok ()
      | Some e \<Rightarrow>
          let actual = Option.bind (pointer path inspect) as_i64 in
          if actual = Some e then Ok ()
          else Err (Bail (''Docker reported '' @ what @ '' limit '' @ option_debug actual @ '', expected '' @ int_to_string e)))"

definition update_limits :: "docker_lib \<Rightarrow> string \<Rightarrow> container_update \<Rightarrow> unit io" where
  "update_limits lib sid update =
     (if cu_memory update = None \<and> cu_nano_cpus update = None then io_return ()
      else
        io_bind (api (dl_host lib) (UpdateContainer sid update)) (\<lambda>r.
        from_res (api_result (''update resources for Docker container '' @ sid) r) (\<lambda>_.
        io_bind (dm_inspect lib sid) (\<lambda>inspect.
        from_res (reported_limit [''HostConfig'', ''Memory''] ''memory'' (cu_memory update) inspect) (\<lambda>_.
          io_lift (reported_limit [''HostConfig'', ''NanoCpus''] ''CPU'' (cu_nano_cpus update) inspect))))))"

definition update_disk_limit :: "docker_lib \<Rightarrow> string \<Rightarrow> int \<Rightarrow> unit io" where
  "update_disk_limit lib sid bytes =
     (if bytes \<le> 0 then io_return ()
      else
        from_res (disk_limit_path (dl_env lib) sid) (\<lambda>p.
        then_io (case path_parent p of None \<Rightarrow> io_fail (Bail ''disk limit metadata path has no parent'')
                 | Some parent \<Rightarrow> fs_create_dir_all parent)
        (then_io (io_ctx (''write disk limit metadata '' @ path_string p) (fs_write p (int_to_string bytes)))
        (io_bind (fs_read_to_string p) (\<lambda>text.
           case parse_i64 (trim text) of
             None \<Rightarrow> io_fail (Ext ''ParseIntError'')
           | Some applied \<Rightarrow>
               guard_io (applied = bytes) (''disk limit metadata reported '' @ int_to_string applied @
                 '', expected '' @ int_to_string bytes)))))) "

definition update_resources :: "docker_lib \<Rightarrow> resource_update \<Rightarrow> unit dm" where
  "update_resources lib spec =
     (let sid = ru_server_id spec in
      from_res (validate_id sid) (\<lambda>_.
      from_res (if ru_cpu_pinning spec
                then res_bind (pinned_cpu_set (dl_threads lib) (ru_cpu_pinned_threads spec)) (\<lambda>s.
                       Ok (case s of Some v \<Rightarrow> v | None \<Rightarrow> []))
                else Ok []) (\<lambda>cpuset.
      let memory = (if ru_memory_bytes spec > 0 then Some (ru_memory_bytes spec) else None);
          update = no_update\<lparr> cu_memory := memory,
             cu_memory_swap := memory_swap_limit (ru_memory_bytes spec) (ru_swap_memory_bytes spec),
             cu_cpuset_cpus := Some cpuset, cu_nano_cpus := cpu_limit (dl_nanos lib) (ru_cpu_limit_percentage spec) \<rparr> in
      dm_then (on_world (update_limits lib sid update))
      (from_res (effective_disk_limit (ru_disk_limit_bytes spec) (ru_swap_memory_bytes spec) (ru_swap_memory_storage spec)) (\<lambda>bytes.
       dm_then (on_world (update_disk_limit lib sid bytes))
         (on_memory (\<lambda>a. a\<lparr> ag_disk := (ag_disk a)(sid := None) \<rparr>)))))))"

subsection \<open>Configuration and ports\<close>

text \<open>A stop around a replacement, and a start after it, when the server was running.\<close>

definition replace_around ::
  "docker_lib \<Rightarrow> string \<Rightarrow> string \<Rightarrow> string \<Rightarrow> string \<Rightarrow> bool \<Rightarrow> container_body \<Rightarrow> unit dm" where
  "replace_around lib uuid uuid2 uuid3 sid was_running body =
     dm_then (if was_running then stop_server lib sid else io_return ())
     (dm_then (on_world (replace_stale_container lib uuid sid body))
     (dm_then (forget_runtime_state sid)
       (if was_running then start_server lib uuid2 uuid3 sid else io_return ())))"

definition label_or_empty :: "(string \<times> string) list \<Rightarrow> string \<Rightarrow> string" where
  "label_or_empty labels name = (case map_of labels name of Some v \<Rightarrow> v | None \<Rightarrow> [])"

definition update_configuration ::
  "docker_lib \<Rightarrow> string \<Rightarrow> string \<Rightarrow> string \<Rightarrow> string \<Rightarrow> string list \<Rightarrow> string \<Rightarrow> string \<Rightarrow> string \<Rightarrow> string \<Rightarrow> unit dm" where
  "update_configuration lib uuid uuid2 uuid3 sid env startup stop_cmd startup_done config_files =
     from_res (validate_id sid) (\<lambda>_.
     from_res (server_dir (dl_env lib) sid) (\<lambda>host.
     dm_then (on_world (validate_startup (dl_pause lib) host startup))
     (io_bind (on_world (typed_inspect lib (''inspect Docker container '' @ sid) sid)) (\<lambda>info.
      from_res (the_config ''Docker container has no reusable configuration'' (ci_config info)) (\<lambda>config.
      from_res (owned_labels sid config
         ''refusing to update configuration without Agapornis ownership labels''
         ''refusing to update configuration on a container not owned by this Agapornis server'') (\<lambda>labels.
      let command = runtime_server_command startup;
          merged = merged_environment (cc_env config) (runtime_environment env);
          changed = (normalized_environment (cc_env config) \<noteq> normalized_environment (Some merged) \<or>
             cc_cmd config \<noteq> command \<or> \<not> runtime_tmpfs_ready (ci_host info) merged \<or>
             label_or_empty labels ''agapornis.stop_command'' \<noteq> stop_cmd \<or>
             label_or_empty labels ''agapornis.startup_done'' \<noteq> startup_done) in
      from_res (config_files_path (dl_env lib) sid) (\<lambda>metadata.
      dm_then (on_world (create_parent metadata))
      (dm_then (on_world (fs_write metadata config_files))
        (if \<not> changed then io_return ()
         else
           let config' = config\<lparr> cc_env := some_unless_empty merged, cc_cmd := command,
                  cc_labels := Some (AList.update ''agapornis.startup_done'' startup_done
                    (AList.update ''agapornis.stop_command'' stop_cmd labels)) \<rparr> in
           from_res (the_config ''Docker container has no reusable host configuration'' (ci_host info)) (\<lambda>hc.
             replace_around lib uuid uuid2 uuid3 sid (ci_running info = Some True)
               (create_body config' hc (reusable_networks (ci_networks info) sid)))))))))))) "

definition update_ports ::
  "docker_lib \<Rightarrow> string \<Rightarrow> string \<Rightarrow> string \<Rightarrow> string \<Rightarrow> (string \<times> int) list \<Rightarrow> unit dm" where
  "update_ports lib uuid uuid2 uuid3 sid mappings =
     from_res (validate_id sid) (\<lambda>_.
     from_res (validated_port_bindings mappings) (\<lambda>(exposed, bindings).
     io_bind (on_world (typed_inspect lib (''inspect Docker container '' @ sid) sid)) (\<lambda>info.
     from_res (the_config ''Docker container has no reusable configuration'' (ci_config info)) (\<lambda>config.
     from_res (owned_labels sid config
        ''refusing to update ports without Agapornis ownership labels''
        ''refusing to update ports on a container not owned by this Agapornis server'') (\<lambda>_.
     from_res (the_config ''Docker container has no reusable host configuration'' (ci_host info)) (\<lambda>hc.
     dm_then (\<lambda>a. (ensure_requested_ports_available lib (ag_reserved a) (bound_host_ports (hc_port_bindings hc)) bindings, a))
       (replace_around lib uuid uuid2 uuid3 sid (ci_running info = Some True)
         (create_body (config\<lparr> cc_exposed_ports := Some exposed \<rparr>) (hc\<lparr> hc_port_bindings := Some bindings \<rparr>)
            (reusable_networks (ci_networks info) sid)))))))))"

end
