(* ===== verification/System.thy ===== *)
theory System
  imports Lifecycle Console_Hub
begin

text \<open>
  The parts of the agent that several tasks share, put together: the Docker manager with the
  world outside, and the console hub.  Both hold the same @ProtectionState@ (one @Arc@), so a
  call on the hub runs with the manager's and hands it back.
\<close>

record system =
  sy_agent :: agent
  sy_hub :: hub

type_synonym 'a sys = "(system, 'a) act"

definition on_agent :: "'a dm \<Rightarrow> 'a sys" where
  "on_agent m s = (case m (sy_agent s) of (r, a) \<Rightarrow> (r, s\<lparr> sy_agent := a \<rparr>))"

definition on_hub :: "(hub \<Rightarrow> hub \<times> 'a res) \<Rightarrow> 'a sys" where
  "on_hub f s =
     (case f ((sy_hub s)\<lparr> hub_protection := ag_protection (sy_agent s) \<rparr>) of
        (h, r) \<Rightarrow> (r, s\<lparr> sy_hub := h, sy_agent := (sy_agent s)\<lparr> ag_protection := hub_protection h \<rparr> \<rparr>))"

text \<open>The critical sections a call of the hub still performs after its own.\<close>

definition run_actions :: "hub_action list \<Rightarrow> hub \<Rightarrow> hub" where
  "run_actions acts h = fold (\<lambda>a g. case exec_action a g of (g', todo) \<Rightarrow> fold (\<lambda>b k. fst (exec_action b k)) todo g') acts h"

definition hub_call :: "(hub \<Rightarrow> hub \<times> hub_action list) \<Rightarrow> unit sys" where
  "hub_call f = on_hub (\<lambda>h. case f h of (h', acts) \<Rightarrow> (run_actions acts h', Ok ()))"

definition system_now :: "docker_lib \<Rightarrow> system \<Rightarrow> nat" where
  "system_now lib s = dl_now lib (w_requests (ag_world (sy_agent s)))"

definition console_publish :: "docker_lib \<Rightarrow> string \<Rightarrow> string \<Rightarrow> unit sys" where
  "console_publish lib sid ln s = hub_call (publish sid ln (\<lambda>_. system_now lib s)) s"

definition console_detach :: "string \<Rightarrow> unit sys" where
  "console_detach sid = hub_call (\<lambda>h. (detach_reader sid h, []))"

definition console_wake :: "string \<Rightarrow> unit sys" where
  "console_wake sid = hub_call (\<lambda>h. (wake_reader sid h, []))"

text \<open>Sequencing without a result.\<close>

abbreviation (input) sys_then :: "unit sys \<Rightarrow> 'a sys \<Rightarrow> 'a sys" where
  "sys_then m n \<equiv> io_bind m (\<lambda>_. n)"

subsection \<open>Both see one protection state\<close>

definition protection_shared :: "system \<Rightarrow> bool" where
  "protection_shared s \<longleftrightarrow> hub_protection (sy_hub s) = ag_protection (sy_agent s)"

lemma on_hub_shared: "protection_shared (snd (on_hub f s))"
  by (auto simp: on_hub_def protection_shared_def split: prod.split)

lemma on_hub_world [simp]: "ag_world (sy_agent (snd (on_hub f s))) = ag_world (sy_agent s)"
  by (auto simp: on_hub_def split: prod.split)

lemma on_hub_disk [simp]: "ag_disk (sy_agent (snd (on_hub f s))) = ag_disk (sy_agent s)"
  by (auto simp: on_hub_def split: prod.split)

lemma on_agent_hub [simp]: "sy_hub (snd (on_agent m s)) = sy_hub s"
  by (auto simp: on_agent_def split: prod.split)

end
