(* ===== verification/Supervisor.thy ===== *)
theory Supervisor
  imports System
begin

text \<open>
  @runtime/supervisor.rs@: the task that observes every server, ends crash loops, enforces disk
  limits, and forgets servers that are gone; and the cleaning of dangling images.
\<close>

subsection \<open>Observing one server\<close>

record observation =
  ob_last_restart :: int
  ob_was_running :: bool
  ob_running_since :: "nat option"
  ob_failures :: "nat list"
  ob_quarantined :: bool

definition fresh_observation :: "nat \<Rightarrow> int \<Rightarrow> bool \<Rightarrow> observation" where
  "fresh_observation now restart running =
     \<lparr> ob_last_restart = restart, ob_was_running = running, ob_running_since = (if running then Some now else None),
       ob_failures = [], ob_quarantined = False \<rparr>"

definition new_failures :: "int \<Rightarrow> bool \<Rightarrow> int \<Rightarrow> observation \<Rightarrow> nat" where
  "new_failures restart running exit ob =
     nat (max 0 (min 3 (i64_wrap (restart - ob_last_restart ob)))) +
     (if ob_was_running ob \<and> \<not> running \<and> exit \<noteq> 0 then 1 else 0)"

definition failure_window :: nat where "failure_window = secs 300"
definition stable_after :: nat where "stable_after = secs 120"

definition push_failures :: "nat \<Rightarrow> int \<Rightarrow> bool \<Rightarrow> int \<Rightarrow> observation \<Rightarrow> observation" where
  "push_failures now restart running exit ob =
     ob\<lparr> ob_failures := dropWhile (\<lambda>v. elapsed_since v now > failure_window)
          (ob_failures ob @ replicate (new_failures restart running exit ob) now) \<rparr>"

definition track_running :: "nat \<Rightarrow> bool \<Rightarrow> observation \<Rightarrow> observation" where
  "track_running now running ob =
     (if running then
        let since = (case ob_running_since ob of Some t \<Rightarrow> t | None \<Rightarrow> now) in
        ob\<lparr> ob_running_since := Some since,
           ob_failures := (if elapsed_since since now \<ge> stable_after then [] else ob_failures ob) \<rparr>
      else ob\<lparr> ob_running_since := None \<rparr>)"

text \<open>The new observation, and whether the protection engages.\<close>

definition observe_state :: "nat \<Rightarrow> bool \<Rightarrow> int \<Rightarrow> bool \<Rightarrow> int \<Rightarrow> observation option \<Rightarrow> observation \<times> bool" where
  "observe_state now manual restart running exit entry =
     (let ob = (case entry of Some o' \<Rightarrow> o' | None \<Rightarrow> fresh_observation now restart running) in
      if manual then (fresh_observation now restart running, False)
      else
        let ob' = (track_running now running (push_failures now restart running exit ob))
                    \<lparr> ob_last_restart := restart, ob_was_running := running \<rparr> in
        if \<not> ob_quarantined ob' \<and> length (ob_failures ob') \<ge> 3
        then (ob'\<lparr> ob_quarantined := True \<rparr>, True)
        else (ob', False))"

record monitor =
  mo_system :: system
  mo_observations :: "(string \<times> observation) list"
  mo_disk_due :: "(string \<times> nat) list"

type_synonym 'a mon = "(monitor, 'a) act"

definition on_system :: "'a sys \<Rightarrow> 'a mon" where
  "on_system m s = (case m (mo_system s) of (r, y) \<Rightarrow> (r, s\<lparr> mo_system := y \<rparr>))"

abbreviation (input) mon_then :: "unit mon \<Rightarrow> 'a mon \<Rightarrow> 'a mon" where
  "mon_then m n \<equiv> io_bind m (\<lambda>_. n)"

definition monitor_now :: "docker_lib \<Rightarrow> monitor \<Rightarrow> nat" where
  "monitor_now lib s = system_now lib (mo_system s)"

definition crash_loop_message :: string where
  "crash_loop_message = ''[agent] Crash-loop protection engaged after 3 failures in 5 minutes. Automatic restarts are disabled; use Start or Restart after correcting the cause.''"

definition disable_restart :: "docker_lib \<Rightarrow> string \<Rightarrow> unit sys" where
  "disable_restart lib sid =
     io_ignore (on_agent (on_world (process_docker (dl_host lib) [''update'', ''--restart'', ''no'', sid])))"

definition mark_server :: "string \<Rightarrow> string \<Rightarrow> unit sys" where
  "mark_server sid text = on_agent (on_memory (\<lambda>a. a\<lparr> ag_protection := mark sid text (ag_protection a) \<rparr>))"

definition engage_protection :: "docker_lib \<Rightarrow> string \<Rightarrow> unit sys" where
  "engage_protection lib sid =
     sys_then (disable_restart lib sid)
     (sys_then (io_ignore (on_agent (stop_server lib sid)))
     (sys_then (mark_server sid ''crash-loop-protected'')
       (console_publish lib sid crash_loop_message)))"

definition observe :: "docker_lib \<Rightarrow> string \<Rightarrow> int \<Rightarrow> bool \<Rightarrow> int \<Rightarrow> unit mon" where
  "observe lib sid restart running exit s =
     (let now = monitor_now lib s;
          a = sy_agent (mo_system s);
          (prot, manual) = in_manual_recovery sid (\<lambda>_. now) (ag_protection a);
          (ob, engage) = observe_state now manual restart running exit (map_of (mo_observations s) sid);
          s' = s\<lparr> mo_system := (mo_system s)\<lparr> sy_agent := a\<lparr> ag_protection := prot \<rparr> \<rparr>,
                  mo_observations := AList.update sid ob (mo_observations s) \<rparr>
      in (if engage then on_system (engage_protection lib sid) s' else (Ok (), s')))"

subsection \<open>Disk limits\<close>

definition disk_message :: "int \<Rightarrow> int \<Rightarrow> string" where
  "disk_message usage limit =
     ''[agent] Disk limit exceeded ('' @ int_to_string usage @ '' / '' @ int_to_string limit @
     '' bytes). The server was stopped and cannot start until files are deleted.''"

definition enforce_disk :: "docker_lib \<Rightarrow> string \<Rightarrow> unit sys" where
  "enforce_disk lib sid =
     io_bind (on_agent (disk_force lib sid)) (\<lambda>(usage, limit).
       if limit > 0 \<and> usage > limit then
         sys_then (disable_restart lib sid)
         (sys_then (io_ignore (on_agent (on_world (process_docker (dl_host lib) [''stop'', ''--time'', ''5'', sid]))))
         (sys_then (mark_server sid ''disk-limit-exceeded'')
           (console_publish lib sid (disk_message usage limit))))
       else on_agent (on_memory (\<lambda>a. a\<lparr> ag_protection := clear_disk sid (ag_protection a) \<rparr>)))"

definition check_disk :: "docker_lib \<Rightarrow> nat \<Rightarrow> string \<Rightarrow> unit mon" where
  "check_disk lib disk_every sid s =
     (let now = monitor_now lib s;
          due = (case map_of (mo_disk_due s) sid of Some d \<Rightarrow> d | None \<Rightarrow> now) in
      if due \<le> now
      then on_system (enforce_disk lib sid) (s\<lparr> mo_disk_due := AList.update sid (now + disk_every) (mo_disk_due s) \<rparr>)
      else (Ok (), s\<lparr> mo_disk_due := AList.update sid due (mo_disk_due s) \<rparr>))"

subsection \<open>One scan\<close>

definition int_at :: "string list \<Rightarrow> json \<Rightarrow> int" where
  "int_at path j = (case Option.bind (pointer path j) as_i64 of Some i \<Rightarrow> i | None \<Rightarrow> 0)"

definition on_state :: "('s \<Rightarrow> 's) \<Rightarrow> ('s, unit) act" where "on_state f s = (Ok (), f s)"

definition forget_server :: "string \<Rightarrow> unit mon" where
  "forget_server sid =
     mon_then (on_state (\<lambda>s. s\<lparr> mo_observations := AList.delete sid (mo_observations s),
         mo_disk_due := AList.delete sid (mo_disk_due s) \<rparr>))
     (mon_then (on_system (on_agent (forget_runtime_state sid)))
       (on_system (console_detach sid)))"

definition scan_server :: "docker_lib \<Rightarrow> nat \<Rightarrow> string \<Rightarrow> unit mon" where
  "scan_server lib disk_every sid =
     io_bind (on_system (on_agent (on_world (dm_inspect lib sid)))) (\<lambda>inspect.
       let restart = int_at [''RestartCount''] inspect; running = is_running inspect;
           exit = int_at [''State'', ''ExitCode''] inspect in
       mon_then (if running then on_system (console_wake sid) else io_return ())
       (mon_then (observe lib sid restart running exit)
         (check_disk lib disk_every sid)))"

fun each :: "('b \<Rightarrow> ('s, unit) act) \<Rightarrow> 'b list \<Rightarrow> ('s, unit) act" where
  "each f [] = io_return ()"
| "each f (x # xs) = io_bind (f x) (\<lambda>_. each f xs)"

definition listed_servers :: "string \<Rightarrow> string list" where
  "listed_servers raw = remdups (filter (\<lambda>i. i \<noteq> []) (map trim (str_lines raw)))"

text \<open>The order in which the hash sets are visited is a parameter.\<close>

definition scan_once :: "docker_lib \<Rightarrow> (string list \<Rightarrow> string list) \<Rightarrow> nat \<Rightarrow> unit mon" where
  "scan_once lib order disk_every =
     io_bind (on_system (on_agent (on_world (process_docker (dl_host lib)
        [''ps'', ''-a'', ''--filter'', ''label=agapornis.server_id'', ''--format'', ''{{.Names}}''])))) (\<lambda>raw.
     let active = listed_servers raw in
     mon_then (\<lambda>s. each forget_server
         (order (remdups (filter (\<lambda>i. i \<notin> set active) (map fst (mo_observations s) @ map fst (mo_disk_due s))))) s)
       (each (scan_server lib disk_every) (order active)))"

definition env_secs :: "environment \<Rightarrow> string \<Rightarrow> nat \<Rightarrow> nat" where
  "env_secs env name fallback =
     (case Option.bind (env name) (parse_unsigned usize_max) of
        Some v \<Rightarrow> if v > 0 then v else fallback | None \<Rightarrow> fallback)"

text \<open>A number of turns of the supervisor's endless loop: a failed scan is only logged.\<close>

fun supervise :: "docker_lib \<Rightarrow> (string list \<Rightarrow> string list) \<Rightarrow> nat \<Rightarrow> unit mon" where
  "supervise lib order 0 = io_return ()"
| "supervise lib order (Suc n) =
     mon_then (io_ignore (scan_once lib order (secs (env_secs (dl_env lib) ''AGAPORNIS_DISK_CHECK_SECONDS'' 150))))
       (mon_then (on_system (on_agent (on_world (io_ignore (dl_pause lib))))) (supervise lib order n))"

subsection \<open>Dangling images\<close>

definition cleanup_disabled :: "environment \<Rightarrow> bool" where
  "cleanup_disabled env =
     (case env ''AGAPORNIS_DOCKER_IMAGE_CLEANUP_ENABLED'' of
        Some v \<Rightarrow> eq_ignore_ascii_case v ''false'' \<or> v = ''0'' | None \<Rightarrow> False)"

definition image_cleanup_arguments :: "nat \<Rightarrow> string list" where
  "image_cleanup_arguments hours =
     [''image'', ''prune'', ''--force'', ''--filter'', ''dangling=true'', ''--filter'', ''until='' @ nat_digits hours @ ''h'']"

fun image_cleanup :: "docker_lib \<Rightarrow> nat \<Rightarrow> unit io" where
  "image_cleanup lib 0 = io_return ()"
| "image_cleanup lib (Suc n) =
     (if cleanup_disabled (dl_env lib) then io_return ()
      else then_io (io_ignore (process_docker (dl_host lib)
               (image_cleanup_arguments (env_secs (dl_env lib) ''AGAPORNIS_DOCKER_IMAGE_CLEANUP_MIN_AGE_HOURS'' 24))))
             (then_io (io_ignore (dl_pause lib)) (image_cleanup lib n)))"

subsection \<open>What the crash-loop protection counts\<close>

text \<open>One observation of a server: time, manual recovery, restart count, running, exit code.\<close>

type_synonym observed = "nat \<times> bool \<times> int \<times> bool \<times> int"

fun observe_event :: "observed \<Rightarrow> observation option \<Rightarrow> observation \<times> bool" where
  "observe_event (now, manual, restart, running, exit) entry = observe_state now manual restart running exit entry"

text \<open>
  The specification keeps every failure since the last manual recovery or the last two stable
  minutes, never dropping one for its age, and whether three of them ever lay within the
  window; the observation tells it when a run became stable and how many failures are new.
\<close>

definition in_failure_window :: "nat \<Rightarrow> nat \<Rightarrow> bool" where
  "in_failure_window now t \<longleftrightarrow> elapsed_since t now \<le> failure_window"

definition stable_run :: "nat \<Rightarrow> bool \<Rightarrow> observation \<Rightarrow> bool" where
  "stable_run now running ob \<longleftrightarrow> running \<and>
     stable_after \<le> elapsed_since (case ob_running_since ob of Some t \<Rightarrow> t | None \<Rightarrow> now) now"

fun log_event :: "observed \<Rightarrow> observation option \<Rightarrow> nat list \<Rightarrow> nat list" where
  "log_event (now, manual, restart, running, exit) entry log =
     (let ob = (case entry of Some o' \<Rightarrow> o' | None \<Rightarrow> fresh_observation now restart running) in
      if manual \<or> stable_run now running ob then []
      else log @ replicate (new_failures restart running exit ob) now)"

fun crash_loop_run :: "observed list \<Rightarrow> observation option \<times> nat list \<times> bool" where
  "crash_loop_run [] = (None, [], False)"
| "crash_loop_run (e # es) =
     (case crash_loop_run es of (entry, log, engaged) \<Rightarrow>
        let log' = log_event e entry log in
        (Some (fst (observe_event e entry)), log',
         \<not> fst (snd e) \<and> (engaged \<or> 3 \<le> length (filter (in_failure_window (fst e)) log'))))"

lemma dropWhile_window:
  "sorted ts \<Longrightarrow> dropWhile (\<lambda>v. elapsed_since v now > failure_window) ts = filter (in_failure_window now) ts"
proof (induction ts)
  case (Cons t ts)
  show ?case
  proof (cases "in_failure_window now t")
    case True
    then have "filter (in_failure_window now) ts = ts"
      using Cons.prems by (intro filter_True) (auto simp: in_failure_window_def)
    moreover have "\<not> elapsed_since t now > failure_window" using True by (simp add: in_failure_window_def)
    ultimately show ?thesis using True by simp
  qed (use Cons in \<open>auto simp: in_failure_window_def\<close>)
qed simp

lemma filter_window_later:
  "t \<le> now \<Longrightarrow> filter (in_failure_window now) (filter (in_failure_window t) ts) = filter (in_failure_window now) ts"
  by (auto simp: in_failure_window_def intro!: filter_cong)

lemma filter_now: "filter (in_failure_window now) (replicate n now) = replicate n now"
  by (intro filter_True) (auto simp: in_failure_window_def)

text \<open>Times do not decrease; the list is most recent first.\<close>

definition times_ordered :: "observed list \<Rightarrow> bool" where
  "times_ordered es \<longleftrightarrow> sorted_wrt (\<ge>) (map fst es)"

lemma crash_loop_step:
  assumes "times_ordered (e # es)" "crash_loop_run es = (entry, log, engaged)"
    and ord: "sorted log" "\<forall>t \<in> set log. t \<le> fst e"
    and inv: "\<forall>ob. entry = Some ob \<longrightarrow> es \<noteq> [] \<and> ob_failures ob = filter (in_failure_window (fst (hd es))) log \<and>
        ob_quarantined ob = engaged"
      "entry = None \<longrightarrow> log = [] \<and> \<not> engaged"
    and e: "e = (now, manual, restart, running, exit)"
  shows "ob_failures (fst (observe_event e entry)) = filter (in_failure_window now) (log_event e entry log) \<and>
    ob_quarantined (fst (observe_event e entry)) =
      (\<not> manual \<and> (engaged \<or> 3 \<le> length (filter (in_failure_window now) (log_event e entry log)))) \<and>
    snd (observe_event e entry) =
      (\<not> manual \<and> \<not> engaged \<and> 3 \<le> length (filter (in_failure_window now) (log_event e entry log)))"
proof (cases manual)
  case True
  then show ?thesis by (simp add: e observe_state_def fresh_observation_def Let_def)
next
  case False
  define ob where "ob = (case entry of Some o' \<Rightarrow> o' | None \<Rightarrow> fresh_observation now restart running)"
  define n where "n = new_failures restart running exit ob"
  have f: "ob_failures ob = filter (in_failure_window (case entry of Some _ \<Rightarrow> fst (hd es) | None \<Rightarrow> now)) log"
    "ob_quarantined ob = engaged"
    using inv by (auto simp: ob_def fresh_observation_def split: option.split)
  have le: "(case entry of Some _ \<Rightarrow> fst (hd es) | None \<Rightarrow> now) \<le> now"
    using assms(1) inv(1) e by (cases es; cases entry) (auto simp: times_ordered_def)
  have "sorted (ob_failures ob @ replicate n now)"
    using ord e unfolding f by (auto simp: sorted_append sorted_wrt_filter)
  then have "ob_failures (push_failures now restart running exit ob) = filter (in_failure_window now) (log @ replicate n now)"
    by (simp add: push_failures_def n_def [symmetric] dropWhile_window)
      (simp add: f filter_window_later [OF le] filter_now del: filter_filter)
  moreover have "ob_running_since (push_failures now restart running exit ob) = ob_running_since ob"
    "ob_quarantined (push_failures now restart running exit ob) = engaged"
    by (simp_all add: push_failures_def f)
  ultimately show ?thesis
    using False
    by (auto simp: e observe_state_def ob_def [symmetric] Let_def track_running_def stable_run_def n_def)
qed

lemma log_sorted:
  "times_ordered es \<Longrightarrow> crash_loop_run es = (entry, log, engaged) \<Longrightarrow>
   sorted log \<and> (\<forall>t \<in> set log. es \<noteq> [] \<and> t \<le> fst (hd es)) \<and> (es = [] \<longleftrightarrow> entry = None)"
proof (induction es arbitrary: entry log engaged)
  case (Cons e es)
  obtain entry0 log0 eng0 where r: "crash_loop_run es = (entry0, log0, eng0)" by (metis surj_pair)
  have "times_ordered es" using Cons.prems(1) by (simp add: times_ordered_def)
  from Cons.IH [OF this r] have i: "sorted log0" "\<forall>t \<in> set log0. es \<noteq> [] \<and> t \<le> fst (hd es)" by auto
  obtain now manual restart running exit where e: "e = (now, manual, restart, running, exit)" by (metis surj_pair)
  have "\<forall>t \<in> set log0. t \<le> now"
    using i(2) Cons.prems(1) by (cases es) (auto simp: times_ordered_def e)
  then show ?case
    using Cons.prems(2) i by (auto simp: r e Let_def sorted_append split: if_splits)
qed simp

text \<open>C24: whatever is observed of a server, as long as time does not run backwards: the failures
  kept are exactly those since the last manual recovery or stable run that are at most five
  minutes old, and the protection engages exactly when three of them come to lie within five
  minutes, once until the next manual recovery.\<close>

theorem crash_loop_protection:
  assumes "times_ordered (e # es)" "crash_loop_run es = (entry, log, engaged)"
    and "observe_event e entry = (ob, engage)" "crash_loop_run (e # es) = (entry', log', engaged')"
  shows "ob_failures ob = filter (in_failure_window (fst e)) log' \<and> ob_quarantined ob = engaged' \<and>
    engage = (\<not> fst (snd e) \<and> \<not> engaged \<and> 3 \<le> length (filter (in_failure_window (fst e)) log'))"
  using assms
proof (induction es arbitrary: e entry log engaged ob engage entry' log' engaged')
  case Nil
  obtain now manual restart running exit where e: "e = (now, manual, restart, running, exit)" by (metis surj_pair)
  have l: "log' = log_event e None []" "engaged' = (\<not> manual \<and> 3 \<le> length (filter (in_failure_window now) log'))"
    using Nil.prems(4) by (auto simp: e Let_def)
  have "ob = fst (observe_event e None)" "engage = snd (observe_event e None)" "\<not> engaged"
    using Nil.prems(2,3) by auto
  then show ?case
    using crash_loop_step [of e "[]" None "[]" False, OF Nil.prems(1) _ _ _ _ _ e] l by (simp add: e)
next
  case (Cons d es)
  obtain now manual restart running exit where e: "e = (now, manual, restart, running, exit)" by (metis surj_pair)
  obtain entry0 log0 eng0 where r: "crash_loop_run es = (entry0, log0, eng0)" by (metis surj_pair)
  obtain ob0 engage0 where d: "observe_event d entry0 = (ob0, engage0)" by (metis surj_pair)
  have o: "times_ordered (d # es)" using Cons.prems(1) by (simp add: times_ordered_def)
  have entry: "entry = Some ob0" using Cons.prems(2) by (auto simp: r d Let_def)
  note i = Cons.IH [OF o r d Cons.prems(2)]
  have s: "sorted log" "\<forall>t \<in> set log. t \<le> fst e"
    using log_sorted [OF o Cons.prems(2)] Cons.prems(1) by (auto simp: times_ordered_def)
  have l: "log' = log_event e entry log"
    "engaged' = (\<not> manual \<and> (engaged \<or> 3 \<le> length (filter (in_failure_window now) log')))"
    using Cons.prems(4) unfolding crash_loop_run.simps(2) [of e] Cons.prems(2) by (auto simp: e Let_def)
  have "ob = fst (observe_event e entry)" "engage = snd (observe_event e entry)"
    using Cons.prems(3) by auto
  moreover have "\<forall>ob. entry = Some ob \<longrightarrow> d # es \<noteq> [] \<and> ob_failures ob = filter (in_failure_window (fst (hd (d # es)))) log \<and>
      ob_quarantined ob = engaged" "entry = None \<longrightarrow> log = [] \<and> \<not> engaged"
    using i entry by simp_all
  ultimately show ?case
    using crash_loop_step [OF Cons.prems(1,2) s _ _ e] l by (simp only: e fst_conv snd_conv)
qed

theorem crash_loop_protection_witness:
  "snd (observe_event (5, False, 0, False, 1) (fst (crash_loop_run
     [(4, False, 0, True, 0), (3, False, 0, False, 1), (2, False, 0, True, 0), (1, False, 0, False, 1), (0, False, 0, True, 0)])))"
proof -
  define es :: "observed list" where
    "es = [(4, False, 0, True, 0), (3, False, 0, False, 1), (2, False, 0, True, 0), (1, False, 0, False, 1), (0, False, 0, True, 0)]"
  let ?e = "(5, False, 0, False, 1) :: observed"
  have w: "failure_window = 300000000000" "stable_after = 120000000000"
    by (simp_all add: failure_window_def stable_after_def secs_def)
  have z: "new_failures 0 running exit ob = (if ob_was_running ob \<and> \<not> running \<and> exit \<noteq> 0 then 1 else 0)"
    if "ob_last_restart ob = 0" for running exit ob
    using that by (simp add: new_failures_def i64_wrap_def)
  let ?o = "\<lambda>running since failures. \<lparr> ob_last_restart = 0, ob_was_running = running, ob_running_since = since,
    ob_failures = failures, ob_quarantined = False \<rparr>"
  note defs = Let_def observe_state_def push_failures_def track_running_def fresh_observation_def z w
    stable_run_def in_failure_window_def
  have 1: "crash_loop_run [(0, False, 0, True, 0)] = (Some (?o True (Some 0) []), [], False)"
    by (simp add: defs)
  have 2: "crash_loop_run [(1, False, 0, False, 1), (0, False, 0, True, 0)] = (Some (?o False None [1]), [1], False)"
    by (simp only: crash_loop_run.simps(2) [of "(1, False, 0, False, 1)"] 1 prod.case) (simp add: defs)
  have 3: "crash_loop_run [(2, False, 0, True, 0), (1, False, 0, False, 1), (0, False, 0, True, 0)] =
      (Some (?o True (Some 2) [1]), [1], False)"
    by (simp only: crash_loop_run.simps(2) [of "(2, False, 0, True, 0)"] 2 prod.case) (simp add: defs)
  have 4: "crash_loop_run [(3, False, 0, False, 1), (2, False, 0, True, 0), (1, False, 0, False, 1), (0, False, 0, True, 0)] =
      (Some (?o False None [1, 3]), [1, 3], False)"
    by (simp only: crash_loop_run.simps(2) [of "(3, False, 0, False, 1)"] 3 prod.case) (simp add: defs)
  define ob where "ob = ?o True (Some 4) [1, 3]"
  have r: "crash_loop_run es = (Some ob, [1, 3], False)" "ob_was_running ob" "ob_last_restart ob = 0"
    by (simp only: es_def crash_loop_run.simps(2) [of "(4, False, 0, True, 0)"] 4 prod.case) (simp_all add: defs ob_def)
  obtain ob' engage where o: "observe_event ?e (Some ob) = (ob', engage)" by (metis surj_pair)
  obtain entry' log' engaged' where n: "crash_loop_run (?e # es) = (entry', log', engaged')" by (metis surj_pair)
  have l: "log' = [1, 3, 5]" using n r by (auto simp: Let_def z stable_run_def)
  have "times_ordered (?e # es)" by (simp add: times_ordered_def es_def)
  from crash_loop_protection [OF this r(1) o n] have engage
    by (simp add: l in_failure_window_def w)
  then show ?thesis unfolding es_def [symmetric] r(1) using o by simp
qed

subsection \<open>What engaging does\<close>

lemma publish_statuses:
  "ps_statuses (hub_protection (run_actions (snd (publish sid ln clk h)) (fst (publish sid ln clk h)))) =
   ps_statuses (hub_protection h)"
  by (auto simp: publish_def prepare_line_def observe_line_def run_actions_def send_entry_def Let_def
      split: prod.split line_decision.split option.split)

lemma console_publish_status:
  "status sid (ag_protection (sy_agent (snd (console_publish lib i ln s)))) = status sid (ag_protection (sy_agent s))"
  "is_ok (fst (console_publish lib i ln s))"
  using publish_statuses [of i ln "\<lambda>_. system_now lib s" "(sy_hub s)\<lparr> hub_protection := ag_protection (sy_agent s) \<rparr>"]
  by (auto simp: console_publish_def hub_call_def on_hub_def status_def split: prod.split)

lemma mark_server_status:
  "fst (mark_server sid text s) = Ok ()"
  "status sid (ag_protection (sy_agent (snd (mark_server sid text s)))) = Some text"
  by (simp_all add: mark_server_def on_agent_def on_memory_def status_def mark_def)

lemma ignore_Ok [simp]: "fst (io_ignore m s) = Ok ()"
  by (simp add: io_ignore_def)

lemma then_ok: "fst (m s) = Ok () \<Longrightarrow> io_bind m (\<lambda>_. n) s = n (snd (m s))"
  by (cases "m s") (simp add: io_bind_def)

text \<open>A request made by a prefix of a sequence of calls.\<close>

definition requested :: "request \<Rightarrow> system \<Rightarrow> bool" where
  "requested r s \<longleftrightarrow> r \<in> set (w_requests (ag_world (sy_agent s)))"

lemma process_docker_requests:
  "w_requests (snd (process_docker h args w)) = w_requests w @ [Spawn (''docker'' # args) [] []]"
proof -
  obtain r w' where s: "spawn h ''docker'' args [] [] ''start docker'' w = (r, w')" by (metis surj_pair)
  then have "w_requests w' = w_requests w @ [Spawn (''docker'' # args) [] []]" using spawn_requests by (metis snd_conv)
  then show ?thesis
    by (cases r) (simp_all add: process_docker_def process_run_def io_bind_def s io_fail_def io_return_def)
qed

lemma docker_requested:
  "requested (Spawn (''docker'' # args) [] []) (snd (io_ignore (on_agent (on_world (process_docker h args))) s))"
proof -
  obtain r w' where "process_docker h args (ag_world (sy_agent s)) = (r, w')" by (metis surj_pair)
  moreover from this have "w_requests w' = w_requests (ag_world (sy_agent s)) @ [Spawn (''docker'' # args) [] []]"
    using process_docker_requests by (metis snd_conv)
  ultimately show ?thesis by (simp add: requested_def io_ignore_def on_agent_def on_world_def)
qed

lemma requested_mono:
  "requested r s \<Longrightarrow> w_requests (ag_world (sy_agent s')) = w_requests (ag_world (sy_agent s)) @ rs \<Longrightarrow> requested r s'"
  by (simp add: requested_def)

lemma console_publish_requested [simp]: "requested r (snd (console_publish lib sid ln s)) = requested r s"
  by (simp add: requested_def console_publish_def hub_call_def)

lemma mark_server_requested [simp]: "requested r (snd (mark_server sid text s)) = requested r s"
  by (simp add: requested_def mark_server_def on_agent_def on_memory_def)

lemma console_publish_world [simp]: "ag_world (sy_agent (snd (console_publish lib sid ln s))) = ag_world (sy_agent s)"
  by (simp add: console_publish_def hub_call_def)

lemma mark_server_world [simp]: "ag_world (sy_agent (snd (mark_server sid text s))) = ag_world (sy_agent s)"
  by (simp add: mark_server_def on_agent_def on_memory_def)

text \<open>Lemma: when the crash-loop protection engages, the engine is told not to restart the
  container and the server is reported as protected, even if stopping it fails.\<close>

theorem engaging_marks_server:
  "let s' = snd (engage_protection lib sid s) in
     status sid (ag_protection (sy_agent s')) = Some ''crash-loop-protected'' \<and>
     (\<exists>s1 s2. s1 = snd (disable_restart lib sid s) \<and>
       requested (Spawn [''docker'', ''update'', ''--restart'', ''no'', sid] [] []) s1 \<and>
       s2 = snd (io_ignore (on_agent (stop_server lib sid)) s1) \<and>
       w_requests (ag_world (sy_agent s')) = w_requests (ag_world (sy_agent s2)))"
proof -
  let ?s1 = "snd (disable_restart lib sid s)"
  let ?s2 = "snd (io_ignore (on_agent (stop_server lib sid)) ?s1)"
  let ?s3 = "snd (mark_server sid ''crash-loop-protected'' ?s2)"
  have "snd (engage_protection lib sid s) = snd (console_publish lib sid crash_loop_message ?s3)"
    by (simp add: engage_protection_def disable_restart_def then_ok mark_server_status)
  then show ?thesis
    using docker_requested [of "[''update'', ''--restart'', ''no'', sid]" "dl_host lib" s]
    by (simp add: Let_def console_publish_status mark_server_status disable_restart_def)
qed

lemma docker_ignored_requests:
  "w_requests (ag_world (sy_agent (snd (io_ignore (on_agent (on_world (process_docker h args))) s)))) =
   w_requests (ag_world (sy_agent s)) @ [Spawn (''docker'' # args) [] []]"
proof -
  obtain r w' where "process_docker h args (ag_world (sy_agent s)) = (r, w')" by (metis surj_pair)
  moreover from this have "w_requests w' = w_requests (ag_world (sy_agent s)) @ [Spawn (''docker'' # args) [] []]"
    using process_docker_requests by (metis snd_conv)
  ultimately show ?thesis by (simp add: io_ignore_def on_agent_def on_world_def)
qed

lemma clear_mark:
  "status sid (ag_protection (sy_agent (snd (on_agent (on_memory (\<lambda>a. a\<lparr> ag_protection := clear_disk sid (ag_protection a) \<rparr>)) s))))
     \<noteq> Some ''disk-limit-exceeded'' \<and>
   ag_world (sy_agent (snd (on_agent (on_memory (\<lambda>a. a\<lparr> ag_protection := clear_disk sid (ag_protection a) \<rparr>)) s))) =
     ag_world (sy_agent s)"
  by (simp add: on_agent_def on_memory_def status_def clear_disk_def)

text \<open>Lemma: a server measured beyond its disk limit is told not to restart, stopped, and reported
  as over its limit; one within it loses that report and nothing is asked; a failed measurement
  changes nothing more.\<close>

theorem disk_limit_enforced:
  "case on_agent (disk_force lib sid) s of
     (Inl e, s1) \<Rightarrow> enforce_disk lib sid s = (Inl e, s1)
   | (Inr (usage, limit), s1) \<Rightarrow>
       (let s' = snd (enforce_disk lib sid s); st = status sid (ag_protection (sy_agent s'));
            asked = w_requests (ag_world (sy_agent s')) in
        if limit > 0 \<and> usage > limit
        then st = Some ''disk-limit-exceeded'' \<and> asked = w_requests (ag_world (sy_agent s1)) @
          [Spawn [''docker'', ''update'', ''--restart'', ''no'', sid] [] [],
           Spawn [''docker'', ''stop'', ''--time'', ''5'', sid] [] []]
        else st \<noteq> Some ''disk-limit-exceeded'' \<and> asked = w_requests (ag_world (sy_agent s1)))"
proof -
  obtain r s1 where m: "on_agent (disk_force lib sid) s = (r, s1)" by (metis surj_pair)
  show ?thesis
  proof (cases r)
    case (Inl e)
    then show ?thesis by (simp add: m enforce_disk_def io_bind_def)
  next
    case (Inr ul)
    obtain usage limit where ul: "ul = (usage, limit)" by (metis surj_pair)
    let ?s2 = "snd (disable_restart lib sid s1)"
    let ?s3 = "snd (io_ignore (on_agent (on_world (process_docker (dl_host lib) [''stop'', ''--time'', ''5'', sid]))) ?s2)"
    let ?s4 = "snd (mark_server sid ''disk-limit-exceeded'' ?s3)"
    show ?thesis
    proof (cases "limit > 0 \<and> usage > limit")
      case True
      then have "enforce_disk lib sid s = console_publish lib sid (disk_message usage limit) ?s4"
        using m by (simp add: enforce_disk_def io_bind_def [of "on_agent (disk_force lib sid)"] Inr ul disable_restart_def
            then_ok mark_server_status)
      with True show ?thesis
        by (simp add: m Inr ul Let_def console_publish_status mark_server_status)
          (simp add: disable_restart_def docker_ignored_requests)
    next
      case False
      then have "enforce_disk lib sid s =
          on_agent (on_memory (\<lambda>a. a\<lparr> ag_protection := clear_disk sid (ag_protection a) \<rparr>)) s1"
        using m by (auto simp: enforce_disk_def io_bind_def [of "on_agent (disk_force lib sid)"] Inr ul)
      with False show ?thesis using clear_mark [of sid s1] by (auto simp: m Inr ul Let_def)
    qed
  qed
qed

end
