(* ===== verification/Installer.thy ===== *)
theory Installer
  imports Lifecycle
begin

text \<open>
  @provisioning/installer.rs@: running a server's installer in a container of its own, keeping a
  bounded log of its output, and checking what it left behind.
\<close>

subsection \<open>The log\<close>

definition INSTALLER_LOG_FILE_LIMIT :: nat where "INSTALLER_LOG_FILE_LIMIT = 8388608"
definition INSTALLER_LOG_TAIL_BYTES :: nat where "INSTALLER_LOG_TAIL_BYTES = 65536"
definition INSTALLER_ATTEMPTS :: nat where "INSTALLER_ATTEMPTS = 2"

definition append_tail :: "string \<Rightarrow> string \<Rightarrow> nat \<Rightarrow> string" where
  "append_tail output bytes capacity =
     (if length bytes \<ge> capacity then drop (length bytes - capacity) bytes
      else drop (saturating_add (length output) (length bytes) - capacity) output @ bytes)"

text \<open>
  A write through the open handle: when the installer has replaced or removed the log, the
  bytes go to a file without a name.
\<close>

definition fs_handle_write :: "path \<Rightarrow> string \<Rightarrow> unit io" where
  "fs_handle_write p c w =
     (case existing (w_root w) (w_cwd w) p True of
        Inr (q, RegFile old) \<Rightarrow> fs_append p c w
      | _ \<Rightarrow> (case take_fault w of (NoFault, w1) \<Rightarrow> (Ok (), w1) | (Fail k, w1) \<Rightarrow> (Err (Io k), w1)
              | (Partial _ k, w1) \<Rightarrow> (Err (Io k), w1)))"

text \<open>How many bytes the log file holds, and the tail kept for an error message.\<close>

type_synonym install_log = "nat \<times> string"

definition persist_installer_output :: "path \<Rightarrow> install_log \<Rightarrow> string \<Rightarrow> install_log io" where
  "persist_installer_output file log bytes =
     (case log of (written, tail) \<Rightarrow>
        let persisted = min (length bytes) (INSTALLER_LOG_FILE_LIMIT - written) in
        then_io (if persisted > 0 then fs_handle_write file (take persisted bytes) else io_return ())
          (io_return (written + persisted, append_tail tail bytes INSTALLER_LOG_TAIL_BYTES)))"

subsection \<open>The installer container\<close>

text \<open>
  What the attached stream and the wait call deliver, in the order the loop sees it: frames
  before the wait answers, the answer (none when its stream ended), and the frames that
  follow within five seconds.
\<close>

datatype log_frame = Frame string | FrameError error | FramesClosed

datatype wait_answer = WaitResponse int "string option option" | WaitError string int | WaitFailed error

record installer_run =
  ir_before :: "log_frame list"
  ir_wait :: "wait_answer option"
  ir_after :: "log_frame list"

fun read_frames :: "path \<Rightarrow> log_frame list \<Rightarrow> install_log \<Rightarrow> (bool \<times> install_log) io" where
  "read_frames file [] log = io_return (False, log)"
| "read_frames file (FramesClosed # fs) log = io_return (True, log)"
| "read_frames file (FrameError e # fs) log = io_fail (Ctx ''read installer output'' e)"
| "read_frames file (Frame bytes # fs) log = io_bind (persist_installer_output file log bytes) (read_frames file fs)"

definition installer_exit_status :: "wait_answer \<Rightarrow> (int \<times> string option) res" where
  "installer_exit_status answer =
     (case answer of
        WaitResponse code reason \<Rightarrow> Ok (code, Option.bind reason (\<lambda>message. message))
      | WaitError text code \<Rightarrow> Ok (code, if trim text \<noteq> [] then Some text else None)
      | WaitFailed e \<Rightarrow> Err e)"

definition installer_failure :: "int \<Rightarrow> string option \<Rightarrow> string \<Rightarrow> error" where
  "installer_failure code wait_error tail =
     (let output = trim (from_utf8_lossy tail);
          detail = (if output \<noteq> [] then output
                    else case wait_error of Some e \<Rightarrow> e | None \<Rightarrow> ''installer returned no output'') in
      Bail (''installer container exited with status '' @ int_to_string code @ '': '' @ detail))"

definition installer_container :: "create_spec \<Rightarrow> string list \<Rightarrow> string list \<Rightarrow> string \<Rightarrow> string \<Rightarrow> container_body" where
  "installer_container spec command environment host_source script_source =
     (let mount = (\<lambda>target source ro. \<lparr> mount_target = Some target, mount_from = Some source,
             mount_kind = Some BindMount, mount_read_only = Some ro \<rparr>) in
      \<lparr> cb_config = \<lparr> cc_image = Some (cs_install_image spec), cc_user = None, cc_working_dir = Some ''/mnt/server'',
           cc_console = False, cc_env = Some environment, cc_entrypoint = Some [[]], cc_cmd = Some command,
           cc_healthcheck = None, cc_labels = None, cc_exposed_ports = None, cc_rest = JNull \<rparr>,
        cb_host = Some \<lparr> tmpfs = None,
           hc_mounts = Some [mount ''/mnt/server'' host_source False,
             mount ''/tmp/agapornis-install.sh'' script_source True],
           hc_network_mode = None, hc_pids_limit = None, hc_restart = None, hc_security_opt = None,
           hc_log_config = None, hc_memory = None, hc_memory_swap = None, hc_cpuset_cpus = None,
           hc_nano_cpus = None, hc_port_bindings = None, hc_auto_remove = None, hc_rest = JNull \<rparr>,
        cb_networks = None \<rparr>)"

subsection \<open>Progress\<close>

text \<open>Provisioning reports its progress: phase, percentage and message.\<close>

record provision =
  pv_agent :: agent
  pv_reports :: "(string \<times> int \<times> string) list"

type_synonym 'a prov = "(provision, 'a) act"

definition in_agent :: "'a dm \<Rightarrow> 'a prov" where
  "in_agent m s = (case m (pv_agent s) of (r, a) \<Rightarrow> (r, s\<lparr> pv_agent := a \<rparr>))"

definition in_world :: "'a io \<Rightarrow> 'a prov" where "in_world m = in_agent (on_world m)"

definition report :: "string \<Rightarrow> int \<Rightarrow> string \<Rightarrow> unit prov" where
  "report phase percent message s = (Ok (), s\<lparr> pv_reports := pv_reports s @ [(phase, percent, message)] \<rparr>)"

abbreviation (input) prov_then :: "unit prov \<Rightarrow> 'a prov \<Rightarrow> 'a prov" where
  "prov_then m n \<equiv> io_bind m (\<lambda>_. n)"

text \<open>Random identifiers, the directory for temporary files, and what each installer does.\<close>

record install_lib =
  il_docker :: docker_lib
  il_script_uuid :: string
  il_uuid :: "nat \<Rightarrow> string"
  il_temp :: path
  il_run :: "request list \<Rightarrow> string \<Rightarrow> installer_run"

definition engine_call :: "install_lib \<Rightarrow> string \<Rightarrow> api_call \<Rightarrow> unit prov" where
  "engine_call il message call =
     in_world (io_bind (api (dl_host (il_docker il)) call) (\<lambda>r. io_lift (api_result message r)))"

subsection \<open>One attempt\<close>

text \<open>The loop over the attached stream and the wait call, and its end.\<close>

definition watch_installer :: "install_lib \<Rightarrow> path \<Rightarrow> string \<Rightarrow> installer_run \<Rightarrow> unit prov" where
  "watch_installer il file name run =
     io_bind (in_world (read_frames file (ir_before run) (0, []))) (\<lambda>(closed, log).
     prov_then (in_world (io_ignore (api (dl_host (il_docker il)) (WaitContainer name))))
     (from_res (case ir_wait run of None \<Rightarrow> Err (Bail ''installer wait stream ended unexpectedly'')
                | Some answer \<Rightarrow> res_context ''wait for installer container'' (installer_exit_status answer))
      (\<lambda>(code, wait_error).
       io_bind (if closed then io_return log
                else io_bind (in_world (read_frames file (ir_after run) log)) (\<lambda>(c, l). io_return l)) (\<lambda>(written, tail).
         if code \<noteq> 0 then io_fail (installer_failure code wait_error tail) else io_return ()))))"

definition execute_installer :: "install_lib \<Rightarrow> string \<Rightarrow> path \<Rightarrow> container_body \<Rightarrow> nat \<Rightarrow> unit prov" where
  "execute_installer il name host body attempt =
     prov_then (engine_call il ''create installer container'' (CreateContainer name body))
     (prov_then (engine_call il ''attach to installer container'' (AttachContainer name))
     (prov_then (engine_call il ''start installer container'' (StartContainer name))
     (prov_then (if attempt = 1
          then report ''installing-server'' 40 ''Installing required packages and server files''
          else report ''retrying-installer'' 54 ''Retrying the installer to recover the missing startup target'')
     (let file = path_join host [Normal ''.agapornis-install.log''] in
      prov_then (in_world (fs_write file []))
      (\<lambda>s. watch_installer il file name (il_run il (w_requests (ag_world (pv_agent s))) name) s)))))"

definition cleanup_installer_container :: "install_lib \<Rightarrow> string \<Rightarrow> unit prov" where
  "cleanup_installer_container il name =
     in_world (io_ignore (api (dl_host (il_docker il)) (RemoveContainer name)))"

datatype installer_postcondition = Ready | Retry missing_startup | Failed missing_startup

definition check_installer :: "install_lib \<Rightarrow> path \<Rightarrow> string \<Rightarrow> nat \<Rightarrow> installer_postcondition prov" where
  "check_installer il host startup attempt =
     io_bind (in_world (missing_startup_target (dl_pause (il_docker il)) host startup)) (\<lambda>m.
       io_return (case m of None \<Rightarrow> Ready
         | Some missing \<Rightarrow> if attempt < INSTALLER_ATTEMPTS then Retry missing else Failed missing))"

definition still_missing :: "missing_startup \<Rightarrow> error" where
  "still_missing m =
     Bail (''Installer completed '' @ nat_digits INSTALLER_ATTEMPTS @ '' attempts, but startup target '' @
       [CHR 0x27] @ path_string (ms_target m) @ [CHR 0x27] @ '' is still missing at '' @
       [CHR 0x27] @ path_string (ms_resolved m) @ [CHR 0x27] @
       ''. Check .agapornis-install.log in the server root for the installer error.'')"

definition retry_message :: "missing_startup \<Rightarrow> string" where
  "retry_message m = ''Installer did not create startup target '' @ [CHR 0x27] @ path_string (ms_target m) @ [CHR 0x27] @
     ''; retrying once''"

definition installer_name :: "create_spec \<Rightarrow> string \<Rightarrow> string" where
  "installer_name spec uuid = cs_server_id spec @ ''-install-'' @ uuid"

text \<open>The attempts from a given one on; the loop never runs past the last.\<close>

fun installer_attempts ::
  "install_lib \<Rightarrow> create_spec \<Rightarrow> path \<Rightarrow> container_body \<Rightarrow> nat \<Rightarrow> nat \<Rightarrow> unit prov" where
  "installer_attempts il spec host body attempt 0 = io_fail (Ext ''unreachable'')"
| "installer_attempts il spec host body attempt (Suc n) =
     (let name = installer_name spec (il_uuid il attempt) in
      io_bind (io_try (execute_installer il name host body attempt)) (\<lambda>result.
      prov_then (cleanup_installer_container il name)
      (from_res result (\<lambda>_.
       io_bind (check_installer il host (cs_startup_command spec) attempt) (\<lambda>post.
         case post of
           Ready \<Rightarrow> report ''finishing-installer'' 58 ''Finalizing installed files and removing the installer container''
         | Failed missing \<Rightarrow> io_fail (still_missing missing)
         | Retry missing \<Rightarrow>
             prov_then (report ''retrying-installer'' 52 (retry_message missing))
             (prov_then (in_world (io_ignore (dl_pause (il_docker il))))
               (installer_attempts il spec host body (Suc attempt) n)))))))"

definition installer_command :: "create_spec \<Rightarrow> string list" where
  "installer_command spec =
     (if trim (cs_install_entrypoint spec) = [] then [''/bin/sh''] else split_whitespace (cs_install_entrypoint spec)) @
     [''/tmp/agapornis-install.sh'']"

definition installer_script_path :: "install_lib \<Rightarrow> path" where
  "installer_script_path il = path_join (il_temp il) [Normal (''agapornis-install-'' @ il_script_uuid il @ ''.sh'')]"

definition run_installer :: "install_lib \<Rightarrow> create_spec \<Rightarrow> path \<Rightarrow> unit prov" where
  "run_installer il spec host =
     prov_then (report ''pulling-installer-image'' 22 ''Pulling the Docker installer image'')
     (prov_then (in_world (pull_image (il_docker il) (cs_install_image spec)))
     (prov_then (report ''setting-up-installer'' 30 ''Setting up the Docker installer container'')
     (let script = installer_script_path il in
      prov_then (in_world (fs_write script (str_replace [CHR 0x0D, CHR 0x0A] [CHR 0x0A] (cs_install_script spec))))
      (io_bind (io_try (installer_attempts il spec host
          (installer_container spec (installer_command spec) (''SERVER_DIR=/mnt/server'' # cs_env spec)
             (path_string host) (path_string script)) 1 INSTALLER_ATTEMPTS)) (\<lambda>result.
       prov_then (in_world (io_ignore (fs_remove_file script))) (io_lift result))))))"

subsection \<open>The disk allocation\<close>

definition payload_exceeds :: "int \<Rightarrow> int \<Rightarrow> bool" where
  "payload_exceeds usage limit \<longleftrightarrow> limit > 0 \<and> usage > limit"

definition ensure_payload_disk_limit :: "install_lib \<Rightarrow> path \<Rightarrow> int \<Rightarrow> unit prov" where
  "ensure_payload_disk_limit il host limit =
     (if limit \<le> 0 then io_return ()
      else in_world (\<lambda>w.
        let usage = dir_size (dl_readable (il_docker il)) host (w_root w) (w_cwd w) in
        if payload_exceeds usage limit
        then (Err (Bail (''Completed server files exceed the disk allocation ('' @ int_to_string usage @ '' / '' @
            int_to_string limit @
            '' bytes). Increase the server disk allocation or reduce the installed payload before retrying.'')), w)
        else (Ok (), w)))"

end
