(* ===== verification/Provisioning.thy ===== *)
theory Provisioning
  imports Installer
begin

text \<open>
  @provisioning.rs@: creating a server, from the reservation of its port to its container, with
  the progress it reports.
\<close>

definition engine_network :: "docker_lib \<Rightarrow> string \<Rightarrow> unit io" where
  "engine_network lib name =
     io_bind (api (dl_host lib) (InspectNetwork name)) (\<lambda>i.
       if (case i of Inl e \<Rightarrow> docker_status e = Some 404 | Inr _ \<Rightarrow> False)
       then io_bind (api (dl_host lib) (CreateNetwork name ''bridge'' network_labels)) (\<lambda>c.
         io_lift (ensure_network (\<lambda>_. i) (\<lambda>_ _ _. c) name))
       else io_lift (ensure_network (\<lambda>_. i) (\<lambda>_ _ _. Inr ()) name))"

text \<open>The numbers drawn and whether a drawn port could be bound, besides the installer's parameters.\<close>

record provision_lib =
  pl_install :: install_lib
  pl_draw :: "nat \<Rightarrow> nat"
  pl_binds :: "nat \<Rightarrow> nat \<Rightarrow> bool"

definition pl_docker :: "provision_lib \<Rightarrow> docker_lib" where "pl_docker pl = il_docker (pl_install pl)"

definition write_metadata_file :: "string \<Rightarrow> path \<Rightarrow> string \<Rightarrow> unit prov" where
  "write_metadata_file message p content =
     prov_then (case path_parent p of None \<Rightarrow> io_fail (Bail message) | Some d \<Rightarrow> in_world (fs_create_dir_all d))
       (in_world (fs_write p content))"

definition prepare_storage :: "provision_lib \<Rightarrow> create_spec \<Rightarrow> path \<Rightarrow> int prov" where
  "prepare_storage pl spec host =
     (let env = dl_env (pl_docker pl); sid = cs_server_id spec in
      prov_then (in_world (fs_create_dir_all host))
      (from_res (effective_disk_limit (cs_disk_limit_bytes spec) (cs_swap_memory_bytes spec) (cs_swap_memory_storage spec)) (\<lambda>limit.
       prov_then (if limit > 0 then from_res (disk_limit_path env sid) (\<lambda>p.
             write_metadata_file ''disk limit metadata path has no parent'' p (int_to_string limit))
           else io_return ())
       (from_res (config_files_path env sid) (\<lambda>p.
        prov_then (write_metadata_file ''configuration metadata path has no parent'' p (cs_config_files_json spec))
          (io_return limit))))))"

definition configure_server :: "provision_lib \<Rightarrow> create_spec \<Rightarrow> path \<Rightarrow> int \<Rightarrow> string prov" where
  "configure_server pl spec host limit =
     (let lib = pl_docker pl; network = default_network (dl_env lib) in
      prov_then (report ''configuring-network'' 62 ''Preparing the Docker network'')
      (prov_then (in_world (engine_network lib network))
      (from_res (docker_network_interface (dl_network lib) network) (\<lambda>iface.
       prov_then (report ''configuring-server'' 67 ''Applying generated server configuration'')
       (prov_then (in_world (apply_config_files (dl_config lib) (dl_dir_len lib) (dl_arrange lib) host
            (cs_config_files_json spec) iface))
       (prov_then (in_world (validate_startup (dl_pause lib) host (cs_startup_command spec)))
       (prov_then (report ''validating-storage'' 70 ''Checking the completed server files against the disk allocation'')
       (prov_then (ensure_payload_disk_limit (pl_install pl) host limit) (io_return network)))))))))"

definition create_container :: "provision_lib \<Rightarrow> create_spec \<Rightarrow> path \<Rightarrow> string \<Rightarrow> int \<Rightarrow> int prov" where
  "create_container pl spec host network host_port =
     (let lib = pl_docker pl; sid = cs_server_id spec in
      prov_then (report ''pulling-runtime-image'' 72 ''Pulling the selected runtime image'')
      (prov_then (in_world (pull_image lib (cs_image spec)))
      (prov_then (in_world (io_ctx ''assign server storage to the runtime user'' (io_bind
           (process_run (dl_host lib) ''chown'' [''-R'', SERVER_RUNTIME_USER, path_string host]) (\<lambda>_. io_return ()))))
      (from_res (build_container (dl_threads lib) (dl_nanos lib) (dl_free_tcp lib) spec host network
           (data_path (cs_image spec) (cs_env spec)) host_port) (\<lambda>body.
       prov_then (report ''creating-container'' 88 ''Creating the final server container'')
       (prov_then (engine_call (pl_install pl) (''create Docker container '' @ sid) (CreateContainer sid body))
       (prov_then (in_agent (on_memory (\<lambda>a. a\<lparr> ag_disk := (ag_disk a)(sid := None) \<rparr>)))
       (prov_then (report ''container-ready'' 95 ''Docker container created successfully'')
         (io_return host_port)))))))))"

definition provision_reserved :: "provision_lib \<Rightarrow> create_spec \<Rightarrow> int \<Rightarrow> int prov" where
  "provision_reserved pl spec host_port =
     prov_then (report ''preparing-storage'' 15 ''Preparing server storage and resource metadata'')
     (from_res (server_dir (dl_env (pl_docker pl)) (cs_server_id spec)) (\<lambda>host.
      io_bind (prepare_storage pl spec host) (\<lambda>limit.
      prov_then (if trim (cs_install_image spec) \<noteq> [] \<and> trim (cs_install_script spec) \<noteq> []
                 then run_installer (pl_install pl) spec host else io_return ())
      (io_bind (configure_server pl spec host limit) (\<lambda>network.
        create_container pl spec host network host_port)))))"

text \<open>The reservation is dropped when the call returns, whatever happened.\<close>

definition reserve_port :: "provision_lib \<Rightarrow> create_spec \<Rightarrow> (int \<times> nat option) prov" where
  "reserve_port pl spec s =
     (case reserve_host_port (pl_draw pl) (pl_binds pl) (dl_free_tcp (pl_docker pl)) spec (ag_reserved (pv_agent s)) of
        (r, reserved) \<Rightarrow> (r, s\<lparr> pv_agent := (pv_agent s)\<lparr> ag_reserved := reserved \<rparr> \<rparr>))"

definition drop_reservation :: "nat option \<Rightarrow> unit prov" where
  "drop_reservation held = in_agent (on_memory (\<lambda>a. a\<lparr> ag_reserved := release_port held (ag_reserved a) \<rparr>))"

definition create_with_progress :: "provision_lib \<Rightarrow> create_spec \<Rightarrow> int prov" where
  "create_with_progress pl spec =
     prov_then (report ''validating'' 5 ''Validating server and Docker configuration'')
     (from_res (validate_id (cs_server_id spec)) (\<lambda>_.
      prov_then (guard_io (trim (cs_image spec) \<noteq> []) ''Docker image is required'')
      (prov_then (report ''allocating-port'' 10 ''Reserving the server network port'')
      (io_bind (reserve_port pl spec) (\<lambda>(host_port, held).
       io_bind (io_try (provision_reserved pl spec host_port)) (\<lambda>result.
         prov_then (drop_reservation held) (io_lift result)))))))"

definition create_server :: "provision_lib \<Rightarrow> create_spec \<Rightarrow> int dm" where
  "create_server pl spec a =
     (case create_with_progress pl spec \<lparr> pv_agent = a, pv_reports = [] \<rparr> of (r, s) \<Rightarrow> (r, pv_agent s))"

end
