(* ===== verification/Provisioning_Safety.thy ===== *)
theory Provisioning_Safety
  imports Provisioning
begin

text \<open>
  What creating a server promises: bounded installer logs, progress that only moves forward,
  installer containers that are always removed, and port reservations that always end.
\<close>

subsection \<open>The installer's log\<close>

lemma append_tail_spec:
  assumes "length output \<le> capacity" "2 * capacity \<le> usize_max"
  shows "append_tail output bytes capacity = drop (length (output @ bytes) - capacity) (output @ bytes)"
  using assms by (simp add: append_tail_def saturating_add_def)

lemma tail_again:
  "drop (length (drop (length xs - c) xs @ ys) - c) (drop (length xs - c) xs @ ys) = drop (length (xs @ ys) - c) (xs @ ys)"
proof (cases "length xs \<le> c")
  case False
  then have "drop (length xs - c) xs @ ys = drop (length xs - c) (xs @ ys)" by simp
  moreover have "length (xs @ ys) - (length xs - c) - c + (length xs - c) = length (xs @ ys) - c" using False by simp
  ultimately show ?thesis by (simp only: drop_drop length_drop)
qed simp

definition log_state :: "string list \<Rightarrow> string \<Rightarrow> world \<Rightarrow> bool" where
  "log_state q written w \<longleftrightarrow> w_faults w = [] \<and> real_parent (w_root w) q \<and> q \<noteq> [] \<and> lookup (w_root w) q = Some (RegFile written)"

lemma real_parent_put:
  assumes "real_parent t q" shows "real_parent (put q v t) q"
  unfolding real_parent_def
proof (intro allI impI)
  fix i assume i: "i < length q"
  have "take i q \<noteq> q" using i by (metis length_take min.absorb2 nat_less_le order_less_imp_le)
  then show "is_dir_at (put q v t) (take i q)"
    using lookup_put_above [of "take i q" q t v] assms i unfolding real_parent_def by (simp add: take_is_prefix)
qed

lemma handle_write:
  assumes "log_state q written w"
  shows "\<exists>w'. fs_handle_write (abs_path q) c w = (Ok (), w') \<and> log_state q (written @ c) w'"
proof -
  have e: "existing (w_root w) cwd (abs_path q) True = Ok (q, RegFile written)" for cwd
    using assms resolve_abs [of "w_root w" q True max_links "[]"]
    by (simp add: log_state_def existing_def resolve_def abs_path_def)
  have "take_fault w = (NoFault, w)" using assms by (simp add: log_state_def take_fault_def)
  then have "fs_handle_write (abs_path q) c w = (Ok (), set_root (put q (Some (RegFile (written @ c))) (w_root w)) w)"
    by (simp add: fs_handle_write_def e fs_append_def)
  then show ?thesis
    using assms real_parent_put [of "w_root w" q] lookup_put_same [OF real_parent_ok [of "w_root w" q]]
    by (simp add: log_state_def)
qed

lemma read_frames_log:
  assumes "log_state q (take INSTALLER_LOG_FILE_LIMIT out) w"
  shows "\<exists>w'. read_frames (abs_path q) (map Frame fs)
      (min INSTALLER_LOG_FILE_LIMIT (length out), drop (length out - INSTALLER_LOG_TAIL_BYTES) out) w =
      (Ok (False, min INSTALLER_LOG_FILE_LIMIT (length (out @ concat fs)),
         drop (length (out @ concat fs) - INSTALLER_LOG_TAIL_BYTES) (out @ concat fs)), w') \<and>
    log_state q (take INSTALLER_LOG_FILE_LIMIT (out @ concat fs)) w'"
  using assms
proof (induction fs arbitrary: out w)
  case (Cons f fs)
  define written where "written = min INSTALLER_LOG_FILE_LIMIT (length out)"
  define n where "n = min (length f) (INSTALLER_LOG_FILE_LIMIT - written)"
  have tk: "take INSTALLER_LOG_FILE_LIMIT (out @ f) = take INSTALLER_LOG_FILE_LIMIT out @ take n f"
    by (auto simp: n_def written_def min_def take_append)
  have ln: "written + n = min INSTALLER_LOG_FILE_LIMIT (length (out @ f))"
    by (auto simp: n_def written_def min_def)
  have "\<exists>w1. (if n > 0 then fs_handle_write (abs_path q) (take n f) else io_return ()) w = (Ok (), w1) \<and>
      log_state q (take INSTALLER_LOG_FILE_LIMIT (out @ f)) w1"
    using handle_write [OF Cons.prems, of "take n f"] Cons.prems by (cases "n > 0") (auto simp: tk io_return_def simp del: take_append)
  then obtain w1 where w1: "(if n > 0 then fs_handle_write (abs_path q) (take n f) else io_return ()) w = (Ok (), w1)"
    "log_state q (take INSTALLER_LOG_FILE_LIMIT (out @ f)) w1" by blast
  have t: "append_tail (drop (length out - INSTALLER_LOG_TAIL_BYTES) out) f INSTALLER_LOG_TAIL_BYTES =
      drop (length (out @ f) - INSTALLER_LOG_TAIL_BYTES) (out @ f)"
    using tail_again by (subst append_tail_spec) (auto simp: INSTALLER_LOG_TAIL_BYTES_def usize_max_def)
  have "persist_installer_output (abs_path q) (written, drop (length out - INSTALLER_LOG_TAIL_BYTES) out) f w =
      (Ok (min INSTALLER_LOG_FILE_LIMIT (length (out @ f)), drop (length (out @ f) - INSTALLER_LOG_TAIL_BYTES) (out @ f)), w1)"
    by (simp only: persist_installer_output_def prod.case Let_def n_def [symmetric] io_bind_def w1(1) sum.case
        io_return_def t ln)
  with Cons.IH [OF w1(2)] show ?case by (simp add: io_bind_def written_def)
qed (simp add: io_return_def)

text \<open>Lemma: the log of an installer holds the first 8 MiB of its output, and the tail kept for an
  error message is its last 64 KiB, however the output is cut into frames.\<close>

theorem installer_log_bounded:
  assumes "log_state q [] w"
  shows "\<exists>w'. read_frames (abs_path q) (map Frame fs) (0, []) w =
      (Ok (False, min INSTALLER_LOG_FILE_LIMIT (length (concat fs)),
         drop (length (concat fs) - INSTALLER_LOG_TAIL_BYTES) (concat fs)), w') \<and>
    lookup (w_root w') q = Some (RegFile (take INSTALLER_LOG_FILE_LIMIT (concat fs)))"
  using read_frames_log [of q "[]" w fs] assms by (auto simp: log_state_def)

theorem installer_log_bounded_witness:
  "\<exists>w'. read_frames (abs_path [''log'']) (map Frame [''ab'', ''c'']) (0, [])
      \<lparr> w_root = Dir [(''log'', RegFile [])], w_cwd = [], w_faults = [], w_trace = [], w_requests = [], w_objects = [] \<rparr> =
      (Ok (False, 3, ''abc''), w') \<and> lookup (w_root w') [''log''] = Some (RegFile ''abc'')"
proof -
  have "log_state [''log''] [] \<lparr> w_root = Dir [(''log'', RegFile [])], w_cwd = [], w_faults = [], w_trace = [],
      w_requests = [], w_objects = [] \<rparr>"
    by (simp add: log_state_def real_parent_def is_dir_at_def)
  from installer_log_bounded [OF this, of "[''ab'', ''c'']"] show ?thesis
    by (simp add: INSTALLER_LOG_FILE_LIMIT_def INSTALLER_LOG_TAIL_BYTES_def numeral_3_eq_3)
qed

subsection \<open>Progress\<close>

definition percents :: "(string \<times> int \<times> string) list \<Rightarrow> int list" where
  "percents rs = map (\<lambda>(phase, p, text). p) rs"

definition advances :: "int \<Rightarrow> int \<Rightarrow> (string \<times> int \<times> string) list \<Rightarrow> bool" where
  "advances lo hi rs \<longleftrightarrow> sorted (percents rs) \<and> (\<forall>p \<in> set (percents rs). lo \<le> p \<and> p \<le> hi)"

lemma advances_simps [simp]: "advances lo hi []" "advances lo hi [(phase, p, text)] \<longleftrightarrow> lo \<le> p \<and> p \<le> hi"
  by (auto simp: advances_def percents_def)

lemma advances_append:
  "advances lo mid xs \<Longrightarrow> advances mid hi ys \<Longrightarrow> lo \<le> mid \<Longrightarrow> mid \<le> hi \<Longrightarrow> advances lo hi (xs @ ys)"
  unfolding advances_def percents_def map_append set_append sorted_append by force

text \<open>A step whose reports advance between two percentages, with what its result satisfies.\<close>

definition progress :: "int \<Rightarrow> int \<Rightarrow> 'a prov \<Rightarrow> ('a \<Rightarrow> bool) \<Rightarrow> bool" where
  "progress lo hi m Q \<longleftrightarrow> (\<forall>s r s'. m s = (r, s') \<longrightarrow>
     (\<exists>rs. pv_reports s' = pv_reports s @ rs \<and> advances lo hi rs) \<and> (\<forall>x. r = Ok x \<longrightarrow> Q x))"

definition preserves :: "('s \<Rightarrow> 'b) \<Rightarrow> ('s, 'a) act \<Rightarrow> bool" where
  "preserves f m \<longleftrightarrow> (\<forall>s r s'. m s = (r, s') \<longrightarrow> f s' = f s)"

named_theorems preserve_rules \<open>what composed calls leave alone\<close>

lemma preserves_bind [preserve_rules]:
  assumes "preserves f m" "\<And>x. preserves f (g x)" shows "preserves f (io_bind m g)"
  unfolding preserves_def
proof (intro allI impI)
  fix s r s' assume "io_bind m g s = (r, s')"
  then show "f s' = f s"
    by (cases rule: io_bind_cases) (use assms in \<open>auto simp: preserves_def\<close>)
qed

lemma preserves_simple [preserve_rules]:
  "preserves f (io_return x)" "preserves f (io_fail e)" "preserves f (io_lift r)" "preserves f (guard_io ok text)"
  by (simp_all add: preserves_def io_return_def io_fail_def io_lift_def guard_io_def)

lemma preserves_try [preserve_rules]: "preserves f m \<Longrightarrow> preserves f (io_try m)" "preserves f m \<Longrightarrow> preserves f (io_ignore m)"
  by (auto simp: preserves_def io_try_def io_ignore_def split: prod.splits) (metis prod.collapse)

lemma preserves_if [preserve_rules]: "(c \<Longrightarrow> preserves f m) \<Longrightarrow> (\<not> c \<Longrightarrow> preserves f n) \<Longrightarrow> preserves f (if c then m else n)"
  by simp

lemma preserves_state: "(\<And>v. preserves f (F v)) \<Longrightarrow> preserves f (\<lambda>s. F s s)"
  by (simp add: preserves_def)

lemma silent_agent [preserve_rules]: "preserves pv_reports (in_agent m)" "preserves pv_reports (in_world n)"
  by (auto simp: preserves_def in_agent_def in_world_def split: prod.splits)

lemma progress_silent: "preserves pv_reports m \<Longrightarrow> progress lo hi m (\<lambda>_. True)"
  unfolding progress_def preserves_def
proof (intro allI impI conjI)
  fix s r s' assume "\<forall>s r s'. m s = (r, s') \<longrightarrow> pv_reports s' = pv_reports s" "m s = (r, s')"
  then have "pv_reports s' = pv_reports s @ [] \<and> advances lo hi []" by simp
  then show "\<exists>rs. pv_reports s' = pv_reports s @ rs \<and> advances lo hi rs" by blast
qed simp

lemma progressD:
  assumes "progress lo hi m Q" "m s = (r, s')"
  obtains rs where "pv_reports s' = pv_reports s @ rs" "advances lo hi rs" "\<forall>x. r = Ok x \<longrightarrow> Q x"
  using assms unfolding progress_def by (elim allE [of _ s] allE [of _ r] allE [of _ s']) auto

lemma progress_bind:
  assumes "progress lo mid m Q" "\<And>x. Q x \<Longrightarrow> progress mid hi (f x) R" "lo \<le> mid" "mid \<le> hi"
  shows "progress lo hi (io_bind m f) R"
  unfolding progress_def
proof (intro allI impI)
  fix s r s' assume "io_bind m f s = (r, s')"
  then show "(\<exists>rs. pv_reports s' = pv_reports s @ rs \<and> advances lo hi rs) \<and> (\<forall>x. r = Ok x \<longrightarrow> R x)"
  proof (cases rule: io_bind_cases)
    case (1 e)
    obtain rs where "pv_reports s' = pv_reports s @ rs" "advances lo mid rs"
      using progressD [OF assms(1) 1(1)] by blast
    then show ?thesis using advances_append [of lo mid rs hi "[]"] assms(3,4) 1(2) by (intro conjI exI [of _ rs]) auto
  next
    case (2 x s1)
    obtain rs where rs: "pv_reports s1 = pv_reports s @ rs" "advances lo mid rs" "Q x"
      using progressD [OF assms(1) 2(1)] by blast
    obtain rs2 where rs2: "pv_reports s' = pv_reports s1 @ rs2" "advances mid hi rs2" "\<forall>x. r = Ok x \<longrightarrow> R x"
      using progressD [OF assms(2) [OF rs(3)] 2(2)] by blast
    have "pv_reports s' = pv_reports s @ (rs @ rs2) \<and> advances lo hi (rs @ rs2)"
      using advances_append [OF rs(2) rs2(2) assms(3,4)] rs(1) rs2(1) by simp
    then show ?thesis using rs2(3) by blast
  qed
qed

lemma progress_step:
  "preserves pv_reports m \<Longrightarrow> (\<And>x. progress lo hi (f x) R) \<Longrightarrow> lo \<le> hi \<Longrightarrow> progress lo hi (io_bind m f) R"
  by (rule progress_bind [where mid = lo, OF progress_silent]) auto

lemma progress_report: "lo \<le> p \<Longrightarrow> p \<le> hi \<Longrightarrow> progress lo hi (report phase p text) (\<lambda>_. True)"
  by (auto simp: progress_def report_def)

lemma progress_next:
  "lo \<le> p \<Longrightarrow> p \<le> hi \<Longrightarrow> progress p hi n R \<Longrightarrow> progress lo hi (prov_then (report phase p text) n) R"
  by (rule progress_bind [OF progress_report [of lo p p]]) auto

lemma progress_try: "progress lo hi m Q \<Longrightarrow> progress lo hi (io_try m) (\<lambda>_. True)"
  unfolding progress_def io_try_def by (auto split: prod.splits)

lemma progress_weaken: "progress lo hi m Q \<Longrightarrow> (\<And>x. Q x \<Longrightarrow> R x) \<Longrightarrow> progress lo hi m R"
  unfolding progress_def by blast

lemma silent_watch: "preserves pv_reports (watch_installer il p name run)"
  unfolding watch_installer_def by (intro preserve_rules; auto intro!: preserve_rules split: prod.split)

lemma silent_watching: "preserves pv_reports (\<lambda>s. watch_installer il p name (run s) s)"
  using silent_watch by (rule preserves_state)

lemma progress_execute:
  assumes "attempt = 1 \<and> p = 40 \<or> attempt \<noteq> 1 \<and> p = 54" "lo \<le> p" "p \<le> hi"
  shows "progress lo hi (execute_installer il name host body attempt) (\<lambda>_. True)"
proof -
  have r: "progress lo hi (if attempt = 1
          then report ''installing-server'' 40 ''Installing required packages and server files''
          else report ''retrying-installer'' 54 ''Retrying the installer to recover the missing startup target'') (\<lambda>_. True)"
    using assms by (cases "attempt = 1") (auto intro: progress_report)
  show ?thesis
    unfolding execute_installer_def engine_call_def Let_def
    by (intro progress_step preserve_rules progress_bind [OF r] progress_silent silent_watching)
      (use assms in auto)
qed

lemma check_result:
  "check_installer il host startup attempt s = (Inr (Retry missing), s') \<Longrightarrow> attempt < INSTALLER_ATTEMPTS"
  by (auto simp: check_installer_def io_bind_def io_return_def split: prod.splits sum.splits option.splits if_splits)

lemma progress_check:
  "progress lo hi (check_installer il host startup attempt) (\<lambda>post. \<forall>m. post = Retry m \<longrightarrow> attempt < INSTALLER_ATTEMPTS)"
proof -
  have "preserves pv_reports (check_installer il host startup attempt)"
    unfolding check_installer_def by (intro preserve_rules)
  then have s: "progress lo hi (check_installer il host startup attempt) (\<lambda>_. True)" by (rule progress_silent)
  show ?thesis
    unfolding progress_def
  proof (intro allI impI conjI)
    fix s r s' assume c: "check_installer il host startup attempt s = (r, s')"
    show "\<exists>rs. pv_reports s' = pv_reports s @ rs \<and> advances lo hi rs" using progressD [OF s c] by blast
    fix x m assume "r = Ok x" "x = Retry m"
    then show "attempt < INSTALLER_ATTEMPTS" using check_result c by metis
  qed
qed

lemma progress_attempt:
  assumes "attempt = 1 \<and> p = 40 \<or> attempt \<noteq> 1 \<and> p = 54" "lo \<le> p"
    and next_attempt: "attempt < INSTALLER_ATTEMPTS \<Longrightarrow>
      p \<le> 52 \<and> progress 52 58 (installer_attempts il spec host body (Suc attempt) n) (\<lambda>_. True)"
  shows "progress lo 58 (installer_attempts il spec host body attempt (Suc n)) (\<lambda>_. True)"
proof -
  have p: "p \<le> 54" "p \<le> 58" using assms(1) by auto
  have c: "preserves pv_reports (cleanup_installer_container il name)" for name
    unfolding cleanup_installer_container_def by (rule preserve_rules)
  have post: "progress p 58 (case post of
           Ready \<Rightarrow> report ''finishing-installer'' 58 ''Finalizing installed files and removing the installer container''
         | Failed missing \<Rightarrow> io_fail (still_missing missing)
         | Retry missing \<Rightarrow>
             prov_then (report ''retrying-installer'' 52 (retry_message missing))
             (prov_then (in_world (io_ignore (dl_pause (il_docker il))))
               (installer_attempts il spec host body (Suc attempt) n))) (\<lambda>_. True)"
    if "\<forall>m. post = Retry m \<longrightarrow> attempt < INSTALLER_ATTEMPTS" for post
  proof (cases post)
    case Ready
    then show ?thesis using p by (auto intro: progress_report)
  next
    case (Retry m)
    with that next_attempt have "p \<le> 52" "progress 52 58 (installer_attempts il spec host body (Suc attempt) n) (\<lambda>_. True)"
      by auto
    then show ?thesis unfolding Retry installer_postcondition.case
      by (intro progress_next progress_step preserve_rules; simp)
  qed (auto intro!: progress_silent preserve_rules)
  let ?name = "installer_name spec (il_uuid il attempt)"
  let ?check = "\<lambda>post. case post of
           Ready \<Rightarrow> report ''finishing-installer'' 58 ''Finalizing installed files and removing the installer container''
         | Failed missing \<Rightarrow> io_fail (still_missing missing)
         | Retry missing \<Rightarrow>
             prov_then (report ''retrying-installer'' 52 (retry_message missing))
             (prov_then (in_world (io_ignore (dl_pause (il_docker il))))
               (installer_attempts il spec host body (Suc attempt) n))"
  have k: "progress p 58 (io_bind (check_installer il host (cs_startup_command spec) attempt) ?check) (\<lambda>_. True)"
    by (rule progress_bind [where mid = p, OF progress_check post]) (simp_all add: p)
  have cont: "progress p 58 (prov_then (cleanup_installer_container il ?name)
      (from_res result (\<lambda>_. io_bind (check_installer il host (cs_startup_command spec) attempt) ?check))) (\<lambda>_. True)" for result
    by (rule progress_step [OF c progress_step [OF preserves_simple(3) k p(2)] p(2)])
  have tried: "progress lo p (io_try (execute_installer il ?name host body attempt)) (\<lambda>_. True)"
    by (rule progress_try [OF progress_execute [OF assms(1,2) order_refl]])
  show ?thesis
    unfolding installer_attempts.simps Let_def
    by (rule progress_bind [OF tried cont assms(2) p(2)])
qed

lemma progress_attempts: "progress 30 58 (installer_attempts il spec host body 1 INSTALLER_ATTEMPTS) (\<lambda>_. True)"
proof -
  have "progress 52 58 (installer_attempts il spec host body 2 (Suc 0)) (\<lambda>_. True)"
    by (rule progress_attempt [where p = 54]) (auto simp: INSTALLER_ATTEMPTS_def)
  moreover have "INSTALLER_ATTEMPTS = Suc (Suc 0)" by (simp add: INSTALLER_ATTEMPTS_def)
  ultimately show ?thesis
    using progress_attempt [of 1 40 30 il spec host body "Suc 0"] by (simp add: numeral_2_eq_2)
qed

lemma progress_installer: "progress 15 58 (run_installer il spec host) (\<lambda>_. True)"
  unfolding run_installer_def Let_def
  by (intro progress_next progress_step preserve_rules progress_bind [where mid = 58, OF progress_try [OF progress_attempts]]
      progress_silent) auto

lemma silent_storage: "preserves pv_reports (prepare_storage pl spec host)"
  unfolding prepare_storage_def write_metadata_file_def Let_def
  by (intro preserve_rules; auto intro!: preserve_rules split: option.split)

lemma silent_payload: "preserves pv_reports (ensure_payload_disk_limit il host limit)"
  unfolding ensure_payload_disk_limit_def by (intro preserve_rules)

lemma progress_configure: "progress 58 70 (configure_server pl spec host limit) (\<lambda>_. True)"
  unfolding configure_server_def Let_def
  by (intro progress_next progress_step preserve_rules silent_payload progress_silent) auto

lemma progress_create: "progress 70 95 (create_container pl spec host network port) (\<lambda>_. True)"
  unfolding create_container_def engine_call_def Let_def
  by (intro progress_next progress_step preserve_rules progress_silent) auto

lemma progress_reserved: "progress 10 95 (provision_reserved pl spec port) (\<lambda>_. True)"
proof -
  have i: "progress 15 58 (if c then run_installer il spec host else io_return ()) (\<lambda>_. True)" for c il host
    by (cases c) (auto intro: progress_installer progress_silent preserve_rules)
  show ?thesis
    unfolding provision_reserved_def
    by (intro progress_next progress_step preserve_rules silent_storage
        progress_bind [where mid = 58, OF i] progress_bind [where mid = 70, OF progress_configure] progress_create) auto
qed

lemma silent_reserve: "preserves pv_reports (reserve_port pl spec)" "preserves pv_reports (drop_reservation held)"
  by (auto simp: preserves_def reserve_port_def drop_reservation_def in_agent_def split: prod.splits)

lemma create_with_progress_progress: "progress 5 95 (create_with_progress pl spec) (\<lambda>_. True)"
proof -
  have "progress 10 95 (case hp of (port, held) \<Rightarrow> io_bind (io_try (provision_reserved pl spec port)) (\<lambda>result.
         prov_then (drop_reservation held) (io_lift result))) (\<lambda>_. True)" for hp
  proof (cases hp)
    case (Pair port held)
    have rest: "progress 95 95 (prov_then (drop_reservation held) (io_lift result)) (\<lambda>_. True)" for result :: "int res"
      by (rule progress_silent) (intro preserve_rules silent_reserve)
    show ?thesis
      unfolding Pair prod.case
      by (rule progress_bind [OF progress_try [OF progress_reserved] rest]) simp_all
  qed
  then show ?thesis
    unfolding create_with_progress_def
    by (intro progress_next progress_step preserve_rules silent_reserve) auto
qed

text \<open>Lemma: the progress reported while a server is created never goes back, and stays between 5 and
  95 per cent until the call returns.\<close>

theorem progress_never_back:
  "sorted (percents (pv_reports (snd (create_with_progress pl spec \<lparr> pv_agent = a, pv_reports = [] \<rparr>)))) \<and>
   list_all (\<lambda>p. 5 \<le> p \<and> p \<le> 95) (percents (pv_reports (snd (create_with_progress pl spec \<lparr> pv_agent = a, pv_reports = [] \<rparr>))))"
proof -
  obtain r s' where "create_with_progress pl spec \<lparr> pv_agent = a, pv_reports = [] \<rparr> = (r, s')" by (metis surj_pair)
  from progressD [OF create_with_progress_progress this] this show ?thesis by (auto simp: advances_def list_all_iff)
qed

end
