(* ===== verification/Lifecycle_Safety.thy ===== *)
theory Lifecycle_Safety
  imports Lifecycle
begin

text \<open>
  What the lifecycle operations promise: no start beyond the disk limit, no trace of a deleted
  server in memory; and what a failed replacement leaves behind.
\<close>

subsection \<open>What the manager asks\<close>

definition dm_asks :: "(request \<Rightarrow> bool) \<Rightarrow> 'a dm \<Rightarrow> bool" where
  "dm_asks R m \<longleftrightarrow> (\<forall>a. \<exists>rs. w_requests (ag_world (snd (m a))) = w_requests (ag_world a) @ rs \<and> list_all R rs)"

named_theorems dm_rules \<open>the requests of composed manager calls\<close>

lemma dm_asks_bind [dm_rules]:
  assumes "dm_asks R m" "\<And>x. dm_asks R (f x)"
  shows "dm_asks R (io_bind m f)"
  unfolding dm_asks_def
proof
  fix a
  obtain r a1 where m: "m a = (r, a1)" by (metis surj_pair)
  obtain rs where rs: "w_requests (ag_world a1) = w_requests (ag_world a) @ rs" "list_all R rs"
    using assms(1) m unfolding dm_asks_def by (metis snd_conv)
  show "\<exists>rs. w_requests (ag_world (snd (io_bind m f a))) = w_requests (ag_world a) @ rs \<and> list_all R rs"
  proof (cases r)
    case (Inr x)
    obtain rs' where "w_requests (ag_world (snd (f x a1))) = w_requests (ag_world a1) @ rs'" "list_all R rs'"
      using assms(2) unfolding dm_asks_def by blast
    with rs show ?thesis by (auto simp: io_bind_def m Inr intro: exI [of _ "rs @ rs'"])
  qed (use rs m in \<open>auto simp: io_bind_def\<close>)
qed

lemma dm_asks_world [dm_rules]: "asks R m \<Longrightarrow> dm_asks R (on_world m)"
  unfolding dm_asks_def asks_def on_world_def by (auto split: prod.split) (metis snd_conv)

lemma dm_asks_simple [dm_rules]:
  "dm_asks R (io_return x)" "dm_asks R (io_fail e)" "dm_asks R (io_lift r)"
  by (simp_all add: dm_asks_def io_return_def io_fail_def io_lift_def)

lemma dm_asks_guard [dm_rules]: "dm_asks R (guard_io ok m)"
  by (simp add: guard_io_def dm_rules)

lemma dm_asks_memory [dm_rules]: "(\<And>a. ag_world (f a) = ag_world a) \<Longrightarrow> dm_asks R (on_memory f)"
  by (simp add: dm_asks_def on_memory_def)

lemma dm_asks_wrap [dm_rules]:
  "dm_asks R m \<Longrightarrow> dm_asks R (io_try m)" "dm_asks R m \<Longrightarrow> dm_asks R (io_ignore m)" "dm_asks R m \<Longrightarrow> dm_asks R (io_ctx c m)"
  unfolding dm_asks_def io_try_def io_ignore_def io_ctx_def by (auto split: prod.split) (metis snd_conv)+

lemma dm_asks_if [dm_rules]: "(c \<Longrightarrow> dm_asks R m) \<Longrightarrow> (\<not> c \<Longrightarrow> dm_asks R n) \<Longrightarrow> dm_asks R (if c then m else n)"
  by simp

text \<open>A step whose continuation looks at the state first.\<close>

lemma dm_asks_state: "(\<And>b. dm_asks R (f b)) \<Longrightarrow> dm_asks R (\<lambda>a. f a a)"
  by (auto simp: dm_asks_def)

definition no_start :: "request \<Rightarrow> bool" where
  "no_start r \<longleftrightarrow> (\<forall>n. r \<noteq> Api (StartContainer n))"

lemma no_start_simps [simp]:
  "no_start (Spawn xs env input)" "no_start (ContainerExec sid c)"
  "no_start (Api (InspectContainer n))" "no_start (Api (CreateContainer n b))" "no_start (Api (StopContainer n t))"
  "no_start (Api (KillContainer n s))" "no_start (Api (RemoveContainer n))" "no_start (Api (RenameContainer n m))"
  "no_start (Api (UpdateContainer n u))" "no_start (Api (AttachContainer n))" "no_start (Api (WriteConsole n s))"
  "no_start (Api (PullImage n tag))"
  by (simp_all add: no_start_def)

text \<open>A request that neither starts nor creates a container.\<close>

definition plain :: "request \<Rightarrow> bool" where
  "plain r \<longleftrightarrow> no_start r \<and> (\<forall>n body. r \<noteq> Api (CreateContainer n body))"

lemma plain_simps [simp]:
  "plain (Spawn xs env input)" "plain (ContainerExec sid c)"
  "plain (Api (InspectContainer n))" "plain (Api (StopContainer n t))"
  "plain (Api (KillContainer n s))" "plain (Api (RemoveContainer n))" "plain (Api (RenameContainer n m))"
  "plain (Api (UpdateContainer n u))" "plain (Api (AttachContainer n))" "plain (Api (WriteConsole n s))"
  by (simp_all add: plain_def)

lemma dm_asks_mono: "dm_asks R m \<Longrightarrow> (\<And>r. R r \<Longrightarrow> S r) \<Longrightarrow> dm_asks S m"
  unfolding dm_asks_def by (metis list.pred_mono_strong)

lemma plain_no_start: "dm_asks plain m \<Longrightarrow> dm_asks no_start m"
  by (erule dm_asks_mono) (simp add: plain_def)

text \<open>While the agent sleeps it asks for nothing.\<close>

definition quiet_pause :: "docker_lib \<Rightarrow> bool" where
  "quiet_pause lib \<longleftrightarrow> asks (\<lambda>_. False) (dl_pause lib)"

lemma quiet_pause_asks: "quiet_pause lib \<Longrightarrow> asks R (io_ignore (dl_pause lib))"
  unfolding quiet_pause_def asks_def io_ignore_def
  by (metis (no_types, lifting) list.pred_mono_strong snd_conv)

lemma asks_lib [asks_rules]:
  "R (Api (InspectContainer sid)) \<Longrightarrow> asks R (raw_inspect lib sid)"
  "R (Api (InspectContainer sid)) \<Longrightarrow> asks R (dm_inspect lib sid)"
  "R (Api (InspectContainer sid)) \<Longrightarrow> asks R (typed_inspect lib m sid)"
  unfolding raw_inspect_def dm_inspect_def typed_inspect_def
  by (intro asks_rules; simp add: asks_rules)+

lemma asks_replace [asks_rules]: "asks no_start (replace_stale_container lib uuid sid body)"
  unfolding replace_stale_container_def Let_def
  by (intro asks_rules; auto intro!: asks_rules split: sum.split)

lemma asks_attach [asks_rules]:
  assumes "quiet_pause lib" shows "asks plain (create_binding_without_echo lib sid)"
proof -
  have e: "asks plain (echo_attempts lib sid n)" for n
    by (induction n)
      (auto intro!: asks_rules quiet_pause_asks assms split: sum.split)
  show ?thesis
    unfolding create_binding_without_echo_def create_console_binding_def disable_console_echo_def
    by (intro asks_rules; auto intro!: asks_rules e split: sum.split)
qed

lemma asks_wait:
  assumes "quiet_pause lib" shows "asks plain (wait_until_stopped lib sid timeout)"
proof -
  have st: "asks R (\<lambda>w. f w w)" if "\<And>v. asks R (f v)" for R and f :: "world \<Rightarrow> bool io"
    using that by (auto simp: asks_def)
  have l: "asks plain (wait_loop lib sid deadline n)" for deadline n
  proof (induction n)
    case (Suc n)
    have s: "asks plain (\<lambda>w. if \<not> is_running j then (Ok True, w)
       else if deadline \<le> dl_now lib (w_requests w) then (Ok False, w)
       else then_io (io_ignore (dl_pause lib)) (wait_loop lib sid deadline n) w)" for j
    proof (rule st [of _ "\<lambda>v w. if \<not> is_running j then (Ok True, w)
       else if deadline \<le> dl_now lib (w_requests v) then (Ok False, w)
       else then_io (io_ignore (dl_pause lib)) (wait_loop lib sid deadline n) w"])
      fix v :: world
      have "asks plain (io_return b)" for b by (rule asks_rules)
      moreover have "asks plain (then_io (io_ignore (dl_pause lib)) (wait_loop lib sid deadline n))"
        by (intro asks_rules quiet_pause_asks assms Suc.IH)
      ultimately show "asks plain (\<lambda>w. if \<not> is_running j then (Ok True, w)
         else if deadline \<le> dl_now lib (w_requests v) then (Ok False, w)
         else then_io (io_ignore (dl_pause lib)) (wait_loop lib sid deadline n) w)"
        by (auto simp: asks_def io_return_def)
    qed
    show ?case unfolding wait_loop.simps by (intro asks_bind asks_lib s) simp
  qed (simp add: asks_rules)
  show ?thesis
    unfolding asks_def wait_until_stopped_def using l unfolding asks_def by blast
qed

lemma dm_asks_send:
  assumes "quiet_pause lib" shows "dm_asks plain (send_command lib sid command)"
proof -
  have w: "dm_asks plain (write_console_line lib sid line)" for line
  proof -
    have "dm_asks plain (io_bind (on_world (api (dl_host lib) (WriteConsole sid line))) (\<lambda>r.
        io_lift (api_result ''write to container console attachment'' r)))"
      by (intro dm_rules asks_rules) simp
    then show ?thesis
      by (auto simp: dm_asks_def write_console_line_def)
  qed
  have c: "dm_asks plain (on_world (create_binding_without_echo lib sid))"
    by (intro dm_rules asks_rules assms)
  have g: "dm_asks plain (get_or_create_console_binding lib sid)"
  proof -
    have "dm_asks plain (dm_then (on_world (create_binding_without_echo lib sid)) (insert_binding sid))"
      unfolding insert_binding_def by (intro dm_rules c) simp
    then show ?thesis by (auto simp: dm_asks_def get_or_create_console_binding_def)
  qed
  have r: "dm_asks plain (\<lambda>a. if attachment_closed lib sid a
      then io_ctx m (on_world (create_binding_without_echo lib sid)) a else (Ok (), a))" for m
    using dm_asks_wrap(3) [OF c, of m] by (auto simp: dm_asks_def)
  have i: "dm_asks plain (on_world (dm_inspect lib sid))"
    by (intro dm_rules asks_rules) simp
  show ?thesis
    unfolding send_command_def
    by (intro dm_rules c g r w i; auto intro!: dm_rules c w split: sum.split)
qed

lemma dm_asks_forget [dm_rules]:
  "dm_asks R (detach_console sid)" "dm_asks R (forget_startup sid)" "dm_asks R (clear_stopped_runtime_state sid)"
  "dm_asks R (forget_runtime_state sid)" "dm_asks R (begin_manual_recovery lib sid)"
  unfolding clear_stopped_runtime_state_def forget_runtime_state_def detach_console_def forget_startup_def
    begin_manual_recovery_def
  by (intro dm_rules; simp)+

lemma dm_asks_stop:
  assumes "quiet_pause lib" shows "dm_asks plain (stop_server lib sid)"
proof -
  have g: "asks plain (force_graceful_stop lib sid)"
    unfolding force_graceful_stop_def by (intro asks_rules; auto intro!: asks_rules split: sum.split)
  have p: "asks plain (apply_manual_restart_policy lib sid)"
    unfolding apply_manual_restart_policy_def by (intro asks_rules) simp
  have k: "asks plain (io_ignore (api (dl_host lib) (KillContainer sid signal)))" for signal
    by (intro asks_rules) simp
  show ?thesis
    unfolding stop_server_def Let_def
    by (intro dm_rules asks_rules k p g asks_wait dm_asks_send assms; simp)
qed

text \<open>The engine refuses to create a container.\<close>

definition refuses_creation :: "host \<Rightarrow> bool" where
  "refuses_creation h \<longleftrightarrow> (\<forall>rs n body t. \<not> is_ok (case fst (h_api h rs (CreateContainer n body) t) of
     Inl e \<Rightarrow> Err (docker_error_value e) | Inr u \<Rightarrow> Ok u))"

lemma refused_replacement:
  assumes "refuses_creation (dl_host lib)"
  shows "\<not> is_ok (fst (replace_stale_container lib uuid sid body w))"
proof -
  have c: "\<exists>e w'. api (dl_host lib) (CreateContainer n b) w = (Inr (Inl e), w')" for n b w
  proof -
    obtain x t where x: "h_api (dl_host lib) (w_requests w) (CreateContainer n b) (w_root w) = (x, t)" by (metis surj_pair)
    then have "\<exists>e. x = Inl e"
      using assms [unfolded refuses_creation_def, rule_format, of "w_requests w" n b "w_root w"] by (cases x) auto
    then show ?thesis by (auto simp: api_def perform_def x)
  qed
  obtain r1 w1 where a1: "api (dl_host lib) (RenameContainer sid (stale_name sid uuid)) w = (Inr r1, w1)"
    by (cases "api (dl_host lib) (RenameContainer sid (stale_name sid uuid)) w")
      (auto simp: api_def split: prod.splits)
  obtain e w2 where a2: "api (dl_host lib) (CreateContainer sid body) w1 = (Inr (Inl e), w2)" using c by blast
  obtain r3 w3 where a3: "api (dl_host lib) (RenameContainer (stale_name sid uuid) sid) w2 = (Inr r3, w3)"
    by (cases "api (dl_host lib) (RenameContainer (stale_name sid uuid) sid) w2")
      (auto simp: api_def split: prod.splits)
  show ?thesis
    by (cases r1; cases r3) (simp_all add: replace_stale_container_def Let_def io_bind_def a1 a2 a3 api_result_def
        io_lift_def io_fail_def)
qed

lemma asks_startup [asks_rules]:
  assumes "\<And>C. asks C pause" shows "asks C (missing_startup_target pause root command)"
proof -
  have "asks C (startup_attempts pause target resolved n)" for target resolved n
    by (induction n) (auto intro!: asks_rules assms split: sum.split node.split)
  then show ?thesis unfolding missing_startup_target_def by (auto intro!: asks_rules split: option.split)
qed

subsection \<open>A server whose container cannot be replaced\<close>

text \<open>
  What Docker documents of a container's state: only a start makes it run, it does not run after
  a stop that succeeded or found it stopped (status 304), and a report says if it runs.
\<close>

definition engine_runs :: "host \<Rightarrow> string \<Rightarrow> (request list \<Rightarrow> bool) \<Rightarrow> bool" where
  "engine_runs h sid running \<longleftrightarrow>
     (\<forall>rs r. running (rs @ [r]) \<longrightarrow> running rs \<or> \<not> no_start r) \<and>
     (\<forall>rs n t. (case fst (h_api h rs (StopContainer sid n) t) of Inr _ \<Rightarrow> True | Inl e \<Rightarrow> docker_status e = Some 304) \<longrightarrow>
        \<not> running (rs @ [Api (StopContainer sid n)])) \<and>
     (\<forall>rs info. h_inspect h rs sid = Inr info \<longrightarrow> running (rs @ [Api (InspectContainer sid)]) \<longrightarrow>
        is_running (ci_json info) \<and> ci_running info = Some True)"

abbreviation (input) requests_in :: "agent \<Rightarrow> request list" where
  "requests_in a \<equiv> w_requests (ag_world a)"

lemma stays_stopped: "engine_runs h sid running \<Longrightarrow> list_all no_start rs \<Longrightarrow> \<not> running qs \<Longrightarrow> \<not> running (qs @ rs)"
  by (induction rs rule: rev_induct) (auto simp: engine_runs_def simp flip: append_assoc)

lemma inspected_stopped:
  assumes "engine_runs (dl_host lib) sid running" "dm_inspect lib sid w = (Inr j, w')" "\<not> is_running j"
  shows "\<not> running (w_requests w')"
proof -
  obtain info where i: "h_inspect (dl_host lib) (w_requests w) sid = Inr info" "j = ci_json info"
    "w_requests w' = w_requests w @ [Api (InspectContainer sid)]"
    using assms(2) by (auto simp: dm_inspect_def raw_inspect_def api_inspect_def perform_def io_bind_def io_lift_def
        io_return_def docker_inspect_def res_simps split: sum.splits prod.splits)
  then show ?thesis using assms(1,3) unfolding engine_runs_def by metis
qed

lemma waited_stopped:
  assumes "engine_runs (dl_host lib) sid running" "wait_loop lib sid deadline n w = (Inr True, w')"
  shows "\<not> running (w_requests w')"
  using assms(2)
proof (induction n arbitrary: w)
  case (Suc n)
  from io_bind_split [OF Suc.prems [unfolded wait_loop.simps]] obtain j v where
    j: "dm_inspect lib sid w = (Inr j, v)" and
    r: "(if \<not> is_running j then (Ok True, v) else if deadline \<le> dl_now lib (w_requests v) then (Ok False, v)
      else then_io (io_ignore (dl_pause lib)) (wait_loop lib sid deadline n) v) = (Inr True, w')" by auto
  show ?case
  proof (cases "is_running j")
    case True
    then have "then_io (io_ignore (dl_pause lib)) (wait_loop lib sid deadline n) v = (Inr True, w')"
      using r by (auto split: if_splits)
    from io_bind_split [OF this] show ?thesis using Suc.IH by auto
  qed (use r inspected_stopped [OF assms(1) j] in auto)
qed (simp add: io_return_def)

lemma force_stopped:
  assumes "engine_runs (dl_host lib) sid running" "force_graceful_stop lib sid w = (Inr x, w')"
  shows "\<not> running (w_requests w')"
proof -
  obtain r t where r: "h_api (dl_host lib) (w_requests w) (StopContainer sid 10) (w_root w) = (r, t)" by (metis surj_pair)
  then have "(case r of Inr _ \<Rightarrow> True | Inl e \<Rightarrow> docker_status e = Some 304) \<and>
      w_requests w' = w_requests w @ [Api (StopContainer sid 10)]"
    using assms(2) by (auto simp: force_graceful_stop_def io_bind_def api_def perform_def io_return_def io_fail_def
        split: sum.splits if_splits)
  then show ?thesis
    using assms(1) [unfolded engine_runs_def, THEN conjunct2, THEN conjunct1, rule_format, of "w_requests w" 10 "w_root w"]
    by (simp add: r)
qed

text \<open>A step that, when it succeeds, ends with the server stopped; the state before may matter.\<close>

definition ends_stopped :: "(request list \<Rightarrow> bool) \<Rightarrow> (request list \<Rightarrow> bool) \<Rightarrow> unit dm \<Rightarrow> bool" where
  "ends_stopped running P m \<longleftrightarrow> (\<forall>a x b. P (requests_in a) \<longrightarrow> m a = (Inr x, b) \<longrightarrow> \<not> running (requests_in b))"

lemma ends_stopped_bind:
  "(\<And>a x b. P (requests_in a) \<Longrightarrow> m a = (Inr x, b) \<Longrightarrow> Q x (requests_in b)) \<Longrightarrow> (\<And>x. ends_stopped running (Q x) (f x)) \<Longrightarrow>
   ends_stopped running P (io_bind m f)"
  unfolding ends_stopped_def by (metis io_bind_split old.sum.distinct(2))

lemma ends_stopped_any:
  "(\<And>x. ends_stopped running (\<lambda>_. True) (f x)) \<Longrightarrow> ends_stopped running P (io_bind m f)"
  by (rule ends_stopped_bind [of _ _ "\<lambda>_ _. True"]) auto

lemma ends_stopped_keep:
  assumes "engine_runs h sid running" "dm_asks no_start m"
  shows "ends_stopped running (\<lambda>rs. \<not> running rs) m"
  unfolding ends_stopped_def using assms stays_stopped unfolding dm_asks_def by (metis snd_conv)

lemma stop_ends_stopped:
  assumes "engine_runs (dl_host lib) sid running"
  shows "ends_stopped running (\<lambda>_. True) (stop_server lib sid)"
proof -
  have c: "ends_stopped running (\<lambda>rs. \<not> running rs) (clear_stopped_runtime_state sid)"
    by (intro ends_stopped_keep [OF assms] dm_rules)
  have f: "ends_stopped running (\<lambda>_. True) (dm_then (on_world (force_graceful_stop lib sid)) (clear_stopped_runtime_state sid))"
    using force_stopped [OF assms]
    by (intro ends_stopped_bind [OF _ c]) (auto simp: on_world_def split: prod.splits)
  have w: "ends_stopped running (\<lambda>_. True)
      (io_bind (if sc \<noteq> [] then on_world (wait_until_stopped lib sid (secs 10)) else io_return False)
        (\<lambda>stopped. if stopped then clear_stopped_runtime_state sid
          else dm_then (on_world (force_graceful_stop lib sid)) (clear_stopped_runtime_state sid)))" for sc :: string
  proof (rule ends_stopped_bind [of _ _ "\<lambda>stopped rs. stopped \<longrightarrow> \<not> running rs"])
    fix a x b
    assume "(if sc \<noteq> [] then on_world (wait_until_stopped lib sid (secs 10)) else io_return False) a = (Inr x, b)"
    then show "x \<longrightarrow> \<not> running (requests_in b)"
      using waited_stopped [OF assms]
      by (auto simp: on_world_def wait_until_stopped_def io_return_def simp del: wait_loop.simps split: if_splits prod.splits)
  next
    fix stopped
    show "ends_stopped running (\<lambda>rs. stopped \<longrightarrow> \<not> running rs) (if stopped then clear_stopped_runtime_state sid
          else dm_then (on_world (force_graceful_stop lib sid)) (clear_stopped_runtime_state sid))"
      using c f by (cases stopped) (auto simp: ends_stopped_def)
  qed
  have "ends_stopped running (\<lambda>rs. is_running j \<or> \<not> running rs) (if \<not> is_running j then clear_stopped_runtime_state sid
       else
         let stop_command = trim (case label_text ''agapornis.stop_command'' j of Some c \<Rightarrow> c | None \<Rightarrow> []) in
         dm_then (if stop_command \<noteq> [] then on_world (apply_manual_restart_policy lib sid) else io_return ())
         (dm_then (if stop_command = ''^C'' then on_world (io_ignore (api (dl_host lib) (KillContainer sid ''SIGINT'')))
                   else if stop_command \<noteq> [] then io_ignore (send_command lib sid stop_command)
                   else io_return ())
         (io_bind (if stop_command \<noteq> [] then on_world (wait_until_stopped lib sid (secs 10)) else io_return False) (\<lambda>stopped.
            if stopped then clear_stopped_runtime_state sid
            else dm_then (on_world (force_graceful_stop lib sid)) (clear_stopped_runtime_state sid)))))" for j
  proof (cases "is_running j")
    case True
    show ?thesis unfolding Let_def using True
      by (simp only: not_True_eq_False if_False) (rule ends_stopped_any, rule ends_stopped_any, rule w)
  qed (use c in \<open>simp add: ends_stopped_def\<close>)
  then show ?thesis
    unfolding stop_server_def using inspected_stopped [OF assms]
    by (intro ends_stopped_any ends_stopped_bind [of _ _ "\<lambda>j rs. is_running j \<or> \<not> running rs"])
       (auto simp: on_world_def split: prod.splits)
qed

text \<open>
  A step that starts nothing, and if it asks for the creation of a container, fails with the
  server stopped; unless @c@ holds, the server is stopped at its beginning.
\<close>

definition halts :: "(request list \<Rightarrow> bool) \<Rightarrow> bool \<Rightarrow> unit dm \<Rightarrow> bool" where
  "halts running c m \<longleftrightarrow> (\<forall>a r b. c \<or> \<not> running (requests_in a) \<longrightarrow> m a = (r, b) \<longrightarrow>
     (\<exists>rs. requests_in b = requests_in a @ rs \<and> list_all no_start rs \<and>
       (list_all plain rs \<or> \<not> is_ok r \<and> \<not> running (requests_in b))))"

lemma halts_plain: "dm_asks plain m \<Longrightarrow> halts running c m"
  unfolding halts_def dm_asks_def by (metis list.pred_mono_strong plain_def snd_conv)

lemma halts_bind':
  assumes "dm_asks plain m" "\<And>x. halts running (c' x) (f x)"
    and "\<And>a x b. c \<or> \<not> running (requests_in a) \<Longrightarrow> m a = (Inr x, b) \<Longrightarrow> c' x \<or> \<not> running (requests_in b)"
  shows "halts running c (io_bind m f)"
  unfolding halts_def
proof (intro allI impI)
  fix a r b assume c: "c \<or> \<not> running (requests_in a)" and r: "io_bind m f a = (r, b)"
  from io_bind_split [OF r] show "\<exists>rs. requests_in b = requests_in a @ rs \<and> list_all no_start rs \<and>
       (list_all plain rs \<or> \<not> is_ok r \<and> \<not> running (requests_in b))"
  proof (elim disjE exE conjE)
    fix e assume "m a = (Inl e, b)"
    then obtain rs where "requests_in b = requests_in a @ rs" "list_all plain rs"
      using assms(1) unfolding dm_asks_def by (metis snd_conv)
    then show ?thesis by (auto simp: plain_def list_all_iff)
  next
    fix x b' assume m: "m a = (Inr x, b')" and f: "f x b' = (r, b)"
    obtain rs where rs: "requests_in b' = requests_in a @ rs" "list_all plain rs"
      using assms(1) m unfolding dm_asks_def by (metis snd_conv)
    then have "list_all no_start rs" by (auto simp: plain_def list_all_iff)
    moreover obtain rs' where "requests_in b = requests_in b' @ rs'" "list_all no_start rs'"
      "list_all plain rs' \<or> \<not> is_ok r \<and> \<not> running (requests_in b)"
      using assms(2) [of x, unfolded halts_def, rule_format, OF assms(3) [OF c m] f] by blast
    ultimately show ?thesis using rs by (intro exI [of _ "rs @ rs'"]) auto
  qed
qed

lemma halts_if: "(d \<Longrightarrow> halts running c m) \<Longrightarrow> (\<not> d \<Longrightarrow> halts running c n) \<Longrightarrow> halts running c (if d then m else n)"
  by simp

lemma halts_bind:
  assumes "engine_runs h sid running" "dm_asks plain m" "\<And>x. halts running c (f x)"
  shows "halts running c (io_bind m f)"
proof (rule halts_bind' [OF assms(2,3)])
  fix a x b assume "c \<or> \<not> running (requests_in a)" "m a = (Inr x, b)"
  then show "c \<or> \<not> running (requests_in b)"
    using stays_stopped [OF assms(1)] plain_no_start [OF assms(2)] unfolding dm_asks_def by (metis snd_conv)
qed

lemma halts_inspect:
  assumes "engine_runs (dl_host lib) sid running" "\<And>info. halts running (ci_running info = Some True) (f info)"
  shows "halts running c (io_bind (on_world (typed_inspect lib m sid)) f)"
proof (rule halts_bind' [OF _ assms(2)])
  show "dm_asks plain (on_world (typed_inspect lib m sid))" by (intro dm_rules asks_rules) simp
  fix a info b assume "on_world (typed_inspect lib m sid) a = (Inr info, b)"
  then have "h_inspect (dl_host lib) (requests_in a) sid = Inr info"
    "requests_in b = requests_in a @ [Api (InspectContainer sid)]"
    by (auto simp: on_world_def typed_inspect_def api_inspect_def perform_def io_bind_def io_lift_def api_result_def
        split: prod.splits sum.splits)
  then show "ci_running info = Some True \<or> \<not> running (requests_in b)"
    using assms(1) unfolding engine_runs_def by metis
qed

lemma halts_replace:
  assumes "engine_runs (dl_host lib) sid running" "refuses_creation (dl_host lib)"
  shows "halts running False (dm_then (on_world (replace_stale_container lib uuid sid body)) rest)"
  unfolding halts_def
proof (intro allI impI)
  fix a r b assume s: "False \<or> \<not> running (requests_in a)"
    and t: "dm_then (on_world (replace_stale_container lib uuid sid body)) rest a = (r, b)"
  obtain q w where q: "replace_stale_container lib uuid sid body (ag_world a) = (q, w)" by (metis surj_pair)
  then have "\<not> is_ok q" using refused_replacement [OF assms(2), of uuid sid body "ag_world a"] by simp
  then obtain e where e: "q = Inl e" by (cases q) auto
  have b: "\<not> is_ok r" "ag_world b = w" using t by (auto simp: io_bind_def on_world_def q e)
  obtain rs where "w_requests w = requests_in a @ rs" "list_all no_start rs"
    using asks_replace [of lib uuid sid body] q unfolding asks_def by (metis snd_conv)
  then show "\<exists>rs. requests_in b = requests_in a @ rs \<and> list_all no_start rs \<and>
       (list_all plain rs \<or> \<not> is_ok r \<and> \<not> running (requests_in b))"
    using s b stays_stopped [OF assms(1)] by auto
qed

lemma halts_replace_around:
  assumes "quiet_pause lib" "engine_runs (dl_host lib) sid running" "refuses_creation (dl_host lib)"
  shows "halts running was_running (replace_around lib uuid uuid2 uuid3 sid was_running body)"
  unfolding replace_around_def
proof (rule halts_bind')
  show "dm_asks plain (if was_running then stop_server lib sid else io_return ())"
    by (intro dm_rules dm_asks_stop assms)
  fix a x b assume "was_running \<or> \<not> running (requests_in a)"
    "(if was_running then stop_server lib sid else io_return ()) a = (Inr x, b)"
  then show "False \<or> \<not> running (requests_in b)"
    using stop_ends_stopped [OF assms(2)]
    by (cases was_running) (auto simp: ends_stopped_def io_return_def)
qed (rule halts_replace [OF assms(2,3)])

lemma halts_update_ports:
  assumes "quiet_pause lib" "engine_runs (dl_host lib) sid running" "refuses_creation (dl_host lib)"
  shows "halts running True (update_ports lib uuid uuid2 uuid3 sid mappings)"
proof -
  have e: "dm_asks plain (\<lambda>a. (f a, a))" for f :: "agent \<Rightarrow> unit res" by (simp add: dm_asks_def)
  show ?thesis
    unfolding update_ports_def
    by (intro halts_bind [OF assms(2)] dm_rules halts_inspect [OF assms(2)])
       (auto intro!: halts_bind [OF assms(2)] dm_rules halts_inspect [OF assms(2)] halts_replace_around [OF assms] e
          split: prod.split)
qed

lemma halts_update_configuration:
  assumes "quiet_pause lib" "engine_runs (dl_host lib) sid running" "refuses_creation (dl_host lib)"
  shows "halts running True
    (update_configuration lib uuid uuid2 uuid3 sid env startup stop_cmd startup_done config_files)"
proof -
  have p: "asks C (dl_pause lib)" for C using asks_mono [OF assms(1) [unfolded quiet_pause_def]] by blast
  have v: "asks plain (validate_startup (dl_pause lib) host startup)" for host
    unfolding validate_startup_def by (intro asks_bind asks_startup p) (auto intro!: asks_rules split: option.split)
  have c: "asks plain (create_parent path)" for path
    unfolding create_parent_def by (auto intro!: asks_rules split: option.split)
  show ?thesis
    unfolding update_configuration_def Let_def
    by (intro halts_bind [OF assms(2)] dm_rules v asks_rules c halts_inspect [OF assms(2)] halts_if
        halts_replace_around [OF assms] halts_plain)
qed

definition asked_since :: "agent \<Rightarrow> agent \<Rightarrow> request \<Rightarrow> bool" where
  "asked_since a b r \<longleftrightarrow> r \<in> set (drop (length (requests_in a)) (requests_in b))"

text \<open>C22: when Docker refuses to create the new container, every update of the ports or of the
  configuration that came as far as asking for it fails and leaves the server stopped: if it was
  running it was stopped first, and nothing starts it again.\<close>

theorem failed_update_leaves_stopped:
  assumes "quiet_pause lib" "refuses_creation (dl_host lib)" "engine_runs (dl_host lib) sid running"
    and "update_ports lib uuid uuid2 uuid3 sid mappings a = (r, b) \<or>
      update_configuration lib uuid uuid2 uuid3 sid env startup stop_cmd startup_done config_files a = (r, b)"
    and "asked_since a b (Api (CreateContainer name body))"
  shows "\<not> is_ok r \<and> \<not> running (requests_in b) \<and> (\<forall>n. \<not> asked_since a b (Api (StartContainer n)))"
proof -
  obtain rs where rs: "requests_in b = requests_in a @ rs" "list_all no_start rs"
    "list_all plain rs \<or> \<not> is_ok r \<and> \<not> running (requests_in b)"
    using assms(4) halts_update_ports [OF assms(1,3,2)] halts_update_configuration [OF assms(1,3,2)]
    unfolding halts_def by blast
  have "\<not> list_all plain rs"
    using assms(5) rs(1) by (auto simp: asked_since_def list_all_iff plain_def)
  then show ?thesis using rs by (auto simp: asked_since_def list_all_iff no_start_def)
qed

text \<open>An engine with a running server that refuses every creation.\<close>

definition busy_info :: container_info where
  "busy_info = \<lparr> ci_config = Some \<lparr> cc_image = Some ''i'', cc_user = None, cc_working_dir = None, cc_console = True,
       cc_env = None, cc_entrypoint = None, cc_cmd = None, cc_healthcheck = None,
       cc_labels = Some [(''agapornis.server_id'', ''s'')], cc_exposed_ports = None, cc_rest = JNull \<rparr>,
     ci_host = Some (server_host_config (\<lambda>p. p) sample_spec ''net'' [] None []), ci_running = Some True,
     ci_networks = Some [''net''], ci_json = JObject [(''State'', JObject [(''Running'', JBool True)])] \<rparr>"

definition busy_lib :: docker_lib where
  "busy_lib = bare_lib (no_create_host\<lparr> h_inspect := (\<lambda>_ _. Inr busy_info) \<rparr>)"

definition idle_agent :: agent where
  "idle_agent = \<lparr> ag_world = \<lparr> w_root = Dir [], w_cwd = [], w_faults = [], w_trace = [], w_requests = [], w_objects = [] \<rparr>,
     ag_protection = protection_default (\<lambda>_. None), ag_disk = Map.empty,
     ag_ready = [], ag_checks = Map.empty, ag_bindings = [], ag_reserved = [] \<rparr>"

lemma busy_engine: "engine_runs (dl_host busy_lib) ''s'' (\<lambda>rs. \<forall>n. Api (StopContainer ''s'' n) \<notin> set rs)"
  by (auto simp: engine_runs_def busy_lib_def bare_lib_def no_create_host_def busy_info_def is_running_def)

lemma busy_host:
  "h_inspect (dl_host busy_lib) rs sid = Inr busy_info"
  "h_api (dl_host busy_lib) rs call t = (case call of CreateContainer _ _ \<Rightarrow> Inl (DockerStatus 500 []) | _ \<Rightarrow> Inr (), t)"
  by (simp_all add: busy_lib_def bare_lib_def no_create_host_def)

lemma busy_inspect:
  "on_world (typed_inspect busy_lib m ''s'') a = (Ok busy_info, a\<lparr> ag_world := set_root (w_root (ag_world a))
      ((ag_world a)\<lparr> w_requests := requests_in a @ [Api (InspectContainer ''s'')] \<rparr>) \<rparr>)"
  by (simp add: on_world_def typed_inspect_def io_bind_def api_inspect_def perform_def busy_host api_result_def io_lift_def)

lemma busy_replace_around:
  "\<exists>e b. replace_around busy_lib ''1'' ''2'' ''3'' ''s'' True body a = (Inl e, b) \<and>
      Api (CreateContainer ''s'' body) \<in> set (requests_in b)"
proof -
  have i: "validate_id ''s'' = Ok ()" "trim [] = []" "is_running (ci_json busy_info)"
    "label_text ''agapornis.stop_command'' (ci_json busy_info) = None" by code_simp+
  have di: "dm_inspect busy_lib ''s'' w = (Ok (ci_json busy_info), set_root (w_root w)
      (w\<lparr> w_requests := w_requests w @ [Api (InspectContainer ''s'')] \<rparr>))" for w
    by (simp add: dm_inspect_def raw_inspect_def io_bind_def api_inspect_def perform_def busy_host io_lift_def io_return_def
        docker_inspect_def i res_simps)
  have st: "\<exists>a'. stop_server busy_lib ''s'' a = (Ok (), a')" for a
    by (simp add: stop_server_def io_bind_def io_lift_def i di on_world_def Let_def io_return_def force_graceful_stop_def
        api_def perform_def busy_host clear_stopped_runtime_state_def detach_console_def forget_startup_def on_memory_def)
  have rp: "\<exists>e w'. replace_stale_container busy_lib u ''s'' body w = (Inl e, w') \<and>
      Api (CreateContainer ''s'' body) \<in> set (drop (length (w_requests w)) (w_requests w'))" for u body w
    by (simp add: replace_stale_container_def Let_def io_bind_def api_def perform_def busy_host api_result_def io_lift_def io_fail_def)
  obtain a' where "stop_server busy_lib ''s'' a = (Ok (), a')" using st by blast
  moreover obtain e w' where "replace_stale_container busy_lib ''1'' ''s'' body (ag_world a') = (Inl e, w')"
    "Api (CreateContainer ''s'' body) \<in> set (w_requests w')" using rp by (metis in_set_dropD)
  ultimately show ?thesis by (simp add: replace_around_def io_bind_def on_world_def)
qed

theorem failed_update_leaves_stopped_witness:
  "case update_ports busy_lib ''1'' ''2'' ''3'' ''s'' [(''25565'', 30000)] idle_agent of
     (r, b) \<Rightarrow> \<not> is_ok r \<and> (\<exists>n. Api (StopContainer ''s'' n) \<in> set (w_requests (ag_world b))) \<and>
       (\<forall>n. \<not> asked_since idle_agent b (Api (StartContainer n)))"
proof -
  have "parse_u16 ''25565'' = Some 25565"
    by (simp add: parse_u16_def parse_unsigned_def parse_digits_def is_digit_def digit_val_def u16_max_def)
  moreover have "split_once (CHR ''/'') ''25565/tcp'' = Some (''25565'', ''tcp'')" by code_simp
  ultimately have "\<exists>e bs. validated_port_bindings [(''25565'', 30000)] = Ok (e, bs) \<and> binding_ports bs = [Some (nat_digits 30000)]"
    by (simp add: validated_port_bindings_def binding_ports_def any_address_def Let_def)
  then obtain e bs where v: "validated_port_bindings [(''25565'', 30000)] = Ok (e, bs)" "binding_ports bs = [Some (nat_digits 30000)]"
    by blast
  have i: "validate_id ''s'' = Ok ()" by code_simp
  have "parse_u16 (nat_digits 30000) = Some 30000"
    unfolding parse_u16_def by (rule parse_unsigned_nat_digits) (simp add: u16_max_def)
  then have av: "ensure_requested_ports_available busy_lib [] X bs = Ok ()" for X
    by (simp add: ensure_requested_ports_available_def v(2) busy_lib_def bare_lib_def)
  have b: "ci_config busy_info \<noteq> None" "cc_labels (the (ci_config busy_info)) = Some [(''agapornis.server_id'', ''s'')]"
    "ci_host busy_info \<noteq> None" "ci_running busy_info = Some True" by (simp_all add: busy_info_def)
  then obtain config hc where c: "ci_config busy_info = Some config" "cc_labels config = Some [(''agapornis.server_id'', ''s'')]"
    "ci_host busy_info = Some hc" by auto
  obtain r b where u: "update_ports busy_lib ''1'' ''2'' ''3'' ''s'' [(''25565'', 30000)] idle_agent = (r, b)" by (metis surj_pair)
  have "ag_reserved (idle_agent\<lparr> ag_world := w \<rparr>) = []" for w by (simp add: idle_agent_def)
  then obtain body a where "replace_around busy_lib ''1'' ''2'' ''3'' ''s'' True body a = (r, b)"
    using u by (auto simp: update_ports_def v i av io_bind_def io_lift_def busy_inspect c owned_labels_def the_config_def b(4))
  then have "asked_since idle_agent b (Api (CreateContainer ''s'' body))"
    using busy_replace_around [of body a] by (simp add: asked_since_def idle_agent_def)
  moreover have "quiet_pause busy_lib" "refuses_creation (dl_host busy_lib)"
    by (simp_all add: quiet_pause_def busy_lib_def bare_lib_def asks_rules refuses_creation_def no_create_host_def)
  ultimately show ?thesis
    using failed_update_leaves_stopped [OF _ _ busy_engine, of "''1''" "''2''" "''3''" "[(''25565'', 30000)]" idle_agent r b] u
    by auto
qed

subsection \<open>Starting within the disk limit\<close>

text \<open>
  A state @c@, reached from @a@ without a start, at which the server's directory has just been
  measured: the limit was read and the directory asked for during this call, the directory's
  size in the present tree is within the limit, and that is the cached measurement.
\<close>

definition measured_within :: "docker_lib \<Rightarrow> string \<Rightarrow> agent \<Rightarrow> agent \<Rightarrow> bool" where
  "measured_within lib sid a c \<longleftrightarrow> (\<exists>rs qs w0 w1 p x limit at.
     requests_in c = requests_in a @ rs \<and> list_all no_start rs \<and> w_requests w0 = requests_in a @ qs \<and>
     disk_limit (dl_env lib) (dm_inspect lib sid) sid w0 = (Ok limit, w1) \<and>
     dm_root lib sid w1 = (Ok (p, x), ag_world c) \<and>
     (limit > 0 \<longrightarrow> dir_size (dl_readable lib) p (w_root (ag_world c)) (w_cwd (ag_world c)) \<le> limit) \<and>
     ag_disk c sid = Some (DiskReady at (dir_size (dl_readable lib) p (w_root (ag_world c)) (w_cwd (ag_world c))) limit))"

lemma on_world_disk: "on_world m a = (r, b) \<Longrightarrow> ag_disk b = ag_disk a"
  by (auto simp: on_world_def split: prod.splits)

lemma disk_force_Ok:
  assumes "disk_force lib sid a = (Inr (usage, limit), b)"
  shows "(\<exists>at. ag_disk b sid = Some (DiskReady at usage limit)) \<and>
    measure_disk lib sid (ag_world a) = (Inr (usage, limit), ag_world b)"
proof -
  let ?turn = "begin_disk_calculation sid True (disk_cache_age (dl_env lib)) (dl_now lib (w_requests (ag_world a)))
    (length (w_requests (ag_world a))) (settled sid (ag_disk a))"
  obtain calc cache where b: "?turn = (calc, cache)" by (metis surj_pair)
  have "calc = Calculate (length (w_requests (ag_world a))) \<and> is_current sid (length (w_requests (ag_world a))) cache"
    using b by (auto simp: begin_disk_calculation_def is_current_def settled_def calculating_def
        split: option.splits cache_state.splits if_splits)
  then have c: "calc = Calculate (length (w_requests (ag_world a)))" "is_current sid (length (w_requests (ag_world a))) cache"
    by auto
  obtain r w where m: "measure_disk lib sid (ag_world a) = (r, w)" by (metis surj_pair)
  have "is_ok (validate_id sid)"
    using assms by (auto simp: disk_force_def disk_cached_def io_bind_def io_lift_def split: sum.splits)
  then obtain u where v: "validate_id sid = Inr u" by (cases "validate_id sid") auto
  from assms c m show ?thesis
    by (cases r) (auto simp: disk_force_def disk_cached_def v b io_bind_def io_lift_def io_try_def on_world_def
        on_memory_def io_return_def io_fail_def finish_disk_calculation_def is_current_def split: prod.splits)
qed

lemma ensure_disk_Ok:
  assumes "ensure_disk lib sid a = (Inr x, b)" "\<exists>rs. requests_in b = requests_in a @ rs \<and> list_all no_start rs"
  shows "measured_within lib sid a b"
proof -
  obtain usage limit c where d: "disk_force lib sid a = (Inr (usage, limit), c)"
    using assms(1) by (auto simp: ensure_disk_def io_bind_def split: prod.splits sum.splits)
  have l: "\<not> (limit > 0 \<and> usage > limit)" "ag_disk b = ag_disk c" "ag_world b = ag_world c"
    using assms(1) by (auto simp: ensure_disk_def io_bind_def d on_memory_def io_fail_def split: if_splits)
  have m: "measure_disk lib sid (ag_world a) = (Inr (usage, limit), ag_world b)" using disk_force_Ok [OF d] l(3) by simp
  from io_bind_split [OF m [unfolded measure_disk_def]] obtain l w1 where
    1: "disk_limit (dl_env lib) (dm_inspect lib sid) sid (ag_world a) = (Inr l, w1)" and
    2: "io_bind (dm_root lib sid) (\<lambda>(p, _) w. (Ok (dir_size (dl_readable lib) p (w_root w) (w_cwd w), l), w)) w1
      = (Inr (usage, limit), ag_world b)" by blast
  from io_bind_split [OF 2] obtain y w2 where 3: "dm_root lib sid w1 = (Inr y, w2)"
    "(case y of (p, _) \<Rightarrow> \<lambda>w. (Ok (dir_size (dl_readable lib) p (w_root w) (w_cwd w), l), w)) w2
      = (Inr (usage, limit), ag_world b)" by blast
  obtain p x where y: "y = (p, x)" by (cases y)
  have 4: "l = limit" "w2 = ag_world b" "usage = dir_size (dl_readable lib) p (w_root (ag_world b)) (w_cwd (ag_world b))"
    using 3(2) by (auto simp: y)
  obtain at where "ag_disk b sid = Some (DiskReady at usage limit)" using disk_force_Ok [OF d] l(2) by auto
  moreover obtain rs where "requests_in b = requests_in a @ rs" "list_all no_start rs" using assms(2) by blast
  moreover have "limit > 0 \<longrightarrow> usage \<le> limit" using l(1) by auto
  moreover have "w_requests (ag_world a) = requests_in a @ []" by simp
  ultimately show ?thesis unfolding measured_within_def using 1 3(1) unfolding y 4 by blast
qed

text \<open>Steps that leave the cache of measurements alone.\<close>

definition keeps_disk :: "'a dm \<Rightarrow> bool" where
  "keeps_disk m \<longleftrightarrow> (\<forall>a. ag_disk (snd (m a)) = ag_disk a)"

named_theorems keeps_rules \<open>steps that keep the disk cache\<close>

lemma keeps_disk_bind [keeps_rules]: "keeps_disk m \<Longrightarrow> (\<And>x. keeps_disk (f x)) \<Longrightarrow> keeps_disk (io_bind m f)"
  unfolding keeps_disk_def by (auto simp: io_bind_def split: prod.split sum.split) (metis snd_conv)+

lemma keeps_disk_simple [keeps_rules]:
  "keeps_disk (io_return x)" "keeps_disk (io_fail e)" "keeps_disk (io_lift r)" "keeps_disk (on_world w)"
  "keeps_disk m \<Longrightarrow> keeps_disk (io_try m)" "keeps_disk m \<Longrightarrow> keeps_disk n \<Longrightarrow> keeps_disk (if c then m else n)"
  "(\<And>a. ag_disk (f a) = ag_disk a) \<Longrightarrow> keeps_disk (on_memory f)"
  by (auto simp: keeps_disk_def io_return_def io_fail_def io_lift_def on_world_def io_try_def on_memory_def
      split: prod.split) (metis snd_conv)

lemma keeps_disk_memory [keeps_rules]:
  "keeps_disk (detach_console sid)" "keeps_disk (insert_binding sid)" "keeps_disk (forget_startup sid)"
  "keeps_disk (begin_manual_recovery lib sid)"
  unfolding detach_console_def insert_binding_def forget_startup_def begin_manual_recovery_def
  by (intro keeps_rules; simp)+

lemma keeps_disk_start [keeps_rules]: "keeps_disk (start_with_console lib sid)"
  unfolding start_with_console_def by (intro keeps_rules)

definition start_rest :: "docker_lib \<Rightarrow> string \<Rightarrow> string \<Rightarrow> unit dm" where
  "start_rest lib uuid2 sid =
     dm_then (begin_manual_recovery lib sid)
     (dm_then (forget_startup sid)
     (dm_then (on_world (apply_manual_restart_policy lib sid))
     (io_bind (io_try (start_with_console lib sid)) (\<lambda>s.
       case s of
         Inr _ \<Rightarrow> io_return ()
       | Inl e \<Rightarrow>
           if stale_docker_desktop_bind_error lib e
           then dm_then (on_world (recreate_with_fresh_bind_mounts lib uuid2 sid)) (start_with_console lib sid)
           else io_fail e))))"

lemma keeps_disk_rest: "keeps_disk (start_rest lib uuid2 sid)"
  unfolding start_rest_def by (intro keeps_rules; auto intro!: keeps_rules split: sum.split)

lemma asks_recreate [asks_rules]: "asks no_start (recreate_with_fresh_bind_mounts lib uuid sid)"
  unfolding recreate_with_fresh_bind_mounts_def Let_def
  by (intro asks_rules; auto intro!: asks_rules split: prod.split)

definition gated :: "docker_lib \<Rightarrow> string \<Rightarrow> string \<Rightarrow> unit dm \<Rightarrow> bool" where
  "gated lib uuid2 sid m \<longleftrightarrow> (\<forall>a.
     (\<exists>rs. requests_in (snd (m a)) = requests_in a @ rs \<and> list_all no_start rs) \<or>
     (\<exists>c. m a = start_rest lib uuid2 sid c \<and> measured_within lib sid a c))"

lemma measured_from:
  assumes "measured_within lib sid b c" "requests_in b = requests_in a @ rs" "list_all no_start rs"
  shows "measured_within lib sid a c"
proof -
  from assms(1) obtain rs' qs w0 w1 p x limit at where
    1: "requests_in c = requests_in b @ rs'" "list_all no_start rs'" "w_requests w0 = requests_in b @ qs" and
    2: "disk_limit (dl_env lib) (dm_inspect lib sid) sid w0 = (Ok limit, w1)" "dm_root lib sid w1 = (Ok (p, x), ag_world c)"
      "limit > 0 \<longrightarrow> dir_size (dl_readable lib) p (w_root (ag_world c)) (w_cwd (ag_world c)) \<le> limit"
      "ag_disk c sid = Some (DiskReady at (dir_size (dl_readable lib) p (w_root (ag_world c)) (w_cwd (ag_world c))) limit)"
    unfolding measured_within_def by blast
  have "requests_in c = requests_in a @ (rs @ rs')" "list_all no_start (rs @ rs')" "w_requests w0 = requests_in a @ (rs @ qs)"
    using 1 assms(2,3) by auto
  with 2 show ?thesis unfolding measured_within_def by blast
qed

lemma gated_bind:
  assumes "dm_asks no_start m" "\<And>x. gated lib uuid2 sid (f x)" shows "gated lib uuid2 sid (io_bind m f)"
  unfolding gated_def
proof
  fix a
  obtain r b where m: "m a = (r, b)" by (metis surj_pair)
  obtain rs where rs: "requests_in b = requests_in a @ rs" "list_all no_start rs"
    using assms(1) m unfolding dm_asks_def by (metis snd_conv)
  show "(\<exists>rs. requests_in (snd (io_bind m f a)) = requests_in a @ rs \<and> list_all no_start rs) \<or>
     (\<exists>c. io_bind m f a = start_rest lib uuid2 sid c \<and> measured_within lib sid a c)"
  proof (cases r)
    case (Inr x)
    have f: "io_bind m f a = f x b" by (simp add: io_bind_def m Inr)
    from assms(2) [of x, unfolded gated_def] show ?thesis
      unfolding f
    proof (elim allE [of _ b] disjE exE conjE)
      fix rs' assume "requests_in (snd (f x b)) = requests_in b @ rs'" "list_all no_start rs'"
      then show "(\<exists>rs. requests_in (snd (f x b)) = requests_in a @ rs \<and> list_all no_start rs) \<or>
          (\<exists>c. f x b = start_rest lib uuid2 sid c \<and> measured_within lib sid a c)"
        using rs by (intro disjI1 exI [of _ "rs @ rs'"]) simp
    next
      fix c assume c: "f x b = start_rest lib uuid2 sid c" "measured_within lib sid b c"
      have "measured_within lib sid a c"
        by (rule measured_from [OF c(2) rs])
      then show "(\<exists>rs. requests_in (snd (f x b)) = requests_in a @ rs \<and> list_all no_start rs) \<or>
          (\<exists>c. f x b = start_rest lib uuid2 sid c \<and> measured_within lib sid a c)" using c(1) by blast
    qed
  qed (use rs in \<open>auto simp: io_bind_def m\<close>)
qed

lemma dm_asks_disk: "dm_asks no_start (disk_force lib sid)"
proof -
  have m: "asks no_start (measure_disk lib sid)"
  proof -
    have "asks no_start (\<lambda>w. (Ok (f w), w))" for f :: "world \<Rightarrow> int \<times> int" by (simp add: asks_def)
    moreover have "asks no_start (disk_limit (dl_env lib) (dm_inspect lib sid) sid)"
      unfolding disk_limit_def fs_read_to_string_def by (intro asks_rules; auto intro!: asks_rules split: sum.split)
    moreover have "asks no_start (dm_root lib sid)"
      unfolding dm_root_def by (intro asks_rules) simp
    ultimately show ?thesis
      unfolding measure_disk_def by (intro asks_bind) (auto simp: case_prod_beta)
  qed
  have "dm_asks no_start (io_try (on_world (measure_disk lib sid)))" by (intro dm_rules m)
  define M where "M = (\<lambda>token. io_bind (io_try (on_world (measure_disk lib sid))) (\<lambda>r.
           case r of
             Inr (usage, limit) \<Rightarrow>
               dm_then (\<lambda>a. on_memory (\<lambda>a. a\<lparr> ag_disk := finish_disk_calculation sid token
                   (dl_now lib (w_requests (ag_world a))) usage limit (ag_disk a) \<rparr>) a)
                 (io_return (usage, limit))
           | Inl e \<Rightarrow>
               dm_then (on_memory (\<lambda>a. a\<lparr> ag_disk := abandon_disk_calculation sid token (ag_disk a) \<rparr>))
                 (io_fail e)))"
  have fin: "dm_asks no_start (\<lambda>a. on_memory (\<lambda>a. a\<lparr> ag_disk := f a (ag_disk a) \<rparr>) a)" for f
    by (intro dm_asks_memory) simp
  have M: "dm_asks no_start (M token)" for token
    unfolding M_def by (intro dm_rules m; auto intro!: dm_rules fin split: sum.split prod.split)
  have "dm_asks no_start (\<lambda>a. case begin_at a of
         (Calculate token, cache) \<Rightarrow> M token (a\<lparr> ag_disk := cache \<rparr>)
       | (CachedDisk usage limit, cache) \<Rightarrow> (Ok (usage, limit), a)
       | (WaitFor token, cache) \<Rightarrow> (Ok (0, 0), a))" for begin_at :: "agent \<Rightarrow> disk_calculation \<times> disk_cache"
    unfolding dm_asks_def
  proof
    fix a
    obtain calc cache where b: "begin_at a = (calc, cache)" by (metis surj_pair)
    show "\<exists>rs. w_requests (ag_world (snd (case begin_at a of
         (Calculate token, cache) \<Rightarrow> M token (a\<lparr> ag_disk := cache \<rparr>)
       | (CachedDisk usage limit, cache) \<Rightarrow> (Ok (usage, limit), a)
       | (WaitFor token, cache) \<Rightarrow> (Ok (0, 0), a)))) = w_requests (ag_world a) @ rs \<and> list_all no_start rs"
    proof (cases calc)
      case (Calculate token)
      show ?thesis
        using M [of token, unfolded dm_asks_def, rule_format, of "a\<lparr> ag_disk := cache \<rparr>"]
        by (simp add: b Calculate)
    qed (simp_all add: b)
  qed
  then show ?thesis
    unfolding disk_force_def disk_cached_def M_def by (intro dm_asks_bind dm_asks_simple)
qed

lemma dm_asks_ensure: "dm_asks no_start (ensure_disk lib sid)"
  unfolding ensure_disk_def
  by (intro dm_asks_bind dm_asks_disk) (auto intro!: dm_rules split: prod.split)

lemma asks_apply_each [asks_rules]: "asks R (apply_each lib dl root kvs)"
proof (induction lib dl root kvs rule: apply_each.induct)
  case (2 lib dl root name config rest)
  have "asks R (apply_config_file lib dl t config)" for t
    unfolding apply_config_file_def Let_def by (intro asks_rules; auto intro!: asks_rules split: sum.split option.split)
  then show ?case using 2 by (auto simp: Let_def intro!: asks_rules)
qed (simp add: asks_rules)

lemma asks_server_config: "asks no_start (apply_server_config lib sid)"
proof -
  have r: "asks no_start (dm_root lib sid)"
    unfolding dm_root_def by (intro asks_rules) simp
  have f: "asks no_start (fs_read_to_string p)" for p
    unfolding fs_read_to_string_def by (rule asks_rules)
  show ?thesis
    unfolding apply_server_config_def apply_config_files_def Let_def
    by (intro asks_rules f; auto intro!: asks_rules r split: sum.split option.split prod.split)
qed

text \<open>C23: Docker is asked to start the container only after the server's directory was measured for
  this very start: either no start is asked, or the call is the part of the start after the
  measurement, run from a state before any start in whose tree the directory Docker reports for
  the server has a size within the limit read in this call (no limit if that is not positive);
  that measurement is the cached one, then and at the end.\<close>

theorem start_within_disk_limit:
  "let b = snd (start_server lib uuid uuid2 sid a) in
     (\<exists>rs. w_requests (ag_world b) = w_requests (ag_world a) @ rs \<and> list_all no_start rs) \<or>
     (\<exists>c. start_server lib uuid uuid2 sid a = start_rest lib uuid2 sid c \<and> measured_within lib sid a c \<and>
        ag_disk b = ag_disk c)"
proof -
  have g: "gated lib uuid2 sid (dm_then (ensure_disk lib sid) (start_rest lib uuid2 sid))"
    unfolding gated_def
  proof
    fix a
    obtain r b where e: "ensure_disk lib sid a = (r, b)" by (metis surj_pair)
    have rs: "\<exists>rs. requests_in b = requests_in a @ rs \<and> list_all no_start rs"
      using dm_asks_ensure [of lib sid] e unfolding dm_asks_def by (metis snd_conv)
    show "(\<exists>rs. requests_in (snd (dm_then (ensure_disk lib sid) (start_rest lib uuid2 sid) a)) = requests_in a @ rs \<and>
        list_all no_start rs) \<or>
      (\<exists>c. dm_then (ensure_disk lib sid) (start_rest lib uuid2 sid) a = start_rest lib uuid2 sid c \<and>
        measured_within lib sid a c)"
      using rs e ensure_disk_Ok [OF _ rs] by (cases r) (auto simp: io_bind_def)
  qed
  have v: "dm_asks no_start (io_lift (validate_id sid))" by (rule dm_rules)
  have i: "dm_asks no_start (io_try (on_world (dm_inspect lib sid)))" by (intro dm_rules asks_rules) simp
  have c: "dm_asks no_start (on_world (apply_server_config lib sid))" by (intro dm_rules asks_server_config)
  have r: "dm_asks no_start (if c then on_world (recreate_with_fresh_bind_mounts lib uuid sid) else io_return ())" for c
    by (intro dm_rules asks_rules)
  have "gated lib uuid2 sid (start_server lib uuid uuid2 sid)"
    unfolding start_server_def start_rest_def [symmetric]
    by (rule gated_bind [OF v gated_bind [OF i gated_bind [OF r gated_bind [OF c g]]]])
  then show ?thesis
    using keeps_disk_rest [of lib uuid2 sid] unfolding gated_def keeps_disk_def Let_def by metis
qed

end
