(* ===== verification/Requested.thy ===== *)
theory Requested
  imports Files
begin

text \<open>
  What a sequence of calls has asked for when it ends, whatever failed: the requests it adds to
  a history of requests, and containers that are removed after use.
\<close>

text \<open>Every container a sequence of requests creates is removed by a later one of them.\<close>

fun cleaned_up :: "request list \<Rightarrow> bool" where
  "cleaned_up [] = True"
| "cleaned_up (r # rs) =
     ((case r of Api (CreateContainer name body) \<Rightarrow> Api (RemoveContainer name) \<in> set rs | _ \<Rightarrow> True) \<and> cleaned_up rs)"

definition creates_only :: "string \<Rightarrow> request \<Rightarrow> bool" where
  "creates_only name r = (case r of Api (CreateContainer n body) \<Rightarrow> n = name | _ \<Rightarrow> True)"

definition creates_none :: "request \<Rightarrow> bool" where
  "creates_none r = (case r of Api (CreateContainer n body) \<Rightarrow> False | _ \<Rightarrow> True)"

lemma creates_simps [simp]:
  "creates_only name (Api (CreateContainer n body)) \<longleftrightarrow> n = name" "creates_only name (Api (AttachContainer n))"
  "creates_only name (Api (StartContainer n))" "creates_only name (Api (WaitContainer n))"
  "creates_none (Api (PullImage n tag))"
  by (simp_all add: creates_only_def creates_none_def)

lemma cleaned_up_append: "cleaned_up xs \<Longrightarrow> cleaned_up ys \<Longrightarrow> cleaned_up (xs @ ys)"
  by (induction xs) (auto split: request.splits api_call.splits)

lemma cleaned_up_none: "list_all creates_none xs \<Longrightarrow> cleaned_up xs"
  by (induction xs) (auto simp: creates_none_def split: request.splits api_call.splits)

lemma cleaned_up_attempt:
  assumes "list_all (creates_only name) xs" "cleaned_up ys"
  shows "cleaned_up (xs @ Api (RemoveContainer name) # ys)"
  using assms by (induction xs) (auto simp: creates_only_def split: request.splits api_call.splits)

text \<open>A step whatever state it starts in adds requests of a kind.\<close>

definition adds :: "('s \<Rightarrow> request list) \<Rightarrow> (request list \<Rightarrow> bool) \<Rightarrow> ('s, 'a) act \<Rightarrow> bool" where
  "adds asked P m \<longleftrightarrow> (\<forall>s. \<exists>rs. asked (snd (m s)) = asked s @ rs \<and> P rs)"

lemma addsD:
  assumes "adds asked P m" "m s = (r, s')"
  obtains rs where "asked s' = asked s @ rs" "P rs"
  using assms unfolding adds_def by (metis snd_conv)

lemma adds_bind:
  assumes m: "adds asked P m" and f: "\<And>x. adds asked Q (f x)"
    and failed: "\<And>xs. P xs \<Longrightarrow> R xs" and both: "\<And>xs ys. P xs \<Longrightarrow> Q ys \<Longrightarrow> R (xs @ ys)"
  shows "adds asked R (io_bind m f)"
  unfolding adds_def
proof
  fix s
  obtain r s' where "io_bind m f s = (r, s')" by (metis surj_pair)
  then have "\<exists>rs. asked s' = asked s @ rs \<and> R rs"
  proof (cases rule: io_bind_cases)
    case (1 e)
    show ?thesis by (rule addsD [OF m 1(1)]) (use failed in blast)
  next
    case (2 x s1)
    obtain xs where xs: "asked s1 = asked s @ xs" "P xs" by (rule addsD [OF m 2(1)])
    obtain ys where ys: "asked s' = asked s1 @ ys" "Q ys" by (rule addsD [OF f 2(2)])
    have "asked s' = asked s @ (xs @ ys) \<and> R (xs @ ys)" using xs ys both by simp
    then show ?thesis by blast
  qed
  then show "\<exists>rs. asked (snd (io_bind m f s)) = asked s @ rs \<and> R rs"
    using \<open>io_bind m f s = (r, s')\<close> by simp
qed

lemma adds_try: "adds asked P m \<Longrightarrow> adds asked P (io_try m)"
  unfolding adds_def io_try_def by (auto split: prod.splits) (metis snd_conv)

lemma adds_try_bind:
  assumes m: "adds asked P m" and f: "\<And>x. adds asked Q (f x)" and both: "\<And>xs ys. P xs \<Longrightarrow> Q ys \<Longrightarrow> R (xs @ ys)"
  shows "adds asked R (io_bind (io_try m) f)"
  unfolding adds_def
proof
  fix s
  obtain r s1 where 1: "m s = (r, s1)" by (metis surj_pair)
  obtain xs where xs: "asked s1 = asked s @ xs" "P xs" by (rule addsD [OF m 1])
  obtain ys where ys: "asked (snd (f r s1)) = asked s1 @ ys" "Q ys"
    using f unfolding adds_def by blast
  have "asked (snd (f r s1)) = asked s @ (xs @ ys) \<and> R (xs @ ys)" using xs ys both by simp
  then show "\<exists>rs. asked (snd (io_bind (io_try m) f s)) = asked s @ rs \<and> R rs"
    by (auto simp: io_bind_def io_try_def 1)
qed

lemma adds_weaken: "adds asked P m \<Longrightarrow> (\<And>rs. P rs \<Longrightarrow> R rs) \<Longrightarrow> adds asked R m"
  unfolding adds_def by blast

lemma adds_cleaned_bind: "adds asked cleaned_up m \<Longrightarrow> (\<And>x. adds asked cleaned_up (f x)) \<Longrightarrow> adds asked cleaned_up (io_bind m f)"
  by (rule adds_bind [of asked cleaned_up m cleaned_up]) (auto intro: cleaned_up_append)


named_theorems adds_rules \<open>the requests of composed calls, one by one\<close>

lemma adds_all_bind [adds_rules]:
  "adds asked (list_all C) m \<Longrightarrow> (\<And>x. adds asked (list_all C) (f x)) \<Longrightarrow> adds asked (list_all C) (io_bind m f)"
  by (rule adds_bind [of asked "list_all C" m "list_all C"]) auto

lemma adds_all_simple [adds_rules]:
  "adds asked (list_all C) (io_return x)" "adds asked (list_all C) (io_fail e)" "adds asked (list_all C) (io_lift r)"
  "adds asked (list_all C) (guard_io ok t)"
  by (simp_all add: adds_def io_return_def io_fail_def io_lift_def guard_io_def)

lemma adds_all_if [adds_rules]:
  "(c \<Longrightarrow> adds asked (list_all C) m) \<Longrightarrow> (\<not> c \<Longrightarrow> adds asked (list_all C) n) \<Longrightarrow> adds asked (list_all C) (if c then m else n)"
  by simp

lemma adds_state: "(\<And>v. adds asked P (F v)) \<Longrightarrow> adds asked P (\<lambda>s. F s s)"
  by (simp add: adds_def)

lemma adds_cleaned: "adds asked (list_all creates_none) m \<Longrightarrow> adds asked cleaned_up m"
  by (erule adds_weaken) (rule cleaned_up_none)

subsection \<open>Containers for one use\<close>

text \<open>
  A use of a temporary container creates no other, comes to an end, and is followed by a call
  that asks to remove it.
\<close>

locale temporary_container =
  fixes asked :: "'s \<Rightarrow> request list" and name :: string
    and serve :: "('s, 'a) act" and dispose :: "('s, 'b) act"
  assumes creates_it: "adds asked (list_all (creates_only name)) serve"
    and ends: "\<exists>x s'. serve s = (Ok x, s')"
    and removes_it: "adds asked (\<lambda>rs. rs = [Api (RemoveContainer name)]) dispose"
begin

lemma used_and_removed:
  assumes rest: "\<And>x d. adds asked cleaned_up (k x d)"
  shows "adds asked cleaned_up (io_bind serve (\<lambda>x. io_bind dispose (k x)))"
  unfolding adds_def
proof
  fix s
  obtain x s1 where 1: "serve s = (Ok x, s1)" using ends by blast
  obtain xs where xs: "asked s1 = asked s @ xs" "list_all (creates_only name) xs" by (rule addsD [OF creates_it 1])
  have "adds asked (\<lambda>rs. \<exists>ys. rs = Api (RemoveContainer name) # ys \<and> cleaned_up ys) (io_bind dispose (k x))"
    by (rule adds_bind [OF removes_it rest]) auto
  then obtain ys where ys: "asked (snd (io_bind dispose (k x) s1)) = asked s1 @ Api (RemoveContainer name) # ys" "cleaned_up ys"
    unfolding adds_def by blast
  have "asked (snd (io_bind serve (\<lambda>x. io_bind dispose (k x)) s)) = asked s @ (xs @ Api (RemoveContainer name) # ys) \<and>
      cleaned_up (xs @ Api (RemoveContainer name) # ys)"
    using xs ys cleaned_up_attempt by (simp add: io_bind_def 1)
  then show "\<exists>rs. asked (snd (io_bind serve (\<lambda>x. io_bind dispose (k x)) s)) = asked s @ rs \<and> cleaned_up rs" by blast
qed

end

end
