(* ===== verification/Provisioning_Cleanup.thy ===== *)
theory Provisioning_Cleanup
  imports Provisioning_Safety Lifecycle_Safety Requested
begin

text \<open>
  What a creation leaves behind: no installer container, whatever failed, and no port
  reservation.
\<close>

subsection \<open>Installer containers\<close>

abbreviation (input) requests_of :: "provision \<Rightarrow> request list" where
  "requests_of s \<equiv> w_requests (ag_world (pv_agent s))"

abbreviation (input) prov_asks :: "(request \<Rightarrow> bool) \<Rightarrow> 'a prov \<Rightarrow> bool" where
  "prov_asks C m \<equiv> adds requests_of (list_all C) m"

lemma prov_asks_report [adds_rules]: "prov_asks C (report phase p t)"
  by (simp add: adds_def report_def)

lemma prov_asks_world [adds_rules]: "asks C m \<Longrightarrow> prov_asks C (in_world m)"
  unfolding adds_def asks_def in_world_def in_agent_def on_world_def
  by (auto split: prod.split) (metis snd_conv)

lemma asks_append [asks_rules]: "asks C (fs_append p c)"
proof -
  have "w_requests (snd (fs_append p c w)) = w_requests w" for w
  proof -
    obtain k w1 where t: "take_fault w = (k, w1)" by (metis surj_pair)
    show ?thesis using take_fault_requests [OF t]
      by (cases k) (auto simp: fs_append_def t Let_def split: sum.split prod.split node.split)
  qed
  then show ?thesis by (simp add: asks_def)
qed

lemma asks_handle [asks_rules]: "asks C (fs_handle_write p c)"
proof -
  have "w_requests (snd (fs_handle_write p c w)) = w_requests w" for w
  proof -
    obtain k w1 where t: "take_fault w = (k, w1)" by (metis surj_pair)
    have "\<exists>q old. fs_handle_write p c w = fs_append p c w \<or> snd (fs_handle_write p c w) = w1"
      unfolding fs_handle_write_def t by (cases k) (auto split: sum.split prod.split node.split)
    then show ?thesis
      using asks_append [of "\<lambda>_. False" p c] take_fault_requests [OF t] by (auto simp: asks_def list_all_iff)
  qed
  then show ?thesis by (simp add: asks_def)
qed

lemma asks_persist [asks_rules]: "asks C (persist_installer_output p log bytes)"
  unfolding persist_installer_output_def Let_def
  by (cases log) (simp only: prod.case, intro asks_rules)

lemma asks_frames [asks_rules]: "asks C (read_frames p frames log)"
  by (induction p frames log rule: read_frames.induct) (auto intro!: asks_rules)

lemma prov_engine [adds_rules]: "C (Api call) \<Longrightarrow> prov_asks C (engine_call il message call)"
  unfolding engine_call_def by (intro adds_rules asks_rules)

lemma prov_watch: "C (Api (WaitContainer name)) \<Longrightarrow> prov_asks C (watch_installer il p name run)"
  unfolding watch_installer_def
  by (intro adds_rules asks_rules; auto intro!: adds_rules asks_rules split: prod.split)

lemma prov_watching:
  "C (Api (WaitContainer name)) \<Longrightarrow> prov_asks C (\<lambda>s. watch_installer il p name (run s) s)"
  by (rule adds_state) (rule prov_watch)

lemma execute_creates_only: "prov_asks (creates_only name) (execute_installer il name host body attempt)"
  unfolding execute_installer_def Let_def
  by (intro adds_rules asks_rules prov_watching; simp)

text \<open>Nobody else acts while the agent sleeps.\<close>

abbreviation (input) undisturbed :: "install_lib \<Rightarrow> install_lib" where
  "undisturbed il \<equiv> il\<lparr>il_docker := (il_docker il)\<lparr>dl_pause := io_return ()\<rparr>\<rparr>"

lemma check_creates_none: "prov_asks creates_none (check_installer (undisturbed il) host command attempt)"
  unfolding check_installer_def by (intro adds_rules asks_rules) (simp add: asks_rules)

lemma cleanup_request: "adds requests_of (\<lambda>rs. rs = [Api (RemoveContainer name)]) (cleanup_installer_container il name)"
proof -
  have "w_requests (snd (io_ignore (api h (RemoveContainer name)) w)) = w_requests w @ [Api (RemoveContainer name)]" for h w
    using perform_requests [of "\<lambda>rs _. h_api h rs (RemoveContainer name)" "Api (RemoveContainer name)" w]
    by (auto simp: io_ignore_def api_def split: prod.split)
  then show ?thesis
    unfolding adds_def cleanup_installer_container_def in_world_def in_agent_def on_world_def
    by (auto split: prod.split) (metis snd_conv)
qed

text \<open>The container of an attempt is one of those that are removed.\<close>

interpretation attempt: temporary_container requests_of name
    "io_try (execute_installer il name host body attempt)" "cleanup_installer_container il name" for il name host body attempt
proof
  show "prov_asks (creates_only name) (io_try (execute_installer il name host body attempt))"
    by (rule adds_try [OF execute_creates_only])
  show "\<exists>x s'. io_try (execute_installer il name host body attempt) s = (Ok x, s')" for s
    by (simp add: io_try_def split: prod.split)
qed (rule cleanup_request)

lemma attempts_cleaned_up: "adds requests_of cleaned_up (installer_attempts (undisturbed il) spec host body attempt n)"
proof (induction n arbitrary: attempt)
  case 0
  show ?case unfolding installer_attempts.simps by (intro adds_cleaned adds_rules)
next
  case (Suc n)
  let ?il = "undisturbed il"
  let ?name = "installer_name spec (il_uuid ?il attempt)"
  have "asks creates_none (dl_pause (il_docker ?il))" by (simp add: asks_rules)
  then have post: "adds requests_of cleaned_up (case post of
           Ready \<Rightarrow> report ''finishing-installer'' 58 ''Finalizing installed files and removing the installer container''
         | Failed missing \<Rightarrow> io_fail (still_missing missing)
         | Retry missing \<Rightarrow>
             prov_then (report ''retrying-installer'' 52 (retry_message missing))
             (prov_then (in_world (io_ignore (dl_pause (il_docker ?il))))
               (installer_attempts ?il spec host body (Suc attempt) n)))" for post
    by (cases post) (simp_all only: installer_postcondition.case, (intro adds_cleaned_bind adds_cleaned adds_rules asks_rules Suc.IH; assumption)+)
  have rest: "adds requests_of cleaned_up (from_res result (\<lambda>_.
       io_bind (check_installer ?il host (cs_startup_command spec) attempt) (\<lambda>post.
         case post of
           Ready \<Rightarrow> report ''finishing-installer'' 58 ''Finalizing installed files and removing the installer container''
         | Failed missing \<Rightarrow> io_fail (still_missing missing)
         | Retry missing \<Rightarrow>
             prov_then (report ''retrying-installer'' 52 (retry_message missing))
             (prov_then (in_world (io_ignore (dl_pause (il_docker ?il))))
               (installer_attempts ?il spec host body (Suc attempt) n)))))" for result
    by (intro adds_cleaned_bind post adds_cleaned check_creates_none adds_all_simple)
  show ?case
    unfolding installer_attempts.simps Let_def by (rule attempt.used_and_removed [OF rest])
qed

text \<open>C25: whatever fails while a server is installed, every installer container asked for is
  asked to be removed afterwards.\<close>

theorem installer_cleans_up:
  "\<exists>rs. w_requests (ag_world (pv_agent (snd (run_installer (il\<lparr>il_docker := (il_docker il)\<lparr>dl_pause := io_return ()\<rparr>\<rparr>)
        spec host s)))) = w_requests (ag_world (pv_agent s)) @ rs \<and> cleaned_up rs"
proof -
  have t: "adds requests_of cleaned_up (io_try (installer_attempts (undisturbed il) spec host body 1 INSTALLER_ATTEMPTS))" for body
    by (rule adds_try [OF attempts_cleaned_up])
  have p: "asks creates_none (pull_image lib img)" for lib img
    unfolding pull_image_def by (intro asks_rules) simp
  have "adds requests_of cleaned_up (run_installer (undisturbed il) spec host)"
    unfolding run_installer_def Let_def
    by (intro adds_cleaned_bind adds_cleaned [OF prov_asks_report] t
        adds_cleaned [OF prov_asks_world [OF p]] adds_cleaned [OF prov_asks_world [OF asks_simple(6)]]
        adds_cleaned [OF prov_asks_world [OF asks_wrap(2) [OF asks_calls(7)]]] adds_cleaned [OF adds_all_simple(3)])
  then show ?thesis unfolding adds_def by blast
qed

subsection \<open>Reservations\<close>

lemma keeps_reserved [preserve_rules]:
  "preserves (\<lambda>s. ag_reserved (pv_agent s)) (in_world m)"
  "preserves (\<lambda>s. ag_reserved (pv_agent s)) (report phase p t)"
  "preserves (\<lambda>s. ag_reserved (pv_agent s)) (in_agent (on_memory (\<lambda>a. a\<lparr> ag_disk := F a \<rparr>)))"
  by (auto simp: preserves_def in_world_def in_agent_def on_world_def on_memory_def report_def split: prod.splits)

lemma keeps_reserved_engine [preserve_rules]:
  "preserves (\<lambda>s. ag_reserved (pv_agent s)) (engine_call il message call)"
  unfolding engine_call_def by (rule preserve_rules)

lemma keeps_reserved_watch:
  "preserves (\<lambda>s. ag_reserved (pv_agent s)) (\<lambda>s. watch_installer il p name (run s) s)"
proof (rule preserves_state [of _ "\<lambda>v. watch_installer il p name (run v)"])
  fix v
  show "preserves (\<lambda>s. ag_reserved (pv_agent s)) (watch_installer il p name (run v))"
    unfolding watch_installer_def by (intro preserve_rules; auto intro!: preserve_rules split: prod.split)
qed

lemma keeps_reserved_attempts:
  "preserves (\<lambda>s. ag_reserved (pv_agent s)) (installer_attempts il spec host body attempt n)"
proof (induction n arbitrary: attempt)
  case (Suc n)
  show ?case
    unfolding installer_attempts.simps Let_def execute_installer_def cleanup_installer_container_def check_installer_def
    by (intro preserve_rules keeps_reserved_watch; auto intro!: preserve_rules Suc.IH split: installer_postcondition.split)
qed (simp add: preserve_rules)

lemma keeps_reserved_run: "preserves (\<lambda>s. ag_reserved (pv_agent s)) (run_installer il spec host)"
  unfolding run_installer_def Let_def by (intro preserve_rules keeps_reserved_attempts)

lemma keeps_reserved_provision: "preserves (\<lambda>s. ag_reserved (pv_agent s)) (provision_reserved pl spec port)"
  unfolding provision_reserved_def prepare_storage_def write_metadata_file_def configure_server_def create_container_def
    ensure_payload_disk_limit_def Let_def
  by (intro preserve_rules keeps_reserved_run; auto intro!: preserve_rules split: option.split)

text \<open>C26: creating a server ends with the port reservations it began with, whatever failed;
  the drawn ports are those of the code's range.  So an automatically chosen port of a server
  that was created, but not started, can be given to the next server too.\<close>

theorem create_ends_reservation:
  "ag_reserved (snd (create_server (pl\<lparr>pl_draw := \<lambda>i. first_random_port + draw i mod (last_random_port - first_random_port)\<rparr>)
     spec a)) = ag_reserved a"
proof -
  let ?pl = "pl\<lparr>pl_draw := \<lambda>i. first_random_port + draw i mod (last_random_port - first_random_port)\<rparr>"
  let ?R = "\<lambda>s. ag_reserved (pv_agent s)"
  have d: "draws_in_range (pl_draw ?pl)"
    by (auto simp: draws_in_range_def first_random_port_def last_random_port_def)
  have r: "preserves ?R (io_bind (reserve_port ?pl spec) (\<lambda>(host_port, held).
       io_bind (io_try (provision_reserved ?pl spec host_port)) (\<lambda>result.
         prov_then (drop_reservation held) (io_lift result))))"
    unfolding preserves_def
  proof (intro allI impI)
    fix s r s'
    assume e: "io_bind (reserve_port ?pl spec) (\<lambda>(host_port, held).
       io_bind (io_try (provision_reserved ?pl spec host_port)) (\<lambda>result.
         prov_then (drop_reservation held) (io_lift result))) s = (r, s')"
    obtain x t where x: "reserve_host_port (pl_draw ?pl) (pl_binds ?pl) (dl_free_tcp (pl_docker ?pl)) spec (?R s) = (x, t)"
      by (metis surj_pair)
    note o = reserve_outcome [OF d x]
    show "?R s' = ?R s"
    proof (cases x)
      case (Inl err)
      with e x o show ?thesis by (simp add: io_bind_def reserve_port_def del: provision_lib.simps)
    next
      case (Inr ph)
      obtain host_port held where ph: "ph = (host_port, held)" by (cases ph)
      let ?s1 = "s\<lparr> pv_agent := (pv_agent s)\<lparr> ag_reserved := t \<rparr> \<rparr>"
      obtain r2 s2 where s2: "provision_reserved ?pl spec host_port ?s1 = (r2, s2)" by (metis surj_pair)
      then have "?R s2 = t" using keeps_reserved_provision [of ?pl spec host_port] by (auto simp: preserves_def)
      moreover have "?R s' = release_port held (?R s2)"
        using e x s2 by (auto simp: io_bind_def reserve_port_def Inr ph io_try_def drop_reservation_def in_agent_def
            on_memory_def io_lift_def)
      ultimately show ?thesis using o by (cases held) (auto simp: Inr ph release_port_def removeAll_id)
    qed
  qed
  have "preserves ?R (create_with_progress ?pl spec)"
    unfolding create_with_progress_def by (intro preserve_rules r)
  then show ?thesis
    by (auto simp: create_server_def preserves_def split: prod.split)
qed

end
