(* ===== verification/Console_Reader.thy ===== *)
theory Console_Reader
  imports System
begin

text \<open>
  @grpc/services/console/reader.rs@: the task that follows a container's log for the viewers of
  its console.  What the task meets - output, the end of the stream, a notification, the end of
  the idle time, the end of a delay, and what others do meanwhile - is a list of events.
\<close>

subsection \<open>Publishing\<close>

definition task_active :: "nat \<Rightarrow> hub \<Rightarrow> bool" where
  "task_active tok h = (case tasks h tok of Some t \<Rightarrow> t_active t | None \<Rightarrow> False)"

definition task_suspended :: "nat \<Rightarrow> hub \<Rightarrow> bool" where
  "task_suspended tok h = (case tasks h tok of Some t \<Rightarrow> t_suspended t | None \<Rightarrow> False)"

definition task_notified :: "nat \<Rightarrow> hub \<Rightarrow> bool" where
  "task_notified tok h = (case tasks h tok of Some t \<Rightarrow> t_wake t | None \<Rightarrow> False)"

definition publish_prepared :: "string \<Rightarrow> string option \<Rightarrow> nat option \<Rightarrow> hub \<Rightarrow> hub" where
  "publish_prepared sid prepared active h =
     (case prepared of
        None \<Rightarrow> h
      | Some l \<Rightarrow>
          if (case active of Some tok \<Rightarrow> \<not> task_active tok h | None \<Rightarrow> False) then h
          else case history_push sid l (hub_history h) of
            (c, e) \<Rightarrow> send_entry sid e (h\<lparr> hub_history := c \<rparr>))"

definition publish_line_when_active :: "string \<Rightarrow> string \<Rightarrow> nat \<Rightarrow> clock \<Rightarrow> hub \<Rightarrow> hub \<times> bool" where
  "publish_line_when_active sid ln tok clk h =
     (case prepare_line sid ln clk h of
        (h1, prepared) \<Rightarrow>
          if \<not> task_active tok h1 then (h1, False)
          else let h2 = publish_prepared sid prepared (Some tok) h1 in (h2, task_active tok h2))"

definition publish_line :: "string \<Rightarrow> string \<Rightarrow> clock \<Rightarrow> hub \<Rightarrow> hub" where
  "publish_line sid ln clk h = (case prepare_line sid ln clk h of (h1, prepared) \<Rightarrow> publish_prepared sid prepared None h1)"

subsection \<open>One line of the log\<close>

text \<open>
  Docker puts a timestamp before every line.  Reading RFC 3339 is the parameter @parse@, which
  gives an instant in nanoseconds.
\<close>

definition split_docker_timestamp :: "(string \<Rightarrow> int option) \<Rightarrow> string \<Rightarrow> int option \<times> string" where
  "split_docker_timestamp parse ln =
     (case split_once (CHR '' '') ln of
        None \<Rightarrow> (None, ln)
      | Some (candidate, output) \<Rightarrow>
          (case parse candidate of Some t \<Rightarrow> (Some t, output) | None \<Rightarrow> (None, ln)))"

definition docker_since_timestamp :: "int \<Rightarrow> int" where
  "docker_since_timestamp t = max 0 (min 2147483647 (t div 1000000000))"

text \<open>The last timestamp seen, with the lines seen at it.\<close>

type_synonym log_cursor = "int option \<times> string list"

definition advance_cursor :: "int \<Rightarrow> string \<Rightarrow> log_cursor \<Rightarrow> log_cursor" where
  "advance_cursor t ln c =
     (case c of (cursor, seen) \<Rightarrow>
        (case cursor of
           Some current \<Rightarrow>
             if t < current then (cursor, seen)
             else if t = current then (cursor, List.insert ln seen)
             else (Some t, [ln])
         | None \<Rightarrow> (Some t, [ln])))"

definition replayed :: "int option \<Rightarrow> string \<Rightarrow> log_cursor \<Rightarrow> bool" where
  "replayed timestamp ln cutoff =
     (case (timestamp, fst cutoff) of
        (Some t, Some c) \<Rightarrow> t < c \<or> t = c \<and> ln \<in> set (snd cutoff)
      | _ \<Rightarrow> False)"

text \<open>The line to show, if any, and the new cursor.\<close>

definition take_log_line :: "(string \<Rightarrow> int option) \<Rightarrow> log_cursor \<Rightarrow> string \<Rightarrow> log_cursor \<Rightarrow> string option \<times> log_cursor" where
  "take_log_line parse cutoff raw c =
     (case split_docker_timestamp parse raw of
        (timestamp, ln) \<Rightarrow>
          if replayed timestamp ln cutoff then (None, c)
          else (Some ln, case timestamp of Some t \<Rightarrow> advance_cursor t ln c | None \<Rightarrow> c))"

subsection \<open>The reader\<close>

record reader =
  rd_system :: system
  rd_cursor :: log_cursor
  rd_delay :: nat

datatype reader_event =
    Output log_output | StreamError | StreamEnd | WakeUp | IdleEnd | DelayOver | Others "system \<Rightarrow> system"

datatype line_outcome = LinePublished | LineSkipped | LineStale

definition CONSOLE_RECONNECT_MIN :: nat where "CONSOLE_RECONNECT_MIN = secs 1"
definition CONSOLE_RECONNECT_MAX :: nat where "CONSOLE_RECONNECT_MAX = secs 30"

abbreviation (input) reader_hub :: "reader \<Rightarrow> hub" where "reader_hub r \<equiv> sy_hub (rd_system r)"

definition on_task :: "nat \<Rightarrow> (task \<Rightarrow> task) \<Rightarrow> reader \<Rightarrow> reader" where
  "on_task tok f r = r\<lparr> rd_system := (rd_system r)\<lparr> sy_hub := upd_task tok f (reader_hub r) \<rparr> \<rparr>"

definition process_docker_line ::
  "docker_lib \<Rightarrow> (string \<Rightarrow> int option) \<Rightarrow> string \<Rightarrow> nat \<Rightarrow> log_cursor \<Rightarrow> string \<Rightarrow> reader \<Rightarrow> line_outcome \<times> reader" where
  "process_docker_line lib parse sid tok cutoff raw r =
     (case take_log_line parse cutoff raw (rd_cursor r) of
        (None, c) \<Rightarrow> (LineSkipped, r)
      | (Some ln, c) \<Rightarrow>
          (case on_hub (\<lambda>h. case publish_line_when_active sid ln tok (\<lambda>_. system_now lib (rd_system r)) h of
               (h', b) \<Rightarrow> (h', Ok b)) (rd_system r) of
             (Inr True, s) \<Rightarrow> (LinePublished, r\<lparr> rd_system := s, rd_cursor := c \<rparr>)
           | (_, s) \<Rightarrow> (LineStale, r\<lparr> rd_system := s, rd_cursor := c \<rparr>)))"

text \<open>Lines until one is stale: whether one was, and whether one was published.\<close>

fun process_lines ::
  "docker_lib \<Rightarrow> (string \<Rightarrow> int option) \<Rightarrow> string \<Rightarrow> nat \<Rightarrow> log_cursor \<Rightarrow> string list \<Rightarrow> bool \<Rightarrow> reader \<Rightarrow> bool \<times> bool \<times> reader" where
  "process_lines lib parse sid tok cutoff [] received r = (False, received, r)"
| "process_lines lib parse sid tok cutoff (l # ls) received r =
     (case process_docker_line lib parse sid tok cutoff l r of
        (LineStale, r') \<Rightarrow> (True, received, r')
      | (LinePublished, r') \<Rightarrow> process_lines lib parse sid tok cutoff ls True r'
      | (LineSkipped, r') \<Rightarrow> process_lines lib parse sid tok cutoff ls received r')"

text \<open>How following one stream ends; @Blocked@ when nothing more happens.\<close>

datatype stream_end = Refreshed | Ended | Left bool | Blocked

definition act_by_others :: "(system \<Rightarrow> system) \<Rightarrow> reader \<Rightarrow> reader" where
  "act_by_others f r = r\<lparr> rd_system := f (rd_system r) \<rparr>"

definition take_notification :: "nat \<Rightarrow> reader \<Rightarrow> reader" where
  "take_notification tok r = on_task tok (\<lambda>t. t\<lparr> t_wake := False \<rparr>) r"

fun follow_stream ::
  "docker_lib \<Rightarrow> (string \<Rightarrow> int option) \<Rightarrow> string \<Rightarrow> nat \<Rightarrow> nat \<Rightarrow> log_cursor \<Rightarrow> reader_event list \<Rightarrow>
   console_output_decoder \<Rightarrow> bool \<Rightarrow> reader \<Rightarrow> stream_end \<times> reader_event list \<times> console_output_decoder \<times> bool \<times> reader" where
  "follow_stream lib parse sid tok maximum cutoff [] d received r = (Blocked, [], d, received, r)"
| "follow_stream lib parse sid tok maximum cutoff (e # es) d received r =
     (case e of
        WakeUp \<Rightarrow> if task_notified tok (reader_hub r) then (Refreshed, es, d, received, take_notification tok r)
                 else follow_stream lib parse sid tok maximum cutoff es d received r
      | IdleEnd \<Rightarrow> (Left True, es, d, received, r)
      | StreamEnd \<Rightarrow> (Ended, es, d, received, r)
      | StreamError \<Rightarrow> (if task_active tok (reader_hub r) then Ended else Left False, es, d, received, r)
      | DelayOver \<Rightarrow> follow_stream lib parse sid tok maximum cutoff es d received r
      | Others f \<Rightarrow> follow_stream lib parse sid tok maximum cutoff es d received (act_by_others f r)
      | Output output \<Rightarrow>
          if \<not> task_active tok (reader_hub r) then (Left False, es, d, received, r)
          else (case decoder_push maximum output d of (d', ls) \<Rightarrow>
            (case process_lines lib parse sid tok cutoff ls received r of
               (True, received', r') \<Rightarrow> (Left False, es, d', received', r')
             | (False, received', r') \<Rightarrow> follow_stream lib parse sid tok maximum cutoff es d' received' r')))"

text \<open>Waiting for a notification, with or without a delay, or the end of the idle time.\<close>

datatype wait_end = Woken | DelayPassed | IdleOver | StillWaiting

fun wait_for :: "bool \<Rightarrow> nat \<Rightarrow> reader_event list \<Rightarrow> reader \<Rightarrow> wait_end \<times> reader_event list \<times> reader" where
  "wait_for delayed tok [] r = (StillWaiting, [], r)"
| "wait_for delayed tok (e # es) r =
     (case e of
        WakeUp \<Rightarrow> if task_notified tok (reader_hub r) then (Woken, es, take_notification tok r)
                 else wait_for delayed tok es r
      | IdleEnd \<Rightarrow> (IdleOver, es, r)
      | DelayOver \<Rightarrow> if delayed then (DelayPassed, es, r) else wait_for delayed tok es r
      | Others f \<Rightarrow> wait_for delayed tok es (act_by_others f r)
      | _ \<Rightarrow> wait_for delayed tok es r)"

datatype turn_end = Again | Return bool | Stuck

definition set_parked :: "nat \<Rightarrow> bool \<Rightarrow> reader \<Rightarrow> reader" where
  "set_parked tok b r = on_task tok (\<lambda>t. t\<lparr> t_parked := b \<rparr>) r"

text \<open>Parked until woken.\<close>

definition park :: "nat \<Rightarrow> reader_event list \<Rightarrow> reader \<Rightarrow> turn_end \<times> reader_event list \<times> reader" where
  "park tok es r =
     (case wait_for False tok es (set_parked tok True r) of
        (Woken, es', r') \<Rightarrow> (Again, es', set_parked tok False r')
      | (IdleOver, es', r') \<Rightarrow> (Return True, es', r')
      | (_, es', r') \<Rightarrow> (Stuck, es', r'))"

definition container_runs :: "docker_lib \<Rightarrow> string \<Rightarrow> reader \<Rightarrow> bool \<times> reader" where
  "container_runs lib sid r =
     (case on_agent (on_world (dm_inspect lib sid)) (rd_system r) of
        (Inr inspect, s) \<Rightarrow> (is_running inspect, r\<lparr> rd_system := s \<rparr>)
      | (Inl e, s) \<Rightarrow> (False, r\<lparr> rd_system := s \<rparr>))"

text \<open>After a stream that ended by itself.\<close>

definition reconnect :: "docker_lib \<Rightarrow> string \<Rightarrow> nat \<Rightarrow> bool \<Rightarrow> reader_event list \<Rightarrow> reader \<Rightarrow> turn_end \<times> reader_event list \<times> reader" where
  "reconnect lib sid tok received es r =
     (case container_runs lib sid r of
        (running, r1) \<Rightarrow>
          if \<not> running then
            (case park tok es r1 of (k, es', r2) \<Rightarrow>
               (k, es', if k = Again then r2\<lparr> rd_delay := CONSOLE_RECONNECT_MIN \<rparr> else r2))
          else
            let r2 = r1\<lparr> rd_delay := (if received then CONSOLE_RECONNECT_MIN
                                      else min (rd_delay r1 * 2) CONSOLE_RECONNECT_MAX) \<rparr> in
            (case wait_for True tok es r2 of
               (Woken, es', r3) \<Rightarrow> (Again, es', r3\<lparr> rd_delay := CONSOLE_RECONNECT_MIN \<rparr>)
             | (DelayPassed, es', r3) \<Rightarrow> (Again, es', r3)
             | (IdleOver, es', r3) \<Rightarrow> (Return True, es', r3)
             | (StillWaiting, es', r3) \<Rightarrow> (Stuck, es', r3)))"

definition line_maximum :: "reader \<Rightarrow> nat" where
  "line_maximum r = console_max_line_length (hub_protection (reader_hub r)) - length TRUNCATION_SUFFIX"

definition reader_turn ::
  "docker_lib \<Rightarrow> (string \<Rightarrow> int option) \<Rightarrow> string \<Rightarrow> nat \<Rightarrow> nat \<Rightarrow> reader_event list \<Rightarrow> reader \<Rightarrow> turn_end \<times> reader_event list \<times> reader" where
  "reader_turn lib parse sid tok maximum es r =
     (if \<not> task_active tok (reader_hub r) then (Return False, es, r)
      else if task_suspended tok (reader_hub r) then park tok es r
      else
        (case follow_stream lib parse sid tok maximum (rd_cursor r) es empty_decoder False (set_parked tok False r) of
           (Left b, es', d, received, r1) \<Rightarrow> (Return b, es', r1)
         | (Blocked, es', d, received, r1) \<Rightarrow> (Stuck, es', r1)
         | (k, es', d, received, r1) \<Rightarrow>
             (case process_lines lib parse sid tok (rd_cursor r) (decoder_finish d) received r1 of
                (stale, received', r2) \<Rightarrow>
                  if stale then (Return False, es', r2)
                  else if \<not> task_active tok (reader_hub r2) then (Return False, es', r2)
                  else if task_suspended tok (reader_hub r2) then (Again, es', r2)
                  else if k = Refreshed then (Again, es', r2\<lparr> rd_delay := CONSOLE_RECONNECT_MIN \<rparr>)
                  else reconnect lib sid tok received' es' r2)))"

lemma follow_consumes:
  "follow_stream lib parse sid tok maximum cutoff es d received r = (k, es', d', received', r') \<Longrightarrow> k \<noteq> Blocked \<Longrightarrow>
   length es' < length es \<and> (IdleEnd \<in> set es \<longrightarrow> k = Left True \<or> k = Left False \<or> IdleEnd \<in> set es')"
proof (induction es arbitrary: d received r)
  case (Cons e es)
  show ?case
  proof (cases e)
    case (Output chunk)
    obtain d1 ls where d: "decoder_push maximum chunk d = (d1, ls)" by (metis surj_pair)
    obtain st rc r1 where p: "process_lines lib parse sid tok cutoff ls received r = (st, rc, r1)" by (metis prod_cases3)
    show ?thesis
      using Cons.prems Cons.IH [of d1 rc r1] by (auto simp: Output d p split: if_splits bool.splits)
  next
    case (Others f)
    then show ?thesis using Cons.prems Cons.IH [of d received "act_by_others f r"] by auto
  qed (use Cons.prems Cons.IH [of d received r] in \<open>auto split: if_splits\<close>)
qed simp

lemma follow_blocked:
  "follow_stream lib parse sid tok maximum cutoff es d received r = (Blocked, es', d', received', r') \<Longrightarrow> IdleEnd \<notin> set es"
proof (induction es arbitrary: d received r)
  case (Cons e es)
  show ?case
  proof (cases e)
    case (Output chunk)
    obtain d1 ls where d: "decoder_push maximum chunk d = (d1, ls)" by (metis surj_pair)
    obtain st rc r1 where p: "process_lines lib parse sid tok cutoff ls received r = (st, rc, r1)" by (metis prod_cases3)
    show ?thesis
      using Cons.prems Cons.IH [of d1 rc r1] by (auto simp: Output d p split: if_splits bool.splits)
  next
    case (Others f)
    then show ?thesis using Cons.prems Cons.IH [of d received "act_by_others f r"] by auto
  qed (use Cons.prems Cons.IH [of d received r] in \<open>auto split: if_splits\<close>)
qed simp

lemma wait_consumes:
  "wait_for delayed tok es r = (k, es', r') \<Longrightarrow>
   (if k = StillWaiting then IdleEnd \<notin> set es
    else length es' < length es \<and> (IdleEnd \<in> set es \<longrightarrow> k = IdleOver \<or> IdleEnd \<in> set es'))"
proof (induction es arbitrary: r)
  case (Cons e es)
  show ?case
  proof (cases e)
    case (Others f)
    then show ?thesis using Cons.prems Cons.IH [of "act_by_others f r"] by (auto split: if_splits)
  qed (use Cons.prems Cons.IH [of r] in \<open>auto split: if_splits\<close>)
qed auto

lemma wait_delayed: "wait_for False tok es r \<noteq> (DelayPassed, es', r')"
  by (induction False tok es r rule: wait_for.induct) (auto split: reader_event.splits if_splits)

lemma park_consumes:
  "park tok es r = (k, es', r') \<Longrightarrow>
   (if k = Stuck then IdleEnd \<notin> set es
    else length es' < length es \<and> (IdleEnd \<in> set es \<longrightarrow> k = Return True \<or> IdleEnd \<in> set es'))"
  using wait_consumes [of False tok es "set_parked tok True r"] wait_delayed [of tok es "set_parked tok True r"]
  by (auto simp: park_def split: prod.splits wait_end.splits)

lemma reconnect_consumes:
  "reconnect lib sid tok received es r = (k, es', r') \<Longrightarrow>
   (if k = Stuck then IdleEnd \<notin> set es
    else length es' < length es \<and> (IdleEnd \<in> set es \<longrightarrow> k = Return True \<or> IdleEnd \<in> set es'))"
proof -
  assume h: "reconnect lib sid tok received es r = (k, es', r')"
  obtain running r1 where c: "container_runs lib sid r = (running, r1)" by (metis surj_pair)
  show ?thesis
  proof (cases running)
    case True
    let ?r2 = "r1\<lparr> rd_delay := (if received then CONSOLE_RECONNECT_MIN else min (rd_delay r1 * 2) CONSOLE_RECONNECT_MAX) \<rparr>"
    obtain w es1 r3 where w: "wait_for True tok es ?r2 = (w, es1, r3)" by (metis prod_cases3)
    show ?thesis using h wait_consumes [OF w] True by (cases w) (auto simp: reconnect_def c w Let_def)
  next
    case False
    obtain w es1 r3 where w: "park tok es r1 = (w, es1, r3)" by (metis prod_cases3)
    show ?thesis using h park_consumes [OF w] False by (cases w) (auto simp: reconnect_def c w)
  qed
qed

lemma turn_consumes:
  assumes "reader_turn lib parse sid tok maximum es r = (k, es', r')"
  shows "k = Again \<Longrightarrow> length es' < length es \<and> (IdleEnd \<in> set es \<longrightarrow> IdleEnd \<in> set es')"
    and "k = Stuck \<Longrightarrow> IdleEnd \<notin> set es"
proof -
  obtain e es1 d received r1 where f:
    "follow_stream lib parse sid tok maximum (rd_cursor r) es empty_decoder False (set_parked tok False r) =
     (e, es1, d, received, r1)" by (metis prod_cases5)
  obtain stale received' r2 where p:
    "process_lines lib parse sid tok (rd_cursor r) (decoder_finish d) received r1 = (stale, received', r2)" by (metis prod_cases3)
  note fc = follow_consumes [OF f]
  have fb: "e = Blocked \<Longrightarrow> IdleEnd \<notin> set es" using follow_blocked f by metis
  obtain k2 es2 r3 where c: "reconnect lib sid tok received' es1 r2 = (k2, es2, r3)" by (metis prod_cases3)
  note rc = reconnect_consumes [OF c]
  show "k = Again \<Longrightarrow> length es' < length es \<and> (IdleEnd \<in> set es \<longrightarrow> IdleEnd \<in> set es')"
    using assms fc rc park_consumes [of tok es r k es' r']
    by (cases e) (auto simp: reader_turn_def f p c split: if_splits)
  show "k = Stuck \<Longrightarrow> IdleEnd \<notin> set es"
    using assms fc fb rc park_consumes [of tok es r k es' r']
    by (cases e) (auto simp: reader_turn_def f p c split: if_splits)
qed

text \<open>The loop: whether it returned, and if it left because nobody watches any more.\<close>

function read_loop ::
  "docker_lib \<Rightarrow> (string \<Rightarrow> int option) \<Rightarrow> string \<Rightarrow> nat \<Rightarrow> nat \<Rightarrow> reader_event list \<Rightarrow> reader \<Rightarrow> bool option \<times> reader" where
  "read_loop lib parse sid tok maximum es r =
     (case reader_turn lib parse sid tok maximum es r of
        (Again, es', r') \<Rightarrow> read_loop lib parse sid tok maximum es' r'
      | (Return b, es', r') \<Rightarrow> (Some b, r')
      | (Stuck, es', r') \<Rightarrow> (None, r'))"
  by pat_completeness auto
termination
proof (relation "measure (\<lambda>(lib, parse, sid, tok, maximum, es, r). length es)", goal_cases)
  case 2
  then show ?case using turn_consumes(1) [OF sym] by auto
qed simp

definition start_reader_task :: "system \<Rightarrow> reader" where
  "start_reader_task s = \<lparr> rd_system = s, rd_cursor = (None, []), rd_delay = CONSOLE_RECONNECT_MIN \<rparr>"

definition run_reader ::
  "docker_lib \<Rightarrow> (string \<Rightarrow> int option) \<Rightarrow> string \<Rightarrow> nat \<Rightarrow> reader_event list \<Rightarrow> system \<Rightarrow> bool option \<times> reader" where
  "run_reader lib parse sid tok es s =
     read_loop lib parse sid tok (line_maximum (start_reader_task s)) es (start_reader_task s)"

text \<open>
  The idle time: it ends when it passes with no receiver, and starts again with a viewer or
  when the last receiver comes back.
\<close>

datatype idle_event = ViewerWoke | IdlePassed nat

fun wait_for_idle_viewers :: "idle_event list \<Rightarrow> bool" where
  "wait_for_idle_viewers [] = False"
| "wait_for_idle_viewers (ViewerWoke # es) = wait_for_idle_viewers es"
| "wait_for_idle_viewers (IdlePassed receivers # es) = (receivers = 0 \<or> wait_for_idle_viewers es)"

lemma loop_returns: "IdleEnd \<in> set es \<Longrightarrow> fst (read_loop lib parse sid tok maximum es r) \<noteq> None"
proof (induction lib parse sid tok maximum es r rule: read_loop.induct)
  case (1 lib parse sid tok maximum es r)
  obtain k es' r' where t: "reader_turn lib parse sid tok maximum es r = (k, es', r')" by (metis prod_cases3)
  show ?case
  proof (cases k)
    case Again
    with 1 t turn_consumes(1) [OF t] show ?thesis by simp
  qed (use 1 t turn_consumes(2) [OF t] in simp_all)
qed

text \<open>C27: whatever the container prints, however its stream breaks and whatever others do, the
  reader's task returns at the latest when nobody has watched for the idle time.\<close>

theorem reader_ends_when_idle:
  "\<exists>b. fst (run_reader lib parse sid tok (es @ IdleEnd # more_events) s) = Some b"
  using loop_returns [of "es @ IdleEnd # more_events"] by (auto simp: run_reader_def)

subsection \<open>Every line once\<close>

text \<open>
  Docker's log: lines with their instants, in order.  A connection that starts at @since@ gets
  the lines from that second on, or the last 200, of those printed by then; of their bytes, each
  line behind its instant and before a line end, come chunks of the given lengths, and then the
  connection breaks, perhaps within a line.
\<close>

type_synonym docker_log = "(int \<times> string) list"

definition served :: "docker_log \<Rightarrow> int option \<Rightarrow> nat \<Rightarrow> docker_log" where
  "served L since printed =
     (case since of
        None \<Rightarrow> drop (min printed (length L) - 200) (take printed L)
      | Some s \<Rightarrow> filter (\<lambda>(t, ln). s \<le> t div 1000000000) (take printed L))"

definition raw_line :: "(int \<Rightarrow> string) \<Rightarrow> int \<times> string \<Rightarrow> string" where
  "raw_line stamp e = stamp (fst e) @ CHR '' '' # snd e"

definition log_bytes :: "(int \<Rightarrow> string) \<Rightarrow> string \<Rightarrow> docker_log \<Rightarrow> string" where
  "log_bytes stamp eol L = concat (map (\<lambda>e. raw_line stamp e @ eol) L)"

fun chop :: "nat list \<Rightarrow> string \<Rightarrow> string list" where
  "chop [] s = []"
| "chop (n # ns) s = take n s # chop ns (drop n s)"

fun decode_chunks :: "nat \<Rightarrow> string list \<Rightarrow> console_output_decoder \<Rightarrow> console_output_decoder \<times> string list" where
  "decode_chunks m [] d = (d, [])"
| "decode_chunks m (c # cs) d =
     (case decoder_push m (Console c) d of (d', ls) \<Rightarrow>
      case decode_chunks m cs d' of (d'', ls') \<Rightarrow> (d'', ls @ ls'))"

text \<open>What the reader publishes of some decoded lines, and its cursor after them.\<close>

fun show_lines :: "(string \<Rightarrow> int option) \<Rightarrow> log_cursor \<Rightarrow> string list \<Rightarrow> log_cursor \<times> string list \<Rightarrow> log_cursor \<times> string list" where
  "show_lines parse cutoff [] (c, out) = (c, out)"
| "show_lines parse cutoff (raw # raws) (c, out) =
     (case take_log_line parse cutoff raw c of
        (None, c') \<Rightarrow> show_lines parse cutoff raws (c', out)
      | (Some ln, c') \<Rightarrow> show_lines parse cutoff raws (c', out @ [ln]))"

text \<open>A connection after the other, each as in a turn of the reader that never loses its task.\<close>

fun show_connections ::
  "(string \<Rightarrow> int option) \<Rightarrow> (int \<Rightarrow> string) \<Rightarrow> string \<Rightarrow> nat \<Rightarrow> docker_log \<Rightarrow> (nat \<times> nat list) list \<Rightarrow>
   log_cursor \<times> string list \<Rightarrow> log_cursor \<times> string list" where
  "show_connections parse stamp eol m L [] st = st"
| "show_connections parse stamp eol m L ((printed, ns) # conns) st =
     (case decode_chunks m
        (chop ns (log_bytes stamp eol (served L (map_option docker_since_timestamp (fst (fst st))) printed))) empty_decoder of
        (d, ls) \<Rightarrow> show_connections parse stamp eol m L conns (show_lines parse (fst st) (ls @ decoder_finish d) st))"

lemma show_lines_append:
  "show_lines parse cutoff (xs @ ys) st = show_lines parse cutoff ys (show_lines parse cutoff xs st)"
  by (induction parse cutoff xs st rule: show_lines.induct) (auto split: prod.split option.split)

text \<open>The reader, while its task stays active, moves its cursor and publishes as @show_lines@ says.\<close>

lemma process_docker_line_shows:
  assumes "process_docker_line lib parse sid tok cutoff raw r = (k, r')" "k \<noteq> LineStale"
  shows "rd_cursor r' = snd (take_log_line parse cutoff raw (rd_cursor r)) \<and>
    (k = LinePublished \<longleftrightarrow> fst (take_log_line parse cutoff raw (rd_cursor r)) \<noteq> None)"
proof -
  obtain ln c where t: "take_log_line parse cutoff raw (rd_cursor r) = (ln, c)" by (metis surj_pair)
  have "ln = None \<Longrightarrow> c = rd_cursor r"
    using t by (auto simp: take_log_line_def split: prod.splits if_splits)
  then show ?thesis
    using assms by (auto simp: process_docker_line_def t split: option.splits prod.splits sum.splits if_splits bool.splits)
qed

lemma process_lines_shows:
  assumes "process_lines lib parse sid tok cutoff ls received r = (False, received', r')"
  shows "\<exists>new. show_lines parse cutoff ls (rd_cursor r, out) = (rd_cursor r', out @ new) \<and>
    received' = (received \<or> new \<noteq> [])"
  using assms
proof (induction ls arbitrary: received r out)
  case (Cons raw ls)
  obtain k r1 where p: "process_docker_line lib parse sid tok cutoff raw r = (k, r1)" by (metis surj_pair)
  obtain ln c where t: "take_log_line parse cutoff raw (rd_cursor r) = (ln, c)" by (metis surj_pair)
  have k: "k \<noteq> LineStale" using Cons.prems by (auto simp: p)
  note q = process_docker_line_shows [OF p k, unfolded t]
  show ?case
  proof (cases k)
    case LinePublished
    then obtain l where l: "ln = Some l" using q by auto
    obtain new where "show_lines parse cutoff ls (rd_cursor r1, out @ [l]) = (rd_cursor r', (out @ [l]) @ new) \<and>
        received' = (True \<or> new \<noteq> [])"
      using Cons.IH [of True r1 "out @ [l]"] Cons.prems by (auto simp: p LinePublished)
    then show ?thesis using q by (intro exI [of _ "l # new"]) (simp add: t l)
  next
    case LineSkipped
    then have "ln = None" using q by auto
    moreover obtain new where "show_lines parse cutoff ls (rd_cursor r1, out) = (rd_cursor r', out @ new) \<and>
        received' = (received \<or> new \<noteq> [])"
      using Cons.IH [of received r1 out] Cons.prems by (auto simp: p LineSkipped)
    ultimately show ?thesis using q by (intro exI [of _ new]) (simp add: t)
  qed (use k in simp)
qed simp

end
