(* ===== verification/Console_Once.thy ===== *)
theory Console_Once
  imports Console_Reader
begin

text \<open>
  Every line of a container's log is shown once, and in order, however the connection to Docker
  is cut; where it is cut within a line, the viewer also sees the beginning of that line.
\<close>

subsection \<open>Logs\<close>

text \<open>
  Instants are written in ASCII without blanks and line ends; lines have increasing instants from
  the epoch on, valid text without line ends, and fit the reader's maximum with their instant.
\<close>

definition plain_char :: "char \<Rightarrow> bool" where "plain_char c \<longleftrightarrow> c \<noteq> CHR 0x0A \<and> c \<noteq> CHR 0x0D"

definition stamps :: "(string \<Rightarrow> int option) \<Rightarrow> (int \<Rightarrow> string) \<Rightarrow> bool" where
  "stamps parse stamp \<longleftrightarrow> (\<forall>t. parse (stamp t) = Some t \<and>
     list_all (\<lambda>c. byte c < 0x80 \<and> c \<noteq> CHR '' '' \<and> plain_char c) (stamp t))"

definition log_ok :: "(int \<Rightarrow> string) \<Rightarrow> nat \<Rightarrow> docker_log \<Rightarrow> bool" where
  "log_ok stamp m L \<longleftrightarrow> sorted_wrt (<) (map fst L) \<and>
     (\<forall>(t, ln) \<in> set L. 0 \<le> t \<and> valid_utf8 ln \<and> list_all plain_char ln \<and> length (raw_line stamp (t, ln)) \<le> m)"

definition line_end :: "string \<Rightarrow> bool" where
  "line_end eol \<longleftrightarrow> eol = [CHR 0x0A] \<or> eol = [CHR 0x0D, CHR 0x0A]"

text \<open>What is left of a line cut by the end of a connection: a part of its instant, or its beginning.\<close>

definition cut_line :: "(int \<Rightarrow> string) \<Rightarrow> docker_log \<Rightarrow> string \<Rightarrow> bool" where
  "cut_line stamp L x \<longleftrightarrow> (\<exists>(t, ln) \<in> set L. \<exists>k. x = take k (stamp t) \<or> x = from_utf8_lossy (take k ln) \<and> x \<noteq> ln)"

text \<open>The lines @xs@ in this order, and between them only what is left of cut lines.\<close>

definition told :: "(int \<Rightarrow> string) \<Rightarrow> docker_log \<Rightarrow> string list \<Rightarrow> string list \<Rightarrow> bool" where
  "told stamp L xs out \<longleftrightarrow> (\<exists>ps. out = map snd ps \<and> xs = map snd (filter fst ps) \<and>
     (\<forall>x. (False, x) \<in> set ps \<longrightarrow> cut_line stamp L x))"

lemma told_Nil: "told stamp L [] []"
  by (simp add: told_def)

lemma told_whole: "told stamp L xs out \<Longrightarrow> told stamp L (xs @ [x]) (out @ [x])"
  unfolding told_def by (elim exE conjE) (rule_tac x = "ps @ [(True, x)]" in exI, auto)

lemma told_cut: "told stamp L xs out \<Longrightarrow> cut_line stamp L x \<Longrightarrow> told stamp L xs (out @ [x])"
  unfolding told_def by (elim exE conjE) (rule_tac x = "ps @ [(False, x)]" in exI, auto)

lemma increasing: "log_ok stamp m L \<Longrightarrow> i < j \<Longrightarrow> j < length L \<Longrightarrow> fst (L ! i) < fst (L ! j)"
  using sorted_wrt_nth_less [of "(<)" "map fst L" i j] by (simp add: log_ok_def)

subsection \<open>The bytes of a connection\<close>

lemma lossy_ascii_append: "list_all (\<lambda>c. byte c < 0x80) a \<Longrightarrow> from_utf8_lossy (a @ s) = a @ from_utf8_lossy s"
proof (induction a)
  case (Cons c a)
  then show ?case by (subst from_utf8_lossy.simps) simp
qed simp

lemma stream_plain:
  "list_all plain_char a \<Longrightarrow> stream_lines acc (a @ s) = stream_lines (acc @ a) s \<and>
   stream_rest acc (a @ s) = stream_rest (acc @ a) s"
  by (induction a arbitrary: acc) (auto simp: plain_char_def)

lemma stream_log:
  assumes "list_all (\<lambda>e. list_all plain_char (raw_line stamp e)) xs" "line_end eol"
  shows "\<exists>n i. n \<le> length xs \<and> stream_lines [] (take k (log_bytes stamp eol xs)) = map (raw_line stamp) (take n xs) \<and>
    stream_rest [] (take k (log_bytes stamp eol xs)) = (if n < length xs then take i (raw_line stamp (xs ! n)) else []) \<and>
    (length (log_bytes stamp eol xs) \<le> k \<longrightarrow> n = length xs) \<and>
    (xs \<noteq> [] \<longrightarrow> length (log_bytes stamp eol [hd xs]) \<le> k \<longrightarrow> 0 < n)"
  using assms(1)
proof (induction xs arbitrary: k)
  case Nil
  then show ?case by (simp add: log_bytes_def)
next
  case (Cons e xs)
  let ?r = "raw_line stamp e"
  have p: "list_all plain_char ?r" "\<And>i. list_all plain_char (take i ?r)"
    using Cons.prems by (auto simp: list_all_iff dest: in_set_takeD)
  have b: "log_bytes stamp eol (e # xs) = ?r @ eol @ log_bytes stamp eol xs" "log_bytes stamp eol [e] = ?r @ eol"
    by (simp_all add: log_bytes_def)
  have e: "0 < length eol" "length eol \<le> 2" using assms(2) by (auto simp: line_end_def)
  consider "k \<le> length ?r" | "length ?r < k" "k < length ?r + length eol" | "length ?r + length eol \<le> k" by linarith
  then show ?case
  proof cases
    case 1
    then have t: "take k (log_bytes stamp eol (e # xs)) = take k ?r" by (simp add: b)
    have "stream_lines [] (take k ?r) = []" "stream_rest [] (take k ?r) = take k ?r"
      using stream_plain [OF p(2), of "[]" k "[]"] by simp_all
    moreover have "\<not> length (log_bytes stamp eol (e # xs)) \<le> k" "\<not> length (log_bytes stamp eol [e]) \<le> k"
      using 1 e(1) unfolding b length_append by linarith+
    ultimately show ?thesis unfolding t by (intro exI [of _ 0] exI [of _ k]) simp
  next
    case 2
    then have "eol = [CHR 0x0D, CHR 0x0A]" "k = length ?r + 1" using assms(2) by (auto simp: line_end_def)
    then have "take k (log_bytes stamp eol (e # xs)) = ?r @ [CHR 0x0D]" by (simp add: log_bytes_def)
    then show ?thesis
      using stream_plain [OF p(1), of "[]" "[CHR 0x0D]"] 2 by (intro exI [of _ 1] exI [of _ 0]) (auto simp: b skip_lf_def)
  next
    case 3
    define j where "j = k - (length ?r + length eol)"
    have k: "take k (log_bytes stamp eol (e # xs)) = ?r @ eol @ take j (log_bytes stamp eol xs)"
      using 3 by (simp add: b j_def)
    obtain n i where n: "n \<le> length xs" "stream_lines [] (take j (log_bytes stamp eol xs)) = map (raw_line stamp) (take n xs)"
      "stream_rest [] (take j (log_bytes stamp eol xs)) = (if n < length xs then take i (raw_line stamp (xs ! n)) else [])"
      "length (log_bytes stamp eol xs) \<le> j \<longrightarrow> n = length xs"
      using Cons.IH [of j] Cons.prems by auto
    have "stream_lines [] (?r @ eol @ s) = ?r # stream_lines [] s" "stream_rest [] (?r @ eol @ s) = stream_rest [] s" for s
      using stream_plain [OF p(1), of "[]" "eol @ s"] assms(2) by (auto simp: line_end_def skip_lf_def)
    then show ?thesis
      using n 3 by (intro exI [of _ "Suc n"] exI [of _ i]) (auto simp: k b(1) j_def)
  qed
qed

lemma decode_chunks_push:
  "decode_chunks m cs d =
     (d\<lparr> d_console := fst (push_chunks m cs (d_console d)) \<rparr>, snd (push_chunks m cs (d_console d)))"
  by (induction cs arbitrary: d) (auto split: prod.split)

lemma concat_chop: "concat (chop ns s) = take (sum_list ns) s"
  by (induction ns arbitrary: s) (auto simp: take_add)

lemma decode_stream:
  "\<exists>d. decode_chunks m (chop ns s) empty_decoder = (d, map (shown m) (stream_lines [] (take (sum_list ns) s))) \<and>
    decoder_finish d = (if stream_rest [] (take (sum_list ns) s) = [] then []
      else [shown m (stream_rest [] (take (sum_list ns) s))])"
proof -
  have "buffer_finish empty_buffer = []" by (simp add: buffer_finish_def empty_buffer_def)
  then show ?thesis
    using line_buffer_spec [of m "chop ns s", unfolded concat_chop]
    by (simp add: decode_chunks_push decoder_finish_def empty_decoder_def)
qed

lemma raw_shown:
  assumes "stamps parse stamp" "log_ok stamp m L" "e \<in> set L"
  shows "shown m (raw_line stamp e) = raw_line stamp e" "list_all plain_char (raw_line stamp e)"
    "shown m (take i (raw_line stamp e)) = from_utf8_lossy (take i (raw_line stamp e))"
proof -
  have s: "list_all (\<lambda>c. byte c < 0x80) (stamp (fst e) @ '' '')" "list_all plain_char (stamp (fst e) @ '' '')"
    using assms(1) by (auto simp: stamps_def list_all_iff plain_char_def)
  have l: "length (raw_line stamp e) \<le> m" "valid_utf8 (snd e)" "list_all plain_char (snd e)"
    using assms(2,3) by (auto simp: log_ok_def)
  have r: "raw_line stamp e = (stamp (fst e) @ '' '') @ snd e" by (simp add: raw_line_def)
  show "shown m (raw_line stamp e) = raw_line stamp e"
    using l(1,2) lossy_ascii_append [OF s(1), of "snd e"] by (simp add: shown_def r lossy_valid)
  show "list_all plain_char (raw_line stamp e)" using s(2) l(3) by (simp add: r)
  show "shown m (take i (raw_line stamp e)) = from_utf8_lossy (take i (raw_line stamp e))"
    using l(1) by (simp add: shown_def min_def)
qed

subsection \<open>The cursor\<close>

text \<open>
  The reader has shown exactly the lines from index @s@ up to @e@: its cursor stands at the last of
  them, or at a cut part of the next one.
\<close>

definition caught_up :: "(int \<Rightarrow> string) \<Rightarrow> docker_log \<Rightarrow> nat \<Rightarrow> nat \<Rightarrow> log_cursor \<times> string list \<Rightarrow> bool" where
  "caught_up stamp L s e st \<longleftrightarrow> s \<le> e \<and> e \<le> length L \<and>
     told stamp L (map snd (take (e - s) (drop s L))) (snd st) \<and>
     (if e = s then fst st = (None, [])
      else fst (fst st) = Some (fst (L ! (e - 1))) \<and> snd (L ! (e - 1)) \<in> set (snd (fst st)) \<or>
        e < length L \<and> fst (fst st) = Some (fst (L ! e)) \<and> snd (L ! e) \<notin> set (snd (fst st)))"

lemma take_raw:
  assumes "stamps parse stamp"
  shows "take_log_line parse cutoff (stamp t @ CHR '' '' # ln) c =
    (if replayed (Some t) ln cutoff then (None, c) else (Some ln, advance_cursor t ln c))"
proof -
  have "CHR '' '' \<notin> set (stamp t)" using assms by (auto simp: stamps_def list_all_iff)
  then have "split_once (CHR '' '') (stamp t @ CHR '' '' # ln) = Some (stamp t, ln)"
    by (simp add: split_once_Some)
  then show ?thesis using assms by (simp add: take_log_line_def split_docker_timestamp_def stamps_def)
qed

lemma caught_up_next:
  assumes "log_ok stamp m L" "caught_up stamp L s e (c, out)" "e < length L" "L ! e = (t, ln)"
  shows "caught_up stamp L s (Suc e) (advance_cursor t ln c, out @ [ln])"
proof -
  have le: "s \<le> e" using assms(2) by (simp add: caught_up_def)
  have out: "map snd (take (Suc e - s) (drop s L)) = map snd (take (e - s) (drop s L)) @ [ln]"
    using assms(3,4) le by (simp add: Suc_diff_le take_Suc_conv_app_nth)
  have "e \<noteq> s \<Longrightarrow> fst (L ! (e - 1)) < t"
    using increasing [OF assms(1), of "e - 1" e] assms(3,4) le by simp
  then have "fst (advance_cursor t ln c) = Some t \<and> ln \<in> set (snd (advance_cursor t ln c))"
    using assms(2,4) by (cases c) (auto simp: caught_up_def advance_cursor_def split: if_splits)
  then show ?thesis using assms le out told_whole by (auto simp: caught_up_def)
qed

lemma replayed_iff:
  assumes "log_ok stamp m L" "caught_up stamp L s e (c, out)" "j < length L" "e = s \<longrightarrow> s \<le> j"
  shows "replayed (Some (fst (L ! j))) (snd (L ! j)) c \<longleftrightarrow> j < e"
proof (cases "e = s")
  case True
  then show ?thesis using assms by (auto simp: caught_up_def replayed_def split: prod.splits)
next
  case False
  obtain cursor seen where c: "c = (cursor, seen)" by (cases c)
  have e: "0 < e" "e \<le> length L" using assms(2) False by (auto simp: caught_up_def)
  have inc: "\<And>i k. i < k \<Longrightarrow> k < length L \<Longrightarrow> fst (L ! i) < fst (L ! k)" using increasing [OF assms(1)] .
  from assms(2) False consider
      "cursor = Some (fst (L ! (e - 1)))" "snd (L ! (e - 1)) \<in> set seen"
    | "e < length L" "cursor = Some (fst (L ! e))" "snd (L ! e) \<notin> set seen"
    by (auto simp: caught_up_def c)
  then show ?thesis
  proof cases
    case 1
    consider "j < e - 1" | "j = e - 1" | "e - 1 < j" by linarith
    then show ?thesis using inc [of j "e - 1"] inc [of "e - 1" j] 1 e assms(3) by cases (auto simp: c replayed_def)
  next
    case 2
    consider "j < e" | "j = e" | "e < j" by linarith
    then show ?thesis using inc [of j e] inc [of e j] 2 assms(3) by cases (auto simp: c replayed_def)
  qed
qed

lemma show_lines_run:
  assumes "stamps parse stamp" "log_ok stamp m L" "caught_up stamp L s e0 (c0, out0)" "e0 = s \<longrightarrow> s \<le> j"
    and "caught_up stamp L s e (c, out)" "j < e0 \<and> e = e0 \<or> j = e \<and> e0 \<le> e"
  shows "\<exists>c' out'. show_lines parse c0 (map (raw_line stamp) (take n (drop j L))) (c, out) = (c', out') \<and>
    caught_up stamp L s (max e (min (j + n) (length L))) (c', out')"
  using assms(4-6)
proof (induction n arbitrary: j e c out)
  case 0
  then have "max e (min (j + 0) (length L)) = e" by auto
  with 0 show ?case by (simp only: take_0 list.map show_lines.simps) simp
next
  case (Suc n)
  show ?case
  proof (cases "j < length L")
    case True
    obtain t ln where j: "L ! j = (t, ln)" by (cases "L ! j")
    have d: "take (Suc n) (drop j L) = (t, ln) # take n (drop (Suc j) L)"
      using True j by (metis Cons_nth_drop_Suc take_Suc_Cons)
    have r: "replayed (Some t) ln c0 \<longleftrightarrow> j < e0"
      using replayed_iff [OF assms(2,3) True] Suc.prems(1) j by simp
    show ?thesis
    proof (cases "j < e0")
      case skip: True
      then have e: "e = e0" using Suc.prems by auto
      have "Suc j < e0 \<or> Suc j = e0" using skip by linarith
      with Suc.IH [of "Suc j" e c out] Suc.prems skip e show ?thesis
        by (simp add: d raw_line_def take_raw [OF assms(1)] r)
    next
      case False
      then have e: "j = e" "e0 \<le> e" using Suc.prems by auto
      have m: "max e (min (j + Suc n) (length L)) = max (Suc e) (min (Suc j + n) (length L))"
        using e True by auto
      have "caught_up stamp L s (Suc e) (advance_cursor t ln c, out @ [ln])"
        using caught_up_next [OF assms(2) Suc.prems(2)] True e j by simp
      with Suc.IH [of "Suc j" "Suc e" "advance_cursor t ln c" "out @ [ln]"] e Suc.prems(1) show ?thesis
        unfolding m d by (simp add: raw_line_def take_raw [OF assms(1)] r)
    qed
  next
    case False
    then have "max e (min (j + Suc n) (length L)) = e" using Suc.prems by (auto simp: caught_up_def)
    with False Suc.prems show ?thesis by simp
  qed
qed

text \<open>The rest of a cut line, at the end of a connection that began at @e0@.\<close>

lemma show_cut:
  assumes "stamps parse stamp" "log_ok stamp m L" "caught_up stamp L s e0 (c0, out0)"
    and "caught_up stamp L s e (c, out)" "s < e" "j < length L" "e0 = s \<longrightarrow> s \<le> j" "j < e0 \<and> e = e0 \<or> j = e \<and> e0 \<le> e"
  shows "\<exists>e' c' out'. show_lines parse c0 [from_utf8_lossy (take i (raw_line stamp (L ! j)))] (c, out) = (c', out') \<and>
    caught_up stamp L s e' (c', out') \<and> e \<le> e'"
proof -
  obtain t ln where j: "L ! j = (t, ln)" by (cases "L ! j")
  have mem: "(t, ln) \<in> set L" using assms(6) j by (metis nth_mem)
  have st: "list_all (\<lambda>c. byte c < 0x80) (stamp t @ '' '')" "CHR '' '' \<notin> set (stamp t)"
    using assms(1) by (auto simp: stamps_def list_all_iff)
  have inc: "\<And>i k. i < k \<Longrightarrow> k < length L \<Longrightarrow> fst (L ! i) < fst (L ! k)" using increasing [OF assms(2)] .
  show ?thesis
  proof (cases "i \<le> length (stamp t)")
    case True
    then have x: "take i (raw_line stamp (L ! j)) = take i (stamp t)" by (simp add: raw_line_def j)
    have "list_all (\<lambda>c. byte c < 0x80) (take i (stamp t))" "CHR '' '' \<notin> set (take i (stamp t))"
      using st by (auto simp: list_all_iff dest: in_set_takeD)
    then have "from_utf8_lossy (take i (stamp t)) = take i (stamp t)" "split_once (CHR '' '') (take i (stamp t)) = None"
      by (simp_all add: lossy_ascii split_once_None)
    moreover have "cut_line stamp L (take i (stamp t))" using mem unfolding cut_line_def by blast
    ultimately show ?thesis
      using assms(4) unfolding x
      by (intro exI [of _ e]) (auto simp: take_log_line_def split_docker_timestamp_def replayed_def caught_up_def intro: told_cut)
  next
    case False
    define g where "g = from_utf8_lossy (take (i - length (stamp t) - 1) ln)"
    have "take i (raw_line stamp (L ! j)) = (stamp t @ '' '') @ take (i - length (stamp t) - 1) ln"
      using False by (cases "i - length (stamp t)") (simp_all add: raw_line_def j)
    then have x: "from_utf8_lossy (take i (raw_line stamp (L ! j))) = stamp t @ CHR '' '' # g"
      using lossy_ascii_append [OF st(1)] by (simp add: g_def)
    have cut: "cut_line stamp L g" if "g \<noteq> ln" using mem that unfolding cut_line_def g_def by blast
    show ?thesis
    proof (cases "replayed (Some t) g c0")
      case True
      then show ?thesis using assms(4) by (auto simp: x take_raw [OF assms(1)])
    next
      case nr: False
      then have step: "show_lines parse c0 [from_utf8_lossy (take i (raw_line stamp (L ! j)))] (c, out) =
          (advance_cursor t g c, out @ [g])" by (simp add: x take_raw [OF assms(1)])
      obtain cursor seen where c: "c = (cursor, seen)" by (cases c)
      show ?thesis
      proof (cases "j < e0")
        case old: True
        then have e: "e = e0" using assms(8) by auto
        have "e \<le> length L" using assms(4) by (simp add: caught_up_def)
        then have "e - 1 < length L" "j < e - 1 \<or> j = e - 1" using old e by linarith+
        then have tle: "t \<le> fst (L ! (e - 1))" using inc [of j "e - 1"] j by auto
        have et: "e < length L \<Longrightarrow> t < fst (L ! e)" using inc [of j e] old e j by simp
        have "g \<noteq> ln"
          using replayed_iff [OF assms(2,3,6,7)] old nr j by auto
        moreover have "advance_cursor t g c = c \<or> cursor = Some t \<and> t = fst (L ! (e - 1)) \<and>
            advance_cursor t g c = (cursor, List.insert g seen)"
          using assms(4,5) tle et by (auto simp: caught_up_def c advance_cursor_def split: if_splits)
        ultimately have "caught_up stamp L s e (advance_cursor t g c, out @ [g])"
          using assms(4,5) et cut by (auto simp: caught_up_def c intro: told_cut)
        then show ?thesis using step by blast
      next
        case False
        then have e: "j = e" using assms(8) by auto
        show ?thesis
        proof (cases "g = ln")
          case True
          then show ?thesis using caught_up_next [OF assms(2,4), of t ln] assms(6) e j step
            by (intro exI [of _ "Suc e"]) auto
        next
          case False
          have "fst (L ! (e - 1)) < t" using inc [of "e - 1" e] assms(5,6) e j by simp
          then have "caught_up stamp L s e (advance_cursor t g c, out @ [g])"
            using assms(4-6) e j cut [OF False] False
            by (auto simp: caught_up_def c advance_cursor_def intro: told_cut)
          then show ?thesis using step by blast
        qed
      qed
    qed
  qed
qed

lemma filter_sorted_drop:
  assumes "sorted (map fst xs)" "\<And>t u. P t \<Longrightarrow> t \<le> u \<Longrightarrow> P u"
  shows "filter (\<lambda>(t, ln). P t) (take p xs) = drop (length (takeWhile (\<lambda>(t, ln). \<not> P t) xs)) (take p xs)"
  using assms(1)
proof (induction xs arbitrary: p)
  case (Cons x xs)
  obtain t ln where x: "x = (t, ln)" by (cases x)
  show ?case
  proof (cases "P t")
    case True
    have "P (fst y)" if "y \<in> set xs" for y
      using assms(2) [OF True, of "fst y"] Cons.prems that by (simp add: x)
    then have "\<forall>y \<in> set (take p (x # xs)). (\<lambda>(t, ln). P t) y"
      using True by (auto simp: x dest!: in_set_takeD)
    then have "filter (\<lambda>(t, ln). P t) (take p (x # xs)) = take p (x # xs)" by (rule filter_True)
    with True show ?thesis by (simp add: x)
  next
    case False
    then show ?thesis using Cons by (cases p) (auto simp: x)
  qed
qed simp

subsection \<open>Connections\<close>

text \<open>A connection that serves the lines from index @j@ up to @p@, broken after some bytes.\<close>

lemma show_connection:
  assumes "stamps parse stamp" "log_ok stamp m L" "line_end eol" "caught_up stamp L s e (c, out)"
    and "j \<le> e" "e = s \<longrightarrow> j = s" "p \<le> length L"
    and "s < e \<or> j < p \<and> length (log_bytes stamp eol [L ! j]) \<le> sum_list ns"
  shows "\<exists>d ls e' c' out'. decode_chunks m (chop ns (log_bytes stamp eol (take (p - j) (drop j L)))) empty_decoder = (d, ls) \<and>
    show_lines parse c (ls @ decoder_finish d) (c, out) = (c', out') \<and> caught_up stamp L s e' (c', out') \<and>
    e \<le> e' \<and> s < e' \<and> (length (log_bytes stamp eol (take (p - j) (drop j L))) \<le> sum_list ns \<longrightarrow> p \<le> e')"
proof -
  let ?xs = "take (p - j) (drop j L)"
  have sub: "set ?xs \<subseteq> set L" by (meson in_set_dropD in_set_takeD subsetI)
  then have ok: "\<And>x. x \<in> set ?xs \<Longrightarrow> shown m (raw_line stamp x) = raw_line stamp x \<and> list_all plain_char (raw_line stamp x)"
    using raw_shown [OF assms(1,2)] by blast
  obtain n i where n: "n \<le> length ?xs"
    "stream_lines [] (take (sum_list ns) (log_bytes stamp eol ?xs)) = map (raw_line stamp) (take n ?xs)"
    "stream_rest [] (take (sum_list ns) (log_bytes stamp eol ?xs)) = (if n < length ?xs then take i (raw_line stamp (?xs ! n)) else [])"
    "length (log_bytes stamp eol ?xs) \<le> sum_list ns \<longrightarrow> n = length ?xs"
    "?xs \<noteq> [] \<longrightarrow> length (log_bytes stamp eol [hd ?xs]) \<le> sum_list ns \<longrightarrow> 0 < n"
    using stream_log [OF _ assms(3), of stamp ?xs "sum_list ns"] ok unfolding list_all_iff by blast
  have len: "length ?xs = p - j" using assms(7) by simp
  have "e \<le> length L" using assms(4) by (simp add: caught_up_def)
  then have nn: "take n ?xs = take n (drop j L)" "j + n \<le> length L" "length ?xs = p - j"
    using n(1) assms(5,7) unfolding len by (auto simp: min_absorb1)
  have sh: "map (shown m) (map (raw_line stamp) (take n ?xs)) = map (raw_line stamp) (take n (drop j L))"
    unfolding nn(1) [symmetric] map_map by (rule map_cong [OF refl]) (metis ok in_set_takeD o_apply)
  obtain d where d: "decode_chunks m (chop ns (log_bytes stamp eol ?xs)) empty_decoder =
      (d, map (raw_line stamp) (take n (drop j L)))"
    "decoder_finish d = (if stream_rest [] (take (sum_list ns) (log_bytes stamp eol ?xs)) = [] then []
      else [shown m (stream_rest [] (take (sum_list ns) (log_bytes stamp eol ?xs)))])"
    using decode_stream [of m ns "log_bytes stamp eol ?xs"] unfolding n(2) sh by blast
  define e1 where "e1 = max e (j + n)"
  have run: "\<exists>c1 out1. show_lines parse c (map (raw_line stamp) (take n (drop j L))) (c, out) = (c1, out1) \<and>
      caught_up stamp L s e1 (c1, out1)"
  proof -
    have "e = s \<longrightarrow> s \<le> j" "j < e \<and> e = e \<or> j = e \<and> e \<le> e" using assms(5,6) by auto
    from show_lines_run [OF assms(1,2,4) this(1) assms(4) this(2), of n] nn(2) show ?thesis
      by (simp add: e1_def min_absorb1)
  qed
  then obtain c1 out1 where 1: "show_lines parse c (map (raw_line stamp) (take n (drop j L))) (c, out) = (c1, out1)"
    "caught_up stamp L s e1 (c1, out1)" by blast
  have "0 < n" if "e = s"
    using assms(6,7,8) n(5) that nn(3) by (auto simp: hd_conv_nth)
  then have e1: "e \<le> e1" "s < e1" using assms(4,6) by (cases "e = s"; simp add: e1_def caught_up_def; linarith)+
  have full: "length (log_bytes stamp eol ?xs) \<le> sum_list ns \<longrightarrow> p \<le> e1"
    using n(4) nn(3) by (auto simp: e1_def)
  show ?thesis
  proof (cases "decoder_finish d = []")
    case True
    then show ?thesis using d(1) 1 e1 full
      by (intro exI [of _ d] exI [of _ "map (raw_line stamp) (take n (drop j L))"] exI [of _ e1] exI [of _ c1] exI [of _ out1]) simp
  next
    case False
    then have lt: "n < length ?xs" using n(3) d(2) by (auto split: if_splits)
    then have x: "?xs ! n = L ! (j + n)" "j + n < length L" using nn(3) assms(7) by auto
    have "L ! (j + n) \<in> set L" using x(2) by simp
    then have f: "decoder_finish d = [from_utf8_lossy (take i (raw_line stamp (L ! (j + n))))]"
      using False d(2) n(3) lt raw_shown(3) [OF assms(1,2)] by (auto simp: x(1) split: if_splits)
    have "j + n < e \<and> e1 = e \<or> j + n = e1 \<and> e \<le> e1" by (auto simp: e1_def)
    then obtain e' c' out' where "show_lines parse c (decoder_finish d) (c1, out1) = (c', out')"
      "caught_up stamp L s e' (c', out')" "e1 \<le> e'"
      using show_cut [OF assms(1,2,4) 1(2) e1(2) x(2), of i] assms(6) unfolding f by fastforce
    then show ?thesis using d(1) 1 e1 full
      by (intro exI [of _ d] exI [of _ "map (raw_line stamp) (take n (drop j L))"] exI [of _ e'] exI [of _ c'] exI [of _ out'])
        (auto simp: show_lines_append)
  qed
qed

lemma serve_again:
  assumes "log_ok stamp m L" "caught_up stamp L s e (c, out)" "s < e"
  shows "\<exists>j. j \<le> e \<and> served L (map_option docker_since_timestamp (fst c)) printed =
    take (min printed (length L) - j) (drop j L)"
proof -
  obtain T k where T: "fst c = Some T" "k \<le> e" "k < length L" "fst (L ! k) = T"
    using assms(2,3) by (cases "fst c = Some (fst (L ! (e - 1)))") (auto simp: caught_up_def intro: that [of _ "e - 1"] that [of _ e])
  define P where "P = (\<lambda>t :: int. docker_since_timestamp T \<le> t div 1000000000)"
  define j where "j = length (takeWhile (\<lambda>(t, ln). \<not> P t) L)"
  have "L ! k \<in> set L" using T(3) by simp
  then have "0 \<le> T" using assms(1) T(4) by (auto simp: log_ok_def)
  then have S: "P T" by (simp add: P_def docker_since_timestamp_def)
  have "j \<le> k"
  proof (rule ccontr)
    assume "\<not> j \<le> k"
    then have "\<not> P (fst (L ! k))"
      unfolding j_def by (metis (mono_tags, lifting) linorder_not_le nth_mem set_takeWhileD takeWhile_nth case_prod_beta)
    with S T(4) show False by simp
  qed
  moreover have "filter (\<lambda>(t, ln). P t) (take printed L) = drop j (take printed L)"
    unfolding j_def using assms(1)
    by (intro filter_sorted_drop)
      (auto simp: log_ok_def P_def strict_sorted_imp_sorted intro: order_trans zdiv_mono1)
  ultimately show ?thesis
    using T(1,2) by (intro exI [of _ j]) (auto simp: served_def P_def drop_take min_def)
qed

lemma reconnected:
  assumes "stamps parse stamp" "log_ok stamp m L" "line_end eol" "caught_up stamp L s e (c, out)" "s < e"
  shows "\<exists>e' c' out'. show_connections parse stamp eol m L conns (c, out) = (c', out') \<and>
    e \<le> e' \<and> caught_up stamp L s e' (c', out')"
  using assms(4,5)
proof (induction conns arbitrary: e c out)
  case (Cons conn conns)
  obtain printed ns where conn: "conn = (printed, ns)" by (cases conn)
  obtain j where j: "j \<le> e" "served L (map_option docker_since_timestamp (fst c)) printed =
      take (min printed (length L) - j) (drop j L)"
    using serve_again [OF assms(2) Cons.prems] by blast
  obtain d ls e1 c1 out1 where
    1: "decode_chunks m (chop ns (log_bytes stamp eol (take (min printed (length L) - j) (drop j L)))) empty_decoder = (d, ls)"
    "show_lines parse c (ls @ decoder_finish d) (c, out) = (c1, out1)" "caught_up stamp L s e1 (c1, out1)" "e \<le> e1" "s < e1"
    using show_connection [OF assms(1-3) Cons.prems(1) j(1), of "min printed (length L)" ns] Cons.prems(2) by auto
  obtain e2 c2 out2 where "show_connections parse stamp eol m L conns (c1, out1) = (c2, out2)" "e1 \<le> e2"
    "caught_up stamp L s e2 (c2, out2)" using Cons.IH [OF 1(3,5)] by blast
  with 1 show ?case by (intro exI [of _ e2] exI [of _ c2] exI [of _ out2]) (simp add: conn j(2))
qed auto

lemma show_connections_append:
  "show_connections parse stamp eol m L (as @ bs) st =
   show_connections parse stamp eol m L bs (show_connections parse stamp eol m L as st)"
  by (induction parse stamp eol m L as st rule: show_connections.induct) (simp_all split: prod.split)


text \<open>Instants written in unary.\<close>

definition beats :: "int \<Rightarrow> string" where
  "beats t = (if t < 0 then ''-'' else []) @ replicate (nat (if t < 0 then - t else t)) CHR ''x''"

definition count_beats :: "string \<Rightarrow> int option" where
  "count_beats s = Some (if s \<noteq> [] \<and> hd s = CHR ''-'' then - int (length s - 1) else int (length s))"


end
