(* ===== verification/Database.thy ===== *)
theory Database
  imports Provisioning_Cleanup
begin

text \<open>
  @runtime/docker/database.rs@: testing the connection of a server to its database with a client
  in a container of its own, which is removed whatever happens.
\<close>

subsection \<open>The client\<close>

record database_spec =
  db_server :: string
  db_type :: string
  db_host :: string
  db_port :: int
  db_name :: string
  db_user :: string
  db_password :: string
  db_image :: string

record database_probe =
  dp_server :: string
  dp_password :: string
  dp_image :: string
  dp_password_key :: string
  dp_entrypoint :: string
  dp_command :: "string list"

definition mysql_command :: "database_spec \<Rightarrow> string list" where
  "mysql_command spec =
     [''--protocol=TCP'', ''--host'', db_host spec, ''--port'', int_to_string (db_port spec),
      ''--user'', db_user spec, db_name spec, ''--execute'', ''SELECT 1'']"

definition postgres_command :: "database_spec \<Rightarrow> string list" where
  "postgres_command spec =
     [''--host'', db_host spec, ''--port'', int_to_string (db_port spec),
      ''--username'', db_user spec, ''--dbname'', db_name spec, ''--command'', ''SELECT 1'']"

definition probe_from_spec :: "database_spec \<Rightarrow> database_probe res" where
  "probe_from_spec spec =
     (let probe = (\<lambda>key entrypoint command. Ok \<lparr> dp_server = db_server spec, dp_password = db_password spec,
             dp_image = db_image spec, dp_password_key = key, dp_entrypoint = entrypoint, dp_command = command \<rparr>) in
      if db_type spec = ''mysql'' then probe ''MYSQL_PWD'' ''mysql'' (mysql_command spec)
      else if db_type spec = ''mariadb'' then probe ''MYSQL_PWD'' ''mariadb'' (mysql_command spec)
      else if db_type spec = ''postgres'' then probe ''PGPASSWORD'' ''psql'' (postgres_command spec)
      else Err (Bail ''unsupported database type''))"

definition validate_database_spec :: "database_spec \<Rightarrow> unit res" where
  "validate_database_spec spec =
     res_bind (validate_id (db_server spec)) (\<lambda>_.
     res_bind (validate_id (db_host spec)) (\<lambda>_.
       if \<not> (1 \<le> db_port spec \<and> db_port spec \<le> 65535) then Err (Bail ''database port is invalid'')
       else if trim (db_name spec) = [] \<or> trim (db_user spec) = [] \<or> db_password spec = []
       then Err (Bail ''database credentials are incomplete'')
       else if trim (db_image spec) = [] then Err (Bail ''database test image is required'')
       else Ok ()))"

definition probe_container :: "database_probe \<Rightarrow> container_body" where
  "probe_container probe =
     \<lparr> cb_config = \<lparr> cc_image = Some (dp_image probe), cc_user = None, cc_working_dir = None, cc_console = False,
         cc_env = Some [dp_password_key probe @ ''='' @ dp_password probe],
         cc_entrypoint = Some [dp_entrypoint probe], cc_cmd = Some (dp_command probe),
         cc_healthcheck = None, cc_labels = None, cc_exposed_ports = None, cc_rest = JNull \<rparr>,
       cb_host = Some \<lparr> tmpfs = None, hc_mounts = None,
         hc_network_mode = Some (''container:'' @ dp_server probe), hc_pids_limit = None, hc_restart = None,
         hc_security_opt = None, hc_log_config = None, hc_memory = None, hc_memory_swap = None, hc_cpuset_cpus = None,
         hc_nano_cpus = None, hc_port_bindings = None, hc_auto_remove = Some False, hc_rest = JNull \<rparr>,
       cb_networks = None \<rparr>"

subsection \<open>A run with a deadline\<close>

text \<open>
  The future under the deadline is dropped at an await: @pr_left@ awaits complete, and of the
  next one the request may have been sent (@pr_sent@), but its answer is not seen.
\<close>

record probe_run =
  pr_agent :: agent
  pr_left :: nat
  pr_sent :: bool
  pr_expired :: bool

type_synonym 'a timed = "(probe_run, 'a) act"

definition await :: "'a dm \<Rightarrow> 'a timed" where
  "await m s =
     (if pr_left s = 0
      then (Err (Ext ''elapsed''),
        s\<lparr> pr_agent := (if pr_sent s \<and> \<not> pr_expired s then snd (m (pr_agent s)) else pr_agent s), pr_expired := True \<rparr>)
      else case m (pr_agent s) of (r, a) \<Rightarrow> (r, s\<lparr> pr_agent := a, pr_left := pr_left s - 1 \<rparr>))"

text \<open>
  How the wait for the client ends, what it prints, a random name, the error of a wait shown
  for debugging, and how far the run gets before the deadline.
\<close>

record probe_lib =
  pb_docker :: docker_lib
  pb_uuid :: string
  pb_wait :: "request list \<Rightarrow> string \<Rightarrow> wait_answer option"
  pb_logs :: "request list \<Rightarrow> string \<Rightarrow> string option list"
  pb_debug :: "string option \<Rightarrow> string"
  pb_awaits :: nat
  pb_sent :: bool

definition dm_api :: "docker_lib \<Rightarrow> string \<Rightarrow> api_call \<Rightarrow> unit dm" where
  "dm_api lib message call = on_world (io_bind (api (dl_host lib) call) (\<lambda>r. io_lift (api_result message r)))"

definition ensure_local_image :: "docker_lib \<Rightarrow> string \<Rightarrow> unit timed" where
  "ensure_local_image lib img =
     io_bind (await (on_world (api (dl_host lib) (InspectImage img)))) (\<lambda>r.
       case r of
         Inr _ \<Rightarrow> io_return ()
       | Inl e \<Rightarrow> if docker_status e = Some 404 then await (on_world (pull_image lib img))
                 else io_fail (Ctx (''inspect database test image '' @ img) (docker_error_value e)))"

definition MAX_LOG_BYTES :: nat where "MAX_LOG_BYTES = 32768"

fun collect_logs :: "string option list \<Rightarrow> string \<Rightarrow> string" where
  "collect_logs [] output = output"
| "collect_logs (None # items) output = output"
| "collect_logs (Some bytes # items) output =
     (if MAX_LOG_BYTES - length output = 0 then output
      else collect_logs items (output @ take (min (length bytes) (MAX_LOG_BYTES - length output)) bytes))"

definition read_database_probe_logs :: "probe_lib \<Rightarrow> string \<Rightarrow> string timed" where
  "read_database_probe_logs pb name =
     await (\<lambda>a. (Ok (from_utf8_lossy (collect_logs (pb_logs pb (w_requests (ag_world a)) name) [])),
       snd (on_world (io_ignore (api (dl_host (pb_docker pb)) (ContainerLogs name))) a)))"

definition probe_failure :: "int \<Rightarrow> string \<Rightarrow> error" where
  "probe_failure code detail =
     Bail (''database connection test exited with status '' @ int_to_string code @ '': '' @ detail)"

definition wait_error :: "wait_answer \<Rightarrow> error" where
  "wait_error answer =
     (case answer of WaitError text code \<Rightarrow> Ext ''Docker container wait error'' | WaitFailed e \<Rightarrow> e
      | WaitResponse code reason \<Rightarrow> Ext [])"

definition await_client :: "probe_lib \<Rightarrow> string \<Rightarrow> (int \<times> string option option) timed" where
  "await_client pb name =
     await (\<lambda>a.
       let answer = pb_wait pb (w_requests (ag_world a)) name;
           a' = snd (on_world (io_ignore (api (dl_host (pb_docker pb)) (WaitContainer name))) a)
       in (case answer of
             None \<Rightarrow> (Err (Bail ''database test wait stream ended unexpectedly''), a')
           | Some (WaitResponse code reason) \<Rightarrow> (Ok (code, reason), a')
           | Some w \<Rightarrow> (Err (Ctx ''wait for database test container'' (wait_error w)), a')))"

definition run_database_probe :: "probe_lib \<Rightarrow> string \<Rightarrow> database_probe \<Rightarrow> unit timed" where
  "run_database_probe pb name probe =
     (let lib = pb_docker pb in
      io_bind (ensure_local_image lib (dp_image probe)) (\<lambda>_.
      io_bind (await (dm_api lib ''create database connection test container'' (CreateContainer name (probe_container probe)))) (\<lambda>_.
      io_bind (await (dm_api lib ''start database connection test container'' (StartContainer name))) (\<lambda>_.
      io_bind (await_client pb name) (\<lambda>(code, reason).
        if code = 0 then io_return ()
        else io_bind (read_database_probe_logs pb name) (\<lambda>logs.
          io_fail (probe_failure code
            (if trim logs \<noteq> [] then trim logs
             else case reason of Some e \<Rightarrow> pb_debug pb e
                  | None \<Rightarrow> ''database client returned no output''))))))))"

definition remove_database_probe :: "docker_lib \<Rightarrow> string \<Rightarrow> unit dm" where
  "remove_database_probe lib name =
     on_world (io_bind (api (dl_host lib) (RemoveContainer name)) (\<lambda>r. io_lift (case r of
       Inr _ \<Rightarrow> Ok ()
     | Inl e \<Rightarrow> if docker_status e = Some 404 then Ok ()
               else Err (Ctx (''remove database probe container '' @ name) (docker_error_value e)))))"

subsection \<open>The test\<close>

definition ensure_database_context :: "docker_lib \<Rightarrow> string \<Rightarrow> string \<Rightarrow> unit dm" where
  "ensure_database_context lib server_id database_id =
     io_bind (on_world (dm_inspect lib server_id)) (\<lambda>source.
     io_bind (guard_io (is_running source) ''server container must be running to test its database connection'') (\<lambda>_.
     io_bind (on_world (dm_inspect lib database_id)) (\<lambda>database.
       guard_io (is_running database) ''database container is not running'')))"

definition elapsed_millis :: "nat \<Rightarrow> nat \<Rightarrow> int" where
  "elapsed_millis started now = int (min (elapsed_since started now div 1000000) (nat i64_max))"

definition probe_name :: "probe_lib \<Rightarrow> database_spec \<Rightarrow> string" where
  "probe_name pb spec = db_server spec @ ''-dbtest-'' @ pb_uuid pb"

text \<open>The probe under its deadline: whether it was dropped, and its result.\<close>

definition bounded_probe :: "probe_lib \<Rightarrow> string \<Rightarrow> database_probe \<Rightarrow> (bool \<times> unit res) dm" where
  "bounded_probe pb name probe a =
     (case run_database_probe pb name probe
         \<lparr> pr_agent = a, pr_left = pb_awaits pb, pr_sent = pb_sent pb, pr_expired = False \<rparr> of
        (r, s) \<Rightarrow> (Ok (pr_expired s, r), pr_agent s))"

definition test_verdict :: "bool \<Rightarrow> unit res \<Rightarrow> unit res \<Rightarrow> int \<Rightarrow> int res" where
  "test_verdict expired outcome cleanup millis =
     (if expired then Err (Bail ''database connection test timed out'')
      else case outcome of
        Inl e \<Rightarrow> Inl e
      | Inr _ \<Rightarrow> (case cleanup of Inl e \<Rightarrow> Err (Ctx ''remove successful database test container'' e) | Inr _ \<Rightarrow> Ok millis))"

definition timed_test :: "probe_lib \<Rightarrow> string \<Rightarrow> database_probe \<Rightarrow> nat \<Rightarrow> int dm" where
  "timed_test pb name probe started =
     io_bind (bounded_probe pb name probe) (\<lambda>outcome.
     io_bind (io_try (remove_database_probe (pb_docker pb) name)) (\<lambda>cleanup a.
       (test_verdict (fst outcome) (snd outcome) cleanup
          (elapsed_millis started (dl_now (pb_docker pb) (w_requests (ag_world a)))), a)))"

definition test_database_connection :: "probe_lib \<Rightarrow> database_spec \<Rightarrow> int dm" where
  "test_database_connection pb spec =
     from_res (validate_database_spec spec) (\<lambda>_.
     io_bind (ensure_database_context (pb_docker pb) (db_server spec) (db_host spec)) (\<lambda>_.
     from_res (probe_from_spec spec) (\<lambda>probe a.
       timed_test pb (probe_name pb spec) probe (dl_now (pb_docker pb) (w_requests (ag_world a))) a)))"

subsection \<open>The probe is removed\<close>

abbreviation (input) dm_asked :: "agent \<Rightarrow> request list" where "dm_asked a \<equiv> w_requests (ag_world a)"
abbreviation (input) run_asked :: "probe_run \<Rightarrow> request list" where "run_asked s \<equiv> dm_asked (pr_agent s)"

lemma adds_world [adds_rules]: "asks C m \<Longrightarrow> adds dm_asked (list_all C) (on_world m)"
  unfolding adds_def asks_def on_world_def by (auto split: prod.split) (metis snd_conv)

lemma adds_api [adds_rules]: "C (Api call) \<Longrightarrow> adds dm_asked (list_all C) (dm_api lib message call)"
  unfolding dm_api_def by (intro adds_rules asks_rules)

lemma adds_await [adds_rules]:
  assumes "adds dm_asked (list_all C) m" shows "adds run_asked (list_all C) (await m)"
  using assms unfolding adds_def await_def by (auto split: prod.split) (metis snd_conv)+

lemma adds_then [adds_rules]:
  assumes "C (Api call)"
  shows "adds dm_asked (list_all C) (\<lambda>a. (r a, snd (on_world (io_ignore (api h call)) a)))"
proof -
  have "adds dm_asked (list_all C) (on_world (io_ignore (api h call)))" by (intro adds_rules asks_rules assms)
  then show ?thesis by (simp add: adds_def)
qed

lemma adds_client [adds_rules]:
  assumes "C (Api (WaitContainer name))" shows "adds run_asked (list_all C) (await_client pb name)"
proof -
  define r :: "agent \<Rightarrow> (int \<times> string option option) res" where
    "r = (\<lambda>a. case pb_wait pb (dm_asked a) name of
        None \<Rightarrow> Err (Bail ''database test wait stream ended unexpectedly'')
      | Some (WaitResponse code reason) \<Rightarrow> Ok (code, reason)
      | Some w \<Rightarrow> Err (Ctx ''wait for database test container'' (wait_error w)))"
  have "await_client pb name =
      await (\<lambda>a. (r a, snd (on_world (io_ignore (api (dl_host (pb_docker pb)) (WaitContainer name))) a)))"
    unfolding await_client_def r_def by (rule arg_cong [of _ _ await]) (auto simp: Let_def split: option.split wait_answer.split)
  then show ?thesis using assms by (simp add: adds_rules)
qed

lemma adds_logs [adds_rules]:
  "C (Api (ContainerLogs name)) \<Longrightarrow> adds run_asked (list_all C) (read_database_probe_logs pb name)"
  unfolding read_database_probe_logs_def by (intro adds_rules)

lemma creates_only_image [simp]:
  "creates_only name (Api (InspectImage img))" "creates_only name (Api (PullImage img tag))"
  "creates_only name (Api (ContainerLogs n))" "creates_none (Api (InspectContainer n))"
  by (simp_all add: creates_only_def creates_none_def)

lemma adds_local_image [adds_rules]:
  "C (Api (InspectImage img)) \<Longrightarrow> (\<And>tag. C (Api (PullImage img tag))) \<Longrightarrow> adds run_asked (list_all C) (ensure_local_image lib img)"
  unfolding ensure_local_image_def pull_image_def by (intro adds_rules asks_rules; auto intro!: adds_rules asks_rules split: sum.split)

lemma run_creates_only: "adds run_asked (list_all (creates_only name)) (run_database_probe pb name probe)"
  unfolding run_database_probe_def Let_def by (intro adds_rules; auto intro!: adds_rules)

interpretation database_client: temporary_container dm_asked name "bounded_probe pb name probe"
    "io_try (remove_database_probe lib name)" for pb name probe lib
proof
  show "adds dm_asked (list_all (creates_only name)) (bounded_probe pb name probe)"
    unfolding adds_def
  proof
    fix a
    obtain r s where "run_database_probe pb name probe
        \<lparr> pr_agent = a, pr_left = pb_awaits pb, pr_sent = pb_sent pb, pr_expired = False \<rparr> = (r, s)" by (metis surj_pair)
    with addsD [OF run_creates_only this]
    show "\<exists>rs. dm_asked (snd (bounded_probe pb name probe a)) = dm_asked a @ rs \<and> list_all (creates_only name) rs"
      by (auto simp: bounded_probe_def)
  qed
  show "\<exists>x s'. bounded_probe pb name probe s = (Ok x, s')" for s
    by (simp add: bounded_probe_def split: prod.split)
  have "w_requests (snd (io_bind (api (dl_host lib) (RemoveContainer name)) (\<lambda>r. io_lift (f r)) w)) =
      w_requests w @ [Api (RemoveContainer name)]" for f :: "docker_error + unit \<Rightarrow> unit res" and w
    using perform_requests [of "\<lambda>rs _. h_api (dl_host lib) rs (RemoveContainer name)" "Api (RemoveContainer name)" w]
    by (auto simp: io_bind_def io_lift_def api_def split: prod.split)
  then show "adds dm_asked (\<lambda>rs. rs = [Api (RemoveContainer name)]) (io_try (remove_database_probe lib name))"
    unfolding remove_database_probe_def
    by (intro adds_try) (simp add: adds_def on_world_def case_prod_beta)
qed

text \<open>C30: testing a database connection leaves no container behind, whether the client ran,
  failed, or was dropped at the deadline with a request still on its way.\<close>

theorem database_probe_cleans_up:
  "\<exists>rs. w_requests (ag_world (snd (test_database_connection pb spec a))) = w_requests (ag_world a) @ rs \<and> cleaned_up rs"
proof -
  have c: "adds dm_asked cleaned_up (ensure_database_context lib x y)" for lib x y
    unfolding ensure_database_context_def by (intro adds_cleaned adds_rules asks_lib) simp_all
  have k: "adds dm_asked cleaned_up (\<lambda>a. (f a, a))" for f :: "agent \<Rightarrow> int res"
    by (simp add: adds_def)
  have "adds dm_asked cleaned_up (timed_test pb name probe started)" for name probe started
    unfolding timed_test_def by (rule database_client.used_and_removed) (rule k)
  then have r: "adds dm_asked cleaned_up (\<lambda>a. timed_test pb name probe (F a) a)" for name probe F
    by (rule adds_state)
  have "adds dm_asked cleaned_up (test_database_connection pb spec)"
    unfolding test_database_connection_def
    by (intro adds_cleaned_bind c r adds_cleaned [OF adds_all_simple(3)])
  then show ?thesis unfolding adds_def by blast
qed

subsection \<open>What a successful test shows\<close>

lemma await_Ok: "await m s = (Inr x, s') \<Longrightarrow> \<exists>a. m (pr_agent s) = (Inr x, a)"
  by (auto simp: await_def split: if_splits prod.splits)

lemma client_exit:
  assumes "run_database_probe pb name probe s = (Inr (), s')"
  shows "\<exists>rs reason. pb_wait pb rs name = Some (WaitResponse 0 reason)"
proof -
  have w: "\<exists>rs. pb_wait pb rs name = Some (WaitResponse code reason)"
    if "await_client pb name s1 = (Inr (code, reason), s2)" for s1 s2 code reason
    using await_Ok [OF that [unfolded await_client_def]]
    by (auto simp: Let_def split: option.splits wait_answer.splits)
  have l: "io_bind m (\<lambda>logs. io_fail (e logs)) s1 \<noteq> (Inr (), s2)" for m :: "string timed" and e s1 s2
    by (auto simp: io_bind_def io_fail_def split: prod.splits sum.splits)
  from assms obtain s1 code reason s2 where "await_client pb name s1 = (Inr (code, reason), s2)" "code = 0"
    unfolding run_database_probe_def Let_def
    by (elim io_bind_cases) (auto split: prod.splits if_splits simp: l)
  then show ?thesis using w by blast
qed

text \<open>Lemma: a test reports success only when the description is valid and the client, sharing
  the server's network, exited with status zero before the deadline.\<close>

theorem database_test_success:
  "case test_database_connection pb spec a of
     (Inl e, _) \<Rightarrow> True
   | (Inr millis, _) \<Rightarrow> validate_database_spec spec = Ok () \<and> 0 \<le> millis \<and>
       (\<exists>rs reason. pb_wait pb rs (probe_name pb spec) = Some (WaitResponse 0 reason))"
proof -
  have t: "0 \<le> millis \<and> (\<exists>rs reason. pb_wait pb rs name = Some (WaitResponse 0 reason))"
    if "timed_test pb name probe started a = (Inr millis, a')" for name probe started a millis a'
  proof -
    obtain r s where p: "run_database_probe pb name probe
        \<lparr> pr_agent = a, pr_left = pb_awaits pb, pr_sent = pb_sent pb, pr_expired = False \<rparr> = (r, s)" by (metis surj_pair)
    then have "r = Inr () \<and> 0 \<le> millis"
      using that by (auto simp: timed_test_def io_bind_def bounded_probe_def test_verdict_def elapsed_millis_def io_try_def
          split: prod.splits if_splits sum.splits)
    with client_exit p show ?thesis by blast
  qed
  have "validate_database_spec spec = Ok () \<and> 0 \<le> millis \<and>
       (\<exists>rs reason. pb_wait pb rs (probe_name pb spec) = Some (WaitResponse 0 reason))"
    if "test_database_connection pb spec a = (Inr millis, a')" for millis a'
    using that unfolding test_database_connection_def
    by (auto elim!: io_bind_cases simp: io_lift_def dest: t)
  then show ?thesis by (auto split: prod.split sum.split)
qed

definition reads_no_logs :: "request \<Rightarrow> bool" where
  "reads_no_logs r \<longleftrightarrow> (case r of Api (ContainerLogs n) \<Rightarrow> False | _ \<Rightarrow> True)"

text \<open>Lemma: bollard reports a client that failed as an error of the wait call, and then its
  output, the reason of the failure, is never read.\<close>

theorem failed_client_output_lost:
  "\<exists>rs. w_requests (ag_world (pr_agent (snd (run_database_probe
      (pb\<lparr> pb_wait := \<lambda>rs name. Some (WaitError text code) \<rparr>) name probe s)))) = w_requests (ag_world (pr_agent s)) @ rs \<and>
    list_all reads_no_logs rs"
proof -
  let ?pb = "pb\<lparr> pb_wait := \<lambda>rs name. Some (WaitError text code) \<rparr>"
  have c: "reads_no_logs (Api (InspectImage i))" "reads_no_logs (Api (PullImage i t))" "reads_no_logs (Api (CreateContainer n b))"
    "reads_no_logs (Api (StartContainer n))" "reads_no_logs (Api (WaitContainer n))" for i t n b
    by (simp_all add: reads_no_logs_def)
  have f: "await_client ?pb name s \<noteq> (Inr x, s')" for s x s'
  proof
    assume "await_client ?pb name s = (Inr x, s')"
    from await_Ok [OF this [unfolded await_client_def]] show False by (auto simp: Let_def)
  qed
  have b: "adds run_asked (list_all reads_no_logs) (io_bind (await_client ?pb name) g)" for g :: "_ \<Rightarrow> unit timed"
  proof -
    have "snd (io_bind (await_client ?pb name) g s) = snd (await_client ?pb name s)" for s
      using f [of s] by (cases "await_client ?pb name s"; cases "fst (await_client ?pb name s)") (auto simp: io_bind_def)
    then show ?thesis using adds_client [of reads_no_logs name ?pb] c(5) by (simp add: adds_def)
  qed
  have "adds run_asked (list_all reads_no_logs) (run_database_probe ?pb name probe)"
    unfolding run_database_probe_def Let_def by (intro adds_rules b c)
  then show ?thesis unfolding adds_def by blast
qed

end
