(* ===== verification/Metrics.thy ===== *)
theory Metrics
  imports Lifecycle Complex_Main
begin

text \<open>
  @runtime/docker/inspection.rs@: the state and resources of a container as reported to the
  panel.  Floating-point operations are those of the real numbers, each rounded by a parameter.
\<close>

subsection \<open>Resources\<close>

record cpu_usage =
  cpu_total :: "nat option"
  cpu_percpu :: "nat list option"

record cpu_stats =
  cpu_used :: "cpu_usage option"
  cpu_system :: "nat option"
  cpu_online :: "nat option"

record memory_stats =
  mem_usage :: "nat option"
  mem_stats :: "(string \<times> nat) list option"
  mem_limit :: "nat option"

record docker_stats =
  st_cpu :: "cpu_stats option"
  st_precpu :: "cpu_stats option"
  st_memory :: "memory_stats option"
  st_networks :: "(string \<times> nat option \<times> nat option) list option"

record resource_metrics =
  rm_memory_usage :: int
  rm_memory_limit :: int
  rm_cpu_percent :: real
  rm_network_read :: int
  rm_network_write :: int

definition or_zero :: "nat option \<Rightarrow> nat" where "or_zero o' = (case o' of Some n \<Rightarrow> n | None \<Rightarrow> 0)"

definition saturating_i64 :: "nat \<Rightarrow> int" where "saturating_i64 n = int (min n 9223372036854775807)"

definition total_usage :: "cpu_stats \<Rightarrow> nat" where
  "total_usage c = or_zero (Option.bind (cpu_used c) cpu_total)"

definition online_cpus :: "cpu_stats \<Rightarrow> nat" where
  "online_cpus current =
     (let count = (case cpu_online current of
                     Some n \<Rightarrow> Some n
                   | None \<Rightarrow> map_option length (Option.bind (cpu_used current) cpu_percpu))
      in case count of Some n \<Rightarrow> if n > 0 then n else 1 | None \<Rightarrow> 1)"

definition calculate_cpu_percent :: "(real \<Rightarrow> real) \<Rightarrow> docker_stats \<Rightarrow> real" where
  "calculate_cpu_percent rnd stat =
     (case st_cpu stat of
        None \<Rightarrow> 0
      | Some current \<Rightarrow>
          (case st_precpu stat of
             None \<Rightarrow> 0
           | Some previous \<Rightarrow>
               let cpu_delta = total_usage current - total_usage previous;
                   system_delta = or_zero (cpu_system current) - or_zero (cpu_system previous)
               in if cpu_delta = 0 \<or> system_delta = 0 then 0
                  else rnd (rnd (rnd (rnd (of_nat cpu_delta) / rnd (of_nat system_delta)) *
                         rnd (of_nat (online_cpus current))) * 100)))"

definition clamp_percent :: "real \<Rightarrow> real" where "clamp_percent x = (if x < 0 then 0 else if x > 100 then 100 else x)"

definition normalized_cpu_percent :: "(real \<Rightarrow> real) \<Rightarrow> real \<Rightarrow> int \<Rightarrow> real" where
  "normalized_cpu_percent rnd raw nano_cpus =
     (let allocated = rnd (rnd (of_int nano_cpus) / 1000000000) in
      if allocated > 0 then clamp_percent (rnd (raw / allocated)) else clamp_percent raw)"

definition memory_numbers :: "memory_stats \<Rightarrow> int \<times> int" where
  "memory_numbers m =
     (let cache = (case mem_stats m of
                     None \<Rightarrow> 0
                   | Some stats \<Rightarrow> or_zero (case map_of stats ''total_inactive_file'' of
                       Some n \<Rightarrow> Some n | None \<Rightarrow> map_of stats ''inactive_file''))
      in (saturating_i64 (or_zero (mem_usage m) - cache), saturating_i64 (or_zero (mem_limit m))))"

definition network_numbers :: "(string \<times> nat option \<times> nat option) list \<Rightarrow> int \<times> int" where
  "network_numbers networks =
     (case fold (\<lambda>(name, rx, tx) (read, write). (saturating_add read (or_zero rx), saturating_add write (or_zero tx)))
        networks (0, 0) of
        (read, write) \<Rightarrow> (saturating_i64 read, saturating_i64 write))"

definition resource_metrics_of :: "(real \<Rightarrow> real) \<Rightarrow> docker_stats \<Rightarrow> resource_metrics" where
  "resource_metrics_of rnd stat =
     (let (usage, limit) = (case st_memory stat of Some m \<Rightarrow> memory_numbers m | None \<Rightarrow> (0, 0));
          (read, write) = (case st_networks stat of Some n \<Rightarrow> network_numbers n | None \<Rightarrow> (0, 0))
      in \<lparr> rm_memory_usage = usage, rm_memory_limit = limit, rm_cpu_percent = calculate_cpu_percent rnd stat,
           rm_network_read = read, rm_network_write = write \<rparr>)"

subsection \<open>Time\<close>

definition clamp_timestamp :: "int \<Rightarrow> int" where
  "clamp_timestamp v = max (- 2147483648) (min 2147483647 v)"

text \<open>
  Reading RFC 3339 (an instant in nanoseconds), the wall clock in nanoseconds, what the logs
  and the statistics of a container are, and rounding.
\<close>

record metrics_lib =
  ml_docker :: docker_lib
  ml_parse :: "string \<Rightarrow> int option"
  ml_wall :: "request list \<Rightarrow> int"
  ml_logs :: "request list \<Rightarrow> string \<Rightarrow> int \<Rightarrow> string option list"
  ml_stats :: "request list \<Rightarrow> string \<Rightarrow> docker_stats res option"
  ml_round :: "real \<Rightarrow> real"

definition agent_requests :: "agent \<Rightarrow> request list" where "agent_requests a = w_requests (ag_world a)"

definition unix_timestamp :: "metrics_lib \<Rightarrow> agent \<Rightarrow> int" where
  "unix_timestamp ml a = clamp_timestamp (ml_wall ml (agent_requests a) div 1000000000)"

definition started_at :: "metrics_lib \<Rightarrow> json \<Rightarrow> int option" where
  "started_at ml inspect =
     Option.bind (Option.bind (pointer [''State'', ''StartedAt''] inspect) as_str) (ml_parse ml)"

definition container_uptime_seconds :: "metrics_lib \<Rightarrow> json \<Rightarrow> agent \<Rightarrow> int" where
  "container_uptime_seconds ml inspect a =
     (case started_at ml inspect of
        Some started \<Rightarrow> max 0 ((ml_wall ml (agent_requests a) - started) div 1000000000)
      | None \<Rightarrow> 0)"

definition i32_saturating_sub :: "int \<Rightarrow> int \<Rightarrow> int" where "i32_saturating_sub a b = clamp_timestamp (a - b)"

subsection \<open>Start-up\<close>

fun find_marker :: "string \<Rightarrow> string option list \<Rightarrow> bool" where
  "find_marker marker [] = False"
| "find_marker marker (None # items) = False"
| "find_marker marker (Some bytes # items) =
     (str_contains marker (from_utf8_lossy bytes) \<or> find_marker marker items)"

definition check_interval :: nat where "check_interval = secs 5"

text \<open>Where the next reading of the logs starts; none when the last was too short ago.\<close>

definition next_check :: "metrics_lib \<Rightarrow> string \<Rightarrow> json \<Rightarrow> agent \<Rightarrow> int option \<times> agent" where
  "next_check ml sid inspect a =
     (let now = dl_now (ml_docker ml) (agent_requests a);
          a' = a\<lparr> ag_checks := (ag_checks a)(sid \<mapsto> (now, unix_timestamp ml a)) \<rparr> in
      case ag_checks a sid of
        Some (before, since) \<Rightarrow> if elapsed_since before now < check_interval then (None, a) else (Some since, a')
      | None \<Rightarrow>
          (Some (case started_at ml inspect of
                   Some t \<Rightarrow> clamp_timestamp (t div 1000000000)
                 | None \<Rightarrow> i32_saturating_sub (unix_timestamp ml a) 5), a'))"

definition startup_marker :: "json \<Rightarrow> string" where
  "startup_marker inspect =
     (case label_text ''agapornis.startup_done'' inspect of Some m \<Rightarrow> m | None \<Rightarrow> [])"

definition startup_is_ready :: "metrics_lib \<Rightarrow> string \<Rightarrow> json \<Rightarrow> agent \<Rightarrow> bool \<times> agent" where
  "startup_is_ready ml sid inspect a =
     (let marker = startup_marker inspect in
      if marker = [] then (True, a)
      else if sid \<in> set (ag_ready a) then (True, a)
      else (case next_check ml sid inspect a of
              (None, a1) \<Rightarrow> (False, a1)
            | (Some since, a1) \<Rightarrow>
                let found = find_marker marker (ml_logs ml (agent_requests a1) sid since);
                    a2 = snd (on_world (io_ignore (api (dl_host (ml_docker ml)) (ContainerLogs sid))) a1)
                in if found then (True, a2\<lparr> ag_ready := List.insert sid (ag_ready a2), ag_checks := (ag_checks a2)(sid := None) \<rparr>)
                   else (False, a2)))"

subsection \<open>The report\<close>

record metrics =
  mt_memory_usage :: int
  mt_memory_limit :: int
  mt_cpu_percent :: real
  mt_network_read :: int
  mt_network_write :: int
  mt_disk_usage :: int
  mt_disk_limit :: int
  mt_status :: string
  mt_uptime_seconds :: int

definition no_metrics :: metrics where
  "no_metrics = \<lparr> mt_memory_usage = 0, mt_memory_limit = 0, mt_cpu_percent = 0, mt_network_read = 0, mt_network_write = 0,
     mt_disk_usage = 0, mt_disk_limit = 0, mt_status = [], mt_uptime_seconds = 0 \<rparr>"

definition inactive_metrics :: "bool \<Rightarrow> string \<Rightarrow> int \<Rightarrow> int \<Rightarrow> int \<Rightarrow> metrics option" where
  "inactive_metrics container_running st usage limit uptime =
     (if \<not> container_running
      then Some (no_metrics\<lparr> mt_status := st, mt_disk_usage := usage, mt_disk_limit := limit, mt_uptime_seconds := uptime \<rparr>)
      else None)"

definition normalized_container_status :: "string \<Rightarrow> string" where
  "normalized_container_status st = (if st = ''exited'' then ''offline'' else st)"

definition docker_status_text :: "json \<Rightarrow> string" where
  "docker_status_text inspect =
     (case Option.bind (pointer [''State'', ''Status''] inspect) as_str of Some st \<Rightarrow> st | None \<Rightarrow> ''unknown'')"

text \<open>The status before start-up is considered.\<close>

definition base_status :: "string \<Rightarrow> json \<Rightarrow> agent \<Rightarrow> string" where
  "base_status sid inspect a =
     (case status sid (ag_protection a) of
        Some st \<Rightarrow> st
      | None \<Rightarrow> if is_running inspect then ''running'' else normalized_container_status (docker_status_text inspect))"

definition reported_status :: "metrics_lib \<Rightarrow> string \<Rightarrow> json \<Rightarrow> agent \<Rightarrow> string \<times> agent" where
  "reported_status ml sid inspect a =
     (let st = base_status sid inspect a in
      if st = ''running'' then
        (case startup_is_ready ml sid inspect a of (ready, a') \<Rightarrow> (if ready then st else ''starting'', a'))
      else (st, a))"

definition nano_cpus :: "json \<Rightarrow> int" where
  "nano_cpus inspect =
     (case Option.bind (pointer [''HostConfig'', ''NanoCpus''] inspect) as_i64 of Some n \<Rightarrow> n | None \<Rightarrow> 0)"

definition live_metrics :: "metrics_lib \<Rightarrow> string \<Rightarrow> json \<Rightarrow> string \<Rightarrow> int \<Rightarrow> int \<Rightarrow> int \<Rightarrow> metrics dm" where
  "live_metrics ml sid inspect st usage limit uptime a =
     (let answer = ml_stats ml (agent_requests a) sid;
          a' = snd (on_world (io_ignore (api (dl_host (ml_docker ml)) (ContainerStats sid))) a) in
      case answer of
        None \<Rightarrow> (Err (Bail ''Docker stats stream ended without a sample''), a')
      | Some (Inl e) \<Rightarrow> (Err (Ctx (''read stats for Docker container '' @ sid) e), a')
      | Some (Inr stat) \<Rightarrow>
          let r = resource_metrics_of (ml_round ml) stat in
          (Ok \<lparr> mt_memory_usage = rm_memory_usage r, mt_memory_limit = rm_memory_limit r,
                mt_cpu_percent = normalized_cpu_percent (ml_round ml) (rm_cpu_percent r) (nano_cpus inspect),
                mt_network_read = rm_network_read r, mt_network_write = rm_network_write r,
                mt_disk_usage = usage, mt_disk_limit = limit, mt_status = st, mt_uptime_seconds = uptime \<rparr>, a'))"

definition server_metrics :: "metrics_lib \<Rightarrow> string \<Rightarrow> metrics dm" where
  "server_metrics ml sid =
     from_res (validate_id sid) (\<lambda>_.
     io_bind (on_world (io_try (dm_inspect (ml_docker ml) sid))) (\<lambda>r.
       case r of
         Inl _ \<Rightarrow> io_return (no_metrics\<lparr> mt_status := ''deleted'', mt_disk_limit := DEFAULT_DISK_LIMIT \<rparr>)
       | Inr inspect \<Rightarrow> (\<lambda>a.
           let uptime = (if is_running inspect then container_uptime_seconds ml inspect a else 0) in
           case reported_status ml sid inspect a of
             (st, a1) \<Rightarrow>
               io_bind (disk (ml_docker ml) sid) (\<lambda>(usage, limit).
                 case inactive_metrics (is_running inspect) st usage limit uptime of
                   Some m \<Rightarrow> io_return m
                 | None \<Rightarrow> live_metrics ml sid inspect st usage limit uptime) a1)))"

subsection \<open>What is reported\<close>

lemma clamp_percent_range: "0 \<le> clamp_percent x \<and> clamp_percent x \<le> 100"
  by (simp add: clamp_percent_def)

lemma saturating_range: "0 \<le> saturating_i64 n \<and> saturating_i64 n \<le> i64_max"
  by (simp add: saturating_i64_def i64_max_def)

lemma network_totals:
  "network_numbers networks =
     (saturating_i64 (\<Sum>(name, rx, tx) \<leftarrow> networks. or_zero rx), saturating_i64 (\<Sum>(name, rx, tx) \<leftarrow> networks. or_zero tx))"
proof -
  have f: "fold (\<lambda>(name, rx, tx) (read, write). (saturating_add read (or_zero rx), saturating_add write (or_zero tx)))
      ns (min usize_max x, min usize_max y) =
    (min usize_max (x + (\<Sum>(name, rx, tx) \<leftarrow> ns. or_zero rx)), min usize_max (y + (\<Sum>(name, rx, tx) \<leftarrow> ns. or_zero tx)))" for ns x y
  proof (induction ns arbitrary: x y)
    case (Cons n ns)
    obtain name rx tx where n: "n = (name, rx, tx)" by (cases n)
    have "saturating_add (min usize_max z) v = min usize_max (z + v)" for z v
      by (auto simp: saturating_add_def)
    then show ?case using Cons [of "x + or_zero rx" "y + or_zero tx"] by (simp add: n add.assoc)
  qed simp
  have m: "saturating_i64 (min usize_max z) = saturating_i64 z" for z
    by (simp add: saturating_i64_def usize_max_def)
  show ?thesis using f [of networks 0 0] by (simp add: network_numbers_def m)
qed

definition metrics_in_range :: "metrics \<Rightarrow> bool" where
  "metrics_in_range m \<longleftrightarrow> 0 \<le> mt_cpu_percent m \<and> mt_cpu_percent m \<le> 100 \<and>
     list_all (\<lambda>n. 0 \<le> n \<and> n \<le> i64_max)
       [mt_memory_usage m, mt_memory_limit m, mt_network_read m, mt_network_write m] \<and> 0 \<le> mt_uptime_seconds m"

lemma resources_range:
  "list_all (\<lambda>n. 0 \<le> n \<and> n \<le> i64_max)
     [rm_memory_usage (resource_metrics_of rnd stat), rm_memory_limit (resource_metrics_of rnd stat),
      rm_network_read (resource_metrics_of rnd stat), rm_network_write (resource_metrics_of rnd stat)]"
  using saturating_range
  by (auto simp: resource_metrics_of_def memory_numbers_def network_totals i64_max_def Let_def split: option.split prod.split)

lemma reported_status_disk: "ag_disk (snd (reported_status ml sid inspect a)) = ag_disk a"
  by (auto simp: reported_status_def startup_is_ready_def next_check_def Let_def on_world_def
      split: prod.splits option.splits if_splits)

text \<open>The disk numbers of a report: the cached measurement, or no usage and the limit then configured.\<close>

definition disk_reported :: "metrics_lib \<Rightarrow> string \<Rightarrow> disk_cache \<Rightarrow> metrics \<Rightarrow> bool" where
  "disk_reported ml sid cache m \<longleftrightarrow>
     (case disk_snapshot cache sid of
        Some (usage, limit) \<Rightarrow> mt_disk_usage m = usage \<and> mt_disk_limit m = limit
      | None \<Rightarrow> mt_disk_usage m = 0 \<and>
          (\<exists>w w'. disk_limit (dl_env (ml_docker ml)) (dm_inspect (ml_docker ml) sid) sid w = (Ok (mt_disk_limit m), w')))"

lemma disk_answers:
  assumes "disk lib sid a = (Inr (usage, limit), b)"
  shows "case disk_snapshot (ag_disk a) sid of Some (u, l) \<Rightarrow> usage = u \<and> limit = l
    | None \<Rightarrow> usage = 0 \<and> (\<exists>w w'. disk_limit (dl_env lib) (dm_inspect lib sid) sid w = (Ok limit, w'))"
proof -
  obtain q w where d: "disk_limit (dl_env lib) (dm_inspect lib sid) sid (ag_world a) = (q, w)" by (metis surj_pair)
  show ?thesis
    using assms d by (cases q) (fastforce simp: disk_def io_bind_def io_lift_def io_return_def on_world_def
        split: option.splits sum.splits prod.splits)+
qed

text \<open>Everything but the state and the disk is zero.\<close>

definition at_rest :: "metrics \<Rightarrow> bool" where
  "at_rest m \<longleftrightarrow> mt_cpu_percent m = 0 \<and> list_all (\<lambda>n. n = 0)
     [mt_memory_usage m, mt_memory_limit m, mt_network_read m, mt_network_write m, mt_uptime_seconds m]"


text \<open>The readings of the log, as others change the world in between: when, and from which second on.\<close>

fun log_readings :: "metrics_lib \<Rightarrow> string \<Rightarrow> json \<Rightarrow> world list \<Rightarrow> agent \<Rightarrow> (nat \<times> int \<times> int) list" where
  "log_readings ml sid inspect [] a = []"
| "log_readings ml sid inspect (w # ws) a =
     (let b = a\<lparr> ag_world := w \<rparr> in
      case next_check ml sid inspect b of
        (None, a') \<Rightarrow> log_readings ml sid inspect ws a'
      | (Some since, a') \<Rightarrow>
          (dl_now (ml_docker ml) (agent_requests b), unix_timestamp ml b, since) # log_readings ml sid inspect ws a')"

definition follows :: "nat \<times> int \<times> int \<Rightarrow> nat \<times> int \<times> int \<Rightarrow> bool" where
  "follows earlier later \<longleftrightarrow>
     fst earlier + check_interval \<le> fst later \<and> snd (snd later) = fst (snd earlier)"

lemma readings_after:
  assumes "ag_checks a sid = Some (t, u)"
  shows "successively follows ((t, u, s) # log_readings ml sid inspect ws a)"
  using assms
proof (induction ws arbitrary: a t u s)
  case (Cons w ws)
  let ?b = "a\<lparr> ag_world := w \<rparr>"
  show ?case
  proof (cases "elapsed_since t (dl_now (ml_docker ml) (agent_requests ?b)) < check_interval")
    case True
    then show ?thesis using Cons by (simp add: next_check_def Let_def)
  next
    case False
    let ?a = "?b\<lparr> ag_checks := (ag_checks a)(sid \<mapsto> (dl_now (ml_docker ml) (agent_requests ?b), unix_timestamp ml ?b)) \<rparr>"
    have "follows (t, u, s) (dl_now (ml_docker ml) (agent_requests ?b), unix_timestamp ml ?b, u)"
      using False by (simp add: follows_def check_interval_def secs_def)
    then show ?thesis
      using Cons.IH [of ?a "dl_now (ml_docker ml) (agent_requests ?b)" "unix_timestamp ml ?b" u] Cons.prems False
      by (simp add: next_check_def Let_def)
  qed
qed simp

text \<open>Lemma: while a server starts, its log is read at most every five seconds, and each reading
  begins in the second of the one before, so that no line is left out.\<close>

theorem startup_readings_contiguous:
  "successively follows (log_readings ml sid inspect ws a)"
proof (induction ws arbitrary: a)
  case (Cons w ws)
  let ?b = "a\<lparr> ag_world := w \<rparr>"
  obtain since a' where n: "next_check ml sid inspect ?b = (since, a')" by (metis surj_pair)
  show ?case
  proof (cases since)
    case None
    then show ?thesis using Cons n by simp
  next
    case (Some s)
    then have "ag_checks a' sid = Some (dl_now (ml_docker ml) (agent_requests ?b), unix_timestamp ml ?b)"
      using n by (auto simp: next_check_def Let_def split: option.splits if_splits)
    from readings_after [OF this] show ?thesis using n Some by (simp add: Let_def)
  qed
qed simp

end
