(* ===== verification/Packages.thy ===== *)
theory Packages
  imports Files
begin

text \<open>
  @runtime/node/linux_packages.rs@: previewing and applying updates of the node's packages with
  fixed commands.
\<close>

subsection \<open>Package managers\<close>

definition APT :: string where "APT = ''/usr/bin/apt-get''"
definition PACMAN :: string where "PACMAN = ''/usr/bin/pacman''"
definition CHECKUPDATES :: string where "CHECKUPDATES = ''/usr/bin/checkupdates''"
definition DNF :: string where "DNF = ''/usr/bin/dnf''"
definition APK :: string where "APK = ''/sbin/apk''"
definition SUDO :: string where "SUDO = ''/usr/bin/sudo''"
definition MAX_PACKAGES :: nat where "MAX_PACKAGES = 2000"

datatype manager = Apt | Pacman | Dnf | Apk

record package_upgrade =
  pu_name :: string
  pu_current :: string
  pu_candidate :: string

record platform =
  pf_distribution :: string
  pf_manager :: manager

record update_result =
  ur_message :: string
  ur_packages :: "package_upgrade list"
  ur_reboot_required :: bool
  ur_distribution :: string
  ur_manager :: string
  ur_preview_command :: string
  ur_apply_command :: string

text \<open>Other programs, whether the agent runs as root, and Unicode's lower case.\<close>

record package_lib =
  pk_host :: host
  pk_root :: bool
  pk_lower :: "string \<Rightarrow> string"

fun manager_name :: "manager \<Rightarrow> string" where
  "manager_name Apt = ''apt''"
| "manager_name Pacman = ''pacman''"
| "manager_name Dnf = ''dnf''"
| "manager_name Apk = ''apk''"

fun preview_command :: "manager \<Rightarrow> string" where
  "preview_command Apt = ''sudo /usr/bin/apt-get update && sudo /usr/bin/apt-get --simulate upgrade''"
| "preview_command Pacman = ''/usr/bin/checkupdates --nocolor''"
| "preview_command Dnf = ''sudo /usr/bin/dnf -q --refresh check-upgrade''"
| "preview_command Apk = ''sudo /sbin/apk update && sudo /sbin/apk --simulate upgrade''"

fun apply_command :: "manager \<Rightarrow> string" where
  "apply_command Apt = ''sudo /usr/bin/apt-get update && sudo /usr/bin/apt-get -y upgrade''"
| "apply_command Pacman = ''sudo /usr/bin/pacman -Syu --noconfirm --noprogressbar''"
| "apply_command Dnf = ''sudo /usr/bin/dnf -y --refresh upgrade''"
| "apply_command Apk = ''sudo /sbin/apk update && sudo /sbin/apk upgrade''"

subsection \<open>Characters\<close>

function utf8_chars :: "string \<Rightarrow> string list" where
  "utf8_chars s = (if s = [] then [] else take (fst (utf8_head s)) s # utf8_chars (drop (fst (utf8_head s)) s))"
  by pat_completeness auto
termination
  by (relation "measure length") (auto intro!: diff_less utf8_head_pos)

declare utf8_chars.simps [simp del]

definition is_control :: "string \<Rightarrow> bool" where
  "is_control c =
     (case c of
        [a] \<Rightarrow> byte a < 32 \<or> byte a = 127
      | [a, b] \<Rightarrow> a = CHR 0xC2 \<and> in_range 0x80 0x9F b
      | _ \<Rightarrow> False)"

subsection \<open>Running a fixed command\<close>

definition program_name :: "string \<Rightarrow> string" where
  "program_name program = (case file_name (components program) of Some n \<Rightarrow> n | None \<Rightarrow> [])"

definition run_failure :: "string \<Rightarrow> string \<Rightarrow> error" where
  "run_failure program stderr =
     Bail (program_name program @ '' failed: '' @ concat (take 4096 (utf8_chars (trim (from_utf8_lossy stderr)))))"

definition run_environment :: "(string \<times> string) list" where
  "run_environment = [(''LC_ALL'', ''C''), (''DEBIAN_FRONTEND'', ''noninteractive'')]"

definition command_for :: "package_lib \<Rightarrow> string \<Rightarrow> bool \<Rightarrow> string \<times> string list" where
  "command_for pk program root =
     (if root \<and> \<not> pk_root pk then (SUDO, [''-n'', program]) else (program, []))"

definition start_message :: "string \<Rightarrow> string" where
  "start_message program = ''start fixed '' @ program_name program @ '' command''"

definition package_run :: "package_lib \<Rightarrow> string \<Rightarrow> string list \<Rightarrow> int list \<Rightarrow> bool \<Rightarrow> string io" where
  "package_run pk program args success root =
     (case command_for pk program root of
        (exe, before) \<Rightarrow>
          io_bind (spawn (pk_host pk) exe (before @ args) run_environment [] (start_message program)) (\<lambda>p.
            if (case exit_code p of Some c \<Rightarrow> c | None \<Rightarrow> - 1) \<in> set success
            then io_return (from_utf8_lossy (proc_stdout p))
            else io_fail (run_failure program (proc_stderr p))))"

subsection \<open>Reading previews\<close>

definition text_between :: "string \<Rightarrow> char \<Rightarrow> char \<Rightarrow> string option" where
  "text_between s a b =
     Option.bind (split_once a s) (\<lambda>(_, r). map_option fst (split_once b r))"

definition first_word :: "string \<Rightarrow> string option" where
  "first_word s = (case split_whitespace s of [] \<Rightarrow> None | w # _ \<Rightarrow> Some w)"

definition parse_apt_line :: "string \<Rightarrow> package_upgrade option" where
  "parse_apt_line ln =
     Option.bind (strip_prefix ''Inst '' ln) (\<lambda>rest.
     Option.bind (first_word rest) (\<lambda>name.
     Option.bind (split_once (CHR ''('') rest) (\<lambda>(_, r).
     Option.bind (first_word r) (\<lambda>candidate.
       Some \<lparr> pu_name = name,
              pu_current = (case text_between rest (CHR ''['') (CHR '']'') of Some v \<Rightarrow> v | None \<Rightarrow> []),
              pu_candidate = candidate \<rparr>))))"

definition parse_pacman_line :: "string \<Rightarrow> package_upgrade option" where
  "parse_pacman_line ln =
     (case split_whitespace ln of
        name # current # arrow # candidate # _ \<Rightarrow>
          Some \<lparr> pu_name = name, pu_current = current, pu_candidate = candidate \<rparr>
      | _ \<Rightarrow> None)"

definition parse_dnf_line :: "string \<Rightarrow> package_upgrade option" where
  "parse_dnf_line ln =
     (case split_whitespace ln of
        name # candidate # _ # _ \<Rightarrow>
          if CHR ''.'' \<notin> set name \<or> \<not> list_ex is_digit candidate then None
          else Some \<lparr> pu_name = name, pu_current = [], pu_candidate = candidate \<rparr>
      | _ \<Rightarrow> None)"

text \<open>@split_once@ at a string.\<close>

definition split_once_str :: "string \<Rightarrow> string \<Rightarrow> (string \<times> string) option" where
  "split_once_str p s = map_option (\<lambda>i. (take i s, drop (i + length p) s)) (str_find p s)"

definition parse_apk_line :: "string \<Rightarrow> package_upgrade option" where
  "parse_apk_line ln =
     Option.bind (case split_once_str '' Upgrading '' ln of Some x \<Rightarrow> Some x | None \<Rightarrow> split_once_str '' Installing '' ln) (\<lambda>(_, rest).
     Option.bind (split_once_str '' ('' rest) (\<lambda>(name, versions0).
       let versions = trim_end_matches (CHR '')'') versions0;
           (current, candidate) = (case split_once_str '' -> '' versions of Some x \<Rightarrow> x | None \<Rightarrow> ([], versions)) in
       Some \<lparr> pu_name = name, pu_current = current, pu_candidate = candidate \<rparr>))"

definition parse_preview :: "(string \<Rightarrow> package_upgrade option) \<Rightarrow> string \<Rightarrow> package_upgrade list" where
  "parse_preview parse output = take MAX_PACKAGES (List.map_filter parse (str_lines output))"

definition parse_apt :: "string \<Rightarrow> package_upgrade list" where "parse_apt = parse_preview parse_apt_line"
definition parse_pacman :: "string \<Rightarrow> package_upgrade list" where "parse_pacman = parse_preview parse_pacman_line"
definition parse_dnf :: "string \<Rightarrow> package_upgrade list" where "parse_dnf = parse_preview parse_dnf_line"
definition parse_apk :: "string \<Rightarrow> package_upgrade list" where "parse_apk = parse_preview parse_apk_line"

subsection \<open>Preview and apply\<close>

fun manager_preview :: "package_lib \<Rightarrow> manager \<Rightarrow> package_upgrade list io" where
  "manager_preview pk Apt =
     io_bind (package_run pk APT [''update''] [0] True) (\<lambda>_.
     io_bind (package_run pk APT [''--simulate'', ''upgrade''] [0] True) (\<lambda>out. io_return (parse_apt out)))"
| "manager_preview pk Pacman = (\<lambda>w.
     if \<not> fs_is_file (components CHECKUPDATES) w
     then (Err (Bail ''Arch previews require pacman-contrib (missing /usr/bin/checkupdates)''), w)
     else io_bind (package_run pk CHECKUPDATES [''--nocolor''] [0, 2] False) (\<lambda>out. io_return (parse_pacman out)) w)"
| "manager_preview pk Dnf =
     io_bind (package_run pk DNF [''-q'', ''--refresh'', ''check-upgrade''] [0, 100] True) (\<lambda>out. io_return (parse_dnf out))"
| "manager_preview pk Apk =
     io_bind (package_run pk APK [''update''] [0] True) (\<lambda>_.
     io_bind (package_run pk APK [''--simulate'', ''upgrade''] [0] True) (\<lambda>out. io_return (parse_apk out)))"

fun upgrade_arguments :: "manager \<Rightarrow> string \<times> string list" where
  "upgrade_arguments Apt = (APT, [''-y'', ''upgrade''])"
| "upgrade_arguments Pacman = (PACMAN, [''-Syu'', ''--noconfirm'', ''--noprogressbar''])"
| "upgrade_arguments Dnf = (DNF, [''-y'', ''--refresh'', ''upgrade''])"
| "upgrade_arguments Apk = (APK, [''upgrade''])"

definition manager_apply :: "package_lib \<Rightarrow> manager \<Rightarrow> unit io" where
  "manager_apply pk m =
     (case upgrade_arguments m of (program, args) \<Rightarrow>
        io_bind (package_run pk program args [0] True) (\<lambda>_. io_return ()))"

definition trim_quote_chars :: "string \<Rightarrow> string" where
  "trim_quote_chars s =
     (let quote = (\<lambda>c. c = CHR 0x27 \<or> c = CHR 0x22) in
      rev (dropWhile quote (rev (dropWhile quote s))))"

text \<open>The first line with the key, found by @find_map@.\<close>

fun find_value :: "string \<Rightarrow> string list \<Rightarrow> string option" where
  "find_value key [] = None"
| "find_value key (ln # lns) =
     (case split_once (CHR ''='') ln of
        Some (name, v) \<Rightarrow> if name = key then Some (trim v) else find_value key lns
      | None \<Rightarrow> find_value key lns)"

definition release_value :: "string \<Rightarrow> string \<Rightarrow> string option" where
  "release_value text key =
     map_option (\<lambda>v. str_replace [CHR 0x5C, CHR 0x5C] [CHR 0x5C]
         (str_replace [CHR 0x5C, CHR 0x22] [CHR 0x22] (trim_quote_chars v)))
       (find_value key (str_lines text))"

definition manager_for_release :: "string \<Rightarrow> string \<Rightarrow> manager option" where
  "manager_for_release rid like =
     (let words = split_whitespace rid @ split_whitespace like;
          matches = (\<lambda>names. list_ex (\<lambda>v. v \<in> set names) words) in
      if matches [''alpine''] then Some Apk
      else if matches [''arch'', ''manjaro''] then Some Pacman
      else if matches [''debian'', ''ubuntu''] then Some Apt
      else if matches [''fedora'', ''rhel'', ''centos''] then Some Dnf
      else None)"

definition manager_from_installed_binary :: "world \<Rightarrow> manager option" where
  "manager_from_installed_binary w =
     map_option snd (find (\<lambda>(p, m). fs_is_file (components p) w) [(APT, Apt), (PACMAN, Pacman), (DNF, Dnf), (APK, Apk)])"

definition or_empty :: "string option \<Rightarrow> string" where "or_empty o' = (case o' of Some s \<Rightarrow> s | None \<Rightarrow> [])"

definition distribution_name :: "string \<Rightarrow> string \<Rightarrow> string" where
  "distribution_name release rid =
     concat (take 120 (filter (\<lambda>c. \<not> is_control c) (utf8_chars
       (case release_value release ''PRETTY_NAME'' of Some v \<Rightarrow> if v \<noteq> [] then v else rid | None \<Rightarrow> rid))))"

definition detect_platform :: "package_lib \<Rightarrow> platform io" where
  "detect_platform pk =
     io_bind (io_ctx ''read /etc/os-release'' (fs_read_to_string (components ''/etc/os-release''))) (\<lambda>release w.
       let rid = pk_lower pk (or_empty (release_value release ''ID''));
           like = pk_lower pk (or_empty (release_value release ''ID_LIKE'')) in
       (case (case manager_for_release rid like of Some m \<Rightarrow> Some m | None \<Rightarrow> manager_from_installed_binary w) of
          None \<Rightarrow> Err (Bail ''unsupported Linux distribution; expected apt-get, pacman, dnf, or apk'')
        | Some m \<Rightarrow> Ok \<lparr> pf_distribution = distribution_name release rid, pf_manager = m \<rparr>, w))"

definition reboots_host :: "package_upgrade \<Rightarrow> bool" where
  "reboots_host p \<longleftrightarrow> pu_name p = ''linux'' \<or> starts_with ''linux-'' (pu_name p) \<or>
     pu_name p = ''kernel'' \<or> starts_with ''kernel.'' (pu_name p)"

definition update_report :: "platform \<Rightarrow> package_upgrade list \<Rightarrow> bool \<Rightarrow> world \<Rightarrow> update_result" where
  "update_report pf packages applied w =
     (let n = nat_digits (length packages); m = pf_manager pf in
      \<lparr> ur_message = (if applied then ''Updated '' @ n @ '' packages with '' @ manager_name m @ ''.''
                      else n @ '' packages can be updated with '' @ manager_name m @ ''.''),
        ur_packages = packages,
        ur_reboot_required = (applied \<and> (fs_exists (components ''/var/run/reboot-required'') w \<or> list_ex reboots_host packages)),
        ur_distribution = pf_distribution pf, ur_manager = manager_name m,
        ur_preview_command = preview_command m, ur_apply_command = apply_command m \<rparr>)"

definition updater_preview :: "package_lib \<Rightarrow> update_result io" where
  "updater_preview pk =
     io_bind (detect_platform pk) (\<lambda>pf.
     io_bind (manager_preview pk (pf_manager pf)) (\<lambda>packages w. (Ok (update_report pf packages False w), w)))"

definition updater_apply :: "package_lib \<Rightarrow> update_result io" where
  "updater_apply pk =
     io_bind (detect_platform pk) (\<lambda>pf.
     io_bind (manager_preview pk (pf_manager pf)) (\<lambda>packages.
     io_bind (if packages \<noteq> [] then manager_apply pk (pf_manager pf) else io_return ()) (\<lambda>_ w.
       (Ok (update_report pf packages True w), w))))"

subsection \<open>Only fixed commands\<close>

definition fixed_command :: "package_lib \<Rightarrow> string \<Rightarrow> string list \<Rightarrow> bool \<Rightarrow> request" where
  "fixed_command pk program args root =
     (case command_for pk program root of (exe, before) \<Rightarrow> Spawn ((exe # before) @ args) run_environment [])"

definition preview_requests :: "package_lib \<Rightarrow> request list" where
  "preview_requests pk =
     [fixed_command pk APT [''update''] True, fixed_command pk APT [''--simulate'', ''upgrade''] True,
      fixed_command pk CHECKUPDATES [''--nocolor''] False,
      fixed_command pk DNF [''-q'', ''--refresh'', ''check-upgrade''] True,
      fixed_command pk APK [''update''] True, fixed_command pk APK [''--simulate'', ''upgrade''] True]"

definition upgrade_request :: "package_lib \<Rightarrow> manager \<Rightarrow> request" where
  "upgrade_request pk m = (case upgrade_arguments m of (program, args) \<Rightarrow> fixed_command pk program args True)"

lemma asks_package_run [asks_rules]:
  assumes "R (fixed_command pk program args root)" shows "asks R (package_run pk program args success root)"
  using assms unfolding package_run_def fixed_command_def
  by (cases "command_for pk program root") (auto intro!: asks_rules)

lemma asks_pure: "asks R (\<lambda>w. (f w, w))"
  by (simp add: asks_def)

lemma asks_when:
  assumes "\<And>w. c w \<Longrightarrow> asks R m" shows "asks R (\<lambda>w. if c w then m w else (Inl e, w))"
  using assms by (auto simp: asks_def)

lemma asks_preview: "asks (\<lambda>r. r \<in> set (preview_requests pk)) (manager_preview pk m)"
proof (cases m)
  case Pacman
  have "asks (\<lambda>r. r \<in> set (preview_requests pk))
      (io_bind (package_run pk CHECKUPDATES [''--nocolor''] [0, 2] False) (\<lambda>out. io_return (parse_pacman out)))"
    by (intro asks_rules) (simp add: preview_requests_def)
  then show ?thesis by (auto simp: Pacman asks_def)
qed (auto intro!: asks_rules simp: preview_requests_def)

lemma asks_platform: "asks R (detect_platform pk)"
  unfolding detect_platform_def fs_read_to_string_def
  by (intro asks_rules; auto intro!: asks_rules simp: Let_def asks_pure)

text \<open>Lemma: a preview of package updates runs none but six fixed command lines, whatever the
  files and programs of the node say, and none of them upgrades.\<close>

theorem preview_only_fixed:
  "\<exists>rs. w_requests (snd (updater_preview pk w)) = w_requests w @ rs \<and> list_all (\<lambda>r. r \<in> set (preview_requests pk)) rs \<and>
     list_all (\<lambda>r. list_all (\<lambda>m. r \<noteq> upgrade_request pk m) [Apt, Pacman, Dnf, Apk]) rs"
proof -
  have n: "r \<noteq> upgrade_request pk m" if "r \<in> set (preview_requests pk)" for r m
    using that by (cases m) (auto simp: preview_requests_def upgrade_request_def fixed_command_def command_for_def
        APT_def PACMAN_def CHECKUPDATES_def DNF_def APK_def SUDO_def split: if_splits)
  have "asks (\<lambda>r. r \<in> set (preview_requests pk)) (updater_preview pk)"
    unfolding updater_preview_def by (intro asks_rules asks_platform asks_preview asks_pure)
  then obtain rs where "w_requests (snd (updater_preview pk w)) = w_requests w @ rs" "list_all (\<lambda>r. r \<in> set (preview_requests pk)) rs"
    unfolding asks_def by blast
  with n show ?thesis by (auto simp: list_all_iff)
qed

abbreviation (input) only_previews :: "package_lib \<Rightarrow> request list \<Rightarrow> bool" where
  "only_previews pk \<equiv> list_all (\<lambda>r. r \<in> set (preview_requests pk))"

definition upgrade_last :: "package_lib \<Rightarrow> request list \<Rightarrow> bool" where
  "upgrade_last pk rs \<longleftrightarrow> rs \<noteq> [] \<and> only_previews pk (butlast rs) \<and>
     list_ex (\<lambda>m. last rs = upgrade_request pk m) [Apt, Pacman, Dnf, Apk]"

lemma package_run_requests:
  "w_requests (snd (package_run pk program args success root w)) = w_requests w @ [fixed_command pk program args root]"
proof -
  obtain exe before where c: "command_for pk program root = (exe, before)" by (metis surj_pair)
  obtain r w' where s: "spawn (pk_host pk) exe (before @ args) run_environment [] (start_message program) w = (r, w')"
    by (metis surj_pair)
  then have "w_requests w' = w_requests w @ [fixed_command pk program args root]"
    using spawn_requests by (metis snd_conv fixed_command_def c prod.case append_Cons)
  then show ?thesis
    by (cases r) (simp_all add: package_run_def c io_bind_def s io_return_def io_fail_def)
qed

lemma manager_apply_requests: "w_requests (snd (manager_apply pk m w)) = w_requests w @ [upgrade_request pk m]"
proof -
  obtain program args where u: "upgrade_arguments m = (program, args)" by (metis surj_pair)
  obtain r w' where p: "package_run pk program args [0] True w = (r, w')" by (metis surj_pair)
  then have "w_requests w' = w_requests w @ [upgrade_request pk m]"
    using package_run_requests [of pk program args "[0]" True w] by (simp add: upgrade_request_def u)
  then show ?thesis by (cases r) (simp_all add: manager_apply_def u io_bind_def p io_return_def)
qed

text \<open>C31: applying updates runs the preview first and then at most one upgrade command, as its
  last, and none when the preview named no package.\<close>

theorem apply_previews_first:
  "case updater_apply pk w of (r, w') \<Rightarrow>
     \<exists>rs. w_requests w' = w_requests w @ rs \<and> (only_previews pk rs \<or> upgrade_last pk rs) \<and>
       (case r of Inl _ \<Rightarrow> True | Inr u \<Rightarrow> if ur_packages u = [] then only_previews pk rs else upgrade_last pk rs)"
proof -
  obtain r w' where a: "updater_apply pk w = (r, w')" by (metis surj_pair)
  obtain x w1 where d: "detect_platform pk w = (x, w1)" by (metis surj_pair)
  obtain rs1 where rs1: "w_requests w1 = w_requests w @ rs1" "only_previews pk rs1"
    using asks_platform [unfolded asks_def] d by (metis snd_conv)
  show ?thesis
  proof (cases x)
    case (Inl e)
    with a d rs1 show ?thesis by (auto simp: updater_apply_def io_bind_def)
  next
    case (Inr pf)
    obtain y w2 where p: "manager_preview pk (pf_manager pf) w1 = (y, w2)" by (metis surj_pair)
    obtain rs2 where rs2: "w_requests w2 = w_requests w1 @ rs2" "only_previews pk rs2"
      using asks_preview [unfolded asks_def] p by (metis snd_conv)
    have all: "only_previews pk (rs1 @ rs2)" using rs1(2) rs2(2) by simp
    show ?thesis
    proof (cases "\<exists>ps. y = Inr ps \<and> ps \<noteq> []")
      case False
      then have "w' = w2 \<and> (\<exists>e. r = Inl e) \<or> w' = w2 \<and> r = Ok (update_report pf [] True w2)"
        using a d p by (cases y) (auto simp: updater_apply_def io_bind_def Inr io_return_def)
      moreover have "ur_packages (update_report pf [] True w2) = []" by (simp add: update_report_def Let_def)
      ultimately show ?thesis using a all rs1(1) rs2(1) by (auto intro!: exI [of _ "rs1 @ rs2"])
    next
      case True
      then obtain ps where ps: "y = Inr ps" "ps \<noteq> []" by blast
      let ?rs = "(rs1 @ rs2) @ [upgrade_request pk (pf_manager pf)]"
      have l: "upgrade_last pk ?rs" using all by (cases "pf_manager pf") (simp_all add: upgrade_last_def butlast_append)
      obtain z w3 where z: "manager_apply pk (pf_manager pf) w2 = (z, w3)" by (metis surj_pair)
      then have "w_requests w3 = w_requests w @ ?rs"
        using manager_apply_requests [of pk "pf_manager pf" w2] rs1(1) rs2(1) by simp
      moreover have "w' = w3 \<and> (\<exists>e. r = Inl e) \<or> w' = w3 \<and> r = Ok (update_report pf ps True w3)"
        using a d p ps z by (cases z) (auto simp: updater_apply_def io_bind_def Inr)
      moreover have "ur_packages (update_report pf ps True w3) = ps" by (simp add: update_report_def Let_def)
      ultimately show ?thesis using a l ps(2) by (auto intro!: exI [of _ ?rs])
    qed
  qed
qed

subsection \<open>Reading what apt prints\<close>

definition plain_field :: "string \<Rightarrow> bool" where
  "plain_field s \<longleftrightarrow> s \<noteq> [] \<and> list_all (\<lambda>c. 0x20 < byte c \<and> byte c < 0x7F \<and> c \<notin> set ''[]()'') s"

definition plain_package :: "package_upgrade \<Rightarrow> bool" where
  "plain_package p \<longleftrightarrow> plain_field (pu_name p) \<and> plain_field (pu_current p) \<and> plain_field (pu_candidate p)"

text \<open>A line of @apt-get --simulate@ for one package, and other lines between them.\<close>

definition apt_line :: "string + package_upgrade \<Rightarrow> string" where
  "apt_line l =
     (case l of
        Inl other \<Rightarrow> other
      | Inr p \<Rightarrow> ''Inst '' @ pu_name p @ '' ['' @ pu_current p @ ''] ('' @ pu_candidate p @ '' stable [amd64])'')"

definition apt_line_ok :: "string + package_upgrade \<Rightarrow> bool" where
  "apt_line_ok l =
     (case l of
        Inl other \<Rightarrow> \<not> starts_with ''Inst '' other \<and> CHR 0x0A \<notin> set other \<and> CHR 0x0D \<notin> set other
      | Inr p \<Rightarrow> plain_package p)"

definition apt_output :: "(string + package_upgrade) list \<Rightarrow> string" where
  "apt_output ls = concat (map (\<lambda>l. apt_line l @ [CHR 0x0A]) ls)"

lemma ws_head_plain: "0x20 < byte c \<Longrightarrow> byte c < 0x7F \<Longrightarrow> ws_head (c # r) = 0"
proof -
  assume b: "0x20 < byte c" "byte c < 0x7F"
  then have "c \<noteq> CHR 0x20" "c \<noteq> CHR 0xC2" "c \<noteq> CHR 0xE1" "c \<noteq> CHR 0xE2" "c \<noteq> CHR 0xE3" by auto
  with b show ?thesis by (simp add: in_range_def split: list.split)
qed

lemma split_ws_word:
  assumes "list_all (\<lambda>c. 0x20 < byte c \<and> byte c < 0x7F) v"
  shows "split_ws_go acc (v @ CHR '' '' # r) = (if acc @ v = [] then [] else [acc @ v]) @ split_ws_go [] r"
  using assms
proof (induction v arbitrary: acc)
  case Nil
  show ?case by (subst split_ws_go.simps) (simp add: in_range_def)
next
  case (Cons c v)
  then have "ws_head (c # v @ CHR '' '' # r) = 0" by (intro ws_head_plain) auto
  with Cons show ?case by (subst split_ws_go.simps) (simp del: ws_head.simps(2))
qed

lemma first_word_plain: "plain_field v \<Longrightarrow> first_word (v @ CHR '' '' # r) = Some v"
  using split_ws_word [of v "[]" r]
  by (auto simp: first_word_def split_whitespace_def plain_field_def list_all_iff)

lemma plain_free:
  assumes "plain_field v"
  shows "CHR ''['' \<notin> set v" "CHR '']'' \<notin> set v" "CHR ''('' \<notin> set v" "CHR '')'' \<notin> set v" "CHR '' '' \<notin> set v"
    "CHR 0x0A \<notin> set v" "CHR 0x0D \<notin> set v"
proof -
  have k: "0x20 < byte c \<and> c \<notin> set ''[]()''" if "c \<in> set v" for c
    using assms that by (simp add: plain_field_def list_all_iff)
  show "CHR ''['' \<notin> set v" "CHR '']'' \<notin> set v" "CHR ''('' \<notin> set v" "CHR '')'' \<notin> set v" "CHR '' '' \<notin> set v"
    "CHR 0x0A \<notin> set v" "CHR 0x0D \<notin> set v"
    by (rule notI, drule k, simp)+
qed

lemma parse_apt_package:
  assumes "plain_package p" shows "parse_apt_line (apt_line (Inr p)) = Some p"
proof -
  define end_text where "end_text = pu_candidate p @ CHR '' '' # ''stable [amd64])''"
  define mid where "mid = pu_current p @ CHR '']'' # CHR '' '' # CHR ''('' # end_text"
  define rest where "rest = pu_name p @ CHR '' '' # CHR ''['' # mid"
  have f: "plain_field (pu_name p)" "plain_field (pu_current p)" "plain_field (pu_candidate p)"
    using assms by (simp_all add: plain_package_def)
  have l: "strip_prefix ''Inst '' (apt_line (Inr p)) = Some rest"
    by (simp add: strip_prefix_Some apt_line_def rest_def mid_def end_text_def)
  have n: "first_word rest = Some (pu_name p)" unfolding rest_def by (rule first_word_plain [OF f(1)])
  have c: "first_word end_text = Some (pu_candidate p)" unfolding end_text_def by (rule first_word_plain [OF f(3)])
  have o': "split_once (CHR ''('') rest = Some (pu_name p @ CHR '' '' # CHR ''['' # pu_current p @ [CHR '']'', CHR '' ''], end_text)"
    using plain_free [OF f(1)] plain_free [OF f(2)] by (simp add: split_once_Some rest_def mid_def)
  have a: "split_once (CHR ''['') rest = Some (pu_name p @ [CHR '' ''], mid)"
    using plain_free [OF f(1)] by (simp add: split_once_Some rest_def)
  have b: "split_once (CHR '']'') mid = Some (pu_current p, CHR '' '' # CHR ''('' # end_text)"
    using plain_free [OF f(2)] by (simp add: split_once_Some mid_def)
  show ?thesis
    unfolding parse_apt_line_def l by (simp add: n c o' a b text_between_def)
qed

lemma apt_line_clean: "apt_line_ok l \<Longrightarrow> CHR 0x0A \<notin> set (apt_line l) \<and> CHR 0x0D \<notin> set (apt_line l)"
  using plain_free(6,7) by (auto simp: apt_line_ok_def apt_line_def plain_package_def split: sum.splits)

lemma split_apt_output: "list_all apt_line_ok ls \<Longrightarrow> split_on (CHR 0x0A) (apt_output ls) = map apt_line ls @ [[]]"
proof (induction ls)
  case (Cons l ls)
  have "split_on c (a @ c # b) = a # split_on c b" if "c \<notin> set a" for c :: char and a b
    using that by (induction a) (auto split: list.splits)
  with Cons apt_line_clean [of l] show ?case by (simp add: apt_output_def)
qed (simp add: apt_output_def)

text \<open>Lemma: the packages named by apt's simulation are read back as they are, up to the first
  2,000, whatever else it prints.\<close>

theorem apt_preview_roundtrip:
  assumes "list_all apt_line_ok ls"
  shows "parse_apt (apt_output ls) = take 2000 (List.map_filter (\<lambda>l. case l of Inl _ \<Rightarrow> None | Inr p \<Rightarrow> Some p) ls)"
proof -
  have "strip_cr (apt_line l) = apt_line l" if "l \<in> set ls" for l
    using apt_line_clean [of l] assms that by (auto simp: strip_cr_def list_all_iff) (metis last_in_set)
  then have l: "str_lines (apt_output ls) = map apt_line ls"
    unfolding str_lines_def split_apt_output [OF assms] by (simp add: Let_def)
  have "parse_apt_line (apt_line l) = (case l of Inl _ \<Rightarrow> None | Inr p \<Rightarrow> Some p)" if "l \<in> set ls" for l
    using assms that parse_apt_package
    by (cases l) (auto simp: list_all_iff apt_line_ok_def parse_apt_line_def strip_prefix_def apt_line_def)
  then have "List.map_filter parse_apt_line (map apt_line ls) = List.map_filter (\<lambda>l. case l of Inl _ \<Rightarrow> None | Inr p \<Rightarrow> Some p) ls"
    by (induction ls) (auto simp: List.map_filter_def)
  then show ?thesis by (simp add: parse_apt_def parse_preview_def l MAX_PACKAGES_def)
qed

theorem apt_preview_roundtrip_witness:
  "parse_apt (apt_output [Inl ''Reading package lists...'',
      Inr \<lparr> pu_name = ''bash'', pu_current = ''5.2-1'', pu_candidate = ''5.2-2'' \<rparr>]) =
    take 2000 (List.map_filter (\<lambda>l. case l of Inl _ \<Rightarrow> None | Inr p \<Rightarrow> Some p) [Inl ''Reading package lists...'',
      Inr \<lparr> pu_name = ''bash'', pu_current = ''5.2-1'', pu_candidate = ''5.2-2'' \<rparr>])"
  by (rule apt_preview_roundtrip)
    (simp add: apt_line_ok_def plain_package_def plain_field_def)

end
