(* ===== verification/Node.thy ===== *)
theory Node
  imports Metrics
begin

text \<open>
  @runtime/node.rs@ and @runtime/node/linux.rs@: the telemetry of the node, sampled from @/proc@
  in the background and served from the last snapshot.
\<close>

subsection \<open>One sample\<close>

record node_stats =
  ns_cpu :: real
  ns_memory_used :: int
  ns_memory_total :: int
  ns_disk_used :: int
  ns_disk_total :: int
  ns_uptime :: int
  ns_cpus :: int

text \<open>@statvfs@ of the root file system: fragment and block size, blocks and free blocks.\<close>

record statvfs =
  vf_frsize :: nat
  vf_bsize :: nat
  vf_blocks :: nat
  vf_bfree :: nat

text \<open>
  Rounding, the half second of sleep (in which the kernel moves on), a floating-point text as a
  64-bit integer, and @statvfs@.
\<close>

record node_lib =
  nl_round :: "real \<Rightarrow> real"
  nl_pause :: "unit io"
  nl_float_i64 :: "string \<Rightarrow> int option"
  nl_statvfs :: "statvfs option"

definition proc_text :: "string \<Rightarrow> string io" where
  "proc_text p =
     io_bind (io_try (fs_read_to_string (components p))) (\<lambda>r.
       io_return (case r of Inr s \<Rightarrow> s | Inl _ \<Rightarrow> []))"

definition parse_u64 :: "string \<Rightarrow> nat option" where "parse_u64 s = parse_unsigned usize_max s"

definition first_line :: "string \<Rightarrow> string" where
  "first_line s = (case str_lines s of [] \<Rightarrow> [] | l # _ \<Rightarrow> l)"

text \<open>Idle ticks, all ticks, and the number of CPUs.\<close>

definition cpu_numbers :: "string \<Rightarrow> nat \<times> nat \<times> int" where
  "cpu_numbers s =
     (let ticks = List.map_filter parse_u64 (drop 1 (split_whitespace (first_line s)));
          cpus = length (filter (\<lambda>l. 3 < length l \<and> is_digit (l ! 3)) (str_lines s))
      in (if 3 < length ticks then ticks ! 3 else 0, u64_wrap (int (sum_list ticks)), int cpus))"

definition cpu_sample :: "(nat \<times> nat \<times> int) io" where
  "cpu_sample = io_bind (proc_text ''/proc/stat'') (\<lambda>s. io_return (cpu_numbers s))"

definition parse_kb :: "string \<Rightarrow> int" where
  "parse_kb l =
     (let ws = split_whitespace l in
      i64_wrap ((if 1 < length ws then (case parse_i64 (ws ! 1) of Some n \<Rightarrow> n | None \<Rightarrow> 0) else 0) * 1024))"

fun memory_lines :: "string list \<Rightarrow> int \<times> int \<Rightarrow> int \<times> int" where
  "memory_lines [] m = m"
| "memory_lines (l # ls) (whole, available) =
     memory_lines ls
       (if starts_with ''MemTotal:'' l then (parse_kb l, available)
        else if starts_with ''MemAvailable:'' l then (whole, parse_kb l)
        else (whole, available))"

definition memory_sample :: "(int \<times> int) io" where
  "memory_sample = io_bind (proc_text ''/proc/meminfo'') (\<lambda>s. io_return (memory_lines (str_lines s) (0, 0)))"

definition uptime_seconds :: "node_lib \<Rightarrow> int io" where
  "uptime_seconds nl =
     io_bind (io_try (fs_read_to_string (components ''/proc/uptime''))) (\<lambda>r.
       io_return (case r of
         Inl _ \<Rightarrow> 0
       | Inr s \<Rightarrow> (case Option.bind (case split_whitespace s of [] \<Rightarrow> None | v # _ \<Rightarrow> Some v) (nl_float_i64 nl) of
           Some n \<Rightarrow> n | None \<Rightarrow> 0)))"

text \<open>128-bit arithmetic that saturates.\<close>

definition u128_max :: nat where "u128_max = 340282366920938463463374607431768211455"

definition root_filesystem_stats :: "statvfs \<Rightarrow> int \<times> int" where
  "root_filesystem_stats v =
     (let block = (if vf_frsize v > 0 then vf_frsize v else vf_bsize v);
          total = min u128_max (vf_blocks v * block);
          free = min u128_max (vf_bfree v * block)
      in (saturating_i64 total, saturating_i64 (total - free)))"

definition disk_sample :: "node_lib \<Rightarrow> int \<times> int" where
  "disk_sample nl = (case nl_statvfs nl of Some v \<Rightarrow> root_filesystem_stats v | None \<Rightarrow> (0, 0))"

definition cpu_share :: "(real \<Rightarrow> real) \<Rightarrow> nat \<times> nat \<times> int \<Rightarrow> nat \<times> nat \<times> int \<Rightarrow> real" where
  "cpu_share rnd first second =
     (case (first, second) of
        ((idle1, total1, _), (idle2, total2, _)) \<Rightarrow>
          if total2 > total1
          then rnd (rnd (1 - rnd (rnd (of_nat (u64_wrap (int idle2 - int idle1))) / rnd (of_nat (total2 - total1)))) * 100)
          else 0)"

definition collect_stats :: "node_lib \<Rightarrow> node_stats io" where
  "collect_stats nl =
     io_bind cpu_sample (\<lambda>first.
     io_bind (io_ignore (nl_pause nl)) (\<lambda>_.
     io_bind cpu_sample (\<lambda>second.
     io_bind memory_sample (\<lambda>(total, available).
     io_bind (uptime_seconds nl) (\<lambda>uptime.
       let (disk_total, disk_used) = disk_sample nl in
       io_return \<lparr> ns_cpu = clamp_percent (cpu_share (nl_round nl) first second),
         ns_memory_used = max 0 (i64_wrap (total - available)), ns_memory_total = total,
         ns_disk_used = disk_used, ns_disk_total = disk_total,
         ns_uptime = uptime, ns_cpus = max 1 (snd (snd second)) \<rparr>)))))"

text \<open>A world with no files at all.\<close>

definition empty_world :: world where
  "empty_world = \<lparr> w_root = Dir [], w_cwd = [], w_faults = [], w_trace = [], w_requests = [], w_objects = [] \<rparr>"

subsection \<open>Telemetry\<close>

definition MAX_STATS_SAMPLE_INTERVAL :: nat where "MAX_STATS_SAMPLE_INTERVAL = secs 60"
definition DEFAULT_STATS_SAMPLE_INTERVAL :: nat where "DEFAULT_STATS_SAMPLE_INTERVAL = secs 1"

definition bounded_stats_sample_interval :: "nat option \<Rightarrow> nat" where
  "bounded_stats_sample_interval seconds =
     min (case seconds of Some v \<Rightarrow> if v > 0 then secs v else DEFAULT_STATS_SAMPLE_INTERVAL
          | None \<Rightarrow> DEFAULT_STATS_SAMPLE_INTERVAL) MAX_STATS_SAMPLE_INTERVAL"

definition stats_sample_interval :: "environment \<Rightarrow> nat" where
  "stats_sample_interval env =
     bounded_stats_sample_interval (Option.bind (env ''AGAPORNIS_NODE_STATS_SAMPLE_SECONDS'') parse_u64)"

record stats_snapshot =
  ss_stats :: node_stats
  ss_sampled_at :: nat

record telemetry =
  tl_snapshot :: stats_snapshot
  tl_maximum_age :: nat

definition telemetry_start :: "environment \<Rightarrow> node_stats \<Rightarrow> nat \<Rightarrow> telemetry" where
  "telemetry_start env stats now =
     \<lparr> tl_snapshot = \<lparr> ss_stats = stats, ss_sampled_at = now \<rparr>,
       tl_maximum_age = max (3 * stats_sample_interval env) (secs 5) \<rparr>"

definition telemetry_refresh :: "node_stats res \<Rightarrow> nat \<Rightarrow> telemetry \<Rightarrow> telemetry" where
  "telemetry_refresh result now t =
     (case result of
        Inr stats \<Rightarrow> t\<lparr> tl_snapshot := \<lparr> ss_stats = stats, ss_sampled_at = now \<rparr> \<rparr>
      | Inl e \<Rightarrow> t)"

definition telemetry_snapshot :: "nat \<Rightarrow> telemetry \<Rightarrow> node_stats res" where
  "telemetry_snapshot now t =
     (let age = elapsed_since (ss_sampled_at (tl_snapshot t)) now in
      if age > tl_maximum_age t
      then Err (Bail (''host telemetry snapshot is stale ('' @ nat_digits (age div 1000000) @ '' ms old)''))
      else Ok (ss_stats (tl_snapshot t)))"

subsection \<open>What a sample is\<close>

definition stats_in_range :: "node_stats \<Rightarrow> bool" where
  "stats_in_range s \<longleftrightarrow> 0 \<le> ns_cpu s \<and> ns_cpu s \<le> 100 \<and> 0 \<le> ns_memory_used s \<and> 1 \<le> ns_cpus s \<and>
     0 \<le> ns_disk_used s \<and> ns_disk_used s \<le> ns_disk_total s \<and> ns_disk_total s \<le> i64_max"

lemma proc_text_Ok: "\<exists>s w'. proc_text p w = (Ok s, w')"
  by (simp add: proc_text_def io_bind_def io_try_def io_return_def split: prod.split)

lemma uptime_Ok: "\<exists>n w'. uptime_seconds nl w = (Ok n, w')"
  by (simp add: uptime_seconds_def io_bind_def io_try_def io_return_def split: prod.split)

lemma proc_map_Ok: "\<exists>a w'. io_bind (proc_text p) (\<lambda>s. io_return (f s)) w = (Ok a, w')"
proof -
  obtain s w' where "proc_text p w = (Ok s, w')" using proc_text_Ok by blast
  then show ?thesis by (simp add: io_bind_def io_return_def)
qed

lemma saturating_i64_mono: "n \<le> m \<Longrightarrow> saturating_i64 n \<le> saturating_i64 m"
  unfolding saturating_i64_def of_nat_le_iff by (rule min.mono) simp_all

lemma disk_sample_range:
  "disk_sample nl = (whole, used) \<Longrightarrow> 0 \<le> used \<and> used \<le> whole \<and> whole \<le> i64_max"
proof (cases "nl_statvfs nl")
  case (Some v)
  assume "disk_sample nl = (whole, used)"
  then obtain t f where "whole = saturating_i64 t" "used = saturating_i64 (t - f)"
    unfolding disk_sample_def Some option.case root_filesystem_stats_def Let_def by auto
  then show ?thesis using saturating_range saturating_i64_mono by auto
qed (simp add: disk_sample_def i64_max_def)

text \<open>
  C1: sampling the node never fails, whatever can be read, and gives a CPU load between 0 and
  100 per cent, at least one CPU, and a disk used at most as much as there is.
\<close>

theorem node_stats_total:
  "\<exists>s w'. collect_stats nl w = (Ok s, w') \<and> stats_in_range s"
proof -
  obtain a w1 where 1: "cpu_sample w = (Ok a, w1)"
    using proc_map_Ok [of "''/proc/stat''" cpu_numbers w] unfolding cpu_sample_def by auto
  obtain w2 where 2: "io_ignore (nl_pause nl) w1 = (Ok (), w2)" by (simp add: io_ignore_def split: prod.split)
  obtain b w3 where 3: "cpu_sample w2 = (Ok b, w3)"
    using proc_map_Ok [of "''/proc/stat''" cpu_numbers w2] unfolding cpu_sample_def by auto
  obtain m w4 where 4: "memory_sample w3 = (Ok m, w4)"
    using proc_map_Ok [of "''/proc/meminfo''" "\<lambda>s. memory_lines (str_lines s) (0, 0)" w3] unfolding memory_sample_def by auto
  obtain u w5 where 5: "uptime_seconds nl w4 = (Ok u, w5)" using uptime_Ok by blast
  obtain whole used where d: "disk_sample nl = (whole, used)" by (metis surj_pair)
  show ?thesis
    using clamp_percent_range disk_sample_range [OF d]
    by (cases m) (simp add: collect_stats_def io_bind_def 1 2 3 4 5 d io_return_def stats_in_range_def)
qed

text \<open>
  C2: when nothing below @/proc@ can be read, a sample is still taken, with no memory and no
  uptime, and replaces the complete snapshot before it.
\<close>

theorem unreadable_proc_publishes_zeros:
  "\<exists>s. collect_stats (nl\<lparr> nl_pause := io_return () \<rparr>) (empty_world) = (Ok s, empty_world) \<and>
    ns_memory_total s = 0 \<and> ns_uptime s = 0 \<and> ns_cpu s = 0 \<and>
    telemetry_snapshot now (telemetry_refresh (Ok s) now t) = Ok s"
proof -
  have p: "proc_text ''/proc/stat'' empty_world = (Ok [], empty_world)"
    "proc_text ''/proc/meminfo'' empty_world = (Ok [], empty_world)"
    by (code_simp)+
  have u: "io_try (fs_read_to_string (components ''/proc/uptime'')) empty_world = (Ok (Err (Io NotFound)), empty_world)"
    by code_simp
  have n: "cpu_numbers [] = (0, 0, 0)" by code_simp
  have m: "memory_lines (str_lines []) (0, 0) = (0, 0)" by code_simp
  have c: "cpu_sample empty_world = (Ok (0, 0, 0), empty_world)"
    by (simp add: cpu_sample_def io_bind_def p n io_return_def)
  have m: "memory_sample empty_world = (Ok (0, 0), empty_world)"
    by (simp add: memory_sample_def io_bind_def p m io_return_def)
  have u: "uptime_seconds x empty_world = (Ok 0, empty_world)" for x
    by (simp add: uptime_seconds_def io_bind_def u io_return_def)
  obtain whole used where d: "disk_sample (nl\<lparr> nl_pause := io_return () \<rparr>) = (whole, used)" by (metis surj_pair)
  show ?thesis
    by (simp add: collect_stats_def io_bind_def c m u d io_return_def io_ignore_def cpu_share_def clamp_percent_def
        telemetry_snapshot_def telemetry_refresh_def)
qed

subsection \<open>What telemetry serves\<close>

text \<open>A refresh that ended, with its result, or a question; each with its time.\<close>

datatype telemetry_event = Refreshed "node_stats res" nat | Asked nat

text \<open>The answers, each with its time.\<close>

fun telemetry_run :: "telemetry_event list \<Rightarrow> telemetry \<Rightarrow> (nat \<times> node_stats res) list" where
  "telemetry_run [] t = []"
| "telemetry_run (Refreshed r now # es) t = telemetry_run es (telemetry_refresh r now t)"
| "telemetry_run (Asked now # es) t = (now, telemetry_snapshot now t) # telemetry_run es t"

text \<open>The samples that succeeded, the newest first, and an answer they justify.\<close>

fun telemetry_spec :: "nat \<Rightarrow> telemetry_event list \<Rightarrow> (nat \<times> node_stats) list \<Rightarrow> (nat \<times> node_stats option) list" where
  "telemetry_spec age [] past = []"
| "telemetry_spec age (Refreshed r now # es) past =
     telemetry_spec age es (case r of Inr s \<Rightarrow> (now, s) # past | Inl _ \<Rightarrow> past)"
| "telemetry_spec age (Asked now # es) past =
     (now, case past of (t, s) # _ \<Rightarrow> if now - t \<le> age then Some s else None | [] \<Rightarrow> None) # telemetry_spec age es past"

definition answer_of :: "node_stats res \<Rightarrow> node_stats option" where
  "answer_of r = (case r of Inr s \<Rightarrow> Some s | Inl _ \<Rightarrow> None)"

lemma telemetry_refines_log:
  "map (\<lambda>(t, r). (t, answer_of r)) (telemetry_run es t) =
     telemetry_spec (tl_maximum_age t) es ((ss_sampled_at (tl_snapshot t), ss_stats (tl_snapshot t)) # past)"
proof (induction es arbitrary: t past)
  case (Cons e es)
  show ?case
  proof (cases e)
    case (Refreshed r now)
    then show ?thesis
      using Cons [of "telemetry_refresh r now t"] by (cases r) (auto simp: telemetry_refresh_def)
  next
    case (Asked now)
    then show ?thesis
      using Cons by (auto simp: telemetry_snapshot_def answer_of_def Let_def)
  qed
qed simp

text \<open>C32: every question gets the last complete sample if it is at most three intervals (and
  not less than five seconds) old, and is refused otherwise.\<close>

theorem telemetry_serves_fresh:
  "map (\<lambda>(t, r). (t, answer_of r)) (telemetry_run es (telemetry_start env s0 t0)) =
     telemetry_spec (max (3 * stats_sample_interval env) (secs 5)) es [(t0, s0)]"
  using telemetry_refines_log [of es "telemetry_start env s0 t0" "[]"] by (simp add: telemetry_start_def)

end
