(* ===== verification/Crowdsec.thy ===== *)
theory Crowdsec
  imports Certificate Packages Lifecycle
begin

text \<open>
  @runtime/node/crowdsec.rs@: the alerts of a CrowdSec installation on the node, read from
  cscli within ten seconds and cut to the configured number.
\<close>

subsection \<open>The answer\<close>

record crowdsec_alert =
  ca_id :: string
  ca_created_at :: string
  ca_scenario :: string
  ca_message :: string
  ca_source_scope :: string
  ca_source_value :: string
  ca_source_ip :: string
  ca_source_country :: string
  ca_source_as_name :: string
  ca_events_count :: int
  ca_simulated :: bool
  ca_remediation :: bool
  ca_decision_type :: string
  ca_decision_duration :: string

record crowdsec_response =
  cr_enabled :: bool
  cr_supported :: bool
  cr_status :: string
  cr_error_message :: string
  cr_collected_at :: string
  cr_alerts :: "crowdsec_alert list"

text \<open>
  Other programs, the environment, the platform, how many runs of cscli end before the
  deadline, the time as text, reading JSON, and the text of an I/O error.
\<close>

record crowdsec_lib =
  cl_host :: host
  cl_env :: environment
  cl_linux :: bool
  cl_runs :: nat
  cl_now :: "request list \<Rightarrow> string"
  cl_json :: "string \<Rightarrow> json option"
  cl_io_text :: "io_kind \<Rightarrow> string"

definition crowdsec_answer :: "crowdsec_lib \<Rightarrow> bool \<Rightarrow> bool \<Rightarrow> string \<Rightarrow> string \<Rightarrow> world \<Rightarrow> crowdsec_response" where
  "crowdsec_answer cl enabled supported st message w =
     \<lparr> cr_enabled = enabled, cr_supported = supported, cr_status = st, cr_error_message = message,
       cr_collected_at = cl_now cl (w_requests w), cr_alerts = [] \<rparr>"

subsection \<open>Settings\<close>

definition parse_bool :: "string \<Rightarrow> bool option" where
  "parse_bool s = (if s = ''true'' then Some True else if s = ''false'' then Some False else None)"

definition crowdsec_enabled :: "environment \<Rightarrow> daemon_config \<Rightarrow> bool" where
  "crowdsec_enabled env config =
     (case Option.bind (env ''AGAPORNIS_CROWDSEC_ENABLED'') parse_bool of
        Some b \<Rightarrow> b | None \<Rightarrow> cs_enabled (crowd_sec_telemetry config))"

definition crowdsec_cli :: "environment \<Rightarrow> daemon_config \<Rightarrow> string" where
  "crowdsec_cli env config =
     (case env ''AGAPORNIS_CROWDSEC_CLI_PATH'' of
        Some p \<Rightarrow> p | None \<Rightarrow> cscli_path (crowd_sec_telemetry config))"

definition crowdsec_maximum :: "environment \<Rightarrow> daemon_config \<Rightarrow> nat" where
  "crowdsec_maximum env config =
     clamp (case Option.bind (env ''AGAPORNIS_CROWDSEC_MAX_ALERTS'') (parse_unsigned usize_max) of
        Some n \<Rightarrow> n | None \<Rightarrow> max_alerts (crowd_sec_telemetry config)) 1 500"

subsection \<open>Asking cscli\<close>

definition cscli_candidates :: "string \<Rightarrow> string list" where
  "cscli_candidates cli =
     (let c = trim cli in
      if c = [] then []
      else if CHR ''/'' \<in> set c \<or> CHR 0x5C \<in> set c \<or> c \<noteq> ''cscli'' then [c]
      else [''cscli'', ''/usr/bin/cscli'', ''/usr/local/bin/cscli'', ''/snap/bin/cscli''])"

definition cscli_arguments :: "nat \<Rightarrow> string list" where
  "cscli_arguments maximum = [''alerts'', ''list'', ''-o'', ''json'', ''-a'', ''--limit'', int_to_string (int maximum)]"

text \<open>What is made of a process that ended.\<close>

definition candidate_result :: "string \<Rightarrow> proc \<Rightarrow> string res" where
  "candidate_result program p =
     (if \<not> proc_success p then Err (exit_error program p) else Ok (from_utf8_lossy (proc_stdout p)))"

definition run_cscli :: "crowdsec_lib \<Rightarrow> nat \<Rightarrow> string \<Rightarrow> proc io" where
  "run_cscli cl maximum c = spawn (cl_host cl) c (cscli_arguments maximum) [] [] (''start '' @ c)"

text \<open>
  The candidates in turn; a program that cannot be started costs no time.  @None@ when the
  deadline passes while one runs (which is then killed).
\<close>

fun read_candidates :: "crowdsec_lib \<Rightarrow> nat \<Rightarrow> nat \<Rightarrow> string list \<Rightarrow> error \<Rightarrow> world \<Rightarrow> string res option \<times> world" where
  "read_candidates cl maximum k [] last_error w = (Some (Err last_error), w)"
| "read_candidates cl maximum k (c # cs) last_error w =
     (case run_cscli cl maximum c w of
        (Inl e, w') \<Rightarrow> read_candidates cl maximum k cs e w'
      | (Inr p, w') \<Rightarrow>
          if k = 0 then (None, w')
          else case candidate_result c p of
                 Inl e \<Rightarrow> read_candidates cl maximum (k - 1) cs e w'
               | Inr s \<Rightarrow> (Some (Ok s), w'))"

definition read_alerts :: "crowdsec_lib \<Rightarrow> string \<Rightarrow> nat \<Rightarrow> world \<Rightarrow> string res option \<times> world" where
  "read_alerts cl cli maximum w =
     read_candidates cl maximum (cl_runs cl) (cscli_candidates cli) (Bail ''cscli path is empty'') w"

subsection \<open>Reading its output\<close>

definition listed_alerts :: "json \<Rightarrow> json list" where
  "listed_alerts j =
     (case as_array j of
        Some xs \<Rightarrow> xs
      | None \<Rightarrow> (case Option.bind (json_get ''alerts'' j) as_array of Some xs \<Rightarrow> xs | None \<Rightarrow> []))"

definition parse_alerts :: "crowdsec_lib \<Rightarrow> string \<Rightarrow> nat \<Rightarrow> json list res" where
  "parse_alerts cl raw maximum =
     (case cl_json cl (if trim raw = [] then ''[]'' else raw) of
        None \<Rightarrow> Err (Ctx ''parse CrowdSec JSON'' (Ext ''json''))
      | Some j \<Rightarrow> Ok (take maximum (listed_alerts j)))"

fun find_text :: "json \<Rightarrow> string list \<Rightarrow> string" where
  "find_text v [] = []"
| "find_text v (n # ns) =
     (case json_get n v of
        Some (JString s) \<Rightarrow> s
      | Some (JInt i) \<Rightarrow> int_to_string i
      | Some (JFloat t) \<Rightarrow> t
      | _ \<Rightarrow> find_text v ns)"

definition alert_text :: "json \<Rightarrow> string list \<Rightarrow> string" where
  "alert_text v ns = concat (take 512 (utf8_chars (find_text v ns)))"

definition first_text :: "string \<Rightarrow> string \<Rightarrow> string" where
  "first_text a b = (if a = [] then b else a)"

text \<open>@as i32@ of a 64-bit integer keeps the low 32 bits.\<close>

definition i32_wrap :: "int \<Rightarrow> int" where
  "i32_wrap x = (x + 2147483648) mod 4294967296 - 2147483648"

definition events_count :: "json \<Rightarrow> json \<Rightarrow> int" where
  "events_count v d =
     i32_wrap (case Option.bind (case json_get ''events_count'' v of Some x \<Rightarrow> Some x | None \<Rightarrow> json_get ''eventsCount'' v) Lifecycle.as_i64 of
       Some n \<Rightarrow> n | None \<Rightarrow> if d = JNull then 0 else 1)"

definition map_alert :: "json \<Rightarrow> json \<Rightarrow> crowdsec_alert" where
  "map_alert v d =
     (let source = (case json_get ''source'' v of Some s \<Rightarrow> s | None \<Rightarrow> JNull);
          scope = first_text (alert_text source [''scope'']) (alert_text d [''scope'']);
          address = first_text (alert_text source [''value'']) (alert_text d [''value'']);
          flag = (\<lambda>name default. case Option.bind (json_get name v) as_bool of Some b \<Rightarrow> b | None \<Rightarrow> default)
      in \<lparr> ca_id = first_text (alert_text d [''id'']) (alert_text v [''id'']),
           ca_created_at = first_text (alert_text d [''created_at'', ''createdAt'']) (alert_text v [''created_at'', ''createdAt'']),
           ca_scenario = first_text (alert_text v [''scenario'']) (alert_text d [''scenario'']),
           ca_message = first_text (alert_text v [''message'']) (alert_text d [''origin'']),
           ca_source_scope = scope,
           ca_source_value = address,
           ca_source_ip = first_text (alert_text source [''ip'']) (if eq_ignore_ascii_case scope ''ip'' then address else []),
           ca_source_country = alert_text source [''cn'', ''country''],
           ca_source_as_name = alert_text source [''as_name'', ''asName''],
           ca_events_count = events_count v d,
           ca_simulated = flag ''simulated'' False,
           ca_remediation = flag ''remediation'' (d \<noteq> JNull),
           ca_decision_type = alert_text d [''type''],
           ca_decision_duration = alert_text d [''duration''] \<rparr>)"

text \<open>The decisions of an alert, if it has any.\<close>

definition decisions_of :: "json \<Rightarrow> json list" where
  "decisions_of v = (case Option.bind (json_get ''decisions'' v) as_array of Some ds \<Rightarrow> ds | None \<Rightarrow> [])"

text \<open>The loop over the decisions, which leaves the function when the limit is reached.\<close>

fun map_decisions :: "nat \<Rightarrow> json \<Rightarrow> json list \<Rightarrow> crowdsec_alert list \<Rightarrow> bool \<times> crowdsec_alert list" where
  "map_decisions maximum v [] mapped = (False, mapped)"
| "map_decisions maximum v (d # ds) mapped =
     (let mapped' = mapped @ [map_alert v d] in
      if length mapped' = maximum then (True, mapped') else map_decisions maximum v ds mapped')"

fun map_alerts_from :: "nat \<Rightarrow> json list \<Rightarrow> crowdsec_alert list \<Rightarrow> crowdsec_alert list" where
  "map_alerts_from maximum [] mapped = mapped"
| "map_alerts_from maximum (v # vs) mapped =
     (case map_decisions maximum v (if decisions_of v = [] then [JNull] else decisions_of v) mapped of
        (True, mapped') \<Rightarrow> mapped'
      | (False, mapped') \<Rightarrow> map_alerts_from maximum vs mapped')"

definition map_alerts :: "json list \<Rightarrow> nat \<Rightarrow> crowdsec_alert list" where
  "map_alerts vs maximum = map_alerts_from maximum vs []"

subsection \<open>The query\<close>

definition crowdsec :: "crowdsec_lib \<Rightarrow> daemon_config \<Rightarrow> world \<Rightarrow> crowdsec_response \<times> world" where
  "crowdsec cl config w =
     (if \<not> crowdsec_enabled (cl_env cl) config then (crowdsec_answer cl False (cl_linux cl) ''disabled'' [] w, w)
      else if \<not> cl_linux cl
      then (crowdsec_answer cl True False ''unsupported'' ''CrowdSec telemetry is only supported on Linux'' w, w)
      else let maximum = crowdsec_maximum (cl_env cl) config in
        (case read_alerts cl (crowdsec_cli (cl_env cl) config) maximum w of
           (None, w') \<Rightarrow> (crowdsec_answer cl True True ''unavailable'' ''CrowdSec query timed out'' w', w')
         | (Some (Inl e), w') \<Rightarrow> (crowdsec_answer cl True True ''unavailable'' (error_display (cl_io_text cl) e) w', w')
         | (Some (Inr raw), w') \<Rightarrow>
             (case parse_alerts cl raw maximum of
                Inl e \<Rightarrow> (crowdsec_answer cl True True ''unavailable'' (error_display (cl_io_text cl) e) w', w')
              | Inr vs \<Rightarrow>
                  ((crowdsec_answer cl True True ''active'' [] w')\<lparr> cr_alerts := map_alerts vs maximum \<rparr>, w'))))"

subsection \<open>The rows of the answer\<close>

text \<open>What the alerts mean: one row per decision, or one for an alert without decisions.\<close>

definition alert_rows :: "json \<Rightarrow> crowdsec_alert list" where
  "alert_rows v = map (map_alert v) (if decisions_of v = [] then [JNull] else decisions_of v)"

lemma map_decisions_take:
  assumes "length mapped < maximum"
  shows "map_decisions maximum v ds mapped =
    (maximum \<le> length mapped + length ds, take maximum (mapped @ map (map_alert v) ds))"
  using assms by (induction ds arbitrary: mapped) (auto simp: Let_def take_Cons')

lemma map_alerts_from_take:
  "length mapped < maximum \<Longrightarrow>
    map_alerts_from maximum vs mapped = take maximum (mapped @ concat (map alert_rows vs))"
proof (induction vs arbitrary: mapped)
  case (Cons v vs)
  define ds where "ds = (if decisions_of v = [] then [JNull] else decisions_of v)"
  have rows: "alert_rows v = map (map_alert v) ds" by (simp add: alert_rows_def ds_def)
  show ?case
  proof (cases "maximum \<le> length mapped + length ds")
    case True
    with Cons.prems show ?thesis by (simp add: rows map_decisions_take flip: ds_def)
  next
    case False
    then have "length (mapped @ alert_rows v) < maximum" by (simp add: rows)
    from Cons.IH [OF this] False Cons.prems show ?thesis by (simp add: rows map_decisions_take flip: ds_def)
  qed
qed simp

lemma alert_rows_nonempty: "alert_rows v \<noteq> []"
  by (simp add: alert_rows_def)

lemma take_concat_take:
  assumes "\<And>x. f x \<noteq> []"
  shows "take n (concat (map f (take n xs))) = take n (concat (map f xs))"
proof (induction xs arbitrary: n)
  case (Cons x xs)
  show ?case
  proof (cases n)
    case (Suc m)
    obtain y ys where f: "f x = y # ys" using assms by (meson neq_Nil_conv)
    have "take (m - length ys) (concat (map f (take m xs))) = take (m - length ys) (concat (map f xs))" (is "?l = ?r")
    proof -
      have "?l = take (m - length ys) (take m (concat (map f (take m xs))))" by (simp add: min_def)
      also have "\<dots> = take (m - length ys) (take m (concat (map f xs)))" by (simp only: Cons.IH)
      finally show ?thesis by (simp add: min_def)
    qed
    then show ?thesis by (simp add: Suc f)
  qed simp
qed simp

text \<open>Lemma: an answer lists the rows of the alerts that cscli printed, in order, up to the
  limit; cutting the alerts before their decisions are expanded loses none of them.\<close>

theorem crowdsec_rows_exact:
  "case parse_alerts cl raw (Suc n) of
     Inl e \<Rightarrow> True
   | Inr vs \<Rightarrow> \<exists>j. cl_json cl (if trim raw = [] then ''[]'' else raw) = Some j \<and>
       map_alerts vs (Suc n) = take (Suc n) (concat (map alert_rows (listed_alerts j)))"
proof (cases "cl_json cl (if trim raw = [] then ''[]'' else raw)")
  case (Some j)
  have "map_alerts (take (Suc n) (listed_alerts j)) (Suc n) = take (Suc n) (concat (map alert_rows (listed_alerts j)))"
    unfolding map_alerts_def
    using map_alerts_from_take [of "[]" "Suc n"] take_concat_take [OF alert_rows_nonempty] by simp
  then show ?thesis unfolding parse_alerts_def Some by simp
qed (simp add: parse_alerts_def)

subsection \<open>The shape of the answer\<close>

text \<open>A character takes as much of a text as of any beginning of it that has the character.\<close>

lemma utf8_head_cut: "fst (utf8_head (take (fst (utf8_head s) + m) s)) = fst (utf8_head s)"
proof (cases s)
  case (Cons b0 bs)
  then show ?thesis
    by (cases bs; cases "tl bs"; cases "tl (tl bs)") (auto simp: take_Cons' split: nat.splits)
qed simp

lemma utf8_chars_cut: "\<exists>m. concat (take k (utf8_chars s)) = take m s \<and> length (utf8_chars (take m s)) \<le> k"
proof (induction k arbitrary: s)
  case 0
  show ?case by (rule exI [of _ 0]) (simp add: utf8_chars.simps)
next
  case (Suc k)
  show ?case
  proof (cases "s = []")
    case False
    define n where "n = fst (utf8_head s)"
    obtain m where m: "concat (take k (utf8_chars (drop n s))) = take m (drop n s)"
      "length (utf8_chars (take m (drop n s))) \<le> k" using Suc.IH by blast
    have c: "utf8_chars s = take n s # utf8_chars (drop n s)"
      using False by (subst utf8_chars.simps) (simp add: n_def)
    have t: "take (n + m) s = take n s @ take m (drop n s)" by (rule take_add)
    have "0 < n" using utf8_head_pos [OF False] by (simp add: n_def)
    then have "take (n + m) s \<noteq> []" using False by simp
    then have "utf8_chars (take (n + m) s) = take n (take (n + m) s) # utf8_chars (drop n (take (n + m) s))"
      using utf8_head_cut [of s m] by (subst utf8_chars.simps) (simp add: n_def)
    then have "length (utf8_chars (take (n + m) s)) \<le> Suc k" using m(2) by (simp add: drop_take)
    then show ?thesis using m(1) t by (intro exI [of _ "n + m"]) (simp add: c)
  qed (simp add: utf8_chars.simps)
qed

text \<open>At most 512 characters, and what a text is cut to is a beginning of it.\<close>

definition short_text :: "string \<Rightarrow> bool" where "short_text s \<longleftrightarrow> length (utf8_chars s) \<le> 512"

lemma alert_text_short [simp]: "short_text (alert_text v ns)"
  unfolding alert_text_def short_text_def using utf8_chars_cut [of 512 "find_text v ns"] by auto

lemma first_text_short [simp]: "short_text a \<Longrightarrow> short_text b \<Longrightarrow> short_text (first_text a b)"
  by (simp add: first_text_def)

lemma short_nil [simp]: "short_text []"
  by (simp add: short_text_def utf8_chars.simps)

definition alert_ok :: "crowdsec_alert \<Rightarrow> bool" where
  "alert_ok a \<longleftrightarrow>
     list_all (\<lambda>f. short_text (f a))
       [ca_id, ca_created_at, ca_scenario, ca_message, ca_source_scope, ca_source_value, ca_source_ip,
        ca_source_country, ca_source_as_name, ca_decision_type, ca_decision_duration]"

lemma map_alert_ok: "alert_ok (map_alert v d)"
  by (simp add: alert_ok_def map_alert_def Let_def)

text \<open>
  The number of alerts that is configured: the environment variable if it holds a number,
  the setting of the node otherwise; never less than one or more than 500.
\<close>

definition alert_limit :: "environment \<Rightarrow> daemon_config \<Rightarrow> nat" where
  "alert_limit env config = max 1 (min 500
     (case env ''AGAPORNIS_CROWDSEC_MAX_ALERTS'' of
        None \<Rightarrow> max_alerts (crowd_sec_telemetry config)
      | Some t \<Rightarrow> (case parse_unsigned usize_max t of
          None \<Rightarrow> max_alerts (crowd_sec_telemetry config) | Some n \<Rightarrow> n)))"

lemma crowdsec_maximum_limit: "crowdsec_maximum env config = alert_limit env config"
  by (auto simp: crowdsec_maximum_def alert_limit_def clamp_def split: option.split)

lemma alert_limit_pos: "1 \<le> alert_limit env config"
  by (simp add: alert_limit_def)

text \<open>Running one of the candidates with the limit, without input or an environment of its own.\<close>

definition alerts_query :: "string list \<Rightarrow> nat \<Rightarrow> request \<Rightarrow> bool" where
  "alerts_query cs n r \<longleftrightarrow>
     (\<exists>c \<in> set cs. r = Spawn [c, ''alerts'', ''list'', ''-o'', ''json'', ''-a'', ''--limit'', int_to_string (int n)] [] [])"

text \<open>The text is what the last run, of one of the candidates, printed, and the run succeeded.\<close>

definition printed_by :: "crowdsec_lib \<Rightarrow> nat \<Rightarrow> string list \<Rightarrow> string \<Rightarrow> world \<Rightarrow> bool" where
  "printed_by cl n cs t w \<longleftrightarrow>
     (\<exists>c v p. c \<in> set cs \<and> run_cscli cl n c v = (Ok p, w) \<and> proc_success p \<and> t = from_utf8_lossy (proc_stdout p))"

lemma printed_by_more: "printed_by cl n cs t w \<Longrightarrow> printed_by cl n (c # cs) t w"
  unfolding printed_by_def by auto

lemma read_candidates_asks:
  "\<exists>rs. w_requests (snd (read_candidates cl n k cs e w)) = w_requests w @ rs \<and>
    list_all (alerts_query cs n) rs \<and> length rs \<le> length cs"
proof (induction cs arbitrary: k e w)
  case (Cons c cs)
  let ?r = "Spawn (c # cscli_arguments n) [] []"
  obtain r w' where s: "run_cscli cl n c w = (r, w')" by (metis surj_pair)
  have w': "w_requests w' = w_requests w @ [?r]" using spawn_requests s by (metis snd_conv run_cscli_def)
  have q: "alerts_query (c # cs) n ?r" by (simp add: alerts_query_def cscli_arguments_def)
  have mono: "list_all (alerts_query cs n) rs \<Longrightarrow> list_all (alerts_query (c # cs) n) rs" for rs
    by (erule list.pred_mono_strong) (auto simp: alerts_query_def)
  have more: "\<exists>rs. w_requests (snd (read_candidates cl n k' cs e' w')) = w_requests w @ rs \<and>
      list_all (alerts_query (c # cs) n) rs \<and> length rs \<le> length (c # cs)" for k' e'
  proof -
    obtain rs where "w_requests (snd (read_candidates cl n k' cs e' w')) = w_requests w' @ rs"
      "list_all (alerts_query cs n) rs" "length rs \<le> length cs" using Cons.IH by blast
    with w' q mono show ?thesis by (intro exI [of _ "?r # rs"]) simp
  qed
  have none: "\<exists>rs. w_requests w' = w_requests w @ rs \<and> list_all (alerts_query (c # cs) n) rs \<and> length rs \<le> length (c # cs)"
    using w' q by (intro exI [of _ "[?r]"]) simp
  show ?case
    using more none by (cases r) (auto simp: s split: sum.split)
qed simp

lemma read_candidates_printed:
  "read_candidates cl n k cs e w = (Some (Ok t), w') \<Longrightarrow> printed_by cl n cs t w'"
proof (induction cl n k cs e w rule: read_candidates.induct)
  case (2 cl n k c cs e w)
  obtain r v where s: "run_cscli cl n c w = (r, v)" by (metis surj_pair)
  show ?case
  proof (cases r)
    case (Inl x)
    then show ?thesis using 2 s printed_by_more by simp
  next
    case (Inr p)
    show ?thesis
    proof (cases "candidate_result c p")
      case (Inl x)
      then show ?thesis using 2 s \<open>r = Ok p\<close> printed_by_more by (auto split: if_splits)
    next
      case (Inr u)
      then show ?thesis
        using 2(3) s \<open>r = Ok p\<close>
        by (auto simp: printed_by_def candidate_result_def split: if_splits intro!: exI [of _ c] exI [of _ w] exI [of _ p])
    qed
  qed
qed simp

definition crowdsec_status :: "string list" where
  "crowdsec_status = [''disabled'', ''unsupported'', ''unavailable'', ''active'']"

text \<open>
  The alerts of an answer, which the node has at the end: up to the limit, all of them short, and,
  in order, those of the JSON that the last run of cscli printed; without such a run there are none.
\<close>

definition alerts_from_cscli :: "crowdsec_lib \<Rightarrow> nat \<Rightarrow> string list \<Rightarrow> crowdsec_response \<Rightarrow> world \<Rightarrow> bool" where
  "alerts_from_cscli cl n cs r w \<longleftrightarrow>
     (if cr_status r = ''active''
      then cr_error_message r = [] \<and>
        (\<exists>t j. printed_by cl n cs t w \<and> cl_json cl (if trim t = [] then ''[]'' else t) = Some j \<and>
           cr_alerts r = take n (concat (map alert_rows (listed_alerts j))))
      else cr_status r \<in> set crowdsec_status \<and> cr_alerts r = [])"

lemma alert_rows_ok: "list_all alert_ok (take n (concat (map alert_rows vs)))"
  by (auto simp: list_all_iff alert_rows_def map_alert_ok dest!: in_set_takeD split: if_splits)

lemma parse_alerts_rows:
  assumes "1 \<le> n" "parse_alerts cl t n = Ok vs"
  obtains j where "cl_json cl (if trim t = [] then ''[]'' else t) = Some j"
    "map_alerts vs n = take n (concat (map alert_rows (listed_alerts j)))"
proof -
  obtain m where n: "n = Suc m" using assms(1) by (cases n) auto
  show thesis using crowdsec_rows_exact [of cl t m] assms(2) that by (auto simp: n)
qed

lemma cscli_candidates_length: "length (cscli_candidates cli) \<le> 4"
  by (simp add: cscli_candidates_def Let_def)

lemma crowdsec_asked:
  assumes "crowdsec_enabled (cl_env cl) config" "cl_linux cl"
    "read_alerts cl (crowdsec_cli (cl_env cl) config) (alert_limit (cl_env cl) config) w = (raw, w')"
  shows "snd (crowdsec cl config w) = w' \<and>
    alerts_from_cscli cl (alert_limit (cl_env cl) config) (cscli_candidates (crowdsec_cli (cl_env cl) config))
      (fst (crowdsec cl config w)) w'"
proof -
  let ?n = "alert_limit (cl_env cl) config" and ?cs = "cscli_candidates (crowdsec_cli (cl_env cl) config)"
  have bad: "alerts_from_cscli cl n cs (crowdsec_answer cl a b ''unavailable'' m v) v'" for n cs a b m v v'
    by (simp add: alerts_from_cscli_def crowdsec_answer_def crowdsec_status_def)
  have good: "alerts_from_cscli cl ?n ?cs ((crowdsec_answer cl True True ''active'' [] w')\<lparr> cr_alerts := map_alerts vs ?n \<rparr>) w'"
    if t: "raw = Some (Ok t)" and p: "parse_alerts cl t ?n = Ok vs" for t vs
  proof -
    have "printed_by cl ?n ?cs t w'"
      using assms(3) t read_candidates_printed by (simp add: read_alerts_def)
    moreover obtain j where "cl_json cl (if trim t = [] then ''[]'' else t) = Some j"
      "map_alerts vs ?n = take ?n (concat (map alert_rows (listed_alerts j)))"
      using parse_alerts_rows [OF alert_limit_pos p] by blast
    ultimately show ?thesis by (auto simp: alerts_from_cscli_def crowdsec_answer_def)
  qed
  show ?thesis
    using assms bad good unfolding crowdsec_def crowdsec_maximum_limit
    by (auto simp: Let_def split: option.split sum.split)
qed

text \<open>C33: an enabled node on Linux asks the candidates for cscli in turn, once each, for exactly the
  configured number of alerts and asks nothing else; any other node asks nothing. Whatever cscli
  prints, the answer has the rows of its alerts in order, cut to the configured number, and none when
  there was an error; every text of it has at most 512 characters.\<close>

theorem crowdsec_response_ok:
  "case crowdsec cl config w of (r, w') \<Rightarrow>
     let n = alert_limit (cl_env cl) config; cs = cscli_candidates (crowdsec_cli (cl_env cl) config) in
     alerts_from_cscli cl n cs r w' \<and> length (cr_alerts r) \<le> n \<and> list_all alert_ok (cr_alerts r) \<and>
     (if crowdsec_enabled (cl_env cl) config \<and> cl_linux cl
      then \<exists>rs. w_requests w' = w_requests w @ rs \<and> list_all (alerts_query cs n) rs \<and> length rs \<le> length cs
      else w' = w \<and> cr_status r = (if crowdsec_enabled (cl_env cl) config then ''unsupported'' else ''disabled''))"
proof -
  let ?n = "alert_limit (cl_env cl) config" and ?cs = "cscli_candidates (crowdsec_cli (cl_env cl) config)"
  obtain r w' where c: "crowdsec cl config w = (r, w')" by (metis surj_pair)
  have from_cscli: "alerts_from_cscli cl ?n ?cs r v \<Longrightarrow> length (cr_alerts r) \<le> ?n \<and> list_all alert_ok (cr_alerts r)" for v
    using alert_rows_ok by (auto simp: alerts_from_cscli_def split: if_splits)
  show ?thesis
  proof (cases "crowdsec_enabled (cl_env cl) config \<and> cl_linux cl")
    case True
    obtain raw v where v: "read_alerts cl (crowdsec_cli (cl_env cl) config) ?n w = (raw, v)" by (metis surj_pair)
    have "w' = v" "alerts_from_cscli cl ?n ?cs r w'" using crowdsec_asked [of cl config w raw v] True v c by auto
    moreover have "\<exists>rs. w_requests v = w_requests w @ rs \<and> list_all (alerts_query ?cs ?n) rs \<and> length rs \<le> length ?cs"
      using read_candidates_asks [of cl ?n "cl_runs cl" ?cs "Bail ''cscli path is empty''" w] v
      by (simp add: read_alerts_def)
    ultimately show ?thesis using True from_cscli c by (simp add: Let_def)
  next
    case False
    then have "w' = w \<and> cr_status r = (if crowdsec_enabled (cl_env cl) config then ''unsupported'' else ''disabled'') \<and> cr_alerts r = []"
      using c by (auto simp: crowdsec_def crowdsec_answer_def split: if_splits)
    then have "w' = w" "cr_status r = (if crowdsec_enabled (cl_env cl) config then ''unsupported'' else ''disabled'')"
      "cr_alerts r = []" by simp_all
    then show ?thesis using False c by (auto simp: alerts_from_cscli_def crowdsec_status_def Let_def)
  qed
qed

text \<open>One alert is configured and cscli prints two: the first is answered.\<close>

definition two_alerts :: crowdsec_lib where
  "two_alerts =
     \<lparr> cl_host = \<lparr> h_spawn = (\<lambda>_ _ t. (Inr \<lparr> exit_code = Some 0, proc_stdout = ''two'', proc_stderr = [] \<rparr>, t)),
                   h_exec = (\<lambda>_ _ _ t. (Ok [], t)), h_api = (\<lambda>_ _ t. (Inr (), t)),
                   h_inspect = (\<lambda>_ _. Inl (DockerOther [])) \<rparr>,
       cl_env = Map.empty, cl_linux = True, cl_runs = 1, cl_now = (\<lambda>_. ''now''),
       cl_json = [''two'' \<mapsto> JArray [JObject [(''id'', JInt 7)], JObject [(''id'', JInt 8)]]],
       cl_io_text = (\<lambda>_. []) \<rparr>"

definition fresh_world :: world where
  "fresh_world = \<lparr> w_root = Dir [], w_cwd = [], w_faults = [], w_trace = [], w_requests = [], w_objects = [] \<rparr>"

definition one_configured :: daemon_config where
  "one_configured =
     \<lparr> node_id = [], agent_cert_path = components [], agent_key_path = components [], ca_cert_path = components [],
       crowd_sec_telemetry = \<lparr> cs_enabled = True, cscli_path = ''/opt/cscli'', max_alerts = 1 \<rparr> \<rparr>"

theorem crowdsec_response_ok_witness:
  "case crowdsec two_alerts one_configured fresh_world of (r, w') \<Rightarrow>
     cr_status r = ''active'' \<and> map ca_id (cr_alerts r) = [''7''] \<and>
     alerts_from_cscli two_alerts 1 [''/opt/cscli''] r w' \<and>
     (\<exists>q. w_requests w' = [q] \<and> alerts_query [''/opt/cscli''] 1 q)"
proof -
  let ?w = "fresh_world"
  have n: "alert_limit (cl_env two_alerts) one_configured = 1"
    by (simp add: alert_limit_def two_alerts_def one_configured_def)
  have c: "cscli_candidates (crowdsec_cli (cl_env two_alerts) one_configured) = [''/opt/cscli'']"
    by code_simp
  have on: "crowdsec_enabled (cl_env two_alerts) one_configured" "cl_linux two_alerts"
    by (simp_all add: crowdsec_enabled_def two_alerts_def one_configured_def)
  have v: "cr_status (fst (crowdsec two_alerts one_configured ?w)) = ''active'' \<and>
      map ca_id (cr_alerts (fst (crowdsec two_alerts one_configured ?w))) = [''7''] \<and>
      length (w_requests (snd (crowdsec two_alerts one_configured ?w))) = 1"
    by code_simp
  show ?thesis
    using crowdsec_response_ok [of two_alerts one_configured ?w] v
    by (auto simp: n c on Let_def length_Suc_conv fresh_world_def split: prod.splits)
qed

subsection \<open>A node that was just set up\<close>

text \<open>What holds of a value whenever one is returned.\<close>

definition gives :: "('a \<Rightarrow> bool) \<Rightarrow> 'a io \<Rightarrow> bool" where
  "gives P m \<longleftrightarrow> (\<forall>w. case m w of (Inl e, _) \<Rightarrow> True | (Inr x, _) \<Rightarrow> P x)"

lemma gives_bind: "(\<And>x. gives P (f x)) \<Longrightarrow> gives P (io_bind m f)"
  unfolding gives_def io_bind_def by (auto split: prod.split sum.split) (metis (no_types, lifting) old.sum.simps(6) split_conv)

lemma gives_simple: "gives P (io_fail e)" "gives P (io_return x) \<longleftrightarrow> P x"
  by (simp_all add: gives_def io_fail_def io_return_def)

lemma gives_prod: "(\<And>x y. gives P (f x y)) \<Longrightarrow> gives P (case p of (x, y) \<Rightarrow> f x y)"
  by (cases p) simp

lemma gives_if: "(b \<Longrightarrow> gives P m) \<Longrightarrow> (\<not> b \<Longrightarrow> gives P n) \<Longrightarrow> gives P (if b then m else n)"
  by simp

lemma setup_crowd_sec: "gives (\<lambda>config. crowd_sec_telemetry config = crowd_sec_derived_default) (setup_config provision enc input)"
  unfolding setup_config_def Let_def
  by (intro gives_bind gives_prod gives_if gives_simple)
    (simp add: gives_def io_bind_def io_return_def split: prod.split sum.split)

text \<open>Lemma: when telemetry is switched on by the environment on a node that was just set up, and
  no path is given there, cscli is never run and the answer is an error.\<close>

theorem fresh_setup_finds_no_cscli:
  "case setup_config provision enc input w of
     (Inl e, _) \<Rightarrow> True
   | (Inr config, w') \<Rightarrow>
       crowdsec (cl\<lparr> cl_linux := True, cl_env := [''AGAPORNIS_CROWDSEC_ENABLED'' \<mapsto> ''true''] \<rparr>) config w' =
         (crowdsec_answer cl True True ''unavailable'' ''cscli path is empty'' w', w')"
proof -
  let ?cl = "cl\<lparr> cl_linux := True, cl_env := [''AGAPORNIS_CROWDSEC_ENABLED'' \<mapsto> ''true''] \<rparr>"
  have "crowdsec ?cl config w' = (crowdsec_answer cl True True ''unavailable'' ''cscli path is empty'' w', w')"
    if c: "crowd_sec_telemetry config = crowd_sec_derived_default" for config w'
  proof -
    have e: "crowdsec_enabled (cl_env ?cl) config" by (simp add: crowdsec_enabled_def parse_bool_def)
    have "trim [] = []" by code_simp
    then have p: "cscli_candidates (crowdsec_cli (cl_env ?cl) config) = []"
      by (simp add: crowdsec_cli_def cscli_candidates_def c crowd_sec_derived_default_def)
    show ?thesis
      unfolding crowdsec_def read_alerts_def p using e by (simp add: Let_def crowdsec_answer_def)
  qed
  then show ?thesis using setup_crowd_sec [of provision enc input] by (auto simp: gives_def split: prod.splits sum.splits)
qed

end
