(* ===== verification/Services.thy ===== *)
theory Services
  imports System Console_Machine Provisioning_Safety Metrics Database Node Crowdsec Update
begin

text \<open>
  @grpc/services/server.rs@ and @responses.rs@: the calls of the server management service, each
  over the hub, the Docker manager and the node, with its answer.  Messages are those of
  @proto/server.proto@.
\<close>

subsection \<open>Answers\<close>

text \<open>A call fails with a code and a message.\<close>

type_synonym grpc_status = "status_code \<times> string"
type_synonym ('s, 'a) call = "'s \<Rightarrow> (grpc_status + 'a) \<times> 's"
type_synonym 'a handler = "(system, 'a) call"

record server_action_response =
  sa_success :: bool
  sa_error_message :: string
  sa_image :: string
  sa_previous_image_id :: string
  sa_image_id :: string
  sa_image_changed :: bool

definition failure :: "string \<Rightarrow> server_action_response" where
  "failure message = \<lparr> sa_success = False, sa_error_message = message, sa_image = [], sa_previous_image_id = [],
     sa_image_id = [], sa_image_changed = False \<rparr>"

definition action :: "(error \<Rightarrow> string) \<Rightarrow> unit res \<Rightarrow> server_action_response" where
  "action to_string r = (case r of Inr _ \<Rightarrow> (failure [])\<lparr> sa_success := True \<rparr> | Inl e \<Rightarrow> failure (to_string e))"

text \<open>Success and an error message, as the file and backup services answer.\<close>

definition action_result :: "(error \<Rightarrow> string) \<Rightarrow> unit res \<Rightarrow> bool \<times> string" where
  "action_result to_string r = (case r of Inr _ \<Rightarrow> (True, []) | Inl e \<Rightarrow> (False, to_string e))"

definition internal :: "string \<Rightarrow> grpc_status" where "internal message = (Internal, message)"

definition storage_name :: "string \<Rightarrow> string" where
  "storage_name s = (if eq_ignore_ascii_case s ''s3'' then ''s3'' else ''local'')"

definition usize_to_i32 :: "nat \<Rightarrow> int" where "usize_to_i32 n = int (min n 2147483647)"

subsection \<open>Parameters\<close>

text \<open>
  The parameters of the components, random names, the telemetry as it is, the identity of
  the running agent, and of the update and certificate managers: the executable and the
  version of the build, SHA-256, hexadecimal, downloads, systemctl, and X.509.
\<close>

record service_lib =
  sv_provision :: provision_lib
  sv_metrics :: metrics_lib
  sv_probe :: probe_lib
  sv_packages :: package_lib
  sv_crowdsec :: crowdsec_lib
  sv_config :: daemon_config
  sv_uuid :: "nat \<Rightarrow> string"
  sv_io_text :: "io_kind \<Rightarrow> string"
  sv_telemetry :: telemetry
  sv_instance :: string
  sv_exe :: path
  sv_version :: string
  sv_platform :: string
  sv_sha256 :: "string \<Rightarrow> string"
  sv_hex_decode :: "string \<Rightarrow> string res"
  sv_fetch :: "string \<Rightarrow> http_response res"
  sv_systemctl :: "string \<Rightarrow> (bool \<times> string) res"
  sv_x509 :: x509_lib
  sv_time :: int

definition sv_docker :: "service_lib \<Rightarrow> docker_lib" where "sv_docker sv = pl_docker (sv_provision sv)"

definition to_text :: "service_lib \<Rightarrow> error \<Rightarrow> string" where "to_text sv = error_display (sv_io_text sv)"

definition on_node :: "'a io \<Rightarrow> 'a sys" where "on_node m = on_agent (on_world m)"

text \<open>An answer made of the result of a call, and a call whose error ends the handler.\<close>

definition answer :: "('s, 'a) act \<Rightarrow> ('a res \<Rightarrow> 'b) \<Rightarrow> ('s, 'b) call" where
  "answer m f s = (case m s of (r, s') \<Rightarrow> (Inr (f r), s'))"

definition attempt_call :: "(error \<Rightarrow> grpc_status) \<Rightarrow> ('s, 'a) act \<Rightarrow> ('a \<Rightarrow> ('s, 'b) call) \<Rightarrow> ('s, 'b) call" where
  "attempt_call to_status m f s =
     (case m s of (Inl e, s') \<Rightarrow> (Inl (to_status e), s') | (Inr x, s') \<Rightarrow> f x s')"

text \<open>@if result.is_ok() { let _ = ... }@: a call of the hub after a success.\<close>

definition after_success :: "'a sys \<Rightarrow> unit sys \<Rightarrow> 'a sys" where
  "after_success m n = io_bind m (\<lambda>x. io_bind (io_ignore n) (\<lambda>_. io_return x))"

definition hub_unit :: "(hub \<Rightarrow> hub \<times> unit res) \<Rightarrow> unit sys" where "hub_unit f = on_hub f"

subsection \<open>Creating a server\<close>

record create_server_request =
  rq_server_id :: string
  rq_docker_image :: string
  rq_internal_port :: string
  rq_env_vars :: "string list"
  rq_memory_bytes :: int
  rq_cpu_limit_percentage :: int
  rq_cpu_cores :: string
  rq_disk_limit_bytes :: int
  rq_cpu_pinning :: bool
  rq_cpu_pinned_threads :: string
  rq_swap_memory_bytes :: int
  rq_swap_memory_storage :: string
  rq_startup_command :: string
  rq_stop_command :: string
  rq_startup_done :: string
  rq_install_image :: string
  rq_install_entrypoint :: string
  rq_install_script :: string
  rq_config_files_json :: string
  rq_host_port :: int
  rq_network_owner_id :: string
  rq_expose_public_port :: bool
  rq_port_mappings :: "(string \<times> string \<times> int) list"

text \<open>A port mapping of a request also names a variable, which is dropped.\<close>

definition mapped_ports :: "(string \<times> string \<times> int) list \<Rightarrow> (string \<times> int) list" where
  "mapped_ports ms = map (\<lambda>(variable, internal_port, host_port). (internal_port, host_port)) ms"

definition create_spec_of :: "create_server_request \<Rightarrow> string \<times> create_spec" where
  "create_spec_of r =
     (rq_server_id r,
      \<lparr> cs_server_id = rq_server_id r, cs_image = rq_docker_image r, cs_internal_port = rq_internal_port r,
        cs_env = rq_env_vars r, cs_memory_bytes = rq_memory_bytes r,
        cs_cpu_limit_percentage = rq_cpu_limit_percentage r, cs_cpu_cores = rq_cpu_cores r,
        cs_disk_limit_bytes = rq_disk_limit_bytes r, cs_cpu_pinning = rq_cpu_pinning r,
        cs_cpu_pinned_threads = rq_cpu_pinned_threads r, cs_swap_memory_bytes = rq_swap_memory_bytes r,
        cs_swap_memory_storage = rq_swap_memory_storage r, cs_startup_command = rq_startup_command r,
        cs_stop_command = rq_stop_command r, cs_startup_done = rq_startup_done r,
        cs_install_image = rq_install_image r, cs_install_entrypoint = rq_install_entrypoint r,
        cs_install_script = rq_install_script r, cs_config_files_json = rq_config_files_json r,
        cs_host_port = rq_host_port r, cs_network_owner_id = rq_network_owner_id r,
        cs_expose_public_port = rq_expose_public_port r, cs_port_mappings = mapped_ports (rq_port_mappings r) \<rparr>)"

definition create_server_call :: "service_lib \<Rightarrow> create_server_request \<Rightarrow> (bool \<times> int \<times> string) handler" where
  "create_server_call sv r =
     (case create_spec_of r of
        (sid, spec) \<Rightarrow>
          answer (after_success (on_agent (create_server (sv_provision sv) spec)) (hub_unit (track_server sid)))
            (\<lambda>x. case x of Inr port \<Rightarrow> (True, port, []) | Inl e \<Rightarrow> (False, 0, to_text sv e)))"

record create_server_progress =
  cp_phase :: string
  cp_progress :: int
  cp_message :: string
  cp_complete :: bool
  cp_success :: bool
  cp_assigned_host_port :: int
  cp_error_message :: string

definition progress_message :: "string \<times> int \<times> string \<Rightarrow> create_server_progress" where
  "progress_message p =
     (case p of (phase, percent, message) \<Rightarrow>
        \<lparr> cp_phase = phase, cp_progress = percent, cp_message = message, cp_complete = False, cp_success = False,
          cp_assigned_host_port = 0, cp_error_message = [] \<rparr>)"

definition final_message :: "service_lib \<Rightarrow> int res \<Rightarrow> create_server_progress" where
  "final_message sv r =
     (case r of
        Inr port \<Rightarrow>
          \<lparr> cp_phase = ''complete'', cp_progress = 100, cp_message = ''Server container is ready'', cp_complete = True,
            cp_success = True, cp_assigned_host_port = port, cp_error_message = [] \<rparr>
      | Inl e \<Rightarrow>
          \<lparr> cp_phase = ''failed'', cp_progress = 100, cp_message = ''Server provisioning failed'', cp_complete = True,
            cp_success = False, cp_assigned_host_port = 0, cp_error_message = to_text sv e \<rparr>)"

text \<open>The messages of the stream, in order; the channel is unbounded and the task ends after the last.\<close>

definition create_server_stream :: "service_lib \<Rightarrow> create_server_request \<Rightarrow> create_server_progress list handler" where
  "create_server_stream sv r s =
     (case create_spec_of r of
        (sid, spec) \<Rightarrow>
          (case create_with_progress (sv_provision sv) spec \<lparr> pv_agent = sy_agent s, pv_reports = [] \<rparr> of
             (result, p) \<Rightarrow>
               let s1 = s\<lparr> sy_agent := pv_agent p \<rparr>;
                   s2 = (case result of Inr port \<Rightarrow> snd (hub_unit (track_server sid) s1) | Inl e \<Rightarrow> s1)
               in (Inr (map progress_message (pv_reports p) @ [final_message sv result]), s2)))"

subsection \<open>Actions on a server\<close>

definition start_server_call :: "service_lib \<Rightarrow> string \<Rightarrow> server_action_response handler" where
  "start_server_call sv sid =
     answer (after_success (on_agent (start_server (sv_docker sv) (sv_uuid sv 0) (sv_uuid sv 1) sid))
       (hub_unit (refresh_server sid))) (action (to_text sv))"

definition stop_server_call :: "service_lib \<Rightarrow> string \<Rightarrow> bool \<Rightarrow> server_action_response handler" where
  "stop_server_call sv sid force =
     answer (on_agent (if force then kill_server (sv_docker sv) sid else stop_server (sv_docker sv) sid))
       (action (to_text sv))"

definition restart_server_call :: "service_lib \<Rightarrow> string \<Rightarrow> server_action_response handler" where
  "restart_server_call sv sid =
     answer (after_success (on_agent (restart_server (sv_docker sv) (sv_uuid sv 0) (sv_uuid sv 1) sid))
       (hub_unit (refresh_server sid))) (action (to_text sv))"

definition recreate_server_call :: "service_lib \<Rightarrow> string \<Rightarrow> server_action_response handler" where
  "recreate_server_call sv sid =
     answer (after_success (on_agent (recreate_server (sv_docker sv) (sv_uuid sv 0) (sv_uuid sv 1) (sv_uuid sv 2) sid))
       (hub_unit (refresh_server sid)))
       (\<lambda>r. case r of
          Inr u \<Rightarrow> \<lparr> sa_success = True, sa_error_message = [], sa_image = cr_image u,
              sa_previous_image_id = cr_previous_image_id u, sa_image_id = cr_image_id u,
              sa_image_changed = cr_image_changed u \<rparr>
        | Inl e \<Rightarrow> failure (to_text sv e))"

definition delete_server_call :: "service_lib \<Rightarrow> string \<Rightarrow> server_action_response handler" where
  "delete_server_call sv sid =
     answer (after_success (on_agent (delete_server (sv_docker sv) sid)) (hub_call (hub_remove sid))) (action (to_text sv))"

definition update_resources_call :: "service_lib \<Rightarrow> resource_update \<Rightarrow> server_action_response handler" where
  "update_resources_call sv spec = answer (on_agent (update_resources (sv_docker sv) spec)) (action (to_text sv))"

definition update_ports_call :: "service_lib \<Rightarrow> string \<Rightarrow> (string \<times> string \<times> int) list \<Rightarrow> server_action_response handler" where
  "update_ports_call sv sid ms =
     answer (on_agent (update_ports (sv_docker sv) (sv_uuid sv 0) (sv_uuid sv 1) (sv_uuid sv 2) sid (mapped_ports ms)))
       (action (to_text sv))"

definition update_configuration_call ::
  "service_lib \<Rightarrow> string \<Rightarrow> string list \<Rightarrow> string \<Rightarrow> string \<Rightarrow> string \<Rightarrow> string \<Rightarrow> server_action_response handler" where
  "update_configuration_call sv sid env startup stop_cmd startup_done files =
     answer (on_agent (update_configuration (sv_docker sv) (sv_uuid sv 0) (sv_uuid sv 1) (sv_uuid sv 2)
       sid env startup stop_cmd startup_done files)) (action (to_text sv))"

text \<open>The command limits come before anything is asked of the engine.\<close>

definition accept_command_call :: "service_lib \<Rightarrow> string \<Rightarrow> bool sys" where
  "accept_command_call sv sid s =
     on_hub (\<lambda>h. case accept_command sid (\<lambda>_. system_now (sv_docker sv) s) (hub_protection h) of
       (p, ok) \<Rightarrow> (h\<lparr> hub_protection := p \<rparr>, Ok ok)) s"

definition send_command_call :: "service_lib \<Rightarrow> string \<Rightarrow> string \<Rightarrow> server_action_response handler" where
  "send_command_call sv sid command s =
     (case validate_id sid of
        Inl e \<Rightarrow> (Inr (failure (to_text sv e)), s)
      | Inr _ \<Rightarrow>
          if trim command = [] then (Inr (failure ''command cannot be empty''), s)
          else if length command > 4096 then (Inr (failure ''command exceeds the 4096 character limit''), s)
          else (case accept_command_call sv sid s of
             (Inr True, s') \<Rightarrow> answer (on_agent (send_command (sv_docker sv) sid command)) (action (to_text sv)) s'
           | (_, s') \<Rightarrow> (Inr (failure ''console command rate limit exceeded; retry in a few seconds''), s')))"

subsection \<open>The console\<close>

record console_message =
  cm_log_line :: string
  cm_replayed :: "bool option"
  cm_history_complete :: "bool option"

text \<open>What the broadcast receiver yields: an entry, or how many it lost.\<close>

datatype received = Entry console_entry | Lagged nat

definition replay_message :: "string \<Rightarrow> console_message" where
  "replay_message l = \<lparr> cm_log_line = l, cm_replayed = Some True, cm_history_complete = None \<rparr>"

definition history_end :: console_message where
  "history_end = \<lparr> cm_log_line = [], cm_replayed = Some True, cm_history_complete = Some True \<rparr>"

definition live_line :: "string \<Rightarrow> console_message" where
  "live_line l = \<lparr> cm_log_line = l, cm_replayed = Some False, cm_history_complete = None \<rparr>"

fun live_message :: "nat \<Rightarrow> received \<Rightarrow> console_message option" where
  "live_message replayed_through (Entry e) =
     (if live_accepts replayed_through e then Some (live_line (line e)) else None)"
| "live_message replayed_through (Lagged n) =
     Some (live_line (''[agent] console stream dropped '' @ nat_digits n @ '' lines''))"

definition console_stream :: "string list \<Rightarrow> nat \<Rightarrow> received list \<Rightarrow> console_message list" where
  "console_stream hist replayed_through rs =
     map replay_message hist @ history_end # List.map_filter (live_message replayed_through) rs"

definition history_call :: "string \<Rightarrow> (string list \<times> nat) sys" where
  "history_call sid =
     on_hub (\<lambda>h. case history_snapshot sid (hub_history h) of (c, r) \<Rightarrow> (h\<lparr> hub_history := c \<rparr>, Ok r))"

text \<open>The snapshot, the sequence it reaches and the channel of a new viewer.\<close>

definition stream_console :: "service_lib \<Rightarrow> string \<Rightarrow> (string list \<times> nat \<times> nat) handler" where
  "stream_console sv sid s =
     (let refuse = (\<lambda>code e. (code, to_text sv e)) in
      case validate_id sid of
        Inl e \<Rightarrow> (Inl (refuse InvalidArgument e), s)
      | Inr _ \<Rightarrow>
          attempt_call (refuse FailedPrecondition) (on_hub (\<lambda>h. (h, attach_requires_inspection sid h))) (\<lambda>inspect.
          attempt_call (refuse Internal) (if inspect then io_unit (on_node (dm_inspect (sv_docker sv) sid)) else io_return ()) (\<lambda>_.
          attempt_call (refuse FailedPrecondition) (on_hub (subscribe sid)) (\<lambda>channel.
          attempt_call (refuse FailedPrecondition) (history_call sid) (\<lambda>(hist, replayed_through) s'.
            (Inr (hist, replayed_through, channel), s'))))) s)"

record console_inventory_response =
  ci_success :: bool
  ci_active_reader_count :: int
  ci_accepted_count :: int
  ci_removed_count :: int
  ci_error_message :: string

definition sync_console_servers :: "service_lib \<Rightarrow> string list \<Rightarrow> console_inventory_response handler" where
  "sync_console_servers sv ids =
     answer (on_hub (\<lambda>h. case synchronize_servers ids h of (h', r, acts) \<Rightarrow> (run_actions acts h', r)))
       (\<lambda>r. case r of
          Inr c \<Rightarrow> \<lparr> ci_success = True, ci_active_reader_count = usize_to_i32 (active_reader_count c),
             ci_accepted_count = usize_to_i32 (accepted_count c), ci_removed_count = usize_to_i32 (removed_count c),
             ci_error_message = [] \<rparr>
        | Inl e \<Rightarrow> \<lparr> ci_success = False, ci_active_reader_count = 0, ci_accepted_count = 0, ci_removed_count = 0,
             ci_error_message = to_text sv e \<rparr>)"

subsection \<open>The node, metrics and databases\<close>

record node_stats_response =
  nr_stats :: node_stats
  nr_status :: string
  nr_error_message :: string
  nr_agent_instance_id :: string
  nr_console_inventory_initialized :: bool

definition no_node_stats :: node_stats where
  "no_node_stats = \<lparr> ns_cpu = 0, ns_memory_used = 0, ns_memory_total = 0, ns_disk_used = 0, ns_disk_total = 0,
     ns_uptime = 0, ns_cpus = 0 \<rparr>"

definition get_node_stats :: "service_lib \<Rightarrow> node_stats_response handler" where
  "get_node_stats sv s =
     (let response = \<lparr> nr_stats = no_node_stats, nr_status = [], nr_error_message = [],
            nr_agent_instance_id = sv_instance sv,
            nr_console_inventory_initialized = inventory_initialized (sy_hub s) \<rparr>
      in (Inr (case telemetry_snapshot (system_now (sv_docker sv) s) (sv_telemetry sv) of
            Inr stats \<Rightarrow> response\<lparr> nr_stats := stats, nr_status := ''healthy'' \<rparr>
          | Inl e \<Rightarrow> response\<lparr> nr_status := ''unhealthy'', nr_error_message := to_text sv e \<rparr>), s))"

definition get_crowd_sec_alerts :: "service_lib \<Rightarrow> crowdsec_response handler" where
  "get_crowd_sec_alerts sv s =
     (case crowdsec (sv_crowdsec sv) (sv_config sv) (ag_world (sy_agent s)) of
        (r, w') \<Rightarrow> (Inr r, s\<lparr> sy_agent := (sy_agent s)\<lparr> ag_world := w' \<rparr> \<rparr>))"

definition get_server_stats :: "service_lib \<Rightarrow> string \<Rightarrow> metrics handler" where
  "get_server_stats sv sid =
     attempt_call (\<lambda>e. internal (to_text sv e)) (on_agent (server_metrics (sv_metrics sv) sid)) (\<lambda>m s. (Inr m, s))"

definition test_database_call :: "service_lib \<Rightarrow> database_spec \<Rightarrow> (bool \<times> string \<times> int) handler" where
  "test_database_call sv spec =
     answer (on_agent (test_database_connection (sv_probe sv) spec))
       (\<lambda>r. case r of Inr latency \<Rightarrow> (True, [], latency) | Inl e \<Rightarrow> (False, to_text sv e, 0))"

subsection \<open>Updates and certificates\<close>

record update_status_response =
  us_version :: string
  us_runtime_identifier :: string
  us_executable_path :: string
  us_staging_directory :: string
  us_restart_required :: bool
  us_pending_artifact :: string

definition get_update_status :: "service_lib \<Rightarrow> update_status_response handler" where
  "get_update_status sv s =
     (case update_pending_status (sv_exe sv) (ag_world (sy_agent s)) of
        (pending, restart) \<Rightarrow>
          (Inr \<lparr> us_version = sv_version sv, us_runtime_identifier = sv_platform sv,
             us_executable_path = path_string (sv_exe sv), us_staging_directory = path_string (staging (sv_exe sv)),
             us_restart_required = restart, us_pending_artifact = pending \<rparr>, s))"

text \<open>Success, message, staged path, and whether a restart is required.\<close>

definition apply_update :: "service_lib \<Rightarrow> string \<Rightarrow> string \<Rightarrow> (bool \<times> string \<times> string \<times> bool) handler" where
  "apply_update sv url sha =
     answer (on_node (stage (sv_sha256 sv) (sv_hex_decode sv) (sv_fetch sv) (sv_uuid sv 0) (sv_uuid sv 1) (sv_exe sv) url sha))
       (\<lambda>r. case r of
          Inr v \<Rightarrow> (True, ur_message v, ur_staged v, ur_restart_required v)
        | Inl e \<Rightarrow> (False, to_text sv e, [], False))"

definition restart_for_update :: "service_lib \<Rightarrow> (bool \<times> string) handler" where
  "restart_for_update sv =
     answer (on_node (restart_pending (dl_env (sv_docker sv)) (sv_systemctl sv) (sv_exe sv)))
       (\<lambda>r. case r of Inr (v, service) \<Rightarrow> (True, ur_message v) | Inl e \<Rightarrow> (False, to_text sv e))"

record linux_update_response =
  lu_success :: bool
  lu_message :: string
  lu_packages :: "package_upgrade list"
  lu_reboot_required :: bool
  lu_distribution :: string
  lu_manager :: string
  lu_preview_command :: string
  lu_apply_command :: string

definition linux_update_response_of :: "service_lib \<Rightarrow> Packages.update_result res \<Rightarrow> linux_update_response" where
  "linux_update_response_of sv r =
     (case r of
        Inr u \<Rightarrow>
          \<lparr> lu_success = True, lu_message = Packages.ur_message u, lu_packages = ur_packages u,
            lu_reboot_required = ur_reboot_required u, lu_distribution = ur_distribution u, lu_manager = ur_manager u,
            lu_preview_command = ur_preview_command u, lu_apply_command = ur_apply_command u \<rparr>
      | Inl e \<Rightarrow>
          \<lparr> lu_success = False, lu_message = to_text sv e, lu_packages = [], lu_reboot_required = False,
            lu_distribution = [], lu_manager = [], lu_preview_command = [], lu_apply_command = [] \<rparr>)"

definition preview_linux_updates :: "service_lib \<Rightarrow> linux_update_response handler" where
  "preview_linux_updates sv = answer (on_node (updater_preview (sv_packages sv))) (linux_update_response_of sv)"

definition apply_linux_updates :: "service_lib \<Rightarrow> linux_update_response handler" where
  "apply_linux_updates sv = answer (on_node (updater_apply (sv_packages sv))) (linux_update_response_of sv)"

text \<open>Success, fingerprint and error message.\<close>

definition certificate_answer :: "service_lib \<Rightarrow> string res \<Rightarrow> bool \<times> string \<times> string" where
  "certificate_answer sv r = (case r of Inr fp \<Rightarrow> (True, fp, []) | Inl e \<Rightarrow> (False, [], to_text sv e))"

definition install_certificate ::
  "service_lib \<Rightarrow> string \<Rightarrow> string \<Rightarrow> string \<Rightarrow> string \<Rightarrow> (bool \<times> string \<times> string) handler" where
  "install_certificate sv cert key ca expected =
     answer (on_node (install (sv_x509 sv) (dl_env (sv_docker sv)) (sv_time sv) (sv_config sv) cert key ca expected))
       (certificate_answer sv)"

definition rollback_certificate :: "service_lib \<Rightarrow> (bool \<times> string \<times> string) handler" where
  "rollback_certificate sv =
     answer (on_node (rollback_bundle (sv_x509 sv) (dl_env (sv_docker sv)) (sv_time sv) (sv_config sv)))
       (certificate_answer sv)"

end
