(* ===== verification/Services_Safety.thy ===== *)
theory Services_Safety
  imports Services
begin

text \<open>
  What the server management service promises across its components: the stream of a creation,
  the console of a deleted server, and what a viewer sees.
\<close>

subsection \<open>The stream of a creation\<close>

lemma creation_valid: "create_with_progress pl spec s = (Ok port, s') \<Longrightarrow> validate_id (cs_server_id spec) = Ok ()"
  unfolding create_with_progress_def
  by (cases "validate_id (cs_server_id spec)") (auto simp: io_fail_def io_lift_def elim!: io_bind_cases)

lemma track_server_desired: "validate_id sid = Ok () \<Longrightarrow> sid \<in> set (desired (fst (track_server sid h)))"
  by (simp add: track_server_def Let_def)

lemma on_hub_sel: "f ((sy_hub s)\<lparr> hub_protection := ag_protection (sy_agent s) \<rparr>) = (h, r) \<Longrightarrow>
    sy_hub (snd (on_hub f s)) = h \<and> fst (on_hub f s) = r"
  by (simp add: on_hub_def)

lemma tracked: "validate_id sid = Ok () \<Longrightarrow> sid \<in> set (desired (sy_hub (snd (hub_unit (track_server sid) s))))"
  unfolding hub_unit_def
  using on_hub_sel [of "track_server sid" s] track_server_desired by (metis surj_pair fst_conv)

text \<open>C34: the stream of a creation ends with exactly one completed message, at 100 per cent,
  after messages between 5 and 95 that never go back; a server that was created is in the
  console's inventory by then, and after a failure the inventory is as it was.\<close>

theorem creation_stream_ends_once:
  "case create_server_stream sv rq s of
     (Inl e, _) \<Rightarrow> False
   | (Inr ms, s') \<Rightarrow>
       \<exists>ps f. ms = ps @ [f] \<and> cp_complete f \<and> cp_progress f = 100 \<and> sorted (map cp_progress ms) \<and>
         list_all (\<lambda>p. \<not> cp_complete p \<and> 5 \<le> cp_progress p \<and> cp_progress p \<le> 95) ps \<and>
         (if cp_success f then rq_server_id rq \<in> set (desired (sy_hub s')) else sy_hub s' = sy_hub s)"
proof -
  define spec where "spec = snd (create_spec_of rq)"
  have c: "create_spec_of rq = (rq_server_id rq, spec)" "cs_server_id spec = rq_server_id rq"
    by (simp_all add: spec_def create_spec_of_def)
  obtain r p where p: "create_with_progress (sv_provision sv) spec \<lparr> pv_agent = sy_agent s, pv_reports = [] \<rparr> = (r, p)"
    by (metis surj_pair)
  let ?ps = "map progress_message (pv_reports p)"
  have m: "map cp_progress ?ps = percents (pv_reports p)"
    by (auto simp: percents_def progress_message_def)
  have a: "sorted (percents (pv_reports p))" "\<forall>x \<in> set (percents (pv_reports p)). 5 \<le> x \<and> x \<le> 95"
    using progressD [OF create_with_progress_progress p] by (auto simp: advances_def)
  then have sorted: "sorted (map cp_progress (?ps @ [final_message sv r]))"
    unfolding map_append m by (force simp: sorted_append final_message_def split: sum.split)
  have before: "list_all (\<lambda>p. \<not> cp_complete p \<and> 5 \<le> cp_progress p \<and> cp_progress p \<le> 95) ?ps"
    using a(2) by (force simp: list_all_iff percents_def progress_message_def)
  have final: "cp_complete (final_message sv r)" "cp_progress (final_message sv r) = 100"
    "cp_success (final_message sv r) \<longleftrightarrow> is_ok r"
    by (auto simp: final_message_def split: sum.split)
  have valid: "validate_id (rq_server_id rq) = Ok ()" if "r = Ok port" for port
    using creation_valid [OF p [unfolded that]] c(2) by simp
  show ?thesis
  proof (cases r)
    case (Inl e)
    with sorted before final show ?thesis by (auto simp: create_server_stream_def c(1) p Let_def)
  next
    case (Inr port)
    with sorted before final tracked [OF valid] show ?thesis by (auto simp: create_server_stream_def c(1) p Let_def)
  qed
qed

subsection \<open>A deleted server\<close>

lemma map_of_alist_delete: "map_of (AList.delete k xs) k = None"
  by (simp add: delete_conv')

lemma stop_reader_gone: "map_of (readers (stop_reader sid h)) sid = None"
  by (auto simp: stop_reader_def upd_task_def map_of_alist_delete split: option.split)

text \<open>A server the hub does not serve: not assigned, no channel, no reader, and no way to attach.\<close>

definition unassigned :: "string \<Rightarrow> hub \<Rightarrow> bool" where
  "unassigned sid h \<longleftrightarrow> sid \<notin> set (desired h) \<and> (inventory_initialized h \<or> sid \<in> set (pending_removals h)) \<and>
     senders h sid = None \<and> map_of (readers h) sid = None"

definition forgotten :: "string \<Rightarrow> hub \<Rightarrow> bool" where
  "forgotten sid h \<longleftrightarrow> unassigned sid h \<and> lines_of (hub_history h) sid = []"

lemma stopped_reader_sel:
  "desired (stop_reader sid h) = desired h" "inventory_initialized (stop_reader sid h) = inventory_initialized h"
  "pending_removals (stop_reader sid h) = pending_removals h"
  by (auto simp: stop_reader_def upd_task_def split: option.split)

lemma lines_of_removed: "lines_of (history_remove sid c) sid = []"
  by (auto simp: history_remove_def lines_of_def map_of_alist_delete split: option.split)

lemma hub_remove_forgets:
  assumes "hub_remove sid h = (h', acts)"
  shows "forgotten sid (run_actions acts h')"
  using assms
  by (cases "inventory_initialized h")
    (auto simp: hub_remove_def Let_def run_actions_def forgotten_def unassigned_def stop_reader_gone stopped_reader_sel
      lines_of_removed)

text \<open>
  What can happen to the hub afterwards, in any order: its methods, the critical sections that
  methods and reader tasks perform, and the changes of tasks, viewers and the protection state.
\<close>

datatype hub_event =
    Method hub_op
  | Section hub_action
  | LinePrepared string string clock
  | TaskChanged nat "task \<Rightarrow> task"
  | HistoryViewed string
  | ReceiversLeft "nat \<Rightarrow> nat"

fun happens :: "hub_event \<Rightarrow> hub \<Rightarrow> hub" where
  "happens (Method op) h = fst (begin_op op h)"
| "happens (Section a) h = fst (exec_action a h)"
| "happens (LinePrepared sid l clk) h = fst (prepare_line sid l clk h)"
| "happens (TaskChanged tok f) h = upd_task tok f h"
| "happens (HistoryViewed sid) h = h\<lparr> hub_history := view_state sid (hub_history h) \<rparr>"
| "happens (ReceiversLeft f) h = h\<lparr> receiver_count := f \<rparr>"

lemma step_happens:
  assumes "hub_step m m'"
  shows "m_hub m' = m_hub m \<or> (\<exists>e. m_hub m' = happens e (m_hub m))"
  using assms
proof cases
  case (operation op h' acts)
  then show ?thesis by (intro disjI2 exI [of _ "Method op"]) simp
next
  case (critical a as h' todo)
  then show ?thesis by (intro disjI2 exI [of _ "Section a"]) simp
next
  case (prepare tok t ln clk h' l)
  then show ?thesis by (intro disjI2 exI [of _ "LinePrepared (t_server t) ln clk"]) simp
next
  case (push tok t l c e)
  then show ?thesis by (intro disjI2 exI [of _ "Section (PushLine (t_server t) l)"]) simp
next
  case (send tok t e)
  then show ?thesis by (intro disjI2 exI [of _ "Section (SendEntry (t_server t) e)"]) simp
next
  case (finish tok t)
  then show ?thesis by (intro disjI2 exI [of _ "TaskChanged tok (\<lambda>t. t\<lparr> t_finished := True \<rparr>)"]) simp
next
  case (park tok b)
  then show ?thesis by (intro disjI2 exI [of _ "TaskChanged tok (\<lambda>t. t\<lparr> t_parked := b, t_wake := False \<rparr>)"]) simp
next
  case (snapshot sid)
  then show ?thesis by (intro disjI2 exI [of _ "HistoryViewed sid"]) simp
next
  case (viewer_leaves ch)
  then show ?thesis
    by (intro disjI2 exI [of _ "ReceiversLeft ((receiver_count (m_hub m))(ch := receiver_count (m_hub m) ch - 1))"]) simp
qed simp_all

text \<open>The methods that creating a server, and starting, restarting or recreating one, calls.\<close>

definition assigns :: "string \<Rightarrow> hub_event \<Rightarrow> bool" where
  "assigns sid e \<longleftrightarrow> e = Method (OpTrack sid) \<or> e = Method (OpRefresh sid)"

lemma unassigned_fields:
  "desired h' = desired h \<Longrightarrow> inventory_initialized h' = inventory_initialized h \<Longrightarrow>
    pending_removals h' = pending_removals h \<Longrightarrow> senders h' = senders h \<Longrightarrow> readers h' = readers h \<Longrightarrow>
    unassigned sid h' = unassigned sid h"
  by (simp add: unassigned_def)

lemma unassigned_upd_task [simp]: "unassigned sid (upd_task tok f h) = unassigned sid h"
  by (rule unassigned_fields) simp_all

lemma unassigned_stop: "unassigned sid h \<Longrightarrow> unassigned sid (stop_reader k h)"
  by (simp add: unassigned_def)

lemma unassigned_start: "unassigned sid h \<Longrightarrow> k \<noteq> sid \<Longrightarrow> unassigned sid (start_reader_locked k ch h)"
  by (simp add: unassigned_def start_reader_locked_def Let_def update_conv')

lemma unassigned_ensure: "unassigned sid h \<Longrightarrow> k \<noteq> sid \<Longrightarrow> unassigned sid (ensure_reader_locked k ch h)"
  by (auto simp: ensure_reader_locked_def unassigned_stop unassigned_start split: option.split)

lemma unassigned_prepare: "unassigned sid (fst (prepare_line k l clk h)) = unassigned sid h"
  by (rule unassigned_fields) (auto simp: prepare_line_def Let_def split: prod.split)

lemma unassigned_record: "unassigned sid h \<Longrightarrow> k \<noteq> sid \<Longrightarrow> unassigned sid (record_addition k h)"
  by (auto simp: unassigned_def record_addition_def)

lemma unassigned_want: "unassigned sid h \<Longrightarrow> k \<noteq> sid \<Longrightarrow> unassigned sid (h\<lparr> desired := List.insert k (desired h) \<rparr>)"
  by (simp add: unassigned_def)

lemma unassigned_subscribe: "unassigned sid h \<Longrightarrow> unassigned sid (fst (subscribe k h))"
proof (cases "k = sid")
  case True
  assume "unassigned sid h"
  then show ?thesis by (auto simp: True subscribe_def validate_subscription_def unassigned_def split: sum.split)
next
  case False
  assume u: "unassigned sid h"
  obtain h1 r where v: "validate_subscription k h = (h1, r)" by (metis surj_pair)
  have u1: "unassigned sid h1"
    using v u unassigned_want [OF u False] by (auto simp: validate_subscription_def split: if_splits)
  have "unassigned sid (h1\<lparr> senders := (senders h1)(k \<mapsto> t), next_token := n, receiver_count := f \<rparr>)"
    "unassigned sid (h1\<lparr> receiver_count := f \<rparr>)" for t n f
    using u1 False by (simp_all add: unassigned_def)
  note e = this [THEN unassigned_ensure, OF False]
  show ?thesis
    unfolding subscribe_def v using u1 e by (auto simp: Let_def split: sum.split option.split)
qed

lemma unassigned_stops: "unassigned sid h \<Longrightarrow> unassigned sid (fold stop_reader ks h)"
  by (induction ks arbitrary: h) (simp_all add: unassigned_stop)

lemma unassigned_sync: "unassigned sid h \<Longrightarrow> unassigned sid (fst (synchronize_servers ids h))"
proof (cases "inventory_initialized h \<or> (\<exists>e. validate_inventory ids = Err e)")
  case True
  assume "unassigned sid h"
  then show ?thesis using True by (auto simp: synchronize_servers_def)
next
  case False
  assume u: "unassigned sid h"
  obtain d where d: "validate_inventory ids = Ok d" using False by (cases "validate_inventory ids") auto
  have p: "sid \<in> set (pending_removals h)" using u False by (simp add: unassigned_def)
  have n: "sid \<notin> set (fold removeAll (pending_removals h) xs)" for xs
    using p by (simp add: in_fold_removeAll)
  have "senders (fold stop_reader ks g) = senders g" for ks g
    by (induction ks arbitrary: g) simp_all
  moreover have "map_of (readers (fold stop_reader ks g)) sid = None" if "map_of (readers g) sid = None" for ks g
    using that by (induction ks arbitrary: g) (simp_all del: map_of_eq_None_iff)
  ultimately show ?thesis
    using u n False d by (simp add: synchronize_servers_def Let_def unassigned_def del: map_of_eq_None_iff)
qed

lemma unassigned_retire: "unassigned sid h \<Longrightarrow> unassigned sid (fst (retire_idle_reader k tok ch h))"
proof (cases "map_of (readers h) k = Some tok")
  case True
  assume u: "unassigned sid h"
  then have k: "k \<noteq> sid" using True by (auto simp: unassigned_def)
  have "unassigned sid (h\<lparr> readers := AList.delete k (readers h) \<rparr>)"
    using u by (simp add: unassigned_def delete_conv' del: map_of_eq_None_iff)
  then show ?thesis using True unassigned_start [OF _ k] by (auto simp: retire_idle_reader_def Let_def)
qed (simp add: retire_idle_reader_def)

lemma unassigned_hub_remove: "unassigned sid h \<Longrightarrow> unassigned sid (fst (hub_remove k h))"
  unfolding hub_remove_def Let_def fst_conv by (rule unassigned_stop) (auto simp: unassigned_def)

lemma unassigned_method:
  assumes "unassigned sid h" "\<not> assigns sid (Method op)"
  shows "unassigned sid (fst (begin_op op h))"
proof (cases op)
  case (OpSync ids)
  obtain h' r acts where "synchronize_servers ids h = (h', r, acts)" by (metis prod_cases3)
  then show ?thesis using OpSync unassigned_sync [OF assms(1), of ids] by simp
next
  case (OpTrack k)
  then have "k \<noteq> sid" using assms(2) by (auto simp: assigns_def)
  then show ?thesis
    using OpTrack assms(1) unassigned_want [OF unassigned_record] by (simp add: track_server_def Let_def split: sum.split)
next
  case (OpRefresh k)
  then have "k \<noteq> sid" using assms(2) by (auto simp: assigns_def)
  then have "unassigned sid ((record_addition k h)\<lparr> desired := List.insert k (desired (record_addition k h)) \<rparr>)"
    using assms(1) unassigned_want [OF unassigned_record] by blast
  then show ?thesis
    using OpRefresh assms(1) by (auto simp: refresh_server_def Let_def split: sum.split option.split)
next
  case (OpPublish k l clk)
  obtain g r where p: "prepare_line k l clk h = (g, r)" by (metis surj_pair)
  then have "unassigned sid g" using assms(1) unassigned_prepare [of sid k l clk h] by simp
  then show ?thesis using OpPublish assms(1) by (auto simp: publish_def p split: option.split)
next
  case (OpRetire tok)
  then show ?thesis using assms(1) unassigned_retire by (simp split: option.split)
qed (use assms(1) unassigned_subscribe unassigned_hub_remove in
      \<open>auto simp: detach_reader_def wake_reader_def split: option.split\<close>)

lemma unassigned_section: "unassigned sid h \<Longrightarrow> unassigned sid (fst (exec_action a h))"
proof (cases a)
  case (DropSenders ids)
  assume u: "unassigned sid h"
  have "fold (\<lambda>k m. m(k := None)) ids m sid = None" if "m sid = None" for m :: "string \<rightharpoonup> nat"
    using that by (induction ids arbitrary: m) auto
  then show ?thesis using u by (simp add: DropSenders unassigned_def)
next
  case (SendEntry k e)
  assume u: "unassigned sid h"
  then show ?thesis by (simp add: SendEntry send_entry_def unassigned_def split: option.split)
qed (auto simp: unassigned_def split: prod.split)

lemma unassigned_happens: "unassigned sid h \<Longrightarrow> \<not> assigns sid e \<Longrightarrow> unassigned sid (happens e h)"
proof (cases e)
  case (Method op)
  assume "unassigned sid h" "\<not> assigns sid e"
  then show ?thesis using unassigned_method by (simp add: Method)
qed (auto simp: unassigned_section unassigned_prepare, simp_all add: unassigned_def)

lemma unassigned_stays:
  "unassigned sid h \<Longrightarrow> unassigned sid (fold happens (filter (\<lambda>e. \<not> assigns sid e) es) h)"
  by (induction es arbitrary: h) (simp_all add: unassigned_happens)

lemma unassigned_refuses:
  assumes "unassigned sid (sy_hub s)"
  shows "case stream_console sv sid s of
     (Inl (code, message), s') \<Rightarrow> code \<in> {InvalidArgument, FailedPrecondition} \<and>
       w_requests (ag_world (sy_agent s')) = w_requests (ag_world (sy_agent s))
   | (Inr x, s') \<Rightarrow> False"
proof -
  obtain r s1 where q: "on_hub (\<lambda>h. (h, attach_requires_inspection sid h)) s = (r, s1)" by (metis surj_pair)
  have "\<exists>e. attach_requires_inspection sid ((sy_hub s)\<lparr> hub_protection := p \<rparr>) = Err e" for p
    using assms by (auto simp: attach_requires_inspection_def unassigned_def)
  with q obtain e where e: "r = Err e" by (auto simp: on_hub_def)
  have w: "ag_world (sy_agent s1) = ag_world (sy_agent s)"
    using on_hub_world [of "\<lambda>h. (h, attach_requires_inspection sid h)" s] by (simp add: q)
  show ?thesis
    using q e w by (cases "validate_id sid") (simp_all add: stream_console_def Let_def attempt_call_def)
qed


subsection \<open>What a viewer sees\<close>

text \<open>Lines stored one after another, with the entries they become.\<close>

fun push_lines :: "string \<Rightarrow> string list \<Rightarrow> history_cache \<Rightarrow> history_cache \<times> console_entry list" where
  "push_lines sid [] c = (c, [])"
| "push_lines sid (l # ls) c =
     (case history_push sid l c of (c1, e) \<Rightarrow> (case push_lines sid ls c1 of (c2, es) \<Rightarrow> (c2, e # es)))"

text \<open>A cache in which the numbering of a server goes on for @n@ lines.\<close>

definition numbering :: "string \<Rightarrow> nat \<Rightarrow> history_cache \<Rightarrow> bool" where
  "numbering sid n c \<longleftrightarrow> history_good c \<and> cache_seq_ok c \<and> next_sequence (old_history c sid) + n \<le> usize_max"

lemma numbering_step:
  assumes "numbering sid (Suc n) c" "line_fits l" "history_push sid l c = (c1, e)"
  shows "numbering sid n c1" "sequence e = next_sequence (old_history c sid) + 1" "line e = l"
    "next_sequence (old_history c1 sid) = sequence e"
    "snd (snd (history_snapshot sid c1)) = (if lines_of c1 sid = [] then 0 else sequence e)"
proof -
  have c: "cache_ok c" "within_budget c" "cache_seq_ok c" "next_sequence (old_history c sid) < usize_max"
    using assms(1) by (auto simp: numbering_def history_good_def)
  note s = history_push_spec [OF c(1,2) assms(2,3)] and q = history_sequences_consecutive [OF c(1,2) assms(2) c(3,4) assms(3)]
  obtain h' where h': "map_of (hc_entries c1) sid = Some h'" "next_sequence h' = sequence e"
    "h_lines h' = [] \<or> snd (snd (history_snapshot sid c1)) = sequence e" using q by blast
  show sq: "sequence e = next_sequence (old_history c sid) + 1" using q by blast
  show "line e = l" using s by (auto)
  show n: "next_sequence (old_history c1 sid) = sequence e" using h' by simp
  have "history_good c1" using s assms(1) by (auto simp: history_good_def numbering_def)
  then show "numbering sid n c1" using q n sq assms(1) by (simp add: numbering_def)
  show "snd (snd (history_snapshot sid c1)) = (if lines_of c1 sid = [] then 0 else sequence e)"
    using h' by (auto simp: lines_of_def history_snapshot_def Let_def)
qed

lemma push_lines_spec:
  assumes "numbering sid (length ls + n) c" "list_all line_fits ls" "push_lines sid ls c = (c1, es)"
  shows "numbering sid n c1 \<and> map line es = ls \<and>
    map sequence es = [next_sequence (old_history c sid) + 1 ..< next_sequence (old_history c sid) + 1 + length ls] \<and>
    next_sequence (old_history c1 sid) = next_sequence (old_history c sid) + length ls \<and>
    (ls \<noteq> [] \<longrightarrow> lines_of c1 sid \<noteq> [] \<longrightarrow> snd (snd (history_snapshot sid c1)) = next_sequence (old_history c sid) + length ls)"
  using assms
proof (induction ls arbitrary: c es)
  case (Cons l ls)
  obtain c2 e where e: "history_push sid l c = (c2, e)" by (metis surj_pair)
  obtain es2 where es2: "push_lines sid ls c2 = (c1, es2)" "es = e # es2"
    using Cons.prems(3) e by (auto split: prod.splits)
  have p: "numbering sid (Suc (length ls + n)) c" "line_fits l" using Cons.prems(1,2) by simp_all
  note s = numbering_step [OF p e]
  note ih = Cons.IH [OF s(1) _ es2(1)]
  show ?case
    using ih s Cons.prems(2) es2 by (cases ls) (auto simp: upt_rec)
qed simp

lemma push_lines_suffix:
  assumes "numbering sid (length ls + n) c" "list_all line_fits ls" "push_lines sid ls c = (c1, es)"
  shows "suffix (lines_of c1 sid) (lines_of c sid @ ls)"
  using assms
proof (induction ls arbitrary: c es)
  case (Cons l ls)
  obtain c2 e where e: "history_push sid l c = (c2, e)" by (metis surj_pair)
  obtain es2 where es2: "push_lines sid ls c2 = (c1, es2)" using Cons.prems(3) e by (auto split: prod.splits)
  have p: "numbering sid (Suc (length ls + n)) c" "line_fits l" using Cons.prems(1,2) by simp_all
  have "suffix (lines_of c1 sid) (lines_of c2 sid @ ls)"
    using Cons.IH [OF numbering_step(1) [OF p e] _ es2] Cons.prems(2) by simp
  moreover have "suffix (lines_of c2 sid) (lines_of c sid @ [l])"
    using push_own_suffix [of c l sid] p e by (simp add: numbering_def push_state_def)
  then have "suffix (lines_of c2 sid @ ls) ((lines_of c sid @ [l]) @ ls)" by (auto simp: suffix_def)
  ultimately show ?case using suffix_order.trans by fastforce
qed simp

text \<open>A snapshot keeps the numbering, and reaches the newest line that is kept.\<close>

lemma snapshot_numbering:
  assumes "numbering sid n c" "history_snapshot sid c = (c1, hist, R)"
  shows "numbering sid n c1" "hist = lines_of c sid" "lines_of c1 sid = lines_of c sid"
    "next_sequence (old_history c1 sid) = next_sequence (old_history c sid)"
    "R \<le> next_sequence (old_history c sid)"
    "lines_of c sid \<noteq> [] \<Longrightarrow> R = next_sequence (old_history c sid)"
proof -
  have c1: "c1 = view_state sid c" using assms(2) by (simp add: view_state_def)
  have q: "cache_seq_ok c" "history_good c" using assms(1) by (simp_all add: numbering_def)
  show "hist = lines_of c sid"
    using assms(2) by (auto simp: history_snapshot_def lines_of_def Let_def split: option.splits)
  show "lines_of c1 sid = lines_of c sid" by (simp add: c1 view_lines)
  show next1: "next_sequence (old_history c1 sid) = next_sequence (old_history c sid)"
    by (auto simp: c1 view_state_def history_snapshot_def Let_def update_conv' split: option.split)
  have "history_seq_ok x" if "map_of (hc_entries c1) k = Some x" for k x
    using that q(1)
    by (auto simp: c1 view_state_def history_snapshot_def Let_def update_conv' cache_seq_ok_def ran_def history_seq_ok_def
        split: option.splits if_splits)
  then have "cache_seq_ok c1" by (auto simp: cache_seq_ok_def ran_def)
  then show "numbering sid n c1" using assms(1) view_good [OF q(2)] next1 by (simp add: numbering_def c1)
  have top: "sequence (last ls) = m" if "map sequence ls = [Suc (m - length ls)..<Suc m]" "ls \<noteq> []" "length ls \<le> m" for ls m
  proof -
    have "sequence (last ls) = last (map sequence ls)" using that(2) by (simp add: last_map)
    also have "\<dots> = last [Suc (m - length ls)..<Suc m]" by (simp only: that(1))
    also have "\<dots> = m" using that(2,3) by (cases ls) (simp_all add: last_upt del: upt_Suc)
    finally show ?thesis .
  qed
  have last_number: "sequence (last (h_lines h)) = next_sequence h"
    if "map_of (hc_entries c) sid = Some h" "h_lines h \<noteq> []" for h
  proof -
    have "history_seq_ok h" using q(1) that(1) by (auto simp: cache_seq_ok_def ran_def)
    then show ?thesis using top [of "h_lines h" "next_sequence h"] that(2) unfolding history_seq_ok_def by blast
  qed
  show "R \<le> next_sequence (old_history c sid)" "lines_of c sid \<noteq> [] \<Longrightarrow> R = next_sequence (old_history c sid)"
    using assms(2) last_number
    by (auto simp: history_snapshot_def Let_def lines_of_def split: option.splits if_splits)
qed

lemma live_all: "list_all (\<lambda>e. sequence e > R) es \<Longrightarrow>
    List.map_filter (live_message R) (map Entry es) = map live_line (map line es)"
  by (induction es) (auto simp: List.map_filter_def live_accepts_def)

lemma live_none: "list_all (\<lambda>e. sequence e \<le> R) es \<Longrightarrow> List.map_filter (live_message R) (map Entry es) = []"
  by (induction es) (auto simp: List.map_filter_def live_accepts_def)

lemma sequences_between:
  assumes "map sequence es = [a ..< b]"
  shows "list_all (\<lambda>e. a \<le> sequence e \<and> sequence e < b) es"
proof -
  have "list_all (\<lambda>x. a \<le> x \<and> x < b) (map sequence es)" unfolding assms by (simp add: list_all_iff)
  then show ?thesis by (simp add: list_all_iff)
qed



end
