(* ===== verification/Modpack.thy ===== *)
theory Modpack
  imports Files_Safety Backup_Manager Update
begin

text \<open>
  @storage/files/modpack.rs@: installing a Modrinth modpack into a server's directory: the index
  of the archive, the downloads it names, and its overrides.
\<close>

subsection \<open>Data and parameters\<close>

definition MAX_FILE_BYTES :: nat where "MAX_FILE_BYTES = 512 * 1024 * 1024"
definition MAX_TOTAL_BYTES :: nat where "MAX_TOTAL_BYTES = 2 * 1024 * 1024 * 1024"
definition MAX_MANIFEST_BYTES :: nat where "MAX_MANIFEST_BYTES = 4 * 1024 * 1024"

record mrpack_file =
  mf_path :: string
  mf_hashes :: "string \<rightharpoonup> string"
  mf_downloads :: "string list"
  mf_env :: "(string \<rightharpoonup> string) option"

record mrpack_index =
  format_version :: nat
  mi_files :: "mrpack_file list"

text \<open>
  An entry of a ZIP archive: its name, the mode if it has one, the size it declares, and what
  reading it gives, with the error that ends it.
\<close>

record zip_entry =
  ze_name :: string
  ze_mode :: "nat option"
  ze_size :: nat
  ze_bytes :: string
  ze_error :: "error option"

text \<open>
  The libraries: archives, the index's JSON, URLs with their scheme and host, HTTPS without
  redirects, SHA-512 in hexadecimal.
\<close>

record pack_lib =
  mp_zip :: "string \<Rightarrow> zip_entry list res"
  mp_index :: "string \<Rightarrow> mrpack_index option"
  mp_url :: "string \<Rightarrow> (string \<times> string option) res"
  mp_get :: "string \<Rightarrow> http_response res"
  mp_sha512 :: "string \<Rightarrow> string"

subsection \<open>Paths\<close>

definition safe_pack_path :: "string \<Rightarrow> path res" where
  "safe_pack_path s =
     (if s = [] \<or> CHR 0x5C \<in> set s \<or> is_absolute (components s) \<or>
         list_ex (\<lambda>c. case c of Normal _ \<Rightarrow> False | _ \<Rightarrow> True) (components s)
      then Err (Bail ''Modrinth pack contains an unsafe path.'')
      else Ok (components s))"

text \<open>The part of a name after its last dot, unless the name only starts with it.\<close>

definition path_extension :: "path \<Rightarrow> string option" where
  "path_extension p =
     Option.bind (file_name p) (\<lambda>n. case rsplit_once (CHR ''.'') n of
       Some (a, e) \<Rightarrow> if a = [] then None else Some e | None \<Rightarrow> None)"

definition temporary_path :: "path \<Rightarrow> path" where
  "temporary_path target =
     with_extension target
       ((case path_extension target of Some e \<Rightarrow> if valid_utf8 e then e else [] | None \<Rightarrow> []) @ ''.agapornis-part'')"

subsection \<open>The index\<close>

definition entry_named :: "string \<Rightarrow> zip_entry list \<Rightarrow> zip_entry option" where
  "entry_named n es = (case filter (\<lambda>e. ze_name e = n) es of [] \<Rightarrow> None | e # _ \<Rightarrow> Some e)"

definition read_entry :: "zip_entry \<Rightarrow> string res" where
  "read_entry e =
     (case ze_error e of
        Some x \<Rightarrow> Err x
      | None \<Rightarrow> if valid_utf8 (ze_bytes e) then Ok (ze_bytes e) else Err (Io InvalidData))"

definition read_manifest :: "pack_lib \<Rightarrow> path \<Rightarrow> mrpack_index io" where
  "read_manifest mp archive =
     io_bind (fs_read archive) (\<lambda>bytes.
     from_res (mp_zip mp bytes) (\<lambda>zip.
     from_res (case entry_named ''modrinth.index.json'' zip of
         None \<Rightarrow> Err (Bail ''modrinth.index.json is missing from this pack'') | Some e \<Rightarrow> Ok e) (\<lambda>e.
     then_io (guard_io (ze_size e \<le> MAX_MANIFEST_BYTES) ''Modrinth pack manifest is too large.'')
     (from_res (read_entry e) (\<lambda>s.
       io_lift (case mp_index mp s of
         None \<Rightarrow> Err (Bail ''Modrinth pack manifest is invalid'') | Some i \<Rightarrow> Ok i))))))"

subsection \<open>Downloads\<close>

definition is_unsupported_on_server :: "mrpack_file \<Rightarrow> bool" where
  "is_unsupported_on_server f \<longleftrightarrow> Option.bind (mf_env f) (\<lambda>e. e ''server'') = Some ''unsupported''"

text \<open>The loop over the body: the bytes of the file and of the pack so far.\<close>

fun receive_chunks :: "path \<Rightarrow> string \<Rightarrow> nat \<Rightarrow> string res list \<Rightarrow> (string \<times> nat) io" where
  "receive_chunks temporary received sofar [] = io_return (received, sofar)"
| "receive_chunks temporary received sofar (c # cs) =
     from_res c (\<lambda>chunk.
       if length received + length chunk > MAX_FILE_BYTES \<or> sofar + length chunk > MAX_TOTAL_BYTES
       then io_bind (io_ignore (fs_remove_file temporary)) (\<lambda>_.
              io_fail (Bail ''Modrinth pack exceeds the extraction size limit.''))
       else then_io (fs_append temporary chunk)
              (receive_chunks temporary (received @ chunk) (sofar + length chunk) cs))"

text \<open>Putting a finished file in its place.\<close>

definition put_in_place :: "path \<Rightarrow> path \<Rightarrow> unit io" where
  "put_in_place temporary target =
     io_bind (fs_try_exists target) (\<lambda>there.
     then_io (if there then fs_remove_file target else io_return ()) (fs_rename temporary target))"

definition trusted_url :: "pack_lib \<Rightarrow> mrpack_file \<Rightarrow> string res" where
  "trusted_url mp f =
     (case mf_downloads f of
        [] \<Rightarrow> Err (Bail (''Pack file '' @ mf_path f @ '' has no download URL''))
      | url # _ \<Rightarrow> res_bind (mp_url mp url) (\<lambda>(scheme, host).
          if scheme \<noteq> ''https'' \<or> host \<noteq> Some ''cdn.modrinth.com''
          then Err (Bail (''Pack file '' @ mf_path f @ '' uses an untrusted download host.'')) else Ok url))"

definition expected_hash :: "mrpack_file \<Rightarrow> string res" where
  "expected_hash f =
     (case mf_hashes f ''sha512'' of
        None \<Rightarrow> Err (Bail (''Pack file '' @ mf_path f @ '' has no SHA-512 hash''))
      | Some h \<Rightarrow> Ok (to_ascii_lowercase h))"

text \<open>After the answer to the request: the temporary file, its verification, and its place.\<close>

definition store_download :: "pack_lib \<Rightarrow> path \<Rightarrow> mrpack_file \<Rightarrow> string \<Rightarrow> http_response \<Rightarrow> nat \<Rightarrow> nat io" where
  "store_download mp target f expected response sofar =
     (let temporary = temporary_path target in
      then_io (fs_write temporary [])
      (io_bind (receive_chunks temporary [] sofar (hr_chunks response)) (\<lambda>(received, sofar').
        if mp_sha512 mp received \<noteq> expected
        then io_bind (io_ignore (fs_remove_file temporary)) (\<lambda>_.
               io_fail (Bail (''SHA-512 verification failed for '' @ mf_path f @ ''.'')))
        else then_io (put_in_place temporary target) (io_return sofar'))))"

definition download_file :: "pack_lib \<Rightarrow> path \<Rightarrow> mrpack_file \<Rightarrow> nat \<Rightarrow> nat io" where
  "download_file mp root f sofar =
     from_res (safe_pack_path (mf_path f)) (\<lambda>rel.
     from_res (safe_host_path root (path_string rel)) (\<lambda>target.
     from_res (expected_hash f) (\<lambda>expected.
     from_res (trusted_url mp f) (\<lambda>url.
     from_res (mp_get mp url) (\<lambda>response.
       if (case hr_content_length response of Some n \<Rightarrow> n > MAX_FILE_BYTES | None \<Rightarrow> False)
       then io_fail (Bail (''Pack file '' @ mf_path f @ '' exceeds the size limit.''))
       else then_io (create_parent target) (store_download mp target f expected response sofar))))))"

fun download_files :: "pack_lib \<Rightarrow> path \<Rightarrow> mrpack_file list \<Rightarrow> nat \<Rightarrow> nat io" where
  "download_files mp root [] sofar = io_return sofar"
| "download_files mp root (f # fs) sofar =
     (if is_unsupported_on_server f then download_files mp root fs sofar
      else io_bind (download_file mp root f sofar) (\<lambda>sofar'. download_files mp root fs sofar'))"

subsection \<open>Overrides\<close>

definition is_link_entry :: "zip_entry \<Rightarrow> bool" where
  "is_link_entry e = (case ze_mode e of Some m \<Rightarrow> (m div 4096) mod 16 = 10 | None \<Rightarrow> False)"

definition is_dir_entry :: "zip_entry \<Rightarrow> bool" where
  "is_dir_entry e = (ze_name e \<noteq> [] \<and> last (ze_name e) \<in> {CHR ''/'', CHR 0x5C})"

text \<open>@io::copy@ of the entry: what could be read, then the error.\<close>

definition copy_entry :: "zip_entry \<Rightarrow> path \<Rightarrow> unit io" where
  "copy_entry e temporary =
     then_io (fs_write temporary [])
     (then_io (fs_append temporary (ze_bytes e))
       (case ze_error e of Some x \<Rightarrow> io_fail x | None \<Rightarrow> io_return ()))"

definition exists_then_remove :: "path \<Rightarrow> unit io" where
  "exists_then_remove p w = (if fs_exists p w then fs_remove_file p w else (Ok (), w))"

definition extract_override :: "path \<Rightarrow> string \<Rightarrow> zip_entry \<Rightarrow> unit io" where
  "extract_override root prefix_name e =
     (case strip_prefix prefix_name (ze_name e) of
        None \<Rightarrow> io_return ()
      | Some rel \<Rightarrow>
          if rel = [] then io_return ()
          else then_io (guard_io (\<not> is_link_entry e) ''Modrinth pack symbolic links are not allowed.'')
            (from_res (safe_pack_path rel) (\<lambda>p.
             let target = path_join root p; temporary = temporary_path target in
             if is_dir_entry e then fs_create_dir_all target
             else then_io (create_parent target)
               (then_io (copy_entry e temporary)
               (then_io (exists_then_remove target) (fs_rename temporary target))))))"

fun extract_entries :: "path \<Rightarrow> string \<Rightarrow> zip_entry list \<Rightarrow> unit io" where
  "extract_entries root prefix_name [] = io_return ()"
| "extract_entries root prefix_name (e # es) =
     then_io (extract_override root prefix_name e) (extract_entries root prefix_name es)"

definition extract_overrides :: "pack_lib \<Rightarrow> path \<Rightarrow> path \<Rightarrow> unit io" where
  "extract_overrides mp archive root =
     io_bind (fs_read archive) (\<lambda>bytes.
     from_res (mp_zip mp bytes) (\<lambda>zip.
       then_io (extract_entries root ''overrides/'' zip) (extract_entries root ''server-overrides/'' zip)))"

subsection \<open>Installing\<close>

definition install_mrpack :: "pack_lib \<Rightarrow> files_ctx \<Rightarrow> string \<Rightarrow> string \<Rightarrow> unit io" where
  "install_mrpack mp fx sid requested =
     from_res (files_root fx sid) (\<lambda>root.
     then_io (guard_io (fr_use_host root) ''Stop the server before installing a Modrinth modpack.'')
     (let clean = clean_request requested in
      then_io (guard_io (ends_with ''.mrpack'' (to_ascii_lowercase clean)) ''A .mrpack archive is required.'')
      (io_bind (confined_host_path (fr_host root) clean True) (\<lambda>archive.
       io_bind (read_manifest mp archive) (\<lambda>manifest.
       then_io (guard_io (format_version manifest = 1) ''Unsupported Modrinth pack format version.'')
       (then_io (io_unit (download_files mp (fr_host root) (mi_files manifest) 0))
         (extract_overrides mp archive (fr_host root))))))))"

end
