(* ===== verification/Temporary_Place.thy ===== *)
theory Temporary_Place
  imports Backup_Safety
begin

text \<open>
  A temporary file in a directory that is reached without symbolic links: writing, extending and
  removing it keep what is required of the rest of the tree.
\<close>

abbreviation (input) holds_text :: "string list \<Rightarrow> string \<Rightarrow> string \<Rightarrow> world \<Rightarrow> bool" where
  "holds_text b y c w \<equiv> lookup (w_root w) (b @ [y]) = Some (RegFile c)"

lemma real_dir_place: "real_dir t b \<Longrightarrow> parent_ok t (b @ [y])"
  using real_parent_ok [OF real_dir_parent] by simp

lemma real_dir_put: "real_dir t b \<Longrightarrow> real_dir (put (b @ [y]) v t) b"
  using real_dir_changes [OF changes_put [of y "{y}" b t "[]" v]] by simp

lemma lookup_neighbour: "x \<noteq> y \<Longrightarrow> lookup (put (b @ [y]) v t) (b @ [x]) = lookup t (b @ [x])"
  by (rule lookup_put_other) auto

lemma existing_here:
  assumes "real_dir t b"
  shows "existing t cwd (abs_path (b @ [y])) False = (case lookup t (b @ [y]) of None \<Rightarrow> Err (Io NotFound) | Some n \<Rightarrow> Ok (b @ [y], n))"
  using resolve_abs_path [OF real_dir_parent [OF assms]] by (simp add: existing_def)

lemma resolve_here:
  "real_dir t b \<Longrightarrow> \<forall>s. lookup t (b @ [y]) \<noteq> Some (Symlink s) \<Longrightarrow> resolve t cwd (abs_path (b @ [y])) f = Ok (b @ [y])"
  using resolve_abs [OF real_dir_parent] by (simp add: resolve_def abs_path_def)

subsection \<open>Calls on a temporary file\<close>

text \<open>A property of trees that changes at the temporary file's place keep.\<close>

locale temporary_place =
  fixes A :: "node \<Rightarrow> bool" and b :: "string list" and y :: string
  assumes place_real: "A t \<Longrightarrow> real_dir t b"
    and place_put: "A t \<Longrightarrow> A (put (b @ [y]) v t)"
begin

lemma place_write:
  "triple (all_trees A) (\<lambda>w. \<forall>s. lookup (w_root w) (b @ [y]) \<noteq> Some (Symlink s))
    (fs_write (abs_path (b @ [y])) c) (\<lambda>_. holds_text b y c)"
  unfolding triple_def
proof (intro allI impI)
  fix w r w'
  assume a: "all_trees A w" and n: "\<forall>s. lookup (w_root w) (b @ [y]) \<noteq> Some (Symlink s)"
    and f: "fs_write (abs_path (b @ [y])) c w = (r, w')"
  have p: "A (w_root w)" using a by (simp add: all_trees_def)
  then have d: "real_dir (w_root w) b" by (rule place_real)
  have q: "q = b @ [y]" if "write_place (abs_path (b @ [y])) (w_root w) (w_cwd w) = Ok q" for q
    using that resolve_here [OF d n] by (auto simp: write_place_def split: option.splits node.splits)
  have keep: "A (put (b @ [y]) v t)" if "A t" for v t
    using place_put that .
  from fs_write_spec [OF f] show "all_trees A w' \<and> (\<forall>u. r = Inr u \<longrightarrow> holds_text b y c w')"
  proof (elim conjE disjE exE)
    fix e assume "r = Inl e" "w_root w' = w_root w" "w_trace w' = w_trace w"
    then show ?thesis using a by (simp add: all_trees_def)
  next
    fix q v
    assume s: "write_place (abs_path (b @ [y])) (w_root w) (w_cwd w) = Ok q" "r = Ok () \<longrightarrow> v = c"
      "w_root w' = put q (Some (RegFile v)) (put q (Some (RegFile [])) (w_root w))"
      "w_trace w' = w_trace w @ [put q (Some (RegFile [])) (w_root w), w_root w']"
    have "holds_text b y v w'"
      using s(3) q [OF s(1)] lookup_put_same [OF real_dir_place [OF real_dir_put [OF d]]] by simp
    then show ?thesis using a p s(2-4) q [OF s(1)] keep by (auto simp: all_trees_def)
  qed
qed

lemma place_append:
  "triple (all_trees A) (holds_text b y old) (fs_append (abs_path (b @ [y])) c) (\<lambda>_. holds_text b y (old @ c))"
  unfolding triple_def
proof (intro allI impI)
  fix w r w'
  assume a: "all_trees A w" and n: "holds_text b y old w" and f: "fs_append (abs_path (b @ [y])) c w = (r, w')"
  obtain k w1 where t: "take_fault w = (k, w1)" by (metis surj_pair)
  note s = take_fault_sel [OF t]
  have p: "A (w_root w)" using a by (simp add: all_trees_def)
  then have d: "real_dir (w_root w) b" by (rule place_real)
  have e: "existing (w_root w) (w_cwd w) (abs_path (b @ [y])) True = Ok (b @ [y], RegFile old)"
    using resolve_here [OF d] n by (simp add: existing_def)
  have a1: "all_trees A w1" using a s by (simp add: all_trees_def)
  have keep: "A (put (b @ [y]) v (w_root w))" for v using place_put [OF p] .
  have same: "lookup (put (b @ [y]) v (w_root w)) (b @ [y]) = v" for v
    using lookup_put_same [OF real_dir_place [OF d]] .
  show "all_trees A w' \<and> (\<forall>u. r = Inr u \<longrightarrow> holds_text b y (old @ c) w')"
    using f a1 s keep same by (cases k) (auto simp: fs_append_def t e)
qed

text \<open>Also when it fails, extending leaves a file.\<close>

lemma place_append_keeps:
  assumes "A (w_root w)" "holds_text b y old w" "fs_append (abs_path (b @ [y])) c w = (r, w')"
  shows "\<exists>c'. holds_text b y c' w'"
proof -
  obtain k w1 where t: "take_fault w = (k, w1)" by (metis surj_pair)
  note s = take_fault_sel [OF t]
  have d: "real_dir (w_root w) b" using assms(1) by (rule place_real)
  have e: "existing (w_root w) (w_cwd w) (abs_path (b @ [y])) True = Ok (b @ [y], RegFile old)"
    using resolve_here [OF d] assms(2) by (simp add: existing_def)
  have same: "lookup (put (b @ [y]) v (w_root w)) (b @ [y]) = v" for v
    using lookup_put_same [OF real_dir_place [OF d]] .
  show ?thesis using assms(2,3) s same by (cases k) (auto simp: fs_append_def t e)
qed

lemma place_remove:
  "triple (all_trees A) P (io_ignore (fs_remove_file (abs_path (b @ [y])))) (\<lambda>_ _. True)"
proof -
  have "triple (all_trees A) (\<lambda>_. True) (fs_remove_file (abs_path (b @ [y]))) (\<lambda>_ _. True)"
    unfolding fs_remove_file_def
  proof (rule triple_tree)
    fix w t
    assume a: "all_trees A w"
      and "res_bind (existing (w_root w) (w_cwd w) (abs_path (b @ [y])) False)
        (\<lambda>(q, n). case n of Dir _ \<Rightarrow> Err (Io IsADirectory) | _ \<Rightarrow> Ok (put q None (w_root w))) = Inr t"
    then have "t = put (b @ [y]) None (w_root w)"
      using existing_here [of "w_root w" b "w_cwd w" y]
      using place_real by (auto simp: all_trees_def split: option.splits node.splits)
    then show "all_trees A (set_root t w) \<and> True"
      using a place_put by (auto simp: all_trees_def)
  qed (auto simp: all_trees_def)
  then show ?thesis unfolding triple_def io_ignore_def by (auto split: prod.splits) (metis prod.collapse)+
qed

end

lemma mkdirs_existing:
  assumes "real_dir t b"
  shows "mkdirs_tree (abs_path b) t cwd = Ok t"
proof -
  have l: "\<exists>es. lookup t b = Some (Dir es)"
  proof -
    have "is_dir_at t b" using assms by (simp add: real_dir_def)
    then show ?thesis by (auto simp: is_dir_at_def split: option.splits node.splits)
  qed
  have "real_parent t b" using assms by (auto simp: real_dir_def real_parent_def take_is_prefix)
  then have "resolve t cwd (abs_path b) f = Ok b" for f
    using resolve_abs [of t b f] l by (auto simp: resolve_def abs_path_def)
  then have "mkdir_tree (abs_path b) t cwd = Err (Io AlreadyExists)" "is_dir_tree (abs_path b) t cwd"
    using l by (auto simp: mkdir_tree_def is_dir_tree_def existing_def)
  moreover have "abs_path b \<noteq> []" by (simp add: abs_path_def)
  ultimately show ?thesis by (subst mkdirs_tree.simps) simp
qed

end
