(* ===== verification/Modpack_Safety.thy ===== *)
theory Modpack_Safety
  imports Modpack Temporary_Place
begin

text \<open>
  What installing a modpack promises: names that stay below the server's directory, and files
  that appear only after their hash was checked.
\<close>

subsection \<open>Names\<close>

lemma safe_pack_path_names:
  assumes "safe_pack_path s = Ok p"
  shows "\<exists>names. p = map Normal names"
proof -
  have "list_all (\<lambda>c. \<exists>n. c = Normal n) p"
    using assms by (auto simp: safe_pack_path_def list_all_iff list_ex_iff split: if_splits component.splits)
      (metis component.exhaust)
  then show ?thesis by (induction p) (auto intro: exI [of _ "_ # _"])
qed

lemma rsplit_once_join:
  assumes "rsplit_once c s = Some (a, e)"
  shows "s = a @ c # e"
proof -
  have cut: "c \<in> set s \<Longrightarrow> s = takeWhile (\<lambda>x. x \<noteq> c) s @ c # tl (dropWhile (\<lambda>x. x \<noteq> c) s)" for s
    by (induction s) auto
  have so: "s = a @ c # e" if "split_once c s = Some (a, e)" for s a e
    using that cut [of s] by (auto simp: split_once_def split: if_splits)
  show ?thesis using assms so [of "rev s"] by (auto simp: rsplit_once_def rev_swap split: option.splits)
qed

lemma temporary_path_sibling:
  "\<exists>y. y \<noteq> x \<and> temporary_path (abs_path (b @ [x])) = abs_path (b @ [y])"
proof -
  let ?p = "abs_path (b @ [x])"
  define ext where "ext = (case path_extension ?p of Some e \<Rightarrow> if valid_utf8 e then e else [] | None \<Rightarrow> [])"
  define stem where "stem = (case rsplit_once (CHR ''.'') x of Some (a, e) \<Rightarrow> if a = [] then x else a | None \<Rightarrow> x)"
  define y where "y = stem @ ''.'' @ ext @ ''.agapornis-part''"
  have n: "file_name ?p = Some x" "butlast ?p = abs_path b" by (simp_all add: file_name_def abs_path_def butlast_append)
  have "y \<noteq> x"
  proof (cases "rsplit_once (CHR ''.'') x")
    case (Some ae)
    then obtain a e where ae: "rsplit_once (CHR ''.'') x = Some (a, e)" by (cases ae) auto
    then have x: "x = a @ CHR ''.'' # e" by (rule rsplit_once_join)
    show ?thesis
    proof (cases "a = []")
      case False
      then have "ext = e \<or> ext = [] \<and> \<not> valid_utf8 e" by (auto simp: ext_def path_extension_def n ae)
      moreover have "valid_utf8 ''.agapornis-part''" by code_simp
      moreover have "stem = a" using False by (simp add: stem_def ae)
      ultimately show ?thesis using x by (auto simp: y_def)
    qed (simp add: y_def stem_def ae)
  qed (simp add: y_def stem_def)
  moreover have "temporary_path ?p = abs_path (b @ [y])"
    unfolding temporary_path_def with_extension_def n option.case Let_def
    by (simp add: n(2) y_def stem_def ext_def abs_path_def)
  ultimately show ?thesis by blast
qed

subsection \<open>A place and its temporary neighbour\<close>

definition placed :: "string list \<Rightarrow> string \<Rightarrow> (node option \<Rightarrow> bool) \<Rightarrow> node \<Rightarrow> bool" where
  "placed b x ok t \<longleftrightarrow> real_dir t b \<and> ok (lookup t (b @ [x]))"

lemma placed_neighbour: "placed b x ok t \<Longrightarrow> x \<noteq> y \<Longrightarrow> placed b x ok (put (b @ [y]) v t)"
  using entries_sibling [OF changes_put [of y "{y}" b t "[]" v], of x] by (simp add: placed_def real_dir_put)

lemma placed_put: "placed b x ok t \<Longrightarrow> ok v \<Longrightarrow> placed b x ok (put (b @ [x]) v t)"
  by (simp add: placed_def real_dir_put lookup_put_same real_dir_place)

subsection \<open>Calls on the two places\<close>

lemma neighbour_place: "x \<noteq> y \<Longrightarrow> temporary_place (placed b x ok) b y"
  by unfold_locales (simp_all add: placed_neighbour, simp add: placed_def)

lemmas triple_write_here = temporary_place.place_write [OF neighbour_place]
lemmas triple_append_here = temporary_place.place_append [OF neighbour_place]
lemmas triple_remove_neighbour = temporary_place.place_remove [OF neighbour_place]

lemma triple_exists_here:
  "triple (all_trees (placed b x ok)) (holds_text b y c) (fs_try_exists p) (\<lambda>_. holds_text b y c)"
  unfolding fs_try_exists_def by (rule triple_query) (auto simp: all_trees_def)

lemma triple_remove_here:
  assumes "x \<noteq> y" "ok None"
  shows "triple (all_trees (placed b x ok)) (holds_text b y c) (fs_remove_file (abs_path (b @ [x]))) (\<lambda>_. holds_text b y c)"
  unfolding fs_remove_file_def
proof (rule triple_tree)
  fix w t
  assume a: "all_trees (placed b x ok) w" "holds_text b y c w"
    and r: "res_bind (existing (w_root w) (w_cwd w) (abs_path (b @ [x])) False)
      (\<lambda>(q, n). case n of Dir _ \<Rightarrow> Err (Io IsADirectory) | _ \<Rightarrow> Ok (put q None (w_root w))) = Inr t"
  have p: "placed b x ok (w_root w)" using a by (simp add: all_trees_def)
  then have "t = put (b @ [x]) None (w_root w)"
    using existing_here [of "w_root w" b "w_cwd w" x] r by (auto simp: placed_def split: option.splits node.splits)
  then show "all_trees (placed b x ok) (set_root t w) \<and> holds_text b y c (set_root t w)"
    using a placed_put [OF p assms(2)] lookup_neighbour [of y x b None "w_root w"] assms(1) by auto
qed (auto simp: all_trees_def)

lemma triple_rename_here:
  assumes "x \<noteq> y" "ok (Some (RegFile c))"
  shows "triple (all_trees (placed b x ok)) (holds_text b y c) (fs_rename (abs_path (b @ [y])) (abs_path (b @ [x])))
    (\<lambda>_. holds_text b x c)"
  unfolding fs_rename_def
proof (rule triple_tree)
  fix w t
  assume a: "all_trees (placed b x ok) w" "holds_text b y c w"
    and r: "rename_tree (abs_path (b @ [y])) (abs_path (b @ [x])) (w_root w) (w_cwd w) = Inr t"
  let ?t1 = "put (b @ [y]) None (w_root w)"
  have p: "placed b x ok (w_root w)" using a by (simp add: all_trees_def)
  then have d: "real_dir (w_root w) b" by (simp add: placed_def)
  have "t = put (b @ [x]) (Some (RegFile c)) ?t1"
    using r a(2) existing_here [OF d, of "w_cwd w" y] resolve_abs_path [OF real_dir_parent [OF d], of "w_cwd w" x] assms(1)
    by (auto simp: rename_tree_def Let_def split: option.splits node.splits if_splits)
  then show "all_trees (placed b x ok) (set_root t w) \<and> holds_text b x c (set_root t w)"
    using a placed_put [OF placed_neighbour [OF p assms(1)] assms(2)] lookup_put_same [OF real_dir_place [OF real_dir_put [OF d]]]
    by auto
qed (auto simp: all_trees_def)

lemma triple_create_here:
  "triple (all_trees (placed b x ok)) (\<lambda>w. Q (w_root w)) (create_parent (abs_path (b @ [y]))) (\<lambda>_ w. Q (w_root w))"
proof -
  have "path_parent (abs_path (b @ [y])) = Some (abs_path b)"
    by (simp add: path_parent_def abs_path_def butlast_append)
  then have "create_parent (abs_path (b @ [y])) = fs_create_dir_all (abs_path b)" by (simp add: create_parent_def)
  then show ?thesis
    unfolding fs_create_dir_all_def
    by (simp only:, intro triple_tree) (auto simp: all_trees_def placed_def mkdirs_existing)
qed

subsection \<open>Downloads\<close>

lemma triple_if: "triple A P m Q \<Longrightarrow> triple A P n Q \<Longrightarrow> triple A P (if c then m else n) Q"
  by simp

lemma triple_receive:
  assumes "x \<noteq> y"
  shows "triple (all_trees (placed b x ok)) (holds_text b y received)
    (receive_chunks (abs_path (b @ [y])) received sofar cs) (\<lambda>(c, n). holds_text b y c)"
proof (induction cs arbitrary: received sofar)
  case Nil
  then show ?case by (auto intro: triple_return)
next
  case (Cons c cs)
  show ?case
  proof (cases c)
    case (Inl e)
    then show ?thesis by (simp add: io_bind_def io_lift_def triple_def)
  next
    case (Inr chunk)
    have drop: "triple (all_trees (placed b x ok)) (holds_text b y received)
      (io_bind (io_ignore (fs_remove_file (abs_path (b @ [y])))) (\<lambda>_. io_fail e)) (\<lambda>(c, n). holds_text b y c)" for e
      by (rule triple_bind [OF triple_remove_neighbour [OF assms]]) (rule triple_fail)
    have keep: "triple (all_trees (placed b x ok)) (holds_text b y received)
      (io_bind (fs_append (abs_path (b @ [y])) chunk)
        (\<lambda>_. receive_chunks (abs_path (b @ [y])) (received @ chunk) (sofar + length chunk) cs)) (\<lambda>(c, n). holds_text b y c)"
      by (rule triple_bind [OF triple_append_here [OF assms]]) (rule Cons.IH)
    have lifted: "io_bind (io_lift (Inr v)) f = f v" for v :: string and f :: "string \<Rightarrow> (string \<times> nat) io"
      by (simp add: fun_eq_iff io_bind_def io_lift_def)
    show ?thesis unfolding receive_chunks.simps Inr lifted by (rule triple_if [OF drop keep])
  qed
qed

definition verified :: "pack_lib \<Rightarrow> mrpack_file \<Rightarrow> string \<Rightarrow> bool" where
  "verified mp f c \<longleftrightarrow> (\<exists>h. mf_hashes f ''sha512'' = Some h \<and> mp_sha512 mp c = to_ascii_lowercase h)"

text \<open>What may be seen at the place of a file: what was there, nothing, or verified contents.\<close>

definition pack_place :: "pack_lib \<Rightarrow> mrpack_file \<Rightarrow> node option \<Rightarrow> node option \<Rightarrow> bool" where
  "pack_place mp f old v \<longleftrightarrow> v = old \<or> v = None \<or> (\<exists>c. v = Some (RegFile c) \<and> verified mp f c)"

lemma triple_put_in_place:
  assumes "x \<noteq> y" "ok None" "ok (Some (RegFile c))"
  shows "triple (all_trees (placed b x ok)) (holds_text b y c) (put_in_place (abs_path (b @ [y])) (abs_path (b @ [x])))
    (\<lambda>_. holds_text b x c)"
proof -
  have "triple (all_trees (placed b x ok)) (holds_text b y c)
      (if there then fs_remove_file (abs_path (b @ [x])) else io_return ()) (\<lambda>_. holds_text b y c)" for there
    using triple_remove_here [where ok = ok, OF assms(1,2)] by (auto intro: triple_return)
  then show ?thesis
    unfolding put_in_place_def
    by (intro triple_bind [OF triple_exists_here] triple_bind [OF _ triple_rename_here [where ok = ok and c = c, OF assms(1,3)]])
qed

lemma triple_store:
  assumes "expected_hash f = Ok expected" "temporary_path (abs_path (b @ [x])) = abs_path (b @ [y])" "x \<noteq> y"
  shows "triple (all_trees (placed b x (pack_place mp f old))) (\<lambda>w. \<forall>s. lookup (w_root w) (b @ [y]) \<noteq> Some (Symlink s))
    (store_download mp (abs_path (b @ [x])) f expected response sofar)
    (\<lambda>_ w. \<exists>c. holds_text b x c w \<and> verified mp f c)"
proof -
  have ok: "pack_place mp f old None" "verified mp f c \<Longrightarrow> pack_place mp f old (Some (RegFile c))" for c
    by (auto simp: pack_place_def)
  have h: "mp_sha512 mp c = expected \<Longrightarrow> verified mp f c" for c
    using assms(1) by (auto simp: expected_hash_def verified_def split: option.splits)
  let ?A = "all_trees (placed b x (pack_place mp f old))"
  have drop: "triple ?A (holds_text b y c) (io_bind (io_ignore (fs_remove_file (abs_path (b @ [y])))) (\<lambda>_. io_fail e)) R"
    for c e and R :: "nat \<Rightarrow> world \<Rightarrow> bool"
    by (rule triple_bind [OF triple_remove_neighbour [OF assms(3)]]) (rule triple_fail)
  have keep: "triple ?A (holds_text b y c)
      (io_bind (put_in_place (abs_path (b @ [y])) (abs_path (b @ [x]))) (\<lambda>_. io_return n)) (\<lambda>_ w. \<exists>c. holds_text b x c w \<and> verified mp f c)"
    if "mp_sha512 mp c = expected" for c and n :: nat
    by (rule triple_bind [OF triple_put_in_place [where ok = "pack_place mp f old" and c = c, OF assms(3) ok(1) ok(2) [OF h [OF that]]]])
      (use h [OF that] in \<open>auto intro: triple_return\<close>)
  have "triple ?A (holds_text b y c) (if mp_sha512 mp c \<noteq> expected
      then io_bind (io_ignore (fs_remove_file (abs_path (b @ [y])))) (\<lambda>_. io_fail e)
      else io_bind (put_in_place (abs_path (b @ [y])) (abs_path (b @ [x]))) (\<lambda>_. io_return n))
      (\<lambda>_ w. \<exists>c. holds_text b x c w \<and> verified mp f c)" for c e and n :: nat
    using drop [of c e] keep [of c n] by (cases "mp_sha512 mp c = expected") (simp_all only: not_not if_True if_False simp_thms)
  then show ?thesis
    unfolding store_download_def assms(2) Let_def
    by (intro triple_bind [OF triple_write_here [OF assms(3)]] triple_bind [OF triple_receive [OF assms(3)]])
      (auto split: prod.split)
qed


definition demo_pack :: "zip_entry list \<Rightarrow> pack_lib" where
  "demo_pack es = \<lparr> mp_zip = (\<lambda>_. Ok es), mp_index = (\<lambda>_. None), mp_url = (\<lambda>_. Ok (''https'', Some ''cdn.modrinth.com'')),
     mp_get = (\<lambda>_. Ok \<lparr> hr_scheme = ''https'', hr_content_length = None, hr_chunks = [Ok ''ja'', Ok ''r''] \<rparr>),
     mp_sha512 = (\<lambda>s. s) \<rparr>"

definition demo_file :: mrpack_file where
  "demo_file = \<lparr> mf_path = ''m/a.jar'', mf_hashes = [''sha512'' \<mapsto> ''JAR''], mf_downloads = [''u''], mf_env = None \<rparr>"


text \<open>Lemma: an override is written through a symbolic link that a directory of the server holds:
  its contents appear outside the server's directory.\<close>

theorem overrides_follow_links:
  "lookup (w_root (snd (extract_overrides
      (demo_pack [\<lparr> ze_name = ''overrides/c/x'', ze_mode = None, ze_size = 1, ze_bytes = ''y'', ze_error = None \<rparr>])
      [RootDir, Normal ''p''] [RootDir, Normal ''s'']
      (calm_world (Dir [(''s'', Dir [(''c'', Symlink [RootDir, Normal ''e''])]), (''e'', Dir []), (''p'', RegFile [])])))))
    [''e'', ''x''] = Some (RegFile ''y'')"
  by code_simp

end
