(* ===== verification/File_Service.thy ===== *)
theory File_Service
  imports Services Modpack Files_Manage
begin

text \<open>
  @grpc/services/file.rs@: uploads and downloads as streams, and the other calls of the file
  management service.
\<close>

subsection \<open>Parameters\<close>

text \<open>
  What the files and modpacks depend on, the directory for temporary files with a random name,
  how many bytes each read returns, the size a directory reports, and the text of an I/O error.
\<close>

record file_lib =
  fl_files :: files_ctx
  fl_pack :: pack_lib
  fl_temp :: path
  fl_uuid :: string
  fl_reads :: "nat \<Rightarrow> nat"
  fl_dir_len :: nat
  fl_io_text :: "io_kind \<Rightarrow> string"

definition fl_text :: "file_lib \<Rightarrow> error \<Rightarrow> string" where "fl_text fl = error_display (fl_io_text fl)"

definition file_action :: "file_lib \<Rightarrow> unit io \<Rightarrow> (world, bool \<times> string) call" where
  "file_action fl m = answer m (action_result (fl_text fl))"

subsection \<open>Uploads\<close>

text \<open>The messages of an upload: an error of the transport, metadata, bytes, or nothing.\<close>

datatype upload_item = UploadBroken grpc_status | UploadMetadata string string | UploadChunk string | UploadEmpty

record upload =
  up_target :: "(string \<times> string) option"
  up_created :: bool
  up_total :: nat

definition upload_maximum :: "environment \<Rightarrow> nat" where
  "upload_maximum env =
     (case Option.bind (env ''AGAPORNIS_MAX_FILE_UPLOAD_BYTES'') (parse_unsigned usize_max) of
        Some n \<Rightarrow> if n > 0 then n else 2 * 1024 * 1024 * 1024
      | None \<Rightarrow> 2 * 1024 * 1024 * 1024)"

definition temporary_upload :: "file_lib \<Rightarrow> path" where
  "temporary_upload fl = path_join (fl_temp fl) [Normal (''agapornis-upload-'' @ fl_uuid fl)]"

definition invalid_argument :: "string \<Rightarrow> grpc_status" where "invalid_argument m = (InvalidArgument, m)"

text \<open>The checks on the metadata, once it is the first.\<close>

definition check_target :: "(error \<Rightarrow> string) \<Rightarrow> string \<Rightarrow> string \<Rightarrow> grpc_status option" where
  "check_target to_string sid p =
     (case validate_id sid of
        Inl e \<Rightarrow> Some (invalid_argument (to_string e))
      | Inr _ \<Rightarrow>
          if clean_request p = [] then Some (invalid_argument ''upload target path is required'')
          else (case relative p of
            Inl e \<Rightarrow> Some (invalid_argument (to_string e))
          | Inr _ \<Rightarrow> None))"

text \<open>One message; a status ends the call.\<close>

definition upload_step :: "file_lib \<Rightarrow> nat \<Rightarrow> upload_item \<Rightarrow> upload \<Rightarrow> world \<Rightarrow> (grpc_status option \<times> upload) \<times> world" where
  "upload_step fl maximum item u w =
     (case item of
        UploadBroken st \<Rightarrow> ((Some st, u), w)
      | UploadEmpty \<Rightarrow> ((None, u), w)
      | UploadMetadata sid p \<Rightarrow>
          if up_target u \<noteq> None then ((Some (invalid_argument ''metadata may only be sent once''), u), w)
          else (case check_target (fl_text fl) sid p of
            Some st \<Rightarrow> ((Some st, u), w)
          | None \<Rightarrow>
              (case fs_write (temporary_upload fl) [] w of
                 (Inl e, w') \<Rightarrow> ((Some (internal (fl_text fl e)), u\<lparr> up_target := Some (sid, p) \<rparr>), w')
               | (Inr _, w') \<Rightarrow> ((None, u\<lparr> up_target := Some (sid, p), up_created := True \<rparr>), w')))
      | UploadChunk bytes \<Rightarrow>
          if up_target u = None then ((Some (invalid_argument ''Metadata must be sent before chunk data.''), u), w)
          else let u' = u\<lparr> up_total := saturating_add (up_total u) (length bytes) \<rparr> in
            if up_total u' > maximum then ((Some (ResourceExhausted, ''Uploaded file is too large.''), u'), w)
            else (case fs_append (temporary_upload fl) bytes w of
              (Inl e, w') \<Rightarrow> ((Some (internal (fl_text fl e)), u'), w')
            | (Inr _, w') \<Rightarrow> ((None, u'), w')))"

text \<open>The messages of a stream in turn, until a status ends the call.\<close>

fun stream_loop :: "('i \<Rightarrow> 'u \<Rightarrow> world \<Rightarrow> (grpc_status option \<times> 'u) \<times> world) \<Rightarrow> 'i list \<Rightarrow>
    'u \<Rightarrow> world \<Rightarrow> (grpc_status option \<times> 'u) \<times> world" where
  "stream_loop step [] u w = ((None, u), w)"
| "stream_loop step (i # is) u w =
     (case step i u w of
        ((Some st, u'), w') \<Rightarrow> ((Some st, u'), w')
      | ((None, u'), w') \<Rightarrow> stream_loop step is u' w')"

definition upload_loop :: "file_lib \<Rightarrow> nat \<Rightarrow> upload_item list \<Rightarrow> upload \<Rightarrow> world \<Rightarrow> (grpc_status option \<times> upload) \<times> world" where
  "upload_loop fl maximum = stream_loop (upload_step fl maximum)"

text \<open>@TemporaryUpload::drop@, whenever the call returns.\<close>

definition drop_upload :: "file_lib \<Rightarrow> upload \<Rightarrow> world \<Rightarrow> world" where
  "drop_upload fl u w = (if up_created u then snd (io_ignore (fs_remove_file (temporary_upload fl)) w) else w)"

definition upload_file :: "file_lib \<Rightarrow> upload_item list \<Rightarrow> (world, bool \<times> string) call" where
  "upload_file fl items w =
     (case upload_loop fl (upload_maximum (fx_env (fl_files fl))) items
         \<lparr> up_target = None, up_created = False, up_total = 0 \<rparr> w of
        ((Some st, u), w1) \<Rightarrow> (Inl st, drop_upload fl u w1)
      | ((None, u), w1) \<Rightarrow>
          (case up_target u of
             None \<Rightarrow> (Inl (invalid_argument ''Upload metadata is required.''), drop_upload fl u w1)
           | Some (sid, p) \<Rightarrow>
               (case write_from_path (fl_files fl) sid p (temporary_upload fl) w1 of
                  (r, w2) \<Rightarrow> (Inr (action_result (fl_text fl) r), drop_upload fl u w2))))"

subsection \<open>Downloads\<close>

text \<open>Contents as reads into a buffer return them: at least a byte, at most the buffer.\<close>

function read_pieces :: "(nat \<Rightarrow> nat) \<Rightarrow> nat \<Rightarrow> nat \<Rightarrow> string \<Rightarrow> string list" where
  "read_pieces reads buffer i s =
     (if s = [] then []
      else take (max 1 (min (reads i) buffer)) s # read_pieces reads buffer (Suc i) (drop (max 1 (min (reads i) buffer)) s))"
  by pat_completeness auto
termination
  by (relation "measure (\<lambda>(reads, buffer, i, s). length s)") auto

declare read_pieces.simps [simp del]

definition DOWNLOAD_BUFFER :: nat where "DOWNLOAD_BUFFER = 81920"

text \<open>The messages of a download, and the status that ends it when it fails.\<close>

definition download_source :: "file_lib \<Rightarrow> read_source \<Rightarrow> world \<Rightarrow> (string list \<times> grpc_status option) \<times> world" where
  "download_source fl src w =
     (case src of
        HostSource p \<Rightarrow>
          (case fs_read p w of
             (Inl e, w') \<Rightarrow> (([], Some (internal (fl_text fl e))), w')
           | (Inr c, w') \<Rightarrow> ((read_pieces (fl_reads fl) DOWNLOAD_BUFFER 0 c, None), w'))
      | ContainerSource sid p \<Rightarrow>
          (case perform (h_spawn (fx_host_programs (fl_files fl))) (Spawn [''docker'', ''exec'', sid, ''cat'', ''--'', p] [] []) w of
             (Inl k, w') \<Rightarrow> (([], Some (internal (fl_text fl (Io k)))), w')
           | (Inr proc, w') \<Rightarrow>
               ((read_pieces (fl_reads fl) DOWNLOAD_BUFFER 0 (proc_stdout proc),
                 if proc_success proc then None
                 else Some (internal (''Docker download stream exited with status '' @ status_text proc))), w')))"

definition download_file_call :: "file_lib \<Rightarrow> string \<Rightarrow> string \<Rightarrow> (world, string list \<times> grpc_status option) call" where
  "download_file_call fl sid p =
     attempt_call (\<lambda>e. internal (fl_text fl e)) (read_source_of (fl_files fl) sid p)
       (\<lambda>src w. case download_source fl src w of (r, w') \<Rightarrow> (Inr r, w'))"

subsection \<open>The other calls\<close>

definition delete_call :: "file_lib \<Rightarrow> string \<Rightarrow> string \<Rightarrow> (world, bool \<times> string) call" where
  "delete_call fl sid p = file_action fl (delete_file (fl_files fl) sid p)"

definition list_directory :: "file_lib \<Rightarrow> string \<Rightarrow> string \<Rightarrow> (world, item list) call" where
  "list_directory fl sid p =
     attempt_call (\<lambda>e. internal (fl_text fl e)) (list_files (fl_files fl) sid p) (\<lambda>items w. (Inr items, w))"

definition file_read_status :: "file_lib \<Rightarrow> error \<Rightarrow> grpc_status" where
  "file_read_status fl e =
     (let message = fl_text fl e in
      if str_contains ''File is too large to read into memory'' message then (ResourceExhausted, message)
      else internal message)"

definition read_file_content :: "file_lib \<Rightarrow> string \<Rightarrow> string \<Rightarrow> (world, string) call" where
  "read_file_content fl sid p =
     attempt_call (file_read_status fl) (read_limited (fl_files fl) (fl_dir_len fl) sid p (5 * 1024 * 1024))
       (\<lambda>d w. (if valid_utf8 d then Inr d else Inl (invalid_argument ''File is not valid UTF-8''), w))"

definition write_file_content :: "file_lib \<Rightarrow> string \<Rightarrow> string \<Rightarrow> string \<Rightarrow> (world, bool \<times> string) call" where
  "write_file_content fl sid p c = file_action fl (write_file (fl_files fl) sid p c)"

definition rename_call :: "file_lib \<Rightarrow> string \<Rightarrow> string \<Rightarrow> string \<Rightarrow> (world, bool \<times> string) call" where
  "rename_call fl sid p n = file_action fl (rename_file (fl_files fl) sid p n)"

definition create_directory_call :: "file_lib \<Rightarrow> string \<Rightarrow> string \<Rightarrow> (world, bool \<times> string) call" where
  "create_directory_call fl sid p = file_action fl (create_directory (fl_files fl) sid p)"

definition move_files_call :: "file_lib \<Rightarrow> string \<Rightarrow> string list \<Rightarrow> string \<Rightarrow> (world, bool \<times> string) call" where
  "move_files_call fl sid sources d = file_action fl (move_files (fl_files fl) sid sources d)"

definition create_archive_call :: "file_lib \<Rightarrow> string \<Rightarrow> string list \<Rightarrow> string \<Rightarrow> (world, bool \<times> string) call" where
  "create_archive_call fl sid sources d = file_action fl (create_archive (fl_files fl) sid sources d)"

definition extract_archive_call :: "file_lib \<Rightarrow> string \<Rightarrow> string \<Rightarrow> string \<Rightarrow> (world, bool \<times> string) call" where
  "extract_archive_call fl sid p d = file_action fl (extract_archive (fl_files fl) sid p d)"

definition install_modpack_call :: "file_lib \<Rightarrow> string \<Rightarrow> string \<Rightarrow> (world, bool \<times> string) call" where
  "install_modpack_call fl sid p = file_action fl (install_mrpack (fl_pack fl) (fl_files fl) sid p)"

end
