(* ===== verification/Transfers.thy ===== *)
theory Transfers
  imports File_Service
begin

text \<open>
  @grpc/services/transfer.rs@ and @grpc/services/backup.rs@: moving a server or its local
  backups to another node as an archive, and the calls of the backup service.
\<close>

subsection \<open>Parameters\<close>

text \<open>
  What backups depend on, random and dated parts of names, the time as text, how
  many bytes each read returns, and the text of an I/O error.
\<close>

record transfer_lib =
  tr_backup :: backup_lib
  tr_s3 :: s3_store
  tr_uuid :: "nat \<Rightarrow> string"
  tr_backup_id :: string
  tr_now :: string
  tr_nonce :: string
  tr_reads :: "nat \<Rightarrow> nat"
  tr_io_text :: "io_kind \<Rightarrow> string"

definition tr_text :: "transfer_lib \<Rightarrow> error \<Rightarrow> string" where "tr_text tx = error_display (tr_io_text tx)"

definition tr_internal :: "transfer_lib \<Rightarrow> error \<Rightarrow> grpc_status" where
  "tr_internal tx e = internal (tr_text tx e)"

text \<open>@enum TransferPayload@ of the protocol.\<close>

definition SERVER_DATA :: int where "SERVER_DATA = 0"
definition LOCAL_BACKUPS :: int where "LOCAL_BACKUPS = 1"

subsection \<open>Streams of a file\<close>

text \<open>
  The part of a stream after its first message, when the client polls it so many times more and
  then drops it: the file is opened on the first of these polls, and removed on the one after
  its last piece.
\<close>

definition stream_file :: "transfer_lib \<Rightarrow> nat \<Rightarrow> bool \<Rightarrow> path \<Rightarrow> nat \<Rightarrow> world \<Rightarrow> (string list \<times> grpc_status option) \<times> world" where
  "stream_file tx buffer temporary p polls w =
     (if polls = 0 then (([], None), w)
      else case fs_read p w of
        (Inl e, w') \<Rightarrow> (([], Some (tr_internal tx e)), w')
      | (Inr c, w') \<Rightarrow>
          let pieces = read_pieces (tr_reads tx) buffer 0 c in
          if polls \<le> length pieces then ((take polls pieces, None), w')
          else ((pieces, None), if temporary then snd (io_ignore (fs_remove_file p) w') else w'))"

subsection \<open>Export\<close>

datatype export_message = ExportInfo string int int | ExportChunk string

definition EXPORT_BUFFER :: nat where "EXPORT_BUFFER = 81920"

definition export_stream :: "transfer_lib \<Rightarrow> string \<Rightarrow> int \<Rightarrow> path option \<Rightarrow> int \<Rightarrow> nat \<Rightarrow> world \<Rightarrow>
    (export_message list \<times> grpc_status option) \<times> world" where
  "export_stream tx sid payload archive size_bytes polls w =
     (if polls = 0 then (([], None), w)
      else case archive of
        None \<Rightarrow> (([ExportInfo sid size_bytes payload], None), w)
      | Some p \<Rightarrow>
          (case stream_file tx EXPORT_BUFFER True p (polls - 1) w of
             ((pieces, st), w') \<Rightarrow> ((ExportInfo sid size_bytes payload # map ExportChunk pieces, st), w')))"

text \<open>The archive to send, if there is something to send.\<close>

definition export_archive :: "transfer_lib \<Rightarrow> string \<Rightarrow> int \<Rightarrow> path option io" where
  "export_archive tx sid payload =
     (if payload = LOCAL_BACKUPS then temporary_backups (tr_backup tx) (tr_now tx) sid
      else io_bind (temporary_server (tr_backup tx) (tr_now tx) sid) (\<lambda>p. io_return (Some p)))"

definition export_size :: "transfer_lib \<Rightarrow> path option \<Rightarrow> int io" where
  "export_size tx archive =
     (case archive of
        Some p \<Rightarrow> io_bind (fs_metadata p) (\<lambda>n. io_return (Files.as_i64 (node_len (bx_dir_len (tr_backup tx)) n)))
      | None \<Rightarrow> io_return 0)"

definition export_server :: "docker_lib \<Rightarrow> transfer_lib \<Rightarrow> string \<Rightarrow> int \<Rightarrow> nat \<Rightarrow> (agent, export_message list \<times> grpc_status option) call" where
  "export_server dl tx sid payload polls =
     attempt_call (tr_internal tx) (if payload = SERVER_DATA then stop_server dl sid else io_return ()) (\<lambda>_.
     attempt_call (tr_internal tx) (on_world (export_archive tx sid payload)) (\<lambda>archive.
     attempt_call (tr_internal tx) (on_world (export_size tx archive)) (\<lambda>size_bytes.
     attempt_call (tr_internal tx)
       (on_world (\<lambda>w. case export_stream tx sid payload archive size_bytes polls w of (x, w') \<Rightarrow> (Ok x, w')))
       (\<lambda>x a. (Inr x, a)))))"

subsection \<open>Import\<close>

record import_metadata =
  im_server_id :: string
  im_payload :: int
  im_size :: int

datatype import_item = ImportBroken grpc_status | ImportInfo import_metadata | ImportChunk string | ImportEmpty

text \<open>The sum of the chunks' lengths stays far below @i64::MAX@, so it is an unbounded integer.\<close>

record import_state =
  is_metadata :: "import_metadata option"
  is_total :: int

definition import_path :: "transfer_lib \<Rightarrow> path" where
  "import_path tx = path_join (bx_temp (tr_backup tx)) [Normal (''agapornis-transfer-'' @ tr_uuid tx 0 @ ''.tar.gz'')]"

definition import_step :: "transfer_lib \<Rightarrow> import_item \<Rightarrow> import_state \<Rightarrow> world \<Rightarrow> (grpc_status option \<times> import_state) \<times> world" where
  "import_step tx item u w =
     (case item of
        ImportBroken st \<Rightarrow> ((Some st, u), w)
      | ImportEmpty \<Rightarrow> ((None, u), w)
      | ImportInfo m \<Rightarrow>
          if is_metadata u \<noteq> None then ((Some (invalid_argument ''Import metadata may only be sent once.''), u), w)
          else ((None, u\<lparr> is_metadata := Some m \<rparr>), w)
      | ImportChunk v \<Rightarrow>
          if is_metadata u = None then ((Some (invalid_argument ''Metadata must be sent before chunk data.''), u), w)
          else let u' = u\<lparr> is_total := is_total u + int (length v) \<rparr> in
            (case fs_append (import_path tx) v w of
               (Inl e, w') \<Rightarrow> ((Some (tr_internal tx e), u'), w')
             | (Inr _, w') \<Rightarrow> ((None, u'), w')))"

text \<open>The checks after the stream.\<close>

definition import_refusal :: "import_metadata \<Rightarrow> int \<Rightarrow> grpc_status option" where
  "import_refusal m received_bytes =
     (if im_size m \<ge> 0 \<and> im_size m \<noteq> received_bytes
      then Some (DataLoss, ''Transfer size mismatch: expected '' @ int_to_string (im_size m) @
        '' bytes, received '' @ int_to_string received_bytes @ ''.'')
      else if im_payload m = SERVER_DATA \<and> received_bytes = 0 then Some (DataLoss, ''Server data transfer was empty.'')
      else None)"

text \<open>Unpacking what was received.\<close>

definition import_archive :: "transfer_lib \<Rightarrow> import_metadata \<Rightarrow> int \<Rightarrow> unit io" where
  "import_archive tx m received_bytes =
     (if received_bytes = 0 then io_return ()
      else if im_payload m = LOCAL_BACKUPS then extract_backups (tr_backup tx) (import_path tx) (im_server_id m)
      else extract_server (tr_backup tx) (import_path tx) (im_server_id m))"

text \<open>The outcome is remembered, the file removed, and the outcome answered.\<close>

definition import_finish :: "transfer_lib \<Rightarrow> import_metadata \<Rightarrow> int \<Rightarrow> (world, bool \<times> string) call" where
  "import_finish tx m received_bytes =
     answer (io_bind (io_try (import_archive tx m received_bytes)) (\<lambda>r.
       io_bind (io_ignore (fs_remove_file (import_path tx))) (\<lambda>_. io_lift r))) (action_result (tr_text tx))"

definition import_server :: "transfer_lib \<Rightarrow> import_item list \<Rightarrow> (world, bool \<times> string) call" where
  "import_server tx items =
     attempt_call (tr_internal tx) (fs_write (import_path tx) []) (\<lambda>_ w1.
       case stream_loop (import_step tx) items \<lparr> is_metadata = None, is_total = 0 \<rparr> w1 of
         ((Some st, u), w2) \<Rightarrow> (Inl st, w2)
       | ((None, u), w2) \<Rightarrow>
           (case is_metadata u of
              None \<Rightarrow> (Inl (invalid_argument ''Import metadata is required.''), w2)
            | Some m \<Rightarrow>
                (case import_refusal m (is_total u) of
                   Some st \<Rightarrow> (Inl st, w2)
                 | None \<Rightarrow> import_finish tx m (is_total u) w2)))"

definition delete_local_backups :: "transfer_lib \<Rightarrow> string \<Rightarrow> (world, server_action_response) call" where
  "delete_local_backups tx sid = answer (delete_local (tr_backup tx) sid) (action (tr_text tx))"

subsection \<open>The backup service\<close>

record create_backup_response =
  cb_success :: bool
  cb_backup_id :: string
  cb_error_message :: string
  cb_size_bytes :: int
  cb_checksum_sha256 :: string
  cb_checksum_type :: string
  cb_storage :: string
  cb_encrypted :: bool

definition created_backup :: "transfer_lib \<Rightarrow> backup_info res \<Rightarrow> create_backup_response" where
  "created_backup tx r =
     (case r of
        Inr v \<Rightarrow> \<lparr> cb_success = True, cb_backup_id = bi_backup_id v, cb_error_message = [],
          cb_size_bytes = bi_size_bytes v, cb_checksum_sha256 = bi_checksum_sha256 v,
          cb_checksum_type = bi_checksum_type v, cb_storage = bi_storage v, cb_encrypted = bi_encrypted v \<rparr>
      | Inl e \<Rightarrow> \<lparr> cb_success = False, cb_backup_id = [], cb_error_message = tr_text tx e, cb_size_bytes = 0,
          cb_checksum_sha256 = [], cb_checksum_type = [], cb_storage = [], cb_encrypted = False \<rparr>)"

definition create_backup_call :: "transfer_lib \<Rightarrow> string \<Rightarrow> string \<Rightarrow> int \<Rightarrow> bool \<Rightarrow> (world, create_backup_response) call" where
  "create_backup_call tx sid storage retention encrypt =
     answer (create_backup (tr_backup tx) (tr_s3 tx) (tr_backup_id tx) (tr_now tx) (tr_uuid tx 0) (tr_uuid tx 1) sid
       (storage_name storage) retention encrypt (tr_nonce tx)) (created_backup tx)"

record backup_entry =
  be_backup_id :: string
  be_size_bytes :: int
  be_created_at :: string
  be_checksum_sha256 :: string
  be_checksum_type :: string
  be_storage :: string
  be_encrypted :: bool
  be_last_verified_at :: string
  be_expires_at :: string

definition backup_entry_of :: "backup_info \<Rightarrow> backup_entry" where
  "backup_entry_of v =
     (let text_of = (\<lambda>t. case t of Some s \<Rightarrow> s | None \<Rightarrow> []) in
      \<lparr> be_backup_id = bi_backup_id v, be_size_bytes = bi_size_bytes v, be_created_at = bi_created_at v,
        be_checksum_sha256 = bi_checksum_sha256 v, be_checksum_type = bi_checksum_type v, be_storage = bi_storage v,
        be_encrypted = bi_encrypted v, be_last_verified_at = text_of (bi_last_verified_at v),
        be_expires_at = text_of (bi_expires_at v) \<rparr>)"

definition list_backups_call :: "transfer_lib \<Rightarrow> string \<Rightarrow> bool \<Rightarrow> (world, backup_entry list) call" where
  "list_backups_call tx sid include_remote =
     attempt_call (tr_internal tx) (list_backups (tr_backup tx) (tr_s3 tx) sid include_remote)
       (\<lambda>infos w. (Inr (map backup_entry_of infos), w))"

definition delete_backup_call :: "transfer_lib \<Rightarrow> string \<Rightarrow> string \<Rightarrow> string \<Rightarrow> (world, bool \<times> string) call" where
  "delete_backup_call tx sid bid storage =
     answer (delete_backup (tr_backup tx) (tr_s3 tx) sid bid (storage_name storage)) (action_result (tr_text tx))"

text \<open>An empty checksum in the request is none.\<close>

definition restore_backup_call :: "transfer_lib \<Rightarrow> string \<Rightarrow> string \<Rightarrow> string \<Rightarrow> string \<Rightarrow> (world, bool \<times> string) call" where
  "restore_backup_call tx sid bid storage expected =
     answer (restore_backup (tr_backup tx) (tr_s3 tx) (tr_uuid tx 0) (tr_uuid tx 1) sid bid (storage_name storage)
       (if expected \<noteq> [] then Some expected else None)) (action_result (tr_text tx))"

datatype download_message = DownloadInfo string int string string | DownloadChunk string

definition BACKUP_BUFFER :: nat where "BACKUP_BUFFER = 1024 * 1024"

definition download_backup_call :: "transfer_lib \<Rightarrow> string \<Rightarrow> string \<Rightarrow> string \<Rightarrow> nat \<Rightarrow>
    (world, download_message list \<times> grpc_status option) call" where
  "download_backup_call tx sid bid storage polls =
     attempt_call (tr_internal tx) (prepare_download (tr_backup tx) (tr_s3 tx) (tr_uuid tx 0) sid bid (storage_name storage))
       (\<lambda>(p, info, temporary) w.
          if polls = 0 then (Inr ([], None), w)
          else case stream_file tx BACKUP_BUFFER temporary p (polls - 1) w of
            ((pieces, st), w') \<Rightarrow>
              (Inr (DownloadInfo (bi_backup_id info) (bi_size_bytes info) (bi_checksum_sha256 info) (bi_checksum_type info) #
                 map DownloadChunk pieces, st), w'))"

definition verify_backup_call :: "transfer_lib \<Rightarrow> string \<Rightarrow> string \<Rightarrow> string \<Rightarrow> (world, bool \<times> string) call" where
  "verify_backup_call tx sid bid storage =
     answer (verify_inner (tr_backup tx) (tr_s3 tx) (tr_uuid tx 0) (tr_uuid tx 1) (tr_now tx) sid bid (storage_name storage))
       (action_result (tr_text tx))"

end
