(* ===== verification/Transfer_Safety.thy ===== *)
theory Transfer_Safety
  imports Transfers Temporary_Place
begin

text \<open>
  What uploads and transfers promise: a stream is received into a temporary file, and only a
  stream that was received completely is handed on.
\<close>

subsection \<open>Receiving a stream\<close>

text \<open>
  A handler of messages: @good@ relates its state to the messages it accepted, @refused@ is what
  holds when it ends the call.
\<close>

locale stream_receiver =
  fixes step :: "'i \<Rightarrow> 'u \<Rightarrow> world \<Rightarrow> (grpc_status option \<times> 'u) \<times> world"
    and good :: "'u \<Rightarrow> 'i list \<Rightarrow> world \<Rightarrow> bool" and refused :: "'u \<Rightarrow> world \<Rightarrow> bool"
  assumes accepts: "good u seen w \<Longrightarrow> step i u w = ((None, u'), w') \<Longrightarrow> good u' (seen @ [i]) w'"
    and refuses: "good u seen w \<Longrightarrow> step i u w = ((Some st, u'), w') \<Longrightarrow> refused u' w'"
begin

lemma stream_ends:
  assumes "good u seen w" "stream_loop step items u w = ((st, u'), w')"
  shows "case st of None \<Rightarrow> good u' (seen @ items) w' | Some _ \<Rightarrow> refused u' w'"
  using assms
proof (induction items arbitrary: u seen w)
  case (Cons i items)
  obtain s1 u1 w1 where s: "step i u w = ((s1, u1), w1)" by (metis prod.collapse)
  show ?case
  proof (cases s1)
    case None
    have "good u1 (seen @ [i]) w1" using accepts [OF Cons.prems(1)] s None by simp
    then show ?thesis using Cons.IH [of u1 "seen @ [i]" w1] Cons.prems(2) s None by (cases st) simp_all
  next
    case (Some x)
    then show ?thesis using refuses [OF Cons.prems(1)] Cons.prems(2) s by (cases x) auto
  qed
qed auto

end

text \<open>Trees that differ from @t0@ at most at the temporary file.\<close>

definition only_temporary :: "string list \<Rightarrow> string \<Rightarrow> node \<Rightarrow> node \<Rightarrow> bool" where
  "only_temporary b y t0 t \<longleftrightarrow> real_dir t b \<and> changes_only b {y} t0 t"

interpretation received_file: temporary_place "only_temporary b y t0" b y for b y t0
proof
  fix t v assume t: "only_temporary b y t0 t"
  then show "real_dir t b" by (simp add: only_temporary_def)
  show "only_temporary b y t0 (put (b @ [y]) v t)"
    using t real_dir_put changes_trans changes_put [of y "{y}" b t "[]" v] unfolding only_temporary_def by blast
qed

lemma only_temporary_start: "real_dir (w_root w) b \<Longrightarrow> w_trace w = [] \<Longrightarrow> all_trees (only_temporary b y (w_root w)) w"
  by (simp add: all_trees_def only_temporary_def)

abbreviation (input) no_link :: "string list \<Rightarrow> string \<Rightarrow> world \<Rightarrow> bool" where
  "no_link b y w \<equiv> \<forall>s. lookup (w_root w) (b @ [y]) \<noteq> Some (Symlink s)"

subsection \<open>Uploads\<close>

definition uploaded_bytes :: "upload_item list \<Rightarrow> string" where
  "uploaded_bytes items = concat (map (\<lambda>i. case i of UploadChunk c \<Rightarrow> c | _ \<Rightarrow> []) items)"

definition uploaded_targets :: "upload_item list \<Rightarrow> (string \<times> string) list" where
  "uploaded_targets items = concat (map (\<lambda>i. case i of UploadMetadata sid p \<Rightarrow> [(sid, p)] | _ \<Rightarrow> []) items)"

lemma uploaded_snoc [simp]:
  "uploaded_bytes (is @ [i]) = uploaded_bytes is @ (case i of UploadChunk c \<Rightarrow> c | _ \<Rightarrow> [])"
  "uploaded_targets (is @ [i]) = uploaded_targets is @ (case i of UploadMetadata sid p \<Rightarrow> [(sid, p)] | _ \<Rightarrow> [])"
  by (simp_all add: uploaded_bytes_def uploaded_targets_def)

text \<open>The state of an upload after some messages.\<close>

definition upload_good :: "file_lib \<Rightarrow> nat \<Rightarrow> string list \<Rightarrow> string \<Rightarrow> node \<Rightarrow> upload \<Rightarrow> upload_item list \<Rightarrow> world \<Rightarrow> bool" where
  "upload_good fx maximum b y t0 u seen w \<longleftrightarrow>
     temporary_upload fx = abs_path (b @ [y]) \<and> all_trees (only_temporary b y t0) w \<and> up_total u \<le> maximum \<and>
     up_total u = min usize_max (length (uploaded_bytes seen)) \<and>
     (case up_target u of
        None \<Rightarrow> uploaded_targets seen = [] \<and> \<not> up_created u \<and> uploaded_bytes seen = [] \<and> no_link b y w
      | Some t \<Rightarrow> uploaded_targets seen = [t] \<and> up_created u \<and> holds_text b y (uploaded_bytes seen) w)"

definition upload_refused :: "file_lib \<Rightarrow> string list \<Rightarrow> string \<Rightarrow> node \<Rightarrow> upload \<Rightarrow> world \<Rightarrow> bool" where
  "upload_refused fx b y t0 u w \<longleftrightarrow> temporary_upload fx = abs_path (b @ [y]) \<and> all_trees (only_temporary b y t0) w"

lemma upload_write:
  assumes "upload_good fx maximum b y t0 u seen w" "up_target u = None"
    "fs_write (temporary_upload fx) [] w = (r, w')"
  shows "all_trees (only_temporary b y t0) w' \<and> (r = Inr () \<longrightarrow> holds_text b y [] w')"
  using tripleD [OF received_file.place_write [of b y t0 "[]"], of w r w'] assms by (auto simp: upload_good_def)

lemma upload_append:
  assumes "upload_good fx maximum b y t0 u seen w" "up_target u = Some t"
    "fs_append (temporary_upload fx) c w = (r, w')"
  shows "all_trees (only_temporary b y t0) w' \<and> (r = Inr () \<longrightarrow> holds_text b y (uploaded_bytes seen @ c) w')"
  using tripleD [OF received_file.place_append [of b y t0 "uploaded_bytes seen" c], of w r w'] assms by (auto simp: upload_good_def)

interpretation uploading: stream_receiver "upload_step fx maximum" "upload_good fx maximum b y t0" "upload_refused fx b y t0"
  for fx maximum b y t0
proof
  fix u seen w i u' w'
  assume g: "upload_good fx maximum b y t0 u seen w"
  show "upload_good fx maximum b y t0 u' (seen @ [i]) w'" if s: "upload_step fx maximum i u w = ((None, u'), w')"
  proof (cases i)
    case (UploadMetadata sid p)
    then show ?thesis
      using s g upload_write [OF g]
      by (auto simp: upload_step_def upload_good_def split: if_splits option.splits prod.splits sum.splits)
  next
    case (UploadChunk c)
    then obtain t where t: "up_target u = Some t" using s by (cases "up_target u") (auto simp: upload_step_def)
    show ?thesis
      using UploadChunk s g t upload_append [OF g t]
      by (auto simp: upload_step_def upload_good_def saturating_add_def Let_def split: if_splits prod.splits sum.splits)
  qed (use s g in \<open>auto simp: upload_step_def upload_good_def split: option.splits\<close>)
  show "upload_refused fx b y t0 u' w'" if s: "upload_step fx maximum i u w = ((Some st, u'), w')" for st
  proof (cases i)
    case (UploadMetadata sid p)
    then show ?thesis
      using s g upload_write [OF g]
      by (auto simp: upload_step_def upload_good_def upload_refused_def split: if_splits option.splits prod.splits sum.splits)
  next
    case (UploadChunk c)
    then show ?thesis
      using s g upload_append [OF g]
      by (auto simp: upload_step_def upload_good_def upload_refused_def Let_def split: if_splits option.splits prod.splits sum.splits)
  qed (use s g in \<open>auto simp: upload_step_def upload_good_def upload_refused_def\<close>)
qed

lemma upload_dropped:
  assumes "upload_refused fx b y t0 u w"
  shows "all_trees (only_temporary b y t0) (drop_upload fx u w)"
proof -
  have "all_trees (only_temporary b y t0) (snd (io_ignore (fs_remove_file (abs_path (b @ [y]))) w))"
    using tripleD [OF received_file.place_remove [of b y t0 "\<lambda>_. True"], of w] assms
    by (metis (no_types, lifting) prod.collapse upload_refused_def)
  then show ?thesis using assms by (simp add: drop_upload_def upload_refused_def)
qed

lemma only_temporary_trees:
  "all_trees (only_temporary b y t0) w \<Longrightarrow> list_all (changes_only b {y} t0) (w_root w # w_trace w)"
  by (auto simp: all_trees_def only_temporary_def list_all_iff)

text \<open>C38: whatever the client sends and whatever fails, an upload that ends with a status changed
  nothing but its temporary file; and one that is answered received exactly one target first, then
  bytes within the limit, and wrote exactly these to the server, with one removal afterwards.\<close>

theorem upload_all_or_nothing:
  assumes "temporary_upload fx = abs_path (b @ [y])" "real_dir (w_root w) b" "w_trace w = []"
    and "\<forall>s. lookup (w_root w) (b @ [y]) \<noteq> Some (Symlink s)"
    and "upload_file fx items w = (ans, w')"
  shows "case ans of
     Inl st \<Rightarrow> list_all (changes_only b {y} (w_root w)) (w_root w' # w_trace w')
   | Inr a \<Rightarrow> \<exists>sid p r w1 w2. uploaded_targets items = [(sid, p)] \<and>
       min usize_max (length (uploaded_bytes items)) \<le> upload_maximum (fx_env (fl_files fx)) \<and>
       lookup (w_root w1) (b @ [y]) = Some (RegFile (uploaded_bytes items)) \<and> changes_only b {y} (w_root w) (w_root w1) \<and>
       write_from_path (fl_files fx) sid p (abs_path (b @ [y])) w1 = (r, w2) \<and> a = action_result (fl_text fx) r \<and>
       w' = snd (io_ignore (fs_remove_file (abs_path (b @ [y]))) w2)"
proof -
  let ?max = "upload_maximum (fx_env (fl_files fx))" and ?u = "\<lparr> up_target = None, up_created = False, up_total = 0 \<rparr>"
  have g: "upload_good fx ?max b y (w_root w) ?u [] w"
    using assms(1-4) only_temporary_start by (auto simp: upload_good_def uploaded_bytes_def uploaded_targets_def)
  obtain st u w1 where l: "upload_loop fx ?max items ?u w = ((st, u), w1)" by (metis prod.collapse)
  note e = uploading.stream_ends [OF g, of items st u w1]
  show ?thesis
  proof (cases st)
    case (Some x)
    then have "upload_refused fx b y (w_root w) u w1" using e l by (simp add: upload_loop_def)
    then show ?thesis
      using assms(5) l Some only_temporary_trees [OF upload_dropped] by (auto simp: upload_file_def)
  next
    case None
    then have h: "upload_good fx ?max b y (w_root w) u items w1" using e l by (simp add: upload_loop_def)
    then have d: "upload_refused fx b y (w_root w) u w1" by (simp add: upload_good_def upload_refused_def)
    show ?thesis
    proof (cases "up_target u")
      case None': None
      then show ?thesis
        using assms(5) l None only_temporary_trees [OF upload_dropped [OF d]] by (auto simp: upload_file_def)
    next
      case (Some t)
      obtain sid p where t: "t = (sid, p)" by (cases t)
      obtain r w2 where r: "write_from_path (fl_files fx) sid p (temporary_upload fx) w1 = (r, w2)" by (metis prod.collapse)
      have "ans = Inr (action_result (fl_text fx) r)" "w' = drop_upload fx u w2"
        using assms(5) l None Some t r by (auto simp: upload_file_def)
      then show ?thesis
        using h Some t r assms(1)
        by (auto simp: upload_good_def drop_upload_def all_trees_def only_temporary_def)
    qed
  qed
qed

subsection \<open>Imports\<close>

definition imported_bytes :: "import_item list \<Rightarrow> string" where
  "imported_bytes items = concat (map (\<lambda>i. case i of ImportChunk c \<Rightarrow> c | _ \<Rightarrow> []) items)"

definition imported_infos :: "import_item list \<Rightarrow> import_metadata list" where
  "imported_infos items = concat (map (\<lambda>i. case i of ImportInfo m \<Rightarrow> [m] | _ \<Rightarrow> []) items)"

lemma imported_snoc [simp]:
  "imported_bytes (is @ [i]) = imported_bytes is @ (case i of ImportChunk c \<Rightarrow> c | _ \<Rightarrow> [])"
  "imported_infos (is @ [i]) = imported_infos is @ (case i of ImportInfo m \<Rightarrow> [m] | _ \<Rightarrow> [])"
  by (simp_all add: imported_bytes_def imported_infos_def)

definition import_good :: "transfer_lib \<Rightarrow> string list \<Rightarrow> string \<Rightarrow> node \<Rightarrow> import_state \<Rightarrow> import_item list \<Rightarrow> world \<Rightarrow> bool" where
  "import_good tx b y t0 u seen w \<longleftrightarrow>
     import_path tx = abs_path (b @ [y]) \<and> all_trees (only_temporary b y t0) w \<and>
     holds_text b y (imported_bytes seen) w \<and> is_total u = int (length (imported_bytes seen)) \<and>
     imported_infos seen = (case is_metadata u of None \<Rightarrow> [] | Some m \<Rightarrow> [m])"

definition import_refused :: "string list \<Rightarrow> string \<Rightarrow> node \<Rightarrow> import_state \<Rightarrow> world \<Rightarrow> bool" where
  "import_refused b y t0 u w \<longleftrightarrow> all_trees (only_temporary b y t0) w \<and> (\<exists>c. holds_text b y c w)"

lemma import_good_refused: "import_good tx b y t0 u seen w \<Longrightarrow> import_refused b y t0 u' w"
  by (auto simp: import_good_def import_refused_def)

lemma import_append:
  assumes "import_good tx b y t0 u seen w" "fs_append (import_path tx) c w = (r, w')"
  shows "import_refused b y t0 u' w' \<and> (r = Inr () \<longrightarrow> holds_text b y (imported_bytes seen @ c) w')"
proof -
  have a: "fs_append (abs_path (b @ [y])) c w = (r, w')" "holds_text b y (imported_bytes seen) w"
    "all_trees (only_temporary b y t0) w"
    using assms by (simp_all add: import_good_def)
  moreover have "only_temporary b y t0 (w_root w)" using a(3) by (simp add: all_trees_def)
  ultimately show ?thesis
    using tripleD [OF received_file.place_append [of b y t0 "imported_bytes seen" c], of w r w']
      received_file.place_append_keeps [of b y t0 w "imported_bytes seen" c r w']
    by (auto simp: import_refused_def)
qed

interpretation importing: stream_receiver "import_step tx" "import_good tx b y t0" "import_refused b y t0"
  for tx b y t0
proof
  fix u seen w i u' w'
  assume g: "import_good tx b y t0 u seen w"
  show "import_good tx b y t0 u' (seen @ [i]) w'" if s: "import_step tx i u w = ((None, u'), w')"
  proof (cases i)
    case (ImportChunk c)
    then show ?thesis
      using s g import_append [OF g]
      by (auto simp: import_step_def import_good_def import_refused_def Let_def
          split: if_splits prod.splits sum.splits option.splits)
  qed (use s g in \<open>auto simp: import_step_def import_good_def split: if_splits option.splits\<close>)
  show "import_refused b y t0 u' w'" if s: "import_step tx i u w = ((Some st, u'), w')" for st
  proof (cases i)
    case (ImportChunk c)
    then show ?thesis
      using s import_good_refused [OF g] import_append [OF g]
      by (auto simp: import_step_def Let_def split: if_splits prod.splits sum.splits)
  qed (use s import_good_refused [OF g] in \<open>auto simp: import_step_def split: if_splits\<close>)
qed

text \<open>Lemma: an import that is answered received its metadata exactly once and, unless the size was left
  open, exactly as many bytes as announced; what it unpacked is a file of exactly these bytes, and
  nothing else had changed before.  A refused import changed at most its temporary file.\<close>

theorem import_all_or_nothing:
  assumes "import_path tx = abs_path (b @ [y])" "real_dir (w_root w) b" "w_trace w = []"
    and "\<forall>s. lookup (w_root w) (b @ [y]) \<noteq> Some (Symlink s)"
    and "import_server tx items w = (ans, w')"
  shows "case ans of
     Inl st \<Rightarrow> list_all (changes_only b {y} (w_root w)) (w_root w' # w_trace w')
   | Inr a \<Rightarrow> \<exists>m r w1 w2. imported_infos items = [m] \<and>
       (im_size m < 0 \<or> im_size m = int (length (imported_bytes items))) \<and>
       (im_payload m \<noteq> SERVER_DATA \<or> imported_bytes items \<noteq> []) \<and>
       lookup (w_root w1) (b @ [y]) = Some (RegFile (imported_bytes items)) \<and> changes_only b {y} (w_root w) (w_root w1) \<and>
       import_archive tx m (int (length (imported_bytes items))) w1 = (r, w2) \<and> a = action_result (tr_text tx) r \<and>
       w' = snd (io_ignore (fs_remove_file (abs_path (b @ [y]))) w2)"
proof -
  let ?t = "w_root w" and ?u = "\<lparr> is_metadata = None, is_total = 0 \<rparr>"
  obtain r0 w0 where 0: "fs_write (import_path tx) [] w = (r0, w0)" by (metis prod.collapse)
  have a0: "all_trees (only_temporary b y ?t) w0" "r0 = Inr () \<Longrightarrow> holds_text b y [] w0"
    using tripleD [OF received_file.place_write [of b y ?t "[]"], of w r0 w0] 0 assms(1-4) only_temporary_start by auto
  show ?thesis
  proof (cases r0)
    case (Inl e)
    then show ?thesis using assms(5) 0 only_temporary_trees [OF a0(1)] by (auto simp: import_server_def attempt_call_def)
  next
    case (Inr x)
    then have g: "import_good tx b y ?t ?u [] w0"
      using a0 assms(1) by (simp add: import_good_def imported_bytes_def imported_infos_def)
    obtain st u w1 where l: "stream_loop (import_step tx) items ?u w0 = ((st, u), w1)" by (metis prod.collapse)
    note e = importing.stream_ends [OF g l]
    have trees: "list_all (changes_only b {y} ?t) (w_root w1 # w_trace w1)"
      using e import_good_refused by (intro only_temporary_trees) (auto simp: import_refused_def import_good_def split: option.splits)
    show ?thesis
    proof (cases "st = None \<and> is_metadata u \<noteq> None \<and> import_refusal (the (is_metadata u)) (is_total u) = None")
      case False
      then have "ans = Inl z \<and> w' = w1" if "ans = Inl z" for z
        using that assms(5) 0 Inr l by (auto simp: import_server_def attempt_call_def import_finish_def answer_def split: option.splits prod.splits)
      moreover have "\<exists>z. ans = Inl z"
        using False assms(5) 0 Inr l by (cases st) (auto simp: import_server_def attempt_call_def split: option.splits)
      ultimately show ?thesis using trees by auto
    next
      case True
      then obtain m where m: "is_metadata u = Some m" "import_refusal m (is_total u) = None" "st = None" by auto
      then have h: "import_good tx b y ?t u items w1" using e by simp
      obtain r w2 where r: "import_archive tx m (is_total u) w1 = (r, w2)" by (metis prod.collapse)
      have "ans = Inr (action_result (tr_text tx) r)" "w' = snd (io_ignore (fs_remove_file (import_path tx)) w2)"
        using assms(5) 0 Inr l m r
        by (auto simp: import_server_def attempt_call_def import_finish_def answer_def io_bind_def io_try_def io_lift_def io_ignore_def)
      then show ?thesis
        using h m r trees by (auto simp: import_good_def import_refusal_def split: if_splits)
    qed
  qed
qed

text \<open>Lemma: an import that is refused after its temporary file was created, by the client's messages
  or by the checks after them, leaves this file behind.\<close>

theorem refused_import_leaves_file:
  assumes "import_path tx = abs_path (b @ [y])" "real_dir (w_root w) b" "w_trace w = []"
    and "\<forall>s. lookup (w_root w) (b @ [y]) \<noteq> Some (Symlink s)"
    and "import_server tx items w = (Inl st, w')" "is_ok (fst (fs_write (import_path tx) [] w))"
  shows "\<exists>c. lookup (w_root w') (b @ [y]) = Some (RegFile c)"
proof -
  let ?t = "w_root w" and ?u = "\<lparr> is_metadata = None, is_total = 0 \<rparr>"
  obtain w0 where 0: "fs_write (import_path tx) [] w = (Inr (), w0)"
    using assms(6) by (metis (full_types) is_ok_iff old.unit.exhaust prod.collapse)
  have g: "import_good tx b y ?t ?u [] w0"
    using tripleD [OF received_file.place_write [of b y ?t "[]"], of w "Inr ()" w0] 0 assms(1-4) only_temporary_start
    by (auto simp: import_good_def imported_bytes_def imported_infos_def)
  obtain z u w1 where l: "stream_loop (import_step tx) items ?u w0 = ((z, u), w1)" by (metis prod.collapse)
  have "import_refused b y ?t u w1"
    using importing.stream_ends [OF g l] import_good_refused by (auto split: option.splits)
  moreover have "w' = w1"
    using assms(5) 0 l by (auto simp: import_server_def attempt_call_def import_finish_def answer_def split: option.splits prod.splits)
  ultimately show ?thesis by (auto simp: import_refused_def)
qed

subsection \<open>From one node to another\<close>

lemma read_pieces_concat [simp]: "concat (read_pieces reads buffer i c) = c"
proof (induction c arbitrary: i rule: length_induct)
  case (1 c)
  then show ?case by (subst read_pieces.simps) auto
qed

lemma read_pieces_count: "length (read_pieces reads buffer i c) \<le> length c"
proof (induction c arbitrary: i rule: length_induct)
  case (1 c)
  let ?n = "max 1 (min (reads i) buffer)"
  show ?case
  proof (cases "c = []")
    case True
    then show ?thesis by (subst read_pieces.simps) simp
  next
    case False
    then have "length (drop ?n c) < length c" by simp
    from 1 [rule_format, OF this, of "Suc i"] this
    have "Suc (length (read_pieces reads buffer (Suc i) (drop ?n c))) \<le> length c" by linarith
    then show ?thesis using False by (subst read_pieces.simps) (simp del: length_drop)
  qed
qed

text \<open>What the other node receives of what one node sends.\<close>

fun forwarded :: "export_message \<Rightarrow> import_item" where
  "forwarded (ExportInfo sid n payload) = ImportInfo \<lparr> im_server_id = sid, im_payload = payload, im_size = n \<rparr>"
| "forwarded (ExportChunk c) = ImportChunk c"

lemma forwarded_stream:
  "imported_bytes (map forwarded (ExportInfo sid n payload # map ExportChunk cs)) = concat cs"
  "imported_infos (map forwarded (ExportInfo sid n payload # map ExportChunk cs)) =
    [\<lparr> im_server_id = sid, im_payload = payload, im_size = n \<rparr>]"
  by (simp_all add: imported_bytes_def imported_infos_def o_def)

text \<open>C39: an archive that one node exports to a client that follows the stream to its end, and
  that another node imports from what the client forwards, is unpacked there only with exactly
  the contents that it has on the first node, for the server it was made of; the first node's copy
  is then removed.\<close>

theorem transferred_archive_identical:
  assumes "fs_read p v = (Ok c, v1)" "Suc (length c) < polls"
    and "export_stream tx sid payload (Some p) n polls v = ((ms, st), v')"
    and "import_path ty = abs_path (b @ [y])" "real_dir (w_root w) b" "w_trace w = []"
    and "\<forall>s. lookup (w_root w) (b @ [y]) \<noteq> Some (Symlink s)"
    and "import_server ty (map forwarded ms) w = (Inr a, w')"
  shows "st = None \<and> v' = snd (io_ignore (fs_remove_file p) v1) \<and>
    (\<exists>r w1 w2. lookup (w_root w1) (b @ [y]) = Some (RegFile c) \<and> (n < 0 \<or> n = int (length c)) \<and>
       import_archive ty \<lparr> im_server_id = sid, im_payload = payload, im_size = n \<rparr> (int (length c)) w1 = (r, w2) \<and>
       a = action_result (tr_text ty) r)"
proof -
  let ?ps = "read_pieces (tr_reads tx) EXPORT_BUFFER 0 c"
  have "\<not> polls - 1 \<le> length ?ps" "polls \<noteq> 0" "polls - 1 \<noteq> 0"
    using read_pieces_count [of "tr_reads tx" EXPORT_BUFFER 0 c] assms(2) by linarith+
  then have e: "ms = ExportInfo sid n payload # map ExportChunk ?ps" "st = None" "v' = snd (io_ignore (fs_remove_file p) v1)"
    using assms(1,3) by (simp_all add: export_stream_def stream_file_def Let_def)
  have "imported_bytes (map forwarded ms) = c"
    "imported_infos (map forwarded ms) = [\<lparr> im_server_id = sid, im_payload = payload, im_size = n \<rparr>]"
    unfolding e(1) forwarded_stream by simp_all
  then show ?thesis using import_all_or_nothing [OF assms(4-8)] e(2,3) by auto
qed

text \<open>A client that drops the stream before its end leaves the archive on the first node.\<close>

lemma dropped_export_leaves_archive:
  assumes "fs_read p v = (Ok c, v1)" "polls \<le> Suc (length (read_pieces (tr_reads tx) EXPORT_BUFFER 0 c))"
  shows "snd (export_stream tx sid payload (Some p) n polls v) \<in> {v, v1}"
  using assms by (auto simp: export_stream_def stream_file_def Let_def)

subsection \<open>Examples\<close>

definition demo_files :: file_lib where
  "demo_files = \<lparr> fl_files = \<lparr> fx_env = (\<lambda>_. None), fx_inspect = (\<lambda>_. Err (Ext ''docker'')),
       fx_host_programs = bx_host (bare_bx [] []), fx_modified = (\<lambda>_. []), fx_base64_decode = Ok, fx_uuid = ''u'' \<rparr>,
     fl_pack = \<lparr> mp_zip = (\<lambda>_. Ok []), mp_index = (\<lambda>_. None), mp_url = (\<lambda>_. Err (Ext ''url'')),
       mp_get = (\<lambda>_. Err (Ext ''http'')), mp_sha512 = (\<lambda>s. s) \<rparr>,
     fl_temp = [RootDir, Normal ''tmp''], fl_uuid = ''u'', fl_reads = (\<lambda>_. 1), fl_dir_len = 0, fl_io_text = (\<lambda>_. ''io'') \<rparr>"

definition demo_transfer :: transfer_lib where
  "demo_transfer = \<lparr> tr_backup = bare_bx ''a'' [], tr_s3 = \<lparr> s3_client = None, s3_bucket = [], s3_key_prefix = [] \<rparr>,
     tr_uuid = (\<lambda>_. ''u''), tr_backup_id = ''b'', tr_now = ''n'', tr_nonce = [], tr_reads = (\<lambda>_. 1), tr_io_text = (\<lambda>_. ''io'') \<rparr>"

definition demo_tree :: node where
  "demo_tree = Dir [(''tmp'', Dir [(''p'', RegFile ''xy'')])]"

lemma demo_places:
  "temporary_upload demo_files = abs_path ([''tmp''] @ [''agapornis-upload-u''])"
  "import_path demo_transfer = abs_path ([''tmp''] @ [''agapornis-transfer-u.tar.gz''])"
  by code_simp+

lemma demo_world:
  "real_dir (w_root (calm_world demo_tree)) [''tmp'']" "w_trace (calm_world demo_tree) = []"
  "\<forall>s. lookup (w_root (calm_world demo_tree)) ([''tmp''] @ [''agapornis-upload-u'']) \<noteq> Some (Symlink s)"
  "\<forall>s. lookup (w_root (calm_world demo_tree)) ([''tmp''] @ [''agapornis-transfer-u.tar.gz'']) \<noteq> Some (Symlink s)"
  by (auto simp: calm_world_def demo_tree_def real_dir_def prefix_Cons is_dir_at_def)

theorem upload_all_or_nothing_witness:
  "case fst (upload_file demo_files [UploadMetadata ''s'' ''a'', UploadChunk ''x'', UploadChunk ''y''] (calm_world demo_tree)) of
     Inl st \<Rightarrow> True
   | Inr a \<Rightarrow> \<exists>r w1 w2. lookup (w_root w1) [''tmp'', ''agapornis-upload-u''] = Some (RegFile ''xy'') \<and>
       write_from_path (fl_files demo_files) ''s'' ''a'' (temporary_upload demo_files) w1 = (r, w2) \<and>
       a = action_result (fl_text demo_files) r"
proof -
  let ?items = "[UploadMetadata ''s'' ''a'', UploadChunk ''x'', UploadChunk ''y'']"
  obtain ans w' where u: "upload_file demo_files ?items (calm_world demo_tree) = (ans, w')" by (metis surj_pair)
  from upload_all_or_nothing [OF demo_places(1) demo_world(1-3) u] show ?thesis
    unfolding u fst_conv
    by (cases ans) (auto simp: uploaded_targets_def uploaded_bytes_def demo_places)
qed

theorem import_all_or_nothing_witness:
  "case fst (import_server demo_transfer [ImportInfo \<lparr> im_server_id = ''s'', im_payload = 0, im_size = 3 \<rparr>, ImportChunk ''xy'']
      (calm_world demo_tree)) of Inl st \<Rightarrow> True | Inr a \<Rightarrow> False"
proof -
  let ?items = "[ImportInfo \<lparr> im_server_id = ''s'', im_payload = 0, im_size = 3 \<rparr>, ImportChunk ''xy'']"
  obtain ans w' where u: "import_server demo_transfer ?items (calm_world demo_tree) = (ans, w')" by (metis surj_pair)
  from import_all_or_nothing [OF demo_places(2) demo_world(1,2,4) u] show ?thesis
    unfolding u fst_conv by (cases ans) (auto simp: imported_infos_def imported_bytes_def)
qed

theorem refused_import_leaves_file_witness:
  "\<exists>c. lookup (w_root (snd (import_server demo_transfer [ImportChunk ''x''] (calm_world demo_tree))))
     ([''tmp''] @ [''agapornis-transfer-u.tar.gz'']) = Some (RegFile c)"
proof -
  let ?w = "calm_world demo_tree"
  have "fst (import_server demo_transfer [ImportChunk ''x''] ?w) = Inl (invalid_argument ''Metadata must be sent before chunk data.'')"
    "is_ok (fst (fs_write (import_path demo_transfer) [] ?w))"
    by code_simp+
  then show ?thesis
    using refused_import_leaves_file [OF demo_places(2) demo_world(1,2,4), of "[ImportChunk ''x'']"] by (metis prod.collapse)
qed

theorem transferred_archive_identical_witness:
  "case import_server demo_transfer
      (map forwarded (fst (fst (export_stream demo_transfer ''s'' 0 (Some (abs_path [''tmp'', ''p''])) 2 4 (calm_world demo_tree)))))
      (calm_world demo_tree) of
     (Inl st, _) \<Rightarrow> False
   | (Inr a, _) \<Rightarrow> \<exists>r w1 w2. lookup (w_root w1) ([''tmp''] @ [''agapornis-transfer-u.tar.gz'']) = Some (RegFile ''xy'') \<and>
       import_archive demo_transfer \<lparr> im_server_id = ''s'', im_payload = 0, im_size = 2 \<rparr> 2 w1 = (r, w2) \<and>
       a = action_result (tr_text demo_transfer) r"
proof -
  let ?w = "calm_world demo_tree" and ?p = "abs_path [''tmp'', ''p'']"
  obtain ms st v' where e: "export_stream demo_transfer ''s'' 0 (Some ?p) 2 4 ?w = ((ms, st), v')" by (metis surj_pair)
  have r: "fst (fs_read ?p ?w) = Ok ''xy''" by code_simp
  obtain v1 where v1: "fs_read ?p ?w = (Ok ''xy'', v1)" using r by (metis prod.collapse)
  have "read_pieces (tr_reads demo_transfer) EXPORT_BUFFER 0 ''xy'' = [''x'', ''y'']"
    by (simp add: demo_transfer_def EXPORT_BUFFER_def read_pieces.simps)
  then have "ms = [ExportInfo ''s'' 2 0, ExportChunk ''x'', ExportChunk ''y'']"
    using e v1 by (simp add: export_stream_def stream_file_def Let_def)
  moreover have "case fst (import_server demo_transfer
      (map forwarded [ExportInfo ''s'' 2 0, ExportChunk ''x'', ExportChunk ''y'']) ?w) of Inl _ \<Rightarrow> False | Inr _ \<Rightarrow> True"
    by code_simp
  ultimately obtain a w' where i: "import_server demo_transfer (map forwarded ms) ?w = (Inr a, w')"
    by (metis (no_types, lifting) old.sum.simps(5) prod.collapse sumE)
  show ?thesis
    using transferred_archive_identical [OF v1 _ e demo_places(2) demo_world(1,2,4) i] e i by auto
qed

end
