(* ===== verification/Entry.thy ===== *)
theory Entry
  imports Services Transfers
begin

text \<open>
  @main.rs@ and @grpc/services/self_test.rs@: the command line, the self tests, and the loop that
  serves until Ctrl-C and starts over when the certificates change.
\<close>

subsection \<open>The command line\<close>

datatype agent_command = ActivateUpdate | RollbackUpdate | TestBackups | TestConsole | TestDiskCache | Serve

definition command_of :: "string list \<Rightarrow> agent_command" where
  "command_of args =
     (if ''--activate-pending-update'' \<in> set args then ActivateUpdate
      else if ''--rollback-update'' \<in> set args then RollbackUpdate
      else if ''--self-test-backups'' \<in> set args then TestBackups
      else if ''--self-test-console'' \<in> set args then TestConsole
      else if ''--self-test-disk-cache'' \<in> set args then TestDiskCache
      else Serve)"

subsection \<open>Self tests\<close>

definition publish_now :: "string \<Rightarrow> string \<Rightarrow> clock \<Rightarrow> hub \<Rightarrow> hub" where
  "publish_now sid l clk h = (case publish sid l clk h of (h', acts) \<Rightarrow> run_actions acts h')"

definition self_test_console :: "environment \<Rightarrow> clock \<Rightarrow> clock \<Rightarrow> unit res" where
  "self_test_console env clk1 clk2 =
     (let h1 = publish_now ''self-test'' ''first'' clk1 (with_optional_docker env False (protection_default env));
          h2 = publish_now ''self-test'' ''second'' clk2 h1 in
      case subscribe ''self-test'' h2 of
        (h3, Inl e) \<Rightarrow> Err e
      | (h3, Inr ch) \<Rightarrow>
          (case history_snapshot ''self-test'' (hub_history h3) of
             (c, replay, r) \<Rightarrow>
               if replay \<noteq> [''first'', ''second''] then Err (Bail ''console history replay order changed'') else Ok ()))"

definition self_test_disk_cache :: "docker_lib \<Rightarrow> unit dm" where
  "self_test_disk_cache dl a =
     io_bind (disk_cached dl ''self-test'' False) (\<lambda>measured a'.
       if measured \<noteq> (1234, 5678) then (Err (Bail ''disk cache did not return its fresh snapshot''), a')
       else (Ok (), a'\<lparr> ag_disk := (ag_disk a')(''self-test'' := None) \<rparr>))
       (a\<lparr> ag_disk := (ag_disk a)(''self-test'' \<mapsto> DiskReady (dl_now dl (w_requests (ag_world a))) 1234 5678) \<rparr>)"

subsection \<open>The health window of an update\<close>

text \<open>After how many seconds an activated update is committed, if there is one.\<close>

definition health_seconds :: "environment \<Rightarrow> nat" where
  "health_seconds env =
     (case Option.bind (env ''AGAPORNIS_UPDATE_HEALTH_SECONDS'') (parse_unsigned usize_max) of
        Some n \<Rightarrow> if n > 0 then n else 30 | None \<Rightarrow> 30)"

definition schedule_health_commit :: "environment \<Rightarrow> path res \<Rightarrow> world \<Rightarrow> nat option" where
  "schedule_health_commit env current_exe w =
     (let exe = (case current_exe of Inr p \<Rightarrow> p | Inl _ \<Rightarrow> components ''agapornis-agent'') in
      if fs_exists (activation_state_path exe) w then Some (health_seconds env) else None)"

subsection \<open>Serving\<close>

text \<open>
  The watch channel of the certificate manager: the value, and the one its receiver has seen.
  Every signal of @schedule_reload@ advances the value.
\<close>

record reload_channel =
  rc_value :: nat
  rc_seen :: nat

definition reload_signals :: "nat \<Rightarrow> reload_channel \<Rightarrow> reload_channel" where
  "reload_signals k ch = ch\<lparr> rc_value := rc_value ch + k \<rparr>"

text \<open>
  One turn of the loop: loading the certificates, the signals until the value is read, whether
  Ctrl-C wins the wait, the signals while connections drain, and how serving ends.
\<close>

record listen_turn =
  lt_tls :: "unit res"
  lt_before :: nat
  lt_ctrl_c :: bool
  lt_draining :: nat
  lt_serve :: "unit res"

text \<open>@reload.changed()@: at once when the value was not seen yet, else with the next signal.\<close>

definition reload_changed :: "reload_channel \<Rightarrow> reload_channel" where
  "reload_changed ch =
     (let ch' = (if rc_value ch \<noteq> rc_seen ch then ch else reload_signals 1 ch) in ch'\<lparr> rc_seen := rc_value ch' \<rparr>)"

text \<open>Whether the loop goes on.\<close>

definition listen_once :: "listen_turn \<Rightarrow> reload_channel \<Rightarrow> (bool \<times> reload_channel) res" where
  "listen_once t ch =
     res_bind (res_context ''load mTLS certificate bundle'' (lt_tls t)) (\<lambda>_.
     let ch1 = reload_signals (lt_before t) ch;
         current = rc_value ch1;
         ch2 = reload_signals (lt_draining t) (if lt_ctrl_c t then ch1 else reload_changed ch1) in
     res_bind (lt_serve t) (\<lambda>_. Ok (rc_value ch2 \<noteq> current, ch2)))"

text \<open>How often a listener was started, and whether the process has ended.\<close>

datatype listen_end = Listening nat | Stopped nat

fun listen :: "listen_turn list \<Rightarrow> reload_channel \<Rightarrow> nat \<Rightarrow> listen_end res" where
  "listen [] ch n = Ok (Listening n)"
| "listen (t # ts) ch n =
     res_bind (listen_once t ch) (\<lambda>(again, ch'). if again then listen ts ch' (Suc n) else Ok (Stopped (Suc n)))"

definition reload_subscribe :: "nat \<Rightarrow> reload_channel" where
  "reload_subscribe v = \<lparr> rc_value = v, rc_seen = v \<rparr>"

subsection \<open>The process\<close>

text \<open>
  The executable, the encodings of states and settings, names and times, what provisioning asks
  and is told, the start of the components, and a base64 key for the self test.
\<close>

record entry_lib =
  en_env :: environment
  en_exe :: "path res"
  en_enc :: "activation_state \<Rightarrow> string"
  en_dec :: "string \<Rightarrow> activation_state res"
  en_now :: string
  en_stamp :: string
  en_backup :: backup_lib
  en_uuid :: string
  en_nonce :: string
  en_key :: string
  en_docker :: docker_lib
  en_agent :: agent
  en_clock1 :: clock
  en_clock2 :: clock
  en_config_dec :: "string \<Rightarrow> daemon_config res"
  en_provision :: "string \<Rightarrow> string \<Rightarrow> string \<Rightarrow> (string \<Rightarrow> string option) res"
  en_config_enc :: "daemon_config \<Rightarrow> string"
  en_input :: "string list"
  en_state :: "daemon_config \<Rightarrow> unit io"

datatype main_end = Printed activation_outcome | Tested | Served listen_end

definition self_test_backups :: "entry_lib \<Rightarrow> unit io" where
  "self_test_backups en =
     backup_self_test ((en_backup en)\<lparr> bx_env := (bx_env (en_backup en))(''AGAPORNIS_BACKUP_ENCRYPTION_KEY'' \<mapsto> en_key en) \<rparr>)
       (en_uuid en) (en_nonce en)"

definition agent_main :: "entry_lib \<Rightarrow> string list \<Rightarrow> listen_turn list \<Rightarrow> main_end io" where
  "agent_main en args turns =
     (case command_of args of
        ActivateUpdate \<Rightarrow> from_res (en_exe en) (\<lambda>exe.
          io_bind (activate_at (en_enc en) (en_dec en) (en_now en) (en_stamp en) exe) (\<lambda>x. io_return (Printed x)))
      | RollbackUpdate \<Rightarrow> from_res (en_exe en) (\<lambda>exe.
          io_bind (rollback_at (en_dec en) (en_stamp en) exe) (\<lambda>x. io_return (Printed x)))
      | TestBackups \<Rightarrow> then_io (self_test_backups en) (io_return Tested)
      | TestConsole \<Rightarrow> from_res (self_test_console (en_env en) (en_clock1 en) (en_clock2 en)) (\<lambda>_. io_return Tested)
      | TestDiskCache \<Rightarrow> from_res (fst (self_test_disk_cache (en_docker en) (en_agent en))) (\<lambda>_. io_return Tested)
      | Serve \<Rightarrow>
          io_bind (load_or_setup (en_config_dec en) (en_provision en) (en_config_enc en) (en_input en)) (\<lambda>config.
          then_io (en_state en config) (from_res (listen turns (reload_subscribe 0) 0) (\<lambda>e. io_return (Served e)))))"

subsection \<open>What holds\<close>

definition reload_turn :: "nat \<Rightarrow> nat \<Rightarrow> listen_turn" where
  "reload_turn before draining =
     \<lparr> lt_tls = Ok (), lt_before = before, lt_ctrl_c = False, lt_draining = draining, lt_serve = Ok () \<rparr>"

lemma listen_reload:
  "listen_once (reload_turn b d) ch =
    Ok (rc_value ch + b = rc_seen ch \<or> 0 < d,
      \<lparr> rc_value = rc_value ch + b + d + (if rc_value ch + b = rc_seen ch then 1 else 0),
        rc_seen = (if rc_value ch + b = rc_seen ch then rc_value ch + b + 1 else rc_value ch + b) \<rparr>)"
  for ch :: reload_channel
  by (cases ch) (auto simp: listen_once_def reload_turn_def reload_changed_def reload_signals_def Let_def)

lemma listen_reloads: "listen (replicate k (reload_turn 0 0)) (reload_subscribe v) n = Ok (Listening (n + k))"
  by (induction k arbitrary: v n) (simp_all add: listen_reload reload_subscribe_def)

text \<open>C40: certificate changes that come one by one restart the listener however often they come;
  but when another change is signalled while the connections of the old listener drain, the next
  listener stops at once and the process ends, without Ctrl-C.\<close>

theorem second_reload_ends_agent:
  "listen (replicate k (reload_turn 0 0)) (reload_subscribe v) n = Ok (Listening (n + k)) \<and>
   listen (replicate k (reload_turn 0 0) @ [reload_turn 0 (Suc d), reload_turn 0 0]) (reload_subscribe v) n =
     Ok (Stopped (n + k + 2))"
proof -
  have "listen (replicate k (reload_turn 0 0) @ ts) (reload_subscribe v) n = listen ts (reload_subscribe (v + k)) (n + k)" for ts
    by (induction k arbitrary: v n) (simp_all add: listen_reload reload_subscribe_def)
  then show ?thesis by (simp add: listen_reloads) (simp add: listen_reload reload_subscribe_def)
qed

end
