(* ===== verification/Spec2Isabelle.thy ===== *)
theory Spec2Isabelle
  imports Console_Machine Console_Decoder Protection Update Certificate Configuration Files_Safety Process Config_Line Config_Structured Config_Xml Backup_Safety Supervisor Provisioning_Cleanup
    Console_Once Database Metrics Packages Node Services_Safety Modpack_Safety Transfer_Safety Entry
begin

text \<open>
  Verification development for the agapornis agent.
\<close>

end
